(* ===== verification/GoBase.thy ===== *)
theory GoBase
  imports Main "HOL-Library.AList" "HOL-Library.Word"
begin

text \<open>
  The prelude of the development: what every component uses of the Go language and its standard
  library.
  \<^item> time: a \<open>time.Time\<close> is a number of nanoseconds since the Unix epoch, a
    \<open>time.Duration\<close> is a number of nanoseconds; \<open>Time.Sub\<close> saturates at 64 bits as Go's does.
    An operation that reads the clock takes the reading as its argument \<open>now\<close>.
  \<^item> strings: a Go string is its bytes (a \<open>char\<close> is a byte). \<open>strings.ToLower\<close> is modelled on the
    ASCII letters, every other byte is left as it is.
  \<^item> maps: a Go \<open>map\<close> or \<open>sync.Map\<close> is an association list with distinct keys; the list order stands
    for the iteration order of \<open>range\<close>, which Go leaves open.
  \<^item> the interface of a store with expiry times (locale \<open>expiring_store\<close>), which bans, whitelists and
    caches of the components implement.
\<close>

named_theorems go_str "facts on the string operations"
named_theorems map_wf "operations keep the keys of a map distinct"

section \<open>Time and integers\<close>

type_synonym gtime = int
type_synonym duration = int
type_synonym 'v smap = "(string \<times> 'v) list"

definition second :: duration where "second = 1000000000"
definition minute :: duration where "minute = 60 * second"
definition hour :: duration where "hour = 60 * minute"

lemmas dur_defs = second_def minute_def hour_def

text \<open>The zero \<open>time.Time\<close> is January 1, year 1, 00:00 UTC.\<close>

definition zero_time :: gtime where "zero_time = - (62135596800 * 1000000000)"

definition max_i64 :: int where "max_i64 = 9223372036854775807"
definition min_i64 :: int where "min_i64 = - 9223372036854775808"

definition clamp64 :: "int \<Rightarrow> int" where
  "clamp64 x = max min_i64 (min max_i64 x)"

definition wrap64 :: "int \<Rightarrow> int" where
  "wrap64 x = (x + 9223372036854775808) mod 18446744073709551616 - 9223372036854775808"

definition time_sub :: "gtime \<Rightarrow> gtime \<Rightarrow> duration" where
  "time_sub a b = clamp64 (a - b)"

definition time_after :: "gtime \<Rightarrow> gtime \<Rightarrow> bool" where
  "time_after a b \<longleftrightarrow> b < a"

definition is_zero :: "gtime \<Rightarrow> bool" where
  "is_zero t \<longleftrightarrow> t = zero_time"

definition unix_sec :: "gtime \<Rightarrow> int" where
  "unix_sec t = t div 1000000000"

lemma clamp64_id: "min_i64 \<le> x \<Longrightarrow> x \<le> max_i64 \<Longrightarrow> clamp64 x = x"
  by (simp add: clamp64_def)

lemma clamp64_mono: "x \<le> y \<Longrightarrow> clamp64 x \<le> clamp64 y"
  by (auto simp: clamp64_def)

lemma clamp64_gt_iff: "min_i64 \<le> c \<Longrightarrow> c < max_i64 \<Longrightarrow> c < clamp64 x \<longleftrightarrow> c < x"
  by (auto simp: clamp64_def)

lemma clamp64_ge_iff: "min_i64 < c \<Longrightarrow> c \<le> max_i64 \<Longrightarrow> c \<le> clamp64 x \<longleftrightarrow> c \<le> x"
  by (auto simp: clamp64_def)

lemma time_sub_self [simp]: "time_sub t t = 0"
  by (simp add: time_sub_def clamp64_def min_i64_def max_i64_def)

lemma time_sub_nonneg: "b \<le> a \<Longrightarrow> 0 \<le> time_sub a b"
  by (simp add: time_sub_def clamp64_def min_i64_def max_i64_def)

lemma wrap64_id: "min_i64 \<le> x \<Longrightarrow> x \<le> max_i64 \<Longrightarrow> wrap64 x = x"
  by (simp add: wrap64_def min_i64_def max_i64_def)

lemma wrap64_range: "min_i64 \<le> wrap64 x \<and> wrap64 x \<le> max_i64"
proof -
  have "0 \<le> (x + 9223372036854775808) mod 18446744073709551616"
    and "(x + 9223372036854775808) mod 18446744073709551616 < 18446744073709551616"
    by simp_all
  then show ?thesis
    unfolding wrap64_def min_i64_def max_i64_def by linarith
qed

section \<open>Strings\<close>

definition has_prefix :: "string \<Rightarrow> string \<Rightarrow> bool" where
  "has_prefix s p \<longleftrightarrow> take (length p) s = p"

definition has_suffix :: "string \<Rightarrow> string \<Rightarrow> bool" where
  "has_suffix s p \<longleftrightarrow> length p \<le> length s \<and> drop (length s - length p) s = p"

fun str_contains :: "string \<Rightarrow> string \<Rightarrow> bool" where
  "str_contains [] p = (p = [])"
| "str_contains (c # s) p = (has_prefix (c # s) p \<or> str_contains s p)"

definition lower_char :: "char \<Rightarrow> char" where
  "lower_char c =
     (let n = (of_char c :: nat) in if 65 \<le> n \<and> n \<le> 90 then char_of (n + 32) else c)"

definition to_lower :: "string \<Rightarrow> string" where
  "to_lower s = map lower_char s"

text \<open>\<open>strings.EqualFold\<close>, on ASCII letters.\<close>

definition equal_fold :: "string \<Rightarrow> string \<Rightarrow> bool" where
  "equal_fold s t \<longleftrightarrow> to_lower s = to_lower t"

fun str_index :: "string \<Rightarrow> char \<Rightarrow> nat option" where
  "str_index [] c = None"
| "str_index (x # s) c = (if x = c then Some 0 else map_option Suc (str_index s c))"

fun str_last_index :: "string \<Rightarrow> char \<Rightarrow> nat option" where
  "str_last_index [] c = None"
| "str_last_index (x # s) c =
     (case str_last_index s c of
        Some i \<Rightarrow> Some (Suc i)
      | None \<Rightarrow> (if x = c then Some 0 else None))"

text \<open>\<open>strings.SplitN(s, c, 2)\<close> for a separator of one character.\<close>

definition splitn2 :: "string \<Rightarrow> char \<Rightarrow> string list" where
  "splitn2 s c =
     (case str_index s c of None \<Rightarrow> [s] | Some i \<Rightarrow> [take i s, drop (Suc i) s])"

text \<open>\<open>strings.Split\<close> at a separator of one character.\<close>

fun split_char :: "char \<Rightarrow> string \<Rightarrow> string list" where
  "split_char c [] = [[]]"
| "split_char c (x # s) =
     (if x = c then [] # split_char c s
      else case split_char c s of [] \<Rightarrow> [[x]] | f # fs \<Rightarrow> (x # f) # fs)"

text \<open>\<open>strings.TrimSpace\<close> and \<open>strings.Fields\<close>, on the ASCII white space.\<close>

definition is_space :: "char \<Rightarrow> bool" where
  "is_space c \<longleftrightarrow> (of_char c :: nat) \<in> {9, 10, 11, 12, 13, 32}"

definition trim_space :: "string \<Rightarrow> string" where
  "trim_space s = rev (dropWhile is_space (rev (dropWhile is_space s)))"

fun space_split :: "string \<Rightarrow> string list" where
  "space_split [] = [[]]"
| "space_split (x # s) =
     (if is_space x then [] # space_split s
      else case space_split s of [] \<Rightarrow> [[x]] | f # fs \<Rightarrow> (x # f) # fs)"

definition str_fields :: "string \<Rightarrow> string list" where
  "str_fields s = filter (\<lambda>f. f \<noteq> []) (space_split s)"

fun join :: "string \<Rightarrow> string list \<Rightarrow> string" where
  "join sep [] = []"
| "join sep [x] = x"
| "join sep (x # y # zs) = x @ sep @ join sep (y # zs)"

lemma has_prefix_iff: "has_prefix s p \<longleftrightarrow> (\<exists>r. s = p @ r)"
  by (metis has_prefix_def append_take_drop_id append_eq_conv_conj)

lemma has_suffix_iff: "has_suffix s p \<longleftrightarrow> (\<exists>r. s = r @ p)"
proof
  assume "has_suffix s p"
  then have "s = take (length s - length p) s @ p"
    by (metis has_suffix_def append_take_drop_id)
  then show "\<exists>r. s = r @ p" by blast
qed (auto simp: has_suffix_def)

lemma has_prefix_Nil [simp]: "has_prefix s []"
  by (simp add: has_prefix_def)

lemma has_prefix_refl [simp]: "has_prefix (p @ r) p"
  by (simp add: has_prefix_def)

lemma str_contains_iff: "str_contains s p \<longleftrightarrow> (\<exists>a b. s = a @ p @ b)"
proof (induction s)
  case Nil
  then show ?case by auto
next
  case (Cons c s)
  have "(\<exists>a b. c # s = a @ p @ b) \<longleftrightarrow> (\<exists>b. c # s = p @ b) \<or> (\<exists>a b. s = a @ p @ b)"
    by (metis append_Cons append_Nil list.sel(3) neq_Nil_conv)
  then show ?case
    using Cons.IH by (simp add: has_prefix_iff)
qed

lemma lower_char_idem [simp]: "lower_char (lower_char c) = lower_char c"
proof -
  have "of_char c + 32 < (256::nat)" if "of_char c \<le> (90::nat)"
    using that by simp
  then show ?thesis
    by (auto simp: lower_char_def Let_def)
qed

lemma to_lower_idem [simp, go_str]: "to_lower (to_lower s) = to_lower s"
  by (simp add: to_lower_def)

lemma length_to_lower [simp, go_str]: "length (to_lower s) = length s"
  by (simp add: to_lower_def)

lemma to_lower_append [go_str]: "to_lower (a @ b) = to_lower a @ to_lower b"
  by (simp add: to_lower_def)

lemma to_lower_Nil_iff [simp, go_str]: "to_lower s = [] \<longleftrightarrow> s = []"
  by (simp add: to_lower_def)

lemma str_index_None: "str_index s c = None \<longleftrightarrow> c \<notin> set s"
  by (induction s) auto

lemma str_index_append:
  "c \<notin> set a \<Longrightarrow> str_index (a @ c # b) c = Some (length a)"
  by (induction a) auto

lemma splitn2_append [go_str]: "c \<notin> set a \<Longrightarrow> splitn2 (a @ c # b) c = [a, b]"
  by (simp add: splitn2_def str_index_append)

lemma splitn2_none [go_str]: "c \<notin> set a \<Longrightarrow> splitn2 a c = [a]"
  using str_index_None [of a c] by (simp add: splitn2_def)

section \<open>Decimal numbers\<close>

definition digit_char :: "nat \<Rightarrow> char" where
  "digit_char d = char_of (48 + d)"

fun show_nat :: "nat \<Rightarrow> string" where
  "show_nat n = (if n < 10 then [digit_char n] else show_nat (n div 10) @ [digit_char (n mod 10)])"

declare show_nat.simps [simp del]

text \<open>\<open>strconv.Itoa\<close> and \<open>fmt.Sprintf("%d", n)\<close>.\<close>

definition itoa :: "int \<Rightarrow> string" where
  "itoa n = (if n < 0 then CHR ''-'' # show_nat (nat (- n)) else show_nat (nat n))"

definition digit_val :: "char \<Rightarrow> nat option" where
  "digit_val c =
     (let n = (of_char c :: nat) in if 48 \<le> n \<and> n \<le> 57 then Some (n - 48) else None)"

fun digits_val :: "nat \<Rightarrow> string \<Rightarrow> nat option" where
  "digits_val acc [] = Some acc"
| "digits_val acc (c # s) =
     (case digit_val c of None \<Rightarrow> None | Some d \<Rightarrow> digits_val (10 * acc + d) s)"

text \<open>
  \<open>strconv.ParseInt(s, 10, 64)\<close>: the value and whether an error was returned. A syntax error
  returns 0, a range error the nearest 64-bit value.
\<close>

definition parse_int :: "string \<Rightarrow> int \<times> bool" where
  "parse_int s =
     (let neg = has_prefix s ''-'';
          body = (if neg \<or> has_prefix s ''+'' then tl s else s)
      in if body = [] then (0, True)
         else case digits_val 0 body of
                None \<Rightarrow> (0, True)
              | Some n \<Rightarrow>
                  (let v = (if neg then - int n else int n)
                   in if v < min_i64 then (min_i64, True)
                      else if max_i64 < v then (max_i64, True) else (v, False)))"

lemma digits_val_append:
  "digits_val acc (a @ b) =
     (case digits_val acc a of None \<Rightarrow> None | Some m \<Rightarrow> digits_val m b)"
  by (induction a arbitrary: acc) (auto split: option.splits)

lemma digit_val_char: "d < 10 \<Longrightarrow> digit_val (digit_char d) = Some d"
  by (simp add: digit_val_def digit_char_def Let_def)

lemma digits_val_show_nat: "digits_val 0 (show_nat n) = Some n"
proof (induction n rule: show_nat.induct)
  case (1 n)
  then show ?case
    by (subst show_nat.simps)
      (auto simp: digits_val_append digit_val_char)
qed

lemma show_nat_nonempty [simp]: "show_nat n \<noteq> []"
  by (subst show_nat.simps) simp

lemma digit_char_is: "d < 10 \<Longrightarrow> of_char (digit_char d) = 48 + d"
  by (simp add: digit_char_def)

lemma show_nat_chars: "c \<in> set (show_nat n) \<Longrightarrow> 48 \<le> (of_char c :: nat) \<and> (of_char c :: nat) \<le> 57"
proof (induction n rule: show_nat.induct)
  case (1 n)
  show ?case
  proof (cases "n < 10")
    case True
    with "1.prems" show ?thesis
      by (subst (asm) show_nat.simps) (simp add: digit_char_is)
  next
    case False
    have "n mod 10 < 10" by simp
    from False "1.prems" consider "c \<in> set (show_nat (n div 10))" | "c = digit_char (n mod 10)"
      by (subst (asm) show_nat.simps) auto
    then show ?thesis
      using "1.IH" [OF False] digit_char_is [OF \<open>n mod 10 < 10\<close>] \<open>n mod 10 < 10\<close>
      by cases (auto simp del: mod_less_divisor)
  qed
qed

lemma show_nat_head: "\<not> has_prefix (show_nat n) ''-'' \<and> \<not> has_prefix (show_nat n) ''+''"
proof -
  obtain c r where s: "show_nat n = c # r"
    using show_nat_nonempty by (metis neq_Nil_conv)
  then have "48 \<le> (of_char c :: nat)"
    using show_nat_chars [of c n] by simp
  then have "c \<noteq> CHR ''-''" "c \<noteq> CHR ''+''" by auto
  with s show ?thesis by (simp add: has_prefix_def)
qed

lemma itoa_not_char: "c \<in> set (itoa n) \<Longrightarrow> c = CHR ''-'' \<or> (48 \<le> (of_char c :: nat) \<and> (of_char c :: nat) \<le> 57)"
  using show_nat_chars by (auto simp: itoa_def split: if_splits)

lemma parse_int_itoa:
  assumes "min_i64 \<le> n" and "n \<le> max_i64"
  shows "parse_int (itoa n) = (n, False)"
proof (cases "n < 0")
  case True
  then show ?thesis
    using assms by (auto simp: parse_int_def itoa_def has_prefix_def digits_val_show_nat Let_def)
next
  case False
  then show ?thesis
    using assms show_nat_head [of "nat n"]
    by (auto simp: parse_int_def itoa_def digits_val_show_nat Let_def)
qed

section \<open>Maps\<close>

definition m_keep :: "('k \<Rightarrow> 'v \<Rightarrow> bool) \<Rightarrow> ('k \<times> 'v) list \<Rightarrow> ('k \<times> 'v) list" where
  "m_keep P m = filter (\<lambda>(k, v). P k v) m"

definition m_ok :: "('k \<times> 'v) list \<Rightarrow> bool" where
  "m_ok m \<longleftrightarrow> distinct (map fst m)"

text \<open>\<open>m[k]++\<close> on a map of counters: a missing key counts from zero.\<close>

definition m_incr :: "'k \<Rightarrow> ('k \<times> int) list \<Rightarrow> ('k \<times> int) list" where
  "m_incr k m = AList.update k (case map_of m k of None \<Rightarrow> 1 | Some n \<Rightarrow> n + 1) m"

lemma m_ok_Nil [simp, map_wf]: "m_ok []"
  by (simp add: m_ok_def)

lemma m_ok_update [simp, map_wf]: "m_ok m \<Longrightarrow> m_ok (AList.update k v m)"
  by (simp add: m_ok_def distinct_update)

lemma m_ok_delete [simp, map_wf]: "m_ok m \<Longrightarrow> m_ok (AList.delete k m)"
  by (simp add: m_ok_def distinct_delete)

lemma m_ok_keep [simp, map_wf]: "m_ok m \<Longrightarrow> m_ok (m_keep P m)"
  by (induction m) (auto simp: m_ok_def m_keep_def image_iff)

lemma m_ok_incr [simp, map_wf]: "m_ok m \<Longrightarrow> m_ok (m_incr k m)"
  by (simp add: m_incr_def)

lemma map_of_m_keep:
  "m_ok m \<Longrightarrow>
   map_of (m_keep P m) k = (case map_of m k of None \<Rightarrow> None | Some v \<Rightarrow> if P k v then Some v else None)"
proof (induction m)
  case (Cons a m)
  then show ?case
    by (cases a) (force simp: m_ok_def m_keep_def split: option.splits dest: map_of_SomeD)
qed (simp add: m_keep_def)

lemma map_of_delete' [simp]: "map_of (AList.delete k m) k' = (if k' = k then None else map_of m k')"
  by (simp add: delete_conv')

lemma map_of_update' [simp]: "map_of (AList.update k v m) k' = (if k' = k then Some v else map_of m k')"
  by (simp add: update_conv')

lemma length_update_new: "map_of m k = None \<Longrightarrow> length (AList.update k v m) = Suc (length m)"
  by (induction m) (auto split: if_splits)

lemma length_update_old: "map_of m k = Some w \<Longrightarrow> length (AList.update k v m) = length m"
  by (induction m) (auto split: if_splits)

lemma length_delete_in: "m_ok m \<Longrightarrow> map_of m k = Some v \<Longrightarrow> Suc (length (AList.delete k m)) = length m"
proof (induction m)
  case (Cons a m)
  have "AList.delete k m = m" if "k \<notin> fst ` set m"
    using that by (simp add: delete_idem)
  with Cons show ?case
    by (cases a) (auto simp: m_ok_def)
qed simp

section \<open>The interface of a store with expiry times\<close>

text \<open>
  \<open>deadline s k\<close> is the moment until which \<open>k\<close> is stored in \<open>s\<close>. A lookup at time \<open>now\<close> may drop an expired
  key, a sweep drops every expired key; neither may drop or alter a live one.
\<close>

locale expiring_store =
  fixes deadline :: "'s \<Rightarrow> 'k \<Rightarrow> int option"
    and ok :: "'s \<Rightarrow> bool"
    and put :: "'k \<Rightarrow> int \<Rightarrow> 's \<Rightarrow> 's"
    and look :: "int \<Rightarrow> 'k \<Rightarrow> 's \<Rightarrow> bool \<times> 's"
    and sweep :: "int \<Rightarrow> 's \<Rightarrow> 's"
  assumes deadline_put: "ok s \<Longrightarrow> deadline (put k e s) k' = (if k' = k then Some e else deadline s k')"
    and look_live: "ok s \<Longrightarrow> fst (look now k s) \<longleftrightarrow> (\<exists>e. deadline s k = Some e \<and> now \<le> e)"
    and deadline_look: "ok s \<Longrightarrow> deadline (snd (look now k s)) k' =
      (if k' = k \<and> (\<exists>e. deadline s k = Some e \<and> e < now) then None else deadline s k')"
    and deadline_sweep: "ok s \<Longrightarrow> deadline (sweep now s) k =
      (case deadline s k of None \<Rightarrow> None | Some e \<Rightarrow> if e < now then None else Some e)"
    and ok_put: "ok s \<Longrightarrow> ok (put k e s)"
    and ok_look: "ok s \<Longrightarrow> ok (snd (look now k s))"
    and ok_sweep: "ok s \<Longrightarrow> ok (sweep now s)"
begin

lemma put_look: "ok s \<Longrightarrow> now \<le> e \<Longrightarrow> fst (look now k (put k e s))"
  by (simp add: look_live ok_put deadline_put)

lemma put_look_expired: "ok s \<Longrightarrow> e < now \<Longrightarrow> \<not> fst (look now k (put k e s))"
  by (simp add: look_live ok_put deadline_put)

lemma put_look_other: "ok s \<Longrightarrow> k' \<noteq> k \<Longrightarrow> fst (look now k' (put k e s)) = fst (look now k' s)"
  by (simp add: look_live ok_put deadline_put)

lemma look_look: "ok s \<Longrightarrow> t \<le> u \<Longrightarrow> fst (look u k' (snd (look t k s))) = fst (look u k' s)"
  by (auto simp: look_live ok_look deadline_look)

lemma sweep_look: "ok s \<Longrightarrow> t \<le> u \<Longrightarrow> fst (look u k (sweep t s)) = fst (look u k s)"
  by (auto simp: look_live ok_sweep deadline_sweep split: option.splits if_splits)

lemma expired_stays: "ok s \<Longrightarrow> t \<le> u \<Longrightarrow> \<not> fst (look t k s) \<Longrightarrow> \<not> fst (look u k s)"
  by (auto simp: look_live)

lemma sweep_live: "ok s \<Longrightarrow> deadline (sweep now s) k = Some e \<Longrightarrow> now \<le> e"
  by (auto simp: deadline_sweep split: option.splits if_splits)

end

end
