(* ===== verification/GoFloat.thy ===== *)
theory GoFloat
  imports GoBase Complex_Main
begin

text \<open>
  Go's \<open>float64\<close>. A finite value is a rational; every operation rounds its exact result to the
  nearest number of 53 significant bits, ties to even (\<open>fl64\<close>), as IEEE 754 and gc on amd64 do.
  Overflow, subnormal numbers and the payload of NaN are not modelled; where the code can divide by
  zero the operation returns an \<open>xf64\<close>, which has the infinities and NaN. The locale \<open>rounding\<close> is
  what the bounds of the components use of \<open>fl64\<close>.
\<close>

section \<open>Rounding to 53 bits\<close>

function blen :: "int \<Rightarrow> int" where
  "blen n = (if n \<le> 0 then 0 else 1 + blen (n div 2))"
  by pat_completeness auto
termination
  by (relation "measure nat") auto

declare blen.simps [simp del]

definition expo :: "rat \<Rightarrow> int" where
  "expo x =
     (let (p, q) = quotient_of x; k = blen p - blen q
      in if 2 powi k \<le> x then k else k - 1)"

definition round_even :: "rat \<Rightarrow> int" where
  "round_even y =
     (let f = \<lfloor>y\<rfloor>; r = y - of_int f
      in if r < 1/2 then f else if 1/2 < r then f + 1 else if even f then f else f + 1)"

definition ulp :: "rat \<Rightarrow> rat" where
  "ulp x = 2 powi (expo \<bar>x\<bar> - 52)"

definition fl64 :: "rat \<Rightarrow> rat" where
  "fl64 x = (if x = 0 then 0 else of_int (round_even (x / ulp x)) * ulp x)"

definition fadd :: "rat \<Rightarrow> rat \<Rightarrow> rat" where "fadd a b = fl64 (a + b)"
definition fsub :: "rat \<Rightarrow> rat \<Rightarrow> rat" where "fsub a b = fl64 (a - b)"
definition fmul :: "rat \<Rightarrow> rat \<Rightarrow> rat" where "fmul a b = fl64 (a * b)"
definition fdiv :: "rat \<Rightarrow> rat \<Rightarrow> rat" where "fdiv a b = fl64 (a / b)"

text \<open>The conversion \<open>float64(n)\<close> of an integer.\<close>

definition f_of_int :: "int \<Rightarrow> rat" where "f_of_int n = fl64 (of_int n)"

text \<open>The conversion \<open>int64(x)\<close> truncates toward zero.\<close>

definition f_to_int :: "rat \<Rightarrow> int" where
  "f_to_int x = (if x < 0 then - \<lfloor>- x\<rfloor> else \<lfloor>x\<rfloor>)"

definition trunc_div :: "int \<Rightarrow> int \<Rightarrow> int" where
  "trunc_div a b = sgn a * sgn b * (\<bar>a\<bar> div \<bar>b\<bar>)"

text \<open>\<open>Duration.Seconds\<close>: the whole seconds and the rest are converted and added.\<close>

definition seconds :: "duration \<Rightarrow> rat" where
  "seconds d =
     (let s = trunc_div d 1000000000; ns = d - s * 1000000000
      in fadd (f_of_int s) (fdiv (f_of_int ns) 1000000000))"

datatype xf64 = Fin rat | PosInf | NegInf | NaN

definition xdiv :: "rat \<Rightarrow> rat \<Rightarrow> xf64" where
  "xdiv a b =
     (if b \<noteq> 0 then Fin (fdiv a b)
      else if a = 0 then NaN else if 0 < a then PosInf else NegInf)"

text \<open>\<open>x > y\<close> and \<open>x * c\<close> for a positive finite \<open>c\<close>, on extended values: NaN compares false.\<close>

fun xgt :: "xf64 \<Rightarrow> xf64 \<Rightarrow> bool" where
  "xgt NaN y = False"
| "xgt x NaN = False"
| "xgt (Fin a) (Fin b) = (b < a)"
| "xgt PosInf y = (y \<noteq> PosInf)"
| "xgt NegInf y = False"
| "xgt (Fin a) PosInf = False"
| "xgt (Fin a) NegInf = True"

fun xscale :: "rat \<Rightarrow> xf64 \<Rightarrow> xf64" where
  "xscale c (Fin a) = Fin (fmul c a)"
| "xscale c PosInf = PosInf"
| "xscale c NegInf = NegInf"
| "xscale c NaN = NaN"

section \<open>Facts on the rounding\<close>

lemma powi_pos [simp]: "(0::rat) < 2 powi k"
  by (simp add: zero_less_power_int)

lemma powi_mono: "a < b \<Longrightarrow> (2::rat) powi a < 2 powi b"
  by (rule power_int_strict_increasing) simp_all

lemma powi_less_iff: "(2::rat) powi a < 2 powi b \<longleftrightarrow> a < b"
  using powi_mono [of a b] powi_mono [of b a] by (cases a b rule: linorder_cases) auto

lemma powi_le_iff: "(2::rat) powi a \<le> 2 powi b \<longleftrightarrow> a \<le> b"
  using powi_less_iff [of b a] by (simp add: not_less [symmetric])

lemma powi_add: "(2::rat) powi (a + b) = 2 powi a * 2 powi b"
  by (simp add: power_int_add)

lemma blen_bounds: "0 < n \<Longrightarrow> 2 powi (blen n - 1) \<le> (of_int n :: rat) \<and> of_int n < (2::rat) powi blen n"
proof (induction n rule: blen.induct)
  case (1 n)
  have step: "blen n = 1 + blen (n div 2)"
    using "1.prems" by (simp add: blen.simps [of n])
  show ?case
  proof (cases "n = 1")
    case True
    then show ?thesis by (simp add: blen.simps)
  next
    case False
    define m where "m = n div 2"
    have m: "2 * m \<le> n" "n < 2 * m + 2" using "1.prems" by (auto simp: m_def)
    have ih: "2 powi (blen m - 1) \<le> (of_int m :: rat)" "of_int m < (2::rat) powi blen m"
      using "1.IH" "1.prems" False by (auto simp: m_def)
    have "0 \<le> blen m" by (induction m rule: blen.induct) (subst blen.simps, auto)
    then have "(of_int m :: rat) < of_int (2 ^ nat (blen m))"
      using ih(2) by (simp add: power_int_def)
    then have "m + 1 \<le> 2 ^ nat (blen m)" by (simp only: of_int_less_iff)
    then have "(of_int (m + 1) :: rat) \<le> of_int (2 ^ nat (blen m))" by (simp only: of_int_le_iff)
    then have up: "of_int (m + 1) \<le> (2::rat) powi blen m"
      using \<open>0 \<le> blen m\<close> by (simp add: power_int_def)
    have "of_int (2 * m) \<le> (of_int n :: rat)" "(of_int n :: rat) < of_int (2 * (m + 1))"
      using m by (simp_all only: of_int_le_iff of_int_less_iff distrib_left mult_1_right)
    then have "2 * of_int m \<le> (of_int n :: rat)" "(of_int n :: rat) < 2 * of_int (m + 1)"
      by simp_all
    moreover have "(2::rat) powi blen m = 2 * 2 powi (blen m - 1)"
      "(2::rat) powi (1 + blen m) = 2 * 2 powi blen m"
      using powi_add [of "blen m - 1" 1] powi_add [of 1 "blen m"] by simp_all
    ultimately show ?thesis
      using ih(1) up by (simp add: step flip: m_def)
  qed
qed

lemma expo_bounds:
  assumes "0 < x"
  shows "2 powi expo x \<le> x \<and> x < 2 powi (expo x + 1)"
proof -
  obtain p q where pq: "quotient_of x = (p, q)" by fastforce
  have q: "0 < q" using pq by (rule quotient_of_denom_pos)
  have x: "x = of_int p / of_int q" using pq by (rule quotient_of_div)
  have p: "0 < p" using assms x q by (simp add: zero_less_divide_iff)
  define a b where "a = blen p" and "b = blen q"
  have A': "(2::rat) powi (a - 1) \<le> of_int p" "of_int p < (2::rat) powi a"
    using blen_bounds [of p] p by (simp_all add: a_def)
  have B': "(2::rat) powi (b - 1) \<le> of_int q" "of_int q < (2::rat) powi b"
    using blen_bounds [of q] q by (simp_all add: b_def)
  define k where "k = a - b"
  have qq: "(0::rat) < of_int q" using q by simp
  have up: "x < 2 powi (k + 1)"
  proof -
    have "x * of_int q = of_int p" using x q by simp
    also have "of_int p < (2::rat) powi (k + 1) * 2 powi (b - 1)"
      using A'(2) unfolding powi_add [symmetric] k_def by simp
    also have "\<dots> \<le> 2 powi (k + 1) * of_int q"
      using B'(1) by (intro mult_left_mono) auto
    finally show ?thesis using qq by simp
  qed
  have lo: "2 powi (k - 1) < x"
  proof -
    have "(2::rat) powi (k - 1) * of_int q < 2 powi (k - 1) * 2 powi b"
      using B'(2) by (intro mult_strict_left_mono) auto
    also have "\<dots> = 2 powi (a - 1)"
      unfolding powi_add [symmetric] k_def by simp
    also have "\<dots> \<le> x * of_int q" using A'(1) x q by simp
    finally show ?thesis using qq by simp
  qed
  have "expo x = (if 2 powi k \<le> x then k else k - 1)"
    by (simp add: expo_def pq k_def a_def b_def)
  then show ?thesis using up lo by (auto simp: less_imp_le)
qed

lemma expo_unique:
  assumes "0 < x" and "2 powi e \<le> x" and "x < 2 powi (e + 1)"
  shows "expo x = e"
proof -
  have "(2::rat) powi e < 2 powi (expo x + 1)" "(2::rat) powi expo x < 2 powi (e + 1)"
    using expo_bounds [OF assms(1)] assms by linarith+
  then show ?thesis by (simp add: powi_less_iff)
qed

lemma expo_mono: "0 < x \<Longrightarrow> x \<le> y \<Longrightarrow> expo x \<le> expo y"
proof -
  assume a: "0 < x" "x \<le> y"
  then have "(2::rat) powi expo x < 2 powi (expo y + 1)"
    using expo_bounds [of x] expo_bounds [of y] by linarith
  then show ?thesis by (simp add: powi_less_iff)
qed

lemma round_even_near: "y - 1/2 \<le> of_int (round_even y) \<and> of_int (round_even y) \<le> y + 1/2"
  unfolding round_even_def Let_def by (auto; linarith)

lemma round_even_of_int [simp]: "round_even (of_int n) = n"
  by (simp add: round_even_def)

lemma round_even_mono:
  assumes "x \<le> y"
  shows "round_even x \<le> round_even y"
proof -
  have f: "\<lfloor>x\<rfloor> \<le> \<lfloor>y\<rfloor>" using assms by (rule floor_mono)
  have rx: "\<lfloor>x\<rfloor> \<le> round_even x \<and> round_even x \<le> \<lfloor>x\<rfloor> + 1"
    and ry: "\<lfloor>y\<rfloor> \<le> round_even y \<and> round_even y \<le> \<lfloor>y\<rfloor> + 1"
    by (auto simp: round_even_def Let_def)
  show ?thesis
  proof (cases "\<lfloor>x\<rfloor> = \<lfloor>y\<rfloor>")
    case True
    then show ?thesis using assms by (auto simp: round_even_def Let_def)
  next
    case False
    with f rx ry show ?thesis by linarith
  qed
qed

lemma round_even_minus: "round_even (- y) = - round_even y"
proof (cases "y = of_int \<lfloor>y\<rfloor>")
  case True
  then show ?thesis by (metis of_int_minus round_even_of_int)
next
  case False
  then have "\<lfloor>- y\<rfloor> = - \<lfloor>y\<rfloor> - 1"
    by linarith
  then show ?thesis
    by (auto simp: round_even_def Let_def)
qed

lemma ulp_pos [simp]: "0 < ulp x"
  by (simp add: ulp_def)

lemma fl64_0 [simp]: "fl64 0 = 0"
  by (simp add: fl64_def)

lemma fl64_minus: "fl64 (- x) = - fl64 x"
  by (simp add: fl64_def ulp_def round_even_minus)

text \<open>A positive number is rounded inside its binade.\<close>

lemma fl64_binade:
  assumes "0 < x"
  shows "2 powi expo x \<le> fl64 x \<and> fl64 x \<le> 2 powi (expo x + 1)"
proof -
  define e where "e = expo x"
  have u: "ulp x = 2 powi (e - 52)" using assms by (simp add: ulp_def e_def)
  have lo: "of_int (2 ^ 52) \<le> x / ulp x" and hi: "x / ulp x \<le> of_int (2 ^ 53)"
    using expo_bounds [OF assms] powi_add [of "e - 52" 52] powi_add [of "e - 52" 53]
    by (simp_all add: u e_def field_simps)
  have "2 ^ 52 \<le> round_even (x / ulp x)" "round_even (x / ulp x) \<le> 2 ^ 53"
    using round_even_mono [OF lo] round_even_mono [OF hi] unfolding round_even_of_int by simp_all
  then have "(2 ^ 52 :: rat) \<le> of_int (round_even (x / ulp x))"
    "of_int (round_even (x / ulp x)) \<le> (2 ^ 53 :: rat)"
    by (metis of_int_le_iff of_int_numeral of_int_power)+
  then have "2 ^ 52 * ulp x \<le> fl64 x" "fl64 x \<le> 2 ^ 53 * ulp x"
    using assms by (simp_all add: fl64_def)
  moreover have "2 ^ 52 * ulp x = 2 powi e" "2 ^ 53 * ulp x = 2 powi (e + 1)"
    using powi_add [of "e - 52" 52] powi_add [of "e - 52" 53] by (simp_all add: u ac_simps)
  ultimately show ?thesis by (simp add: e_def)
qed

lemma fl64_mono_pos:
  assumes "0 < x" and "x \<le> y"
  shows "fl64 x \<le> fl64 y"
proof (cases "expo x = expo y")
  case True
  then have "ulp x = ulp y" using assms by (simp add: ulp_def)
  moreover have "x / ulp y \<le> y / ulp y" using assms by (simp add: divide_right_mono less_imp_le)
  ultimately show ?thesis
    using assms by (simp add: fl64_def round_even_mono mult_right_mono less_imp_le)
next
  case False
  then have "expo x + 1 \<le> expo y" using expo_mono [OF assms] by simp
  then have "(2::rat) powi (expo x + 1) \<le> 2 powi expo y" by (simp only: powi_le_iff)
  then show ?thesis
    using fl64_binade [of x] fl64_binade [of y] assms by linarith
qed

lemma fl64_pos: "0 < x \<Longrightarrow> 0 < fl64 x"
  using fl64_binade [of x] powi_pos [of "expo x"] by linarith

lemma fl64_mono: "x \<le> y \<Longrightarrow> fl64 x \<le> fl64 y"
proof -
  assume a: "x \<le> y"
  consider "0 < x" | "x \<le> 0" "0 \<le> y" | "y < 0" by linarith
  then show ?thesis
  proof cases
    case 1
    then show ?thesis using a by (rule fl64_mono_pos)
  next
    case 2
    have "fl64 x \<le> 0" using fl64_pos [of "- x"] 2 by (cases "x = 0") (auto simp: fl64_minus)
    moreover have "0 \<le> fl64 y" using fl64_pos [of y] 2 by (cases "y = 0") auto
    ultimately show ?thesis by simp
  next
    case 3
    then show ?thesis using fl64_mono_pos [of "- y" "- x"] a by (simp add: fl64_minus)
  qed
qed

text \<open>The numbers of 53 significant bits, which rounding leaves as they are.\<close>

definition f_rep :: "rat \<Rightarrow> bool" where
  "f_rep x \<longleftrightarrow> (\<exists>m k. \<bar>m\<bar> \<le> 2 ^ 53 \<and> x = of_int m * 2 powi k)"

lemma f_rep_minus: "f_rep x \<Longrightarrow> f_rep (- x)"
  unfolding f_rep_def by (metis abs_minus_cancel minus_mult_left of_int_minus)

lemma fl64_rep_pos:
  assumes "0 < x" and "f_rep x"
  shows "fl64 x = x"
proof -
  from assms(2) obtain m k where m: "\<bar>m\<bar> \<le> 2 ^ 53" and x: "x = of_int m * 2 powi k"
    by (auto simp: f_rep_def)
  define e where "e = expo x"
  have u: "ulp x = 2 powi (e - 52)" using assms by (simp add: ulp_def e_def)
  have mp: "0 < m"
  proof (rule ccontr)
    assume "\<not> 0 < m"
    then have "of_int m * (2::rat) powi k \<le> 0"
      by (intro mult_nonpos_nonneg) (simp_all add: less_imp_le)
    with assms(1) x show False by simp
  qed
  have "\<exists>n. x / ulp x = of_int n"
  proof (cases "e - 52 \<le> k")
    case True
    have "x / ulp x = of_int m * 2 powi (k - (e - 52))"
      unfolding u by (simp add: x power_int_diff)
    also have "\<dots> = of_int (m * 2 ^ nat (k - (e - 52)))"
      using True by (simp add: power_int_def)
    finally show ?thesis by blast
  next
    case False
    have "(of_int m :: rat) \<le> of_int (2 ^ 53)"
      using m mp by (simp only: of_int_le_iff abs_of_pos)
    then have "(of_int m :: rat) \<le> 2 powi 53" by simp
    then have "x \<le> 2 powi 53 * 2 powi k" by (simp only: x) simp
    then have "(2::rat) powi e \<le> 2 powi (53 + k)"
      using expo_bounds [OF assms(1)] unfolding powi_add e_def by (elim conjE) (rule order_trans)
    then have k: "k = e - 53" using False by (simp only: powi_le_iff)
    have "(2::rat) powi e \<le> of_int m * 2 powi (e - 53)"
      using expo_bounds [OF assms(1)] by (simp only: e_def [symmetric] x [symmetric] k [symmetric])
    then have "(2 ^ 53 :: rat) \<le> of_int m"
      using powi_add [of "e - 53" 53] by (simp add: mult.commute)
    then have "of_int (2 ^ 53) \<le> (of_int m :: rat)" by simp
    then have "2 ^ 53 \<le> m" by (simp only: of_int_le_iff)
    then have "m = 2 ^ 53" using m mp by linarith
    have "2 powi (e - 52) = (2::rat) powi (e - 53) * 2"
      using powi_add [of "e - 53" 1] by simp
    then have "x / ulp x = x / (2 powi k * 2)" by (simp only: u k)
    also have "\<dots> = of_int (2 ^ 52)" unfolding x \<open>m = 2 ^ 53\<close> by simp
    finally show ?thesis by blast
  qed
  then obtain n where n: "x / ulp x = of_int n" by blast
  have "fl64 x = of_int n * ulp x" using assms by (simp add: fl64_def n)
  also have "\<dots> = x" by (simp flip: n) (metis less_irrefl ulp_pos)
  finally show ?thesis .
qed

lemma fl64_rep: "f_rep x \<Longrightarrow> fl64 x = x"
  using fl64_rep_pos [of x] fl64_rep_pos [of "- x"] f_rep_minus [of x]
  by (cases x "0::rat" rule: linorder_cases) (auto simp: fl64_minus)

lemma fl64_dyadic: "x * 2 ^ k = of_int m \<Longrightarrow> \<bar>m\<bar> \<le> 2 ^ 53 \<Longrightarrow> fl64 x = x"
proof (rule fl64_rep)
  assume "x * 2 ^ k = of_int m" "\<bar>m\<bar> \<le> 2 ^ 53"
  moreover from this have "x = of_int m * 2 powi (- int k)"
    by (simp add: power_int_minus field_simps)
  ultimately show "f_rep x" by (auto simp: f_rep_def)
qed

lemma fl64_of_int: "\<bar>n\<bar> \<le> 2 ^ 53 \<Longrightarrow> fl64 (of_int n) = of_int n"
  by (rule fl64_dyadic [where k = 0 and m = n]) simp_all

lemma f_of_int_small: "\<bar>n\<bar> \<le> 2 ^ 53 \<Longrightarrow> f_of_int n = of_int n"
  by (simp add: f_of_int_def fl64_of_int)

lemma fl64_numeral [simp]: "numeral w \<le> (2 ^ 53 :: int) \<Longrightarrow> fl64 (numeral w) = numeral w"
  using fl64_of_int [of "numeral w"] by simp

lemma fl64_1 [simp]: "fl64 1 = 1"
  using fl64_of_int [of 1] by simp

lemma f_rep_fl64: "f_rep (fl64 x)"
proof -
  have pos: "f_rep (fl64 y)" if y: "0 < y" for y
  proof -
    have eq: "fl64 y = of_int (round_even (y / ulp y)) * 2 powi (expo y - 52)"
      using y by (simp add: fl64_def ulp_def)
    have "fl64 y \<le> 2 powi (expo y - 52) * 2 ^ 53"
      using fl64_binade [OF y] powi_add [of "expo y - 52" 53] by (simp add: ac_simps)
    then have "of_int (round_even (y / ulp y)) \<le> (2 ^ 53 :: rat)"
      unfolding eq by (simp add: mult.commute)
    moreover have "0 \<le> round_even (y / ulp y)"
      using round_even_mono [of 0 "y / ulp y"] round_even_of_int [of 0] y
      by (simp add: less_imp_le)
    ultimately have "\<bar>round_even (y / ulp y)\<bar> \<le> 2 ^ 53"
      by (simp add: of_int_le_numeral_iff)
    then show ?thesis using eq by (auto simp: f_rep_def)
  qed
  show ?thesis
    using pos [of x] pos [of "- x"] f_rep_minus [of "fl64 (- x)"]
    by (cases x "0::rat" rule: linorder_cases)
      (auto simp: fl64_minus f_rep_def intro: exI [of _ 0])
qed

lemma fl64_idem [simp]: "fl64 (fl64 x) = fl64 x"
  by (rule fl64_rep) (rule f_rep_fl64)

section \<open>The interface the components use\<close>

locale rounding =
  fixes rnd :: "rat \<Rightarrow> rat"
  assumes rnd_mono: "x \<le> y \<Longrightarrow> rnd x \<le> rnd y"
    and rnd_idem: "rnd (rnd x) = rnd x"
    and rnd_int: "\<bar>n\<bar> \<le> 2 ^ 53 \<Longrightarrow> rnd (of_int n) = of_int n"
begin

lemma rnd_zero: "rnd 0 = 0"
  using rnd_int [of 0] by simp

lemma rnd_nonneg: "0 \<le> x \<Longrightarrow> 0 \<le> rnd x"
  using rnd_mono [of 0 x] rnd_zero by simp

lemma rnd_le: "x \<le> c \<Longrightarrow> rnd c = c \<Longrightarrow> rnd x \<le> c"
  using rnd_mono [of x c] by simp

lemma rnd_ge: "c \<le> x \<Longrightarrow> rnd c = c \<Longrightarrow> c \<le> rnd x"
  using rnd_mono [of c x] by simp

lemma rnd_ge_int: "of_int n \<le> x \<Longrightarrow> \<bar>n\<bar> \<le> 2 ^ 53 \<Longrightarrow> of_int n \<le> rnd x"
  using rnd_ge rnd_int by blast

lemma rnd_le_int: "x \<le> of_int n \<Longrightarrow> \<bar>n\<bar> \<le> 2 ^ 53 \<Longrightarrow> rnd x \<le> of_int n"
  using rnd_le rnd_int by blast

text \<open>Adding a nonnegative rounded amount never lowers a float, taking one never raises it.\<close>

lemma rnd_add_ge: "rnd t = t \<Longrightarrow> 0 \<le> d \<Longrightarrow> t \<le> rnd (t + d)"
  by (rule rnd_ge) simp_all

lemma rnd_sub_le: "rnd t = t \<Longrightarrow> 0 \<le> d \<Longrightarrow> rnd (t - d) \<le> t"
  by (rule rnd_le) simp_all

lemma rnd_sub_nonneg: "d \<le> t \<Longrightarrow> 0 \<le> rnd (t - d)"
  by (rule rnd_nonneg) simp

end

interpretation fl: rounding fl64
  by unfold_locales (simp_all add: fl64_mono fl64_of_int)

text \<open>Bounds by a dyadic number, for closed estimates.\<close>

lemma fl64_le_dyadic: "x * 2 ^ k \<le> of_int m \<Longrightarrow> \<bar>m\<bar> \<le> 2 ^ 53 \<Longrightarrow> fl64 x \<le> of_int m / 2 ^ k"
  by (rule fl.rnd_le) (simp add: field_simps, rule fl64_dyadic [where k = k and m = m], simp_all)

lemma fl64_ge_dyadic: "of_int m \<le> x * 2 ^ k \<Longrightarrow> \<bar>m\<bar> \<le> 2 ^ 53 \<Longrightarrow> of_int m / 2 ^ k \<le> fl64 x"
  by (rule fl.rnd_ge) (simp add: field_simps, rule fl64_dyadic [where k = k and m = m], simp_all)

lemma f_of_int_nonneg: "0 \<le> n \<Longrightarrow> 0 \<le> f_of_int n"
  unfolding f_of_int_def by (rule fl.rnd_nonneg) simp

lemma f_of_int_mono: "m \<le> n \<Longrightarrow> f_of_int m \<le> f_of_int n"
  unfolding f_of_int_def by (rule fl64_mono) simp

lemma seconds_nonneg: "0 \<le> d \<Longrightarrow> 0 \<le> seconds d"
proof -
  assume "0 \<le> d"
  then have "0 \<le> trunc_div d 1000000000" "0 \<le> d - trunc_div d 1000000000 * 1000000000"
    by (auto simp: trunc_div_def sgn_if)
  then show ?thesis
    unfolding seconds_def Let_def fadd_def fdiv_def
    by (intro fl.rnd_nonneg add_nonneg_nonneg divide_nonneg_nonneg f_of_int_nonneg) auto
qed

lemma seconds_0 [simp]: "seconds 0 = 0"
  by (simp add: seconds_def trunc_div_def fadd_def fdiv_def f_of_int_def)

end
