(* ===== verification/GoSlice.thy ===== *)
theory GoSlice
  imports GoBase
begin

text \<open>
  Byte slices. A slice sees \<open>g_len\<close> bytes of an array that goes on up to the slice's capacity
  (\<open>g_arr\<close> holds the bytes from the slice's start to its capacity). Reslicing \<open>s[a:b]\<close> may go past
  the length but not past the capacity; indexing may not go past the length. Both panic otherwise, so
  an operation returns a \<open>res\<close>: a value, an error, or a panic.
\<close>

unbundle bit_operations_syntax

type_synonym byte = "8 word"
type_synonym u16 = "16 word"
type_synonym u32 = "32 word"

datatype ('e, 'a) res = Ok 'a | Fail 'e | Panic

primrec rbind :: "('e, 'a) res \<Rightarrow> ('a \<Rightarrow> ('e, 'b) res) \<Rightarrow> ('e, 'b) res" where
  "rbind (Ok x) f = f x"
| "rbind (Fail e) f = Fail e"
| "rbind Panic f = Panic"

record gslice =
  g_arr :: "byte list"
  g_len :: nat

definition g_ok :: "gslice \<Rightarrow> bool" where
  "g_ok s \<longleftrightarrow> g_len s \<le> length (g_arr s)"

definition g_bytes :: "gslice \<Rightarrow> byte list" where
  "g_bytes s = take (g_len s) (g_arr s)"

definition g_of :: "byte list \<Rightarrow> gslice" where
  "g_of bs = \<lparr>g_arr = bs, g_len = length bs\<rparr>"

text \<open>The bytes \<open>bs\<close> at the start of a buffer that goes on with \<open>rest\<close>.\<close>

definition g_view :: "byte list \<Rightarrow> byte list \<Rightarrow> gslice" where
  "g_view bs rest = \<lparr>g_arr = bs @ rest, g_len = length bs\<rparr>"

definition g_index :: "gslice \<Rightarrow> nat \<Rightarrow> ('e, byte) res" where
  "g_index s i = (if i < g_len s then Ok (g_arr s ! i) else Panic)"

definition g_slice :: "gslice \<Rightarrow> nat \<Rightarrow> nat \<Rightarrow> ('e, gslice) res" where
  "g_slice s a b =
     (if a \<le> b \<and> b \<le> length (g_arr s) then Ok \<lparr>g_arr = drop a (g_arr s), g_len = b - a\<rparr> else Panic)"

text \<open>\<open>binary.BigEndian\<close>.\<close>

definition be16 :: "byte \<Rightarrow> byte \<Rightarrow> u16" where
  "be16 a b = push_bit 8 (ucast a) OR ucast b"

definition be24 :: "byte \<Rightarrow> byte \<Rightarrow> byte \<Rightarrow> u32" where
  "be24 a b c = push_bit 16 (ucast a) OR push_bit 8 (ucast b) OR ucast c"

definition be32 :: "byte \<Rightarrow> byte \<Rightarrow> byte \<Rightarrow> byte \<Rightarrow> u32" where
  "be32 a b c d =
     push_bit 24 (ucast a) OR push_bit 16 (ucast b) OR push_bit 8 (ucast c) OR ucast d"

definition enc16 :: "u16 \<Rightarrow> byte list" where
  "enc16 v = [ucast (drop_bit 8 v), ucast v]"

definition enc24 :: "u32 \<Rightarrow> byte list" where
  "enc24 v = [ucast (drop_bit 16 v), ucast (drop_bit 8 v), ucast v]"

definition enc32 :: "u32 \<Rightarrow> byte list" where
  "enc32 v = [ucast (drop_bit 24 v), ucast (drop_bit 16 v), ucast (drop_bit 8 v), ucast v]"

text \<open>\<open>binary.BigEndian.Uint16(s[i:i+2])\<close>.\<close>

definition g_u16 :: "gslice \<Rightarrow> nat \<Rightarrow> ('e, u16) res" where
  "g_u16 s i = rbind (g_slice s i (i + 2)) (\<lambda>t. Ok (be16 (g_arr t ! 0) (g_arr t ! 1)))"

definition bytes_str :: "byte list \<Rightarrow> string" where
  "bytes_str bs = map (\<lambda>b. char_of (unat b)) bs"

definition hex_digit :: "nat \<Rightarrow> char" where
  "hex_digit d = (if d < 10 then char_of (48 + d) else char_of (87 + d))"

text \<open>\<open>fmt.Sprintf("%x", digest)\<close> and \<open>hex.EncodeToString\<close>.\<close>

definition hex :: "byte list \<Rightarrow> string" where
  "hex bs = concat (map (\<lambda>b. [hex_digit (unat b div 16), hex_digit (unat b mod 16)]) bs)"

lemma length_enc [simp]: "length (enc16 v) = 2" "length (enc24 w) = 3" "length (enc32 w) = 4"
  by (simp_all add: enc16_def enc24_def enc32_def)

lemma be16_enc [simp]: "be16 (ucast (drop_bit 8 v)) (ucast v) = v"
  by (rule bit_word_eqI) (auto simp: be16_def bit_simps)

lemma be32_enc [simp]:
  "be32 (ucast (drop_bit 24 v)) (ucast (drop_bit 16 v)) (ucast (drop_bit 8 v)) (ucast v) = v"
proof (rule bit_word_eqI)
  fix n
  show "bit (be32 (ucast (drop_bit 24 v)) (ucast (drop_bit 16 v)) (ucast (drop_bit 8 v)) (ucast v)) n
    \<longleftrightarrow> bit v n" if "n < LENGTH(32)"
    using that by (cases "n < 8"; cases "n < 16"; cases "n < 24") (auto simp: be32_def bit_simps)
qed

lemma be24_enc:
  "unat v < 2 ^ 24 \<Longrightarrow> be24 (ucast (drop_bit 16 v)) (ucast (drop_bit 8 v)) (ucast v) = v"
proof -
  assume "unat v < 2 ^ 24"
  then have "take_bit 24 v = v"
    by (intro word_unat_eq_iff [THEN iffD2])
      (simp add: unsigned_take_bit_eq take_bit_nat_eq_self)
  then have high: "\<not> bit v n" if "24 \<le> n" for n
    by (metis bit_take_bit_iff linorder_not_le that)
  show ?thesis
  proof (rule bit_word_eqI)
    fix n
    show "bit (be24 (ucast (drop_bit 16 v)) (ucast (drop_bit 8 v)) (ucast v)) n \<longleftrightarrow> bit v n"
      if "n < LENGTH(32)"
      using that high [of n]
      by (cases "n < 8"; cases "n < 16"; cases "n < 24") (auto simp: be24_def bit_simps)
  qed
qed

lemma unat_enc_len16: "n < 65536 \<Longrightarrow> unat (of_nat n :: u16) = n"
  by (simp add: unat_of_nat take_bit_eq_mod)

lemma unat_enc_len8: "n < 256 \<Longrightarrow> unat (of_nat n :: byte) = n"
  by (simp add: unat_of_nat take_bit_eq_mod)

lemma unat_enc_len32: "n < 4294967296 \<Longrightarrow> unat (of_nat n :: u32) = n"
  by (simp add: unat_of_nat take_bit_eq_mod)

lemma g_ok_of [simp]: "g_ok (g_of bs)" and g_bytes_of [simp]: "g_bytes (g_of bs) = bs"
  by (simp_all add: g_ok_def g_of_def g_bytes_def)

lemma g_view_Nil: "g_view bs [] = g_of bs" and g_ok_view [simp]: "g_ok (g_view bs rest)"
  and g_bytes_view [simp]: "g_bytes (g_view bs rest) = bs"
  by (simp_all add: g_view_def g_of_def g_ok_def g_bytes_def)

lemma g_slice_ok: "g_slice s a b = Ok t \<Longrightarrow> g_ok t \<and> a \<le> b \<and> b \<le> length (g_arr s) \<and> g_len t = b - a"
  by (auto simp: g_slice_def g_ok_def split: if_splits)

lemma g_slice_not_Fail [simp]: "g_slice s a b \<noteq> Fail e"
  by (simp add: g_slice_def)

lemma g_index_not_Fail [simp]: "g_index s i \<noteq> Fail e"
  by (simp add: g_index_def)

lemma g_u16_eq:
  "g_u16 s i = (if i + 2 \<le> length (g_arr s) then Ok (be16 (g_arr s ! i) (g_arr s ! (i + 1))) else Panic)"
  by (simp add: g_u16_def g_slice_def nth_append)

lemma rbind_Ok_iff: "rbind m f = Ok y \<longleftrightarrow> (\<exists>x. m = Ok x \<and> f x = Ok y)"
  by (cases m) auto

lemma rbind_Panic_iff: "rbind m f = Panic \<longleftrightarrow> m = Panic \<or> (\<exists>x. m = Ok x \<and> f x = Panic)"
  by (cases m) auto

text \<open>The digits of a hexadecimal string are none of the separators the programs use.\<close>

lemma hex_digit_range:
  "d < 16 \<Longrightarrow> (of_char (hex_digit d) :: nat) = (if d < 10 then 48 + d else 87 + d)"
  by (simp add: hex_digit_def)

lemma hex_chars:
  assumes "c \<in> set (hex bs)"
  shows "(48 \<le> (of_char c :: nat) \<and> (of_char c :: nat) \<le> 57) \<or> (97 \<le> (of_char c :: nat) \<and> (of_char c :: nat) \<le> 102)"
proof -
  have "unat b div 16 < 16" for b :: byte
  proof -
    have "unat b < 16 * 16" using unsigned_less [of b] by simp
    then show ?thesis by (rule less_mult_imp_div_less)
  qed
  moreover have "unat b mod 16 < 16" for b :: byte by simp
  moreover obtain b :: byte where "c = hex_digit (unat b div 16) \<or> c = hex_digit (unat b mod 16)"
    using assms by (auto simp: hex_def)
  ultimately obtain d where "d < 16" "c = hex_digit d" by blast
  then show ?thesis using hex_digit_range [of d] by (auto split: if_splits)
qed

lemma length_hex [simp]: "length (hex bs) = 2 * length bs"
  by (induction bs) (simp_all add: hex_def)

lemma hex_no_underscore: "CHR ''_'' \<notin> set (hex bs)"
  using hex_chars [of "CHR ''_''" bs] by auto

end
