(* ===== verification/HttpModel.thy ===== *)
theory HttpModel
  imports GoBase
begin

text \<open>
  What the components read of a \<open>net/http\<close> request and write of a response. The request is the one
  net/http hands to a handler: its URL is parsed, its header keys are in canonical form and its
  cookies, query arguments and form values are decoded.
\<close>

record request =
  r_method :: string
  r_url :: string            \<comment> \<open>\<open>r.URL.String()\<close>\<close>
  r_path :: string           \<comment> \<open>\<open>r.URL.Path\<close>\<close>
  r_query :: string          \<comment> \<open>\<open>r.URL.RawQuery\<close>\<close>
  r_host :: string
  r_remoteAddr :: string
  r_header :: "(string list) smap"
  r_cookies :: "(string \<times> string) list"
  r_args :: "(string list) smap"
  r_form :: "(string list) smap"
  r_contentLength :: int

text \<open>\<open>Header.Get\<close> and \<open>FormValue\<close>: the first value of a key, the empty string without one.\<close>

definition first_value :: "(string list) smap \<Rightarrow> string \<Rightarrow> string" where
  "first_value m k = (case map_of m k of Some (v # _) \<Rightarrow> v | _ \<Rightarrow> [])"

definition header_get :: "request \<Rightarrow> string \<Rightarrow> string" where
  "header_get r k = first_value (r_header r) k"

definition form_value :: "request \<Rightarrow> string \<Rightarrow> string" where
  "form_value r k = first_value (r_form r) k"

definition user_agent :: "request \<Rightarrow> string" where
  "user_agent r = header_get r ''User-Agent''"

text \<open>\<open>r.Cookie(name)\<close>: the first cookie of that name.\<close>

definition cookie :: "request \<Rightarrow> string \<Rightarrow> string option" where
  "cookie r name = map_of (r_cookies r) name"

text \<open>The host of a request in lower case without its port, as the pipeline and the load balancer take it.\<close>

definition host_name :: "string \<Rightarrow> string" where
  "host_name h =
     (let host = to_lower h
      in case str_last_index host (CHR '':'') of
           Some i \<Rightarrow> if 0 < i then take i host else host
         | None \<Rightarrow> host)"

definition get_request :: request where
  "get_request =
     \<lparr>r_method = ''GET'', r_url = ''/'', r_path = ''/'', r_query = [], r_host = ''example.com'',
      r_remoteAddr = ''10.0.0.1:4711'', r_header = [(''User-Agent'', [''Mozilla/5.0''])],
      r_cookies = [], r_args = [], r_form = [], r_contentLength = 0\<rparr>"

end
