(* ===== verification/NetAddr.thy ===== *)
theory NetAddr
  imports GoSlice
begin

text \<open>
  The part of package \<open>net\<close> the programs use on addresses: \<open>ParseIP\<close>, \<open>ParseCIDR\<close> and
  \<open>IPNet.Contains\<close>. An address is its sixteen bytes, an IPv4 address in the mapped form; a network is
  its address and mask, of four or sixteen bytes each. Networks are compared with a reference: an
  address is in a network when their first bits agree.
\<close>

section \<open>Addresses\<close>

definition octet :: "string \<Rightarrow> byte option" where
  "octet s =
     (if s = [] \<or> (1 < length s \<and> hd s = CHR ''0'') then None
      else case digits_val 0 s of
             None \<Rightarrow> None
           | Some n \<Rightarrow> if 255 < n then None else Some (of_nat n))"

fun all_some :: "'a option list \<Rightarrow> 'a list option" where
  "all_some [] = Some []"
| "all_some (None # xs) = None"
| "all_some (Some x # xs) = map_option ((#) x) (all_some xs)"

definition parse_ipv4 :: "string \<Rightarrow> byte list option" where
  "parse_ipv4 s =
     (let fs = split_char (CHR ''.'') s in if length fs = 4 then all_some (map octet fs) else None)"

definition v4_prefix :: "byte list" where
  "v4_prefix = replicate 10 0 @ [255, 255]"

definition hex_val :: "char \<Rightarrow> nat option" where
  "hex_val c =
     (let n = (of_char c :: nat) in
      if 48 \<le> n \<and> n \<le> 57 then Some (n - 48)
      else if 97 \<le> n \<and> n \<le> 102 then Some (n - 87)
      else if 65 \<le> n \<and> n \<le> 70 then Some (n - 55) else None)"

text \<open>The leading hexadecimal digits of a group, at most four: their value, their number, the rest.\<close>

fun hex_group :: "nat \<Rightarrow> nat \<Rightarrow> string \<Rightarrow> (nat \<times> nat \<times> string) option" where
  "hex_group acc n [] = Some (acc, n, [])"
| "hex_group acc n (c # s) =
     (case hex_val c of
        None \<Rightarrow> Some (acc, n, c # s)
      | Some d \<Rightarrow> if 3 < n then None else hex_group (16 * acc + d) (n + 1) s)"

text \<open>The groups of an IPv6 address; \<open>ell\<close> is the position of the ellipsis in the bytes read so far.\<close>

function ipv6_loop :: "byte list \<Rightarrow> nat option \<Rightarrow> string \<Rightarrow> (byte list \<times> nat option \<times> string) option" where
  "ipv6_loop ip ell s =
     (if length ip < 16
      then case hex_group 0 0 s of
             None \<Rightarrow> None
           | Some (acc, n, s') \<Rightarrow>
               if n = 0 then None
               else if s' \<noteq> [] \<and> hd s' = CHR ''.''
               then if ell = None \<and> length ip \<noteq> 12 then None
                    else if 16 < length ip + 4 then None
                    else map_option (\<lambda>q. (ip @ q, ell, [])) (parse_ipv4 s)
               else let ip = ip @ [of_nat (acc div 256), of_nat acc] in
                 if s' = [] then Some (ip, ell, [])
                 else if hd s' \<noteq> CHR '':'' \<or> tl s' = [] then None
                 else let s = tl s' in
                   if hd s = CHR '':''
                   then if ell \<noteq> None then None
                        else if tl s = [] then Some (ip, Some (length ip), [])
                        else ipv6_loop ip (Some (length ip)) (tl s)
                   else ipv6_loop ip ell s
      else Some (ip, ell, s))"
  by pat_completeness auto
termination
  by (relation "measure (\<lambda>(ip, ell, s). 16 - length ip)") auto

declare ipv6_loop.simps [simp del]

definition parse_ipv6 :: "string \<Rightarrow> byte list option" where
  "parse_ipv6 s =
     (let lead = has_prefix s ''::''; s' = (if lead then drop 2 s else s) in
      if lead \<and> s' = [] then Some (replicate 16 0)
      else case ipv6_loop [] (if lead then Some 0 else None) s' of
             None \<Rightarrow> None
           | Some (ip, ell, rest) \<Rightarrow>
               if rest \<noteq> [] then None
               else if length ip < 16
               then (case ell of
                       None \<Rightarrow> None
                     | Some e \<Rightarrow> Some (take e ip @ replicate (16 - length ip) 0 @ drop e ip))
               else if ell \<noteq> None then None else Some ip)"

text \<open>
  \<open>netip.ParseAddr\<close> decides by the first separator; an address with a zone is refused by all callers.
\<close>

definition is_v4_text :: "string \<Rightarrow> bool" where
  "is_v4_text s \<longleftrightarrow> (case filter (\<lambda>c. c \<in> set ''.:%'') s of c # _ \<Rightarrow> c = CHR ''.'' | [] \<Rightarrow> False)"

definition parse_ip :: "string \<Rightarrow> byte list option" where
  "parse_ip s =
     (if CHR ''%'' \<in> set s then None
      else if is_v4_text s then map_option (\<lambda>q. v4_prefix @ q) (parse_ipv4 s)
      else if CHR '':'' \<in> set s then parse_ipv6 s else None)"

section \<open>Networks\<close>

record ipnet =
  net_IP :: "byte list"
  net_Mask :: "byte list"

definition mask_byte :: "nat \<Rightarrow> byte" where
  "mask_byte r = NOT (mask (8 - r))"

definition cidr_mask :: "nat \<Rightarrow> nat \<Rightarrow> byte list" where
  "cidr_mask n len = map (\<lambda>k. mask_byte (n - 8 * k)) [0..<len]"

definition and_bytes :: "byte list \<Rightarrow> byte list \<Rightarrow> byte list" where
  "and_bytes a b = map2 (\<lambda>x y. x AND y) a b"

definition to4 :: "byte list \<Rightarrow> byte list option" where
  "to4 ip =
     (if length ip = 4 then Some ip
      else if length ip = 16 \<and> take 12 ip = v4_prefix then Some (drop 12 ip) else None)"

definition parse_cidr :: "string \<Rightarrow> ipnet option" where
  "parse_cidr s =
     (case splitn2 s (CHR ''/'') of
        [addr, bits] \<Rightarrow>
          (case parse_ip addr of
             None \<Rightarrow> None
           | Some ip \<Rightarrow>
               let len = (if is_v4_text addr then 4 else 16) in
               if bits = [] then None
               else (case digits_val 0 bits of
                       None \<Rightarrow> None
                     | Some n \<Rightarrow>
                         if 8 * len < n then None
                         else let m = cidr_mask n len
                              in Some \<lparr>net_IP = and_bytes (drop (16 - len) ip) m, net_Mask = m\<rparr>))
      | _ \<Rightarrow> None)"

definition net_contains :: "ipnet \<Rightarrow> byte list \<Rightarrow> bool" where
  "net_contains n ip =
     (let nn = (case to4 (net_IP n) of Some q \<Rightarrow> q | None \<Rightarrow> net_IP n);
          m = (if length (net_Mask n) = 16 \<and> length nn = 4 then drop 12 (net_Mask n) else net_Mask n);
          x = (case to4 ip of Some q \<Rightarrow> q | None \<Rightarrow> ip)
      in length m = length nn \<and> length x = length nn \<and> and_bytes nn m = and_bytes x m)"

section \<open>Networks as bit prefixes\<close>

definition byte_bits :: "byte \<Rightarrow> bool list" where
  "byte_bits b = map (bit b) [7, 6, 5, 4, 3, 2, 1, 0]"

definition addr_bits :: "byte list \<Rightarrow> bool list" where
  "addr_bits bs = concat (map byte_bits bs)"

lemma length_byte_bits [simp]: "length (byte_bits b) = 8"
  by (simp add: byte_bits_def)

lemma addr_bits_simps [simp]: "addr_bits [] = []" "addr_bits (b # bs) = byte_bits b @ addr_bits bs"
  by (simp_all add: addr_bits_def)

lemma mask_byte_eq_iff:
  "b AND mask_byte r = c AND mask_byte r \<longleftrightarrow> take r (byte_bits b) = take r (byte_bits c)"
proof -
  have "b AND mask_byte r = c AND mask_byte r \<longleftrightarrow> (\<forall>i < 8. 8 - r \<le> i \<longrightarrow> bit b i = bit c i)"
    by (auto simp: bit_eq_iff mask_byte_def bit_simps)
  also have "\<dots> \<longleftrightarrow> (\<forall>k < 8. k < r \<longrightarrow> bit b (7 - k) = bit c (7 - k))"
  proof
    assume h: "\<forall>k < 8. k < r \<longrightarrow> bit b (7 - k) = bit c (7 - k)"
    show "\<forall>i < 8. 8 - r \<le> i \<longrightarrow> bit b i = bit c i"
    proof (intro allI impI)
      fix i :: nat
      assume "i < 8" and "8 - r \<le> i"
      then show "bit b i = bit c i" using h [rule_format, of "7 - i"] by simp
    qed
  qed auto
  also have "\<dots> \<longleftrightarrow> take r (byte_bits b) = take r (byte_bits c)"
  proof -
    have nth: "byte_bits x ! k = bit x (7 - k)" if "k < 8" for x k
      using that by (auto simp: byte_bits_def less_Suc_eq numeral_eq_Suc)
    show ?thesis by (auto simp: list_eq_iff_nth_eq nth)
  qed
  finally show ?thesis .
qed

lemma and_mask_eq_iff:
  "length a = len \<Longrightarrow> length b = len \<Longrightarrow>
   and_bytes a (cidr_mask n len) = and_bytes b (cidr_mask n len) \<longleftrightarrow> take n (addr_bits a) = take n (addr_bits b)"
proof (induction len arbitrary: a b n)
  case (Suc len)
  then obtain x a' y b' where ab: "a = x # a'" "b = y # b'" "length a' = len" "length b' = len"
    by (metis length_Suc_conv)
  have mask: "cidr_mask n (Suc len) = mask_byte n # cidr_mask (n - 8) len"
    by (simp add: cidr_mask_def upt_conv_Cons map_Suc_upt [symmetric] comp_def del: upt_Suc)
  show ?case
    using Suc.IH [OF ab(3,4), of "n - 8"] ab
    by (auto simp: mask and_bytes_def mask_byte_eq_iff)
qed (simp add: and_bytes_def)

section \<open>No address contains a slash\<close>

lemma digits_val_slash: "CHR ''/'' \<in> set s \<Longrightarrow> digits_val acc s = None"
  by (induction s arbitrary: acc) (auto simp: digit_val_def split: option.splits)

lemma split_char_chars: "x \<in> set s \<Longrightarrow> x \<noteq> c \<Longrightarrow> \<exists>f \<in> set (split_char c s). x \<in> set f"
  by (induction s) (auto split: list.splits)

lemma all_some_None: "None \<in> set xs \<Longrightarrow> all_some xs = None"
  by (induction xs rule: all_some.induct) auto

lemma parse_ipv4_slash: "CHR ''/'' \<in> set s \<Longrightarrow> parse_ipv4 s = None"
proof -
  assume "CHR ''/'' \<in> set s"
  then obtain f where "f \<in> set (split_char (CHR ''.'') s)" "CHR ''/'' \<in> set f"
    using split_char_chars [of "CHR ''/''" s "CHR ''.''"] by auto
  moreover from this have "octet f = None"
    by (simp add: octet_def digits_val_slash)
  ultimately show ?thesis
    by (auto simp: parse_ipv4_def Let_def intro!: all_some_None image_eqI [of _ octet f])
qed

lemma hex_group_slash:
  "hex_group acc n s = Some (acc', n', s') \<Longrightarrow> CHR ''/'' \<in> set s \<Longrightarrow> CHR ''/'' \<in> set s'"
  by (induction acc n s rule: hex_group.induct)
    (auto simp: hex_val_def Let_def split: option.splits if_splits)

lemma ipv6_loop_slash:
  "ipv6_loop ip ell s = Some (ip', ell', rest) \<Longrightarrow> CHR ''/'' \<in> set s \<Longrightarrow> CHR ''/'' \<in> set rest"
proof (induction ip ell s rule: ipv6_loop.induct)
  case (1 ip ell s)
  show ?case
  proof (cases "length ip < 16")
    case True
    then obtain acc n s' where hg: "hex_group 0 0 s = Some (acc, n, s')"
      using "1.prems"(1) by (subst (asm) ipv6_loop.simps) (auto split: option.splits)
    then have sl: "CHR ''/'' \<in> set s'" using hex_group_slash "1.prems"(2) by blast
    then have tl: "CHR ''/'' \<in> set (tl s')" if "hd s' = CHR '':''" using that by (cases s') auto
    then have tl2: "CHR ''/'' \<in> set (tl (tl s'))" if "hd s' = CHR '':''" "hd (tl s') = CHR '':''"
      using that by (cases "tl s'") auto
    define ip2 where "ip2 = ip @ [of_nat (acc div 256), of_nat acc :: byte]"
    note step = "1.prems"(1) [unfolded ipv6_loop.simps [of ip ell s]]
    have ne: "s' \<noteq> []" using sl by auto
    have n: "n \<noteq> 0" using step True hg by (simp split: if_splits)
    have dot: "hd s' \<noteq> CHR ''.''"
      using step True hg n ne parse_ipv4_slash [OF "1.prems"(2)] by (auto split: if_splits)
    have colon: "hd s' = CHR '':''" using step True hg n ne dot by (simp add: Let_def split: if_splits)
    have more: "tl s' \<noteq> []" using tl [OF colon] by auto
    show ?thesis
    proof (cases "hd (tl s') = CHR '':''")
      case ell: True
      then have "tl (tl s') \<noteq> []" using tl2 [OF colon] by auto
      moreover from this have "ell = None" "ipv6_loop ip2 (Some (length ip2)) (tl (tl s')) = Some (ip', ell', rest)"
        using step True hg n ne dot colon more ell by (simp_all add: Let_def ip2_def split: if_splits)
      ultimately show ?thesis
        using "1.IH"(1) [OF True hg refl refl n _ ip2_def ne _ refl ell] dot colon more tl2 [OF colon ell] by simp
    next
      case False
      then have "ipv6_loop ip2 ell (tl s') = Some (ip', ell', rest)"
        using step True hg n ne dot colon more by (simp add: Let_def ip2_def split: if_splits)
      then show ?thesis
        using "1.IH"(2) [OF True hg refl refl n _ ip2_def ne _ refl False] dot colon more tl [OF colon] by simp
    qed
  next
    case False
    then show ?thesis using "1.prems" by (subst (asm) ipv6_loop.simps) simp
  qed
qed

lemma parse_ip_slash: "CHR ''/'' \<in> set s \<Longrightarrow> parse_ip s = None"
proof -
  assume s: "CHR ''/'' \<in> set s"
  have d2: "CHR ''/'' \<in> set (drop 2 s)" if "has_prefix s ''::''"
    using that s by (auto simp: has_prefix_iff)
  have loop: "(case ipv6_loop [] e t of None \<Rightarrow> None | Some (ip, ell, rest) \<Rightarrow>
      if rest \<noteq> [] then None else f ip ell) = None" if "CHR ''/'' \<in> set t" for e t f
    using that ipv6_loop_slash [of "[]" e t] by (cases "ipv6_loop [] e t") auto
  have "drop 2 s \<noteq> []" if "has_prefix s ''::''" using d2 [OF that] by auto
  then have "parse_ipv6 s = None"
    unfolding parse_ipv6_def Let_def using loop [OF s] loop [OF d2] by (cases "has_prefix s ''::''") simp_all
  then show ?thesis using s by (simp add: parse_ip_def parse_ipv4_slash)
qed

lemma parse_cidr_slash: "parse_cidr s \<noteq> None \<Longrightarrow> CHR ''/'' \<in> set s"
  by (rule ccontr) (simp add: parse_cidr_def splitn2_none)

end
