(* ===== verification/RateLimit.thy ===== *)
theory RateLimit
  imports GoFloat
begin

text \<open>
  The token buckets, the connection pool counters, the memory monitor and the request context pool
  of \<open>packages/mango-waf/perf/pool.go\<close>.
  The locale \<open>burst_limiter\<close> is the contract of a limiter during a burst, requests at one instant; it
  is interpreted here for \<open>TokenBucket\<close> and in \<open>DetEngine\<close> for the detection engine's buckets.
\<close>

named_theorems tb_inv_intros "operations keep the bucket invariant"

section \<open>TokenBucket\<close>

record token_bucket =
  tb_tokens :: rat
  tb_capacity :: rat
  tb_rate :: rat
  tb_lastTime :: gtime

definition newTokenBucket :: "rat \<Rightarrow> rat \<Rightarrow> gtime \<Rightarrow> token_bucket" where
  "newTokenBucket rate capacity now =
     \<lparr>tb_tokens = capacity, tb_capacity = capacity, tb_rate = rate, tb_lastTime = now\<rparr>"

definition tb_refill :: "gtime \<Rightarrow> token_bucket \<Rightarrow> rat" where
  "tb_refill now tb =
     (let t = fadd (tb_tokens tb) (fmul (seconds (time_sub now (tb_lastTime tb))) (tb_rate tb))
      in if tb_capacity tb < t then tb_capacity tb else t)"

definition allowN :: "rat \<Rightarrow> gtime \<Rightarrow> token_bucket \<Rightarrow> bool \<times> token_bucket" where
  "allowN n now tb =
     (let t = tb_refill now tb; tb' = tb\<lparr>tb_tokens := t, tb_lastTime := now\<rparr>
      in if n \<le> t then (True, tb'\<lparr>tb_tokens := fsub t n\<rparr>) else (False, tb'))"

definition tb_allow :: "gtime \<Rightarrow> token_bucket \<Rightarrow> bool \<times> token_bucket" where
  "tb_allow now tb = allowN 1 now tb"

definition setRate :: "rat \<Rightarrow> token_bucket \<Rightarrow> token_bucket" where
  "setRate newRate tb = tb\<lparr>tb_rate := newRate\<rparr>"

section \<open>IPRateLimiter\<close>

record ip_limiter =
  rl_limiters :: "token_bucket smap"
  rl_rate :: rat
  rl_capacity :: rat

definition newIPRateLimiter :: "rat \<Rightarrow> rat \<Rightarrow> ip_limiter" where
  "newIPRateLimiter rps burst = \<lparr>rl_limiters = [], rl_rate = rps, rl_capacity = burst\<rparr>"

text \<open>The bucket a request of \<open>ip\<close> meets: the stored one, or a fresh full one.\<close>

definition rl_bucket :: "gtime \<Rightarrow> string \<Rightarrow> ip_limiter \<Rightarrow> token_bucket" where
  "rl_bucket now ip rl =
     (case map_of (rl_limiters rl) ip of
        Some b \<Rightarrow> b
      | None \<Rightarrow> newTokenBucket (rl_rate rl) (rl_capacity rl) now)"

definition rl_allow :: "gtime \<Rightarrow> string \<Rightarrow> ip_limiter \<Rightarrow> bool \<times> ip_limiter" where
  "rl_allow now ip rl =
     (let (ok, b) = tb_allow now (rl_bucket now ip rl)
      in (ok, rl\<lparr>rl_limiters := AList.update ip b (rl_limiters rl)\<rparr>))"

definition setGlobalRate :: "rat \<Rightarrow> ip_limiter \<Rightarrow> ip_limiter" where
  "setGlobalRate rps rl = rl\<lparr>rl_rate := rps\<rparr>"

text \<open>One tick of \<open>cleanupLoop\<close>.\<close>

definition rl_cleanup :: "ip_limiter \<Rightarrow> ip_limiter" where
  "rl_cleanup rl = (if 10000 < length (rl_limiters rl) then rl\<lparr>rl_limiters := []\<rparr> else rl)"

section \<open>ConnectionPool, MemoryManager\<close>

record conn_pool =
  cp_maxIdle :: int
  cp_maxOpen :: int
  cp_idleTimeout :: duration
  cp_active :: int
  cp_idle :: int
  cp_totalOpened :: int
  cp_totalClosed :: int
  cp_waitCount :: int

definition newConnectionPool :: "int \<Rightarrow> int \<Rightarrow> conn_pool" where
  "newConnectionPool maxIdle maxOpen =
     \<lparr>cp_maxIdle = maxIdle, cp_maxOpen = maxOpen, cp_idleTimeout = 90 * second,
      cp_active = 0, cp_idle = 0, cp_totalOpened = 0, cp_totalClosed = 0, cp_waitCount = 0\<rparr>"

definition poolStats :: "conn_pool \<Rightarrow> int smap" where
  "poolStats p =
     [(''active'', cp_active p), (''idle'', cp_idle p), (''total_opened'', cp_totalOpened p),
      (''total_closed'', cp_totalClosed p), (''waits'', cp_waitCount p)]"

record mem_manager =
  mm_maxMemoryMB :: int
  mm_gcThreshold :: rat
  mm_forceGCCount :: int

definition newMemoryManager :: "int \<Rightarrow> mem_manager" where
  "newMemoryManager maxMB =
     \<lparr>mm_maxMemoryMB = maxMB, mm_gcThreshold = fl64 (8/10), mm_forceGCCount = 0\<rparr>"

text \<open>
  One tick of \<open>monitorLoop\<close> with \<open>alloc\<close> bytes allocated: whether a collection is forced, and the
  new state.
\<close>

definition mm_tick :: "nat \<Rightarrow> mem_manager \<Rightarrow> bool \<times> mem_manager" where
  "mm_tick alloc mm =
     (let allocMB = int (alloc div 1024 div 1024)
      in if 0 < mm_maxMemoryMB mm \<and>
            f_to_int (fmul (f_of_int (mm_maxMemoryMB mm)) (mm_gcThreshold mm)) < allocMB
         then (True, mm\<lparr>mm_forceGCCount := mm_forceGCCount mm + 1\<rparr>) else (False, mm))"

section \<open>The pool of request contexts\<close>

record 'fp request_context =
  rc_IP :: string
  rc_URL :: string
  rc_Method :: string
  rc_UserAgent :: string
  rc_Headers :: "string smap"
  rc_TrustScore :: rat
  rc_Fingerprint :: "'fp option"
  rc_StartTime :: gtime

definition emptyContext :: "'fp request_context" where
  "emptyContext =
     \<lparr>rc_IP = [], rc_URL = [], rc_Method = [], rc_UserAgent = [], rc_Headers = [],
      rc_TrustScore = 0, rc_Fingerprint = None, rc_StartTime = zero_time\<rparr>"

text \<open>
  \<open>sync.Pool.Get\<close> hands out any pooled object or, when it has none to hand, a new one: \<open>pick\<close> is the
  position of the object it takes, \<open>None\<close> stands for a new one.
\<close>

definition acquireContext ::
  "nat option \<Rightarrow> gtime \<Rightarrow> 'fp request_context list \<Rightarrow> 'fp request_context \<times> 'fp request_context list" where
  "acquireContext pick now pool =
     (case pick of
        Some i \<Rightarrow>
          if i < length pool
          then ((pool ! i)\<lparr>rc_StartTime := now\<rparr>, take i pool @ drop (Suc i) pool)
          else (emptyContext\<lparr>rc_StartTime := now\<rparr>, pool)
      | None \<Rightarrow> (emptyContext\<lparr>rc_StartTime := now\<rparr>, pool))"

definition releaseContext ::
  "'fp request_context \<Rightarrow> 'fp request_context list \<Rightarrow> 'fp request_context list" where
  "releaseContext ctx pool =
     ctx\<lparr>rc_IP := [], rc_URL := [], rc_Method := [], rc_UserAgent := [], rc_TrustScore := 0,
         rc_Fingerprint := None, rc_Headers := []\<rparr> # pool"

section \<open>The contract of a limiter during a burst\<close>

fun burst :: "('b \<Rightarrow> bool \<times> 'b) \<Rightarrow> nat \<Rightarrow> 'b \<Rightarrow> nat \<times> 'b" where
  "burst step 0 b = (0, b)"
| "burst step (Suc n) b =
     (let (ok, b') = step b; (m, b'') = burst step n b' in ((if ok then Suc m else m), b''))"

text \<open>
  \<open>credit\<close> is what is left to spend: admitting a request takes one from it, rejecting adds nothing.
\<close>

locale burst_limiter =
  fixes step :: "'b \<Rightarrow> bool \<times> 'b" and credit :: "'b \<Rightarrow> rat" and ok :: "'b \<Rightarrow> bool"
  assumes step_ok: "ok b \<Longrightarrow> ok (snd (step b))"
    and step_pays: "ok b \<Longrightarrow> fst (step b) \<Longrightarrow> credit b \<le> of_nat k \<Longrightarrow> k < 2 ^ 53 \<Longrightarrow>
      0 < k \<and> credit (snd (step b)) \<le> of_nat (k - 1)"
    and step_keeps: "ok b \<Longrightarrow> \<not> fst (step b) \<Longrightarrow> credit (snd (step b)) \<le> credit b"
begin

lemma burst_bounded:
  "ok b \<Longrightarrow> credit b \<le> of_nat k \<Longrightarrow> k < 2 ^ 53 \<Longrightarrow> fst (burst step n b) \<le> k"
proof (induction n arbitrary: b k)
  case 0
  then show ?case by simp
next
  case (Suc n)
  obtain adm b' where s: "step b = (adm, b')" by fastforce
  have ok': "ok b'" using step_ok [OF Suc.prems(1)] s by simp
  obtain m b'' where r: "burst step n b' = (m, b'')" by fastforce
  show ?case
  proof (cases adm)
    case True
    then have "0 < k" "credit b' \<le> of_nat (k - 1)"
      using step_pays [OF Suc.prems(1) _ Suc.prems(2,3)] s by auto
    moreover have "k - 1 < 2 ^ 53" using Suc.prems(3) by linarith
    ultimately have "m \<le> k - 1"
      using Suc.IH [OF ok', of "k - 1"] r by simp
    then show ?thesis
      using \<open>0 < k\<close> s r True by simp
  next
    case False
    then have "credit b' \<le> of_nat k"
      using step_keeps [OF Suc.prems(1)] Suc.prems(2) s by auto
    then show ?thesis
      using Suc.IH [OF ok', of k] Suc.prems(3) s r False by simp
  qed
qed

lemma burst_ok: "ok b \<Longrightarrow> ok (snd (burst step n b))"
proof (induction n arbitrary: b)
  case (Suc n)
  then show ?case
    using step_ok [of b] by (auto simp: Let_def split: prod.splits) (metis snd_conv)
qed simp

end

section \<open>Facts on TokenBucket\<close>

definition tb_inv :: "token_bucket \<Rightarrow> bool" where
  "tb_inv tb \<longleftrightarrow> 0 \<le> tb_tokens tb \<and> tb_tokens tb \<le> tb_capacity tb \<and> 0 \<le> tb_rate tb \<and>
     fl64 (tb_tokens tb) = tb_tokens tb \<and> fl64 (tb_capacity tb) = tb_capacity tb"

lemma tb_inv_new [tb_inv_intros]:
  "0 \<le> rate \<Longrightarrow> 0 \<le> cap \<Longrightarrow> fl64 cap = cap \<Longrightarrow> tb_inv (newTokenBucket rate cap now)"
  by (simp add: tb_inv_def newTokenBucket_def)

lemma tb_refill_bounds:
  assumes "tb_inv tb" and "tb_lastTime tb \<le> now"
  shows "tb_tokens tb \<le> tb_refill now tb" and "tb_refill now tb \<le> tb_capacity tb"
    and "fl64 (tb_refill now tb) = tb_refill now tb"
proof -
  define d where "d = fmul (seconds (time_sub now (tb_lastTime tb))) (tb_rate tb)"
  have "0 \<le> seconds (time_sub now (tb_lastTime tb))"
    using assms(2) by (intro seconds_nonneg time_sub_nonneg)
  then have "0 \<le> d"
    using assms(1) unfolding d_def fmul_def by (intro fl.rnd_nonneg) (simp add: tb_inv_def)
  then have "tb_tokens tb \<le> fadd (tb_tokens tb) d"
    using assms(1) unfolding fadd_def by (intro fl.rnd_add_ge) (simp_all add: tb_inv_def)
  then show "tb_tokens tb \<le> tb_refill now tb" "tb_refill now tb \<le> tb_capacity tb"
    "fl64 (tb_refill now tb) = tb_refill now tb"
    using assms(1) by (auto simp: tb_refill_def tb_inv_def Let_def fadd_def d_def)
qed

lemma tb_refill_same:
  "tb_inv tb \<Longrightarrow> tb_lastTime tb = now \<Longrightarrow> tb_refill now tb = tb_tokens tb"
  by (auto simp: tb_refill_def tb_inv_def Let_def fadd_def fmul_def)

lemma allowN_inv [tb_inv_intros]:
  assumes "tb_inv tb" and "tb_lastTime tb \<le> now" and "0 \<le> n"
  shows "tb_inv (snd (allowN n now tb))"
proof -
  note b = tb_refill_bounds [OF assms(1,2)]
  have "fsub (tb_refill now tb) n \<le> tb_refill now tb" if "n \<le> tb_refill now tb"
    unfolding fsub_def using b(3) assms(3) by (rule fl.rnd_sub_le)
  moreover have "0 \<le> fsub (tb_refill now tb) n" if "n \<le> tb_refill now tb"
    unfolding fsub_def using that by (rule fl.rnd_sub_nonneg)
  ultimately show ?thesis
    using assms(1) b by (auto simp: allowN_def tb_inv_def Let_def fsub_def)
qed

lemma tb_allow_inv [tb_inv_intros]: "tb_inv tb \<Longrightarrow> tb_lastTime tb \<le> now \<Longrightarrow> tb_inv (snd (tb_allow now tb))"
  by (simp add: tb_allow_def allowN_inv)

lemma setRate_inv [tb_inv_intros]: "tb_inv tb \<Longrightarrow> 0 \<le> r \<Longrightarrow> tb_inv (setRate r tb)"
  by (simp add: setRate_def tb_inv_def)

lemma tb_allow_fields [simp]:
  "tb_capacity (snd (tb_allow now tb)) = tb_capacity tb"
  "tb_rate (snd (tb_allow now tb)) = tb_rate tb"
  "tb_lastTime (snd (tb_allow now tb)) = now"
  by (auto simp: tb_allow_def allowN_def Let_def)

text \<open>A bucket at a fixed instant is a burst limiter, its credit the stored tokens.\<close>

interpretation tb_burst: burst_limiter "tb_allow now" tb_tokens "\<lambda>b. tb_inv b \<and> tb_lastTime b = now"
  for now
proof unfold_locales
  fix b :: token_bucket and k
  assume a: "tb_inv b \<and> tb_lastTime b = now" "fst (tb_allow now b)" "tb_tokens b \<le> of_nat k" "k < 2 ^ 53"
  then have t: "1 \<le> tb_tokens b" "tb_tokens (snd (tb_allow now b)) = fsub (tb_tokens b) 1"
    by (auto simp: tb_allow_def allowN_def tb_refill_same Let_def split: if_splits)
  from t(1) a(3) have "(1::rat) \<le> of_nat k" by linarith
  then have k: "0 < k" by (cases k) auto
  have "fsub (tb_tokens b) 1 \<le> of_int (int (k - 1))"
    unfolding fsub_def using a(3,4) k by (intro fl.rnd_le_int) (auto simp: of_nat_diff)
  with k t(2) show "0 < k \<and> tb_tokens (snd (tb_allow now b)) \<le> of_nat (k - 1)" by simp
next
  fix b :: token_bucket
  assume "tb_inv b \<and> tb_lastTime b = now" "\<not> fst (tb_allow now b)"
  then show "tb_tokens (snd (tb_allow now b)) \<le> tb_tokens b"
    by (auto simp: tb_allow_def allowN_def tb_refill_same Let_def split: if_splits)
qed (auto intro: tb_allow_inv)

text \<open>An idle second refills a bucket whose rate and capacity are at least one.\<close>

lemma seconds_ge_1: "second \<le> d \<Longrightarrow> 1 \<le> seconds d"
proof -
  assume d: "second \<le> d"
  then have s: "1 \<le> trunc_div d 1000000000" "0 \<le> d - trunc_div d 1000000000 * 1000000000"
    by (auto simp: trunc_div_def sgn_if second_def)
  have "(1::rat) \<le> f_of_int (trunc_div d 1000000000)"
    unfolding f_of_int_def using fl.rnd_ge_int [of 1] s(1) by simp
  moreover have "0 \<le> fdiv (f_of_int (d - trunc_div d 1000000000 * 1000000000)) 1000000000"
    unfolding fdiv_def using s(2) by (intro fl.rnd_nonneg divide_nonneg_nonneg f_of_int_nonneg) auto
  ultimately show "1 \<le> seconds d"
    unfolding seconds_def Let_def fadd_def using fl.rnd_ge_int [of 1] by simp
qed

lemma tb_recovers:
  assumes "tb_inv tb" and "1 \<le> tb_rate tb" and "1 \<le> tb_capacity tb"
    and "second \<le> time_sub now (tb_lastTime tb)"
  shows "fst (tb_allow now tb)"
proof -
  have "1 \<le> seconds (time_sub now (tb_lastTime tb)) * tb_rate tb"
    using mult_mono [OF seconds_ge_1 [OF assms(4)] assms(2)] assms(2) seconds_ge_1 [OF assms(4)]
    by simp
  then have "1 \<le> fmul (seconds (time_sub now (tb_lastTime tb))) (tb_rate tb)"
    unfolding fmul_def using fl.rnd_ge_int [of 1] by simp
  then have "1 \<le> fadd (tb_tokens tb) (fmul (seconds (time_sub now (tb_lastTime tb))) (tb_rate tb))"
    unfolding fadd_def using fl.rnd_ge_int [of 1] assms(1) by (simp add: tb_inv_def)
  then show ?thesis
    using assms(3) by (auto simp: tb_allow_def allowN_def tb_refill_def Let_def)
qed

section \<open>Facts on IPRateLimiter\<close>

definition rl_inv :: "gtime \<Rightarrow> ip_limiter \<Rightarrow> bool" where
  "rl_inv now rl \<longleftrightarrow> m_ok (rl_limiters rl) \<and> 0 \<le> rl_rate rl \<and> 0 \<le> rl_capacity rl \<and>
     fl64 (rl_capacity rl) = rl_capacity rl \<and>
     (\<forall>ip b. map_of (rl_limiters rl) ip = Some b \<longrightarrow>
        tb_inv b \<and> tb_lastTime b \<le> now \<and> tb_capacity b = rl_capacity rl)"

lemma rl_inv_later: "rl_inv t rl \<Longrightarrow> t \<le> u \<Longrightarrow> rl_inv u rl"
  by (fastforce simp: rl_inv_def)

lemma rl_bucket_ok:
  "rl_inv now rl \<Longrightarrow>
   tb_inv (rl_bucket now ip rl) \<and> tb_lastTime (rl_bucket now ip rl) \<le> now \<and>
   tb_capacity (rl_bucket now ip rl) = rl_capacity rl"
  by (auto simp: rl_bucket_def rl_inv_def tb_inv_new split: option.splits)
    (simp_all add: newTokenBucket_def)

lemma rl_allow_limiters:
  "rl_limiters (snd (rl_allow now ip rl)) =
     AList.update ip (snd (tb_allow now (rl_bucket now ip rl))) (rl_limiters rl)"
  by (simp add: rl_allow_def Let_def split: prod.split)

lemma rl_allow_fields [simp]:
  "rl_rate (snd (rl_allow now ip rl)) = rl_rate rl"
  "rl_capacity (snd (rl_allow now ip rl)) = rl_capacity rl"
  by (simp_all add: rl_allow_def Let_def split: prod.split)

lemma rl_allow_inv: "rl_inv now rl \<Longrightarrow> rl_inv now (snd (rl_allow now ip rl))"
  using rl_bucket_ok [of now rl ip]
  by (auto simp: rl_inv_def rl_allow_limiters tb_allow_inv split: if_splits)

lemma rl_allow_result: "fst (rl_allow now ip rl) = fst (tb_allow now (rl_bucket now ip rl))"
  by (simp add: rl_allow_def Let_def split: prod.split)

lemma rl_bucket_after:
  "rl_bucket now ip (snd (rl_allow now ip' rl)) =
     (if ip = ip' then snd (tb_allow now (rl_bucket now ip rl)) else rl_bucket now ip rl)"
  by (auto simp: rl_bucket_def rl_allow_limiters split: option.splits)

text \<open>A burst of one address runs its bucket's burst.\<close>

lemma rl_burst_bucket:
  "fst (burst (rl_allow now ip) n rl) = fst (burst (tb_allow now) n (rl_bucket now ip rl))"
proof (induction n arbitrary: rl)
  case (Suc n)
  then show ?case
    using rl_allow_result [of now ip rl] rl_bucket_after [of now ip ip rl]
    by (auto simp: Let_def split: prod.splits) (metis fst_conv snd_conv)+
qed simp

section \<open>The context pool\<close>

text \<open>A clean context carries nothing of an earlier request but its start time.\<close>

definition clean :: "'fp request_context \<Rightarrow> bool" where
  "clean c \<longleftrightarrow> c\<lparr>rc_StartTime := zero_time\<rparr> = emptyContext"

lemma clean_release: "\<forall>c \<in> set pool. clean c \<Longrightarrow> \<forall>c \<in> set (releaseContext ctx pool). clean c"
  by (auto simp: releaseContext_def clean_def emptyContext_def)

lemma clean_start [simp]: "clean (c\<lparr>rc_StartTime := t\<rparr>) = clean c"
  by (simp add: clean_def)

lemma clean_empty [simp]: "clean emptyContext"
  by (simp add: clean_def emptyContext_def)

section \<open>Properties\<close>



text \<open>
  A request of one address never changes what \<open>IPRateLimiter.Allow\<close> answers to the next request
  of another address.
\<close>

theorem rl_isolated:
  assumes "ip' \<noteq> ip"
  shows "fst (rl_allow u ip' (snd (rl_allow t ip rl))) = fst (rl_allow u ip' rl)"
  using assms by (auto simp: rl_allow_result rl_bucket_def rl_allow_limiters split: option.splits)

theorem rl_isolated_witness:
  "fst (rl_allow 7 ''b'' (snd (rl_allow 5 ''a'' (newIPRateLimiter 1 1))))
     = fst (rl_allow 7 ''b'' (newIPRateLimiter 1 1))"
  by (rule rl_isolated) simp

text \<open>
  \<open>AcquireRequestContext\<close> never hands a request data of an earlier one: if the pool holds only
  contexts that were released (or is empty), the acquired context and every context left in the pool
  are clean.
\<close>

theorem acquire_clean:
  assumes "\<forall>c \<in> set pool. clean c"
  shows "clean (fst (acquireContext pick now pool)) \<and>
    (\<forall>c \<in> set (snd (acquireContext pick now pool)). clean c) \<and>
    (\<forall>c \<in> set (releaseContext ctx (snd (acquireContext pick now pool))). clean c)"
proof -
  have left: "\<forall>c \<in> set (snd (acquireContext pick now pool)). clean c"
    using assms
    by (auto simp: acquireContext_def dest: in_set_takeD in_set_dropD split: option.splits)
  moreover have "clean (fst (acquireContext pick now pool))"
    using assms by (auto simp: acquireContext_def split: option.splits)
  ultimately show ?thesis using clean_release by blast
qed

definition used_context :: "nat request_context" where
  "used_context =
     \<lparr>rc_IP = ''1.2.3.4'', rc_URL = ''/x'', rc_Method = ''GET'', rc_UserAgent = ''ua'',
      rc_Headers = [(''Cookie'', ''s=1'')], rc_TrustScore = 50, rc_Fingerprint = Some 3,
      rc_StartTime = 9\<rparr>"

theorem acquire_clean_witness:
  "clean (fst (acquireContext (Some 0) 5 (releaseContext used_context [])))"
  using acquire_clean [of "releaseContext used_context []" "Some 0" 5 used_context]
  by (simp add: releaseContext_def clean_def emptyContext_def)

end
