(* ===== verification/Hardening.thy ===== *)
theory Hardening
  imports HttpModel GoFloat
begin

text \<open>
  \<open>packages/mango-waf/perf/hardening.go\<close>: the security headers, the request validator and the
  graceful degrader.
\<close>

section \<open>SecurityHeaders\<close>

definition security_header_values :: "(string \<times> string) list" where
  "security_header_values =
     [(''X-Content-Type-Options'', ''nosniff''),
      (''X-XSS-Protection'', ''1; mode=block''),
      (''X-Frame-Options'', ''DENY''),
      (''Strict-Transport-Security'', ''max-age=31536000; includeSubDomains; preload''),
      (''Referrer-Policy'', ''strict-origin-when-cross-origin''),
      (''Permissions-Policy'', ''camera=(), microphone=(), geolocation=(), interest-cohort=()''),
      (''Content-Security-Policy'', ''default-src 'self'; script-src 'self' 'unsafe-inline' blob: cdn.jsdelivr.net; worker-src 'self' blob:; style-src 'self' 'unsafe-inline'; img-src 'self' data:; connect-src 'self'' @ [CHR 0x27]),
      (''Server'', ''Mango'')]"

text \<open>The response headers the next handler starts from.\<close>

definition securityHeaders :: "(string list) smap \<Rightarrow> (string list) smap" where
  "securityHeaders h =
     AList.delete ''X-Powered-By''
       (fold (\<lambda>(k, v). AList.update k [v]) security_header_values h)"

section \<open>RequestValidator\<close>

record validator =
  v_MaxBodySize :: int
  v_MaxURLLength :: int
  v_MaxHeaderSize :: int
  v_AllowedMethods :: "string list"

definition newRequestValidator :: validator where
  "newRequestValidator =
     \<lparr>v_MaxBodySize = 10 * 1024 * 1024, v_MaxURLLength = 8192, v_MaxHeaderSize = 16384,
      v_AllowedMethods = [''GET'', ''POST'', ''PUT'', ''DELETE'', ''PATCH'', ''HEAD'', ''OPTIONS'']\<rparr>"

definition header_size :: "(string list) smap \<Rightarrow> nat" where
  "header_size h = sum_list (map (\<lambda>(name, values). length name + sum_list (map length values)) h)"

definition validate :: "validator \<Rightarrow> request \<Rightarrow> bool \<times> string" where
  "validate v r =
     (if r_method r \<notin> set (v_AllowedMethods v) then (False, ''method_not_allowed'')
      else if v_MaxURLLength v < int (length (r_url r)) then (False, ''url_too_long'')
      else if str_contains (r_url r) [CHR 0x00] then (False, ''null_byte_url'')
      else if v_MaxBodySize v < r_contentLength r then (False, ''body_too_large'')
      else if v_MaxHeaderSize v < int (header_size (r_header r)) then (False, ''headers_too_large'')
      else if r_host r = [] then (False, ''missing_host'')
      else (True, []))"

section \<open>GracefulDegrader\<close>

record degradation_level =
  dl_Name :: string
  dl_RPSThreshold :: int
  dl_DisableFeatures :: "string list"
  dl_RateLimitFactor :: rat

definition newGracefulDegrader :: "degradation_level list" where
  "newGracefulDegrader =
     [\<lparr>dl_Name = ''normal'', dl_RPSThreshold = 0, dl_DisableFeatures = [], dl_RateLimitFactor = 1\<rparr>,
      \<lparr>dl_Name = ''elevated'', dl_RPSThreshold = 500,
       dl_DisableFeatures = [''detailed_logging'', ''slow_queries''],
       dl_RateLimitFactor = fl64 (8/10)\<rparr>,
      \<lparr>dl_Name = ''high'', dl_RPSThreshold = 2000,
       dl_DisableFeatures = [''detailed_logging'', ''slow_queries'', ''reputation_lookup'', ''geo_lookup''],
       dl_RateLimitFactor = fl64 (5/10)\<rparr>,
      \<lparr>dl_Name = ''critical'', dl_RPSThreshold = 5000,
       dl_DisableFeatures = [''detailed_logging'', ''slow_queries'', ''reputation_lookup'', ''geo_lookup'',
         ''waf_deep_inspect'', ''behavioral_analysis''],
       dl_RateLimitFactor = fl64 (2/10)\<rparr>,
      \<lparr>dl_Name = ''survival'', dl_RPSThreshold = 10000, dl_DisableFeatures = [''all_optional''],
       dl_RateLimitFactor = fl64 (1/10)\<rparr>]"

text \<open>The levels are tried from the last to the first; the first level is the default.\<close>

definition gd_evaluate :: "degradation_level list \<Rightarrow> int \<Rightarrow> degradation_level" where
  "gd_evaluate levels currentRPS =
     (case find (\<lambda>l. dl_RPSThreshold l \<le> currentRPS) (rev levels) of
        Some l \<Rightarrow> l
      | None \<Rightarrow> hd levels)"

definition isFeatureDisabled :: "degradation_level list \<Rightarrow> string \<Rightarrow> int \<Rightarrow> bool" where
  "isFeatureDisabled levels feature currentRPS \<longleftrightarrow>
     list_ex (\<lambda>f. feature = f \<or> f = ''all_optional'') (dl_DisableFeatures (gd_evaluate levels currentRPS))"

section \<open>Facts\<close>

lemma validate_accepts_iff:
  "fst (validate v r) \<longleftrightarrow>
     r_method r \<in> set (v_AllowedMethods v) \<and> int (length (r_url r)) \<le> v_MaxURLLength v \<and>
     CHR 0x00 \<notin> set (r_url r) \<and> r_contentLength r \<le> v_MaxBodySize v \<and>
     int (header_size (r_header r)) \<le> v_MaxHeaderSize v \<and> r_host r \<noteq> []"
proof -
  have "str_contains (r_url r) [CHR 0x00] \<longleftrightarrow> CHR 0x00 \<in> set (r_url r)"
    unfolding str_contains_iff by (auto dest: split_list)
  then show ?thesis by (auto simp: validate_def)
qed

lemma validate_reason: "fst (validate v r) \<longleftrightarrow> snd (validate v r) = []"
  by (simp add: validate_def)

text \<open>The default levels, by their thresholds.\<close>

lemma gd_evaluate_default:
  "gd_evaluate newGracefulDegrader rps = newGracefulDegrader !
     (if 10000 \<le> rps then 4 else if 5000 \<le> rps then 3 else if 2000 \<le> rps then 2
      else if 500 \<le> rps then 1 else 0)"
  by (simp add: gd_evaluate_def newGracefulDegrader_def)

lemma isFeatureDisabled_default:
  "isFeatureDisabled newGracefulDegrader f rps \<longleftrightarrow>
     10000 \<le> rps \<or>
     5000 \<le> rps \<and> f \<in> {''waf_deep_inspect'', ''behavioral_analysis''} \<or>
     2000 \<le> rps \<and> f \<in> {''reputation_lookup'', ''geo_lookup''} \<or>
     500 \<le> rps \<and> f \<in> {''detailed_logging'', ''slow_queries''}"
proof -
  consider "10000 \<le> rps" | "5000 \<le> rps" "rps < 10000" | "2000 \<le> rps" "rps < 5000"
    | "500 \<le> rps" "rps < 2000" | "rps < 500" by linarith
  then show ?thesis
    unfolding isFeatureDisabled_def gd_evaluate_default
    by cases (simp_all add: newGracefulDegrader_def disj_ac)
qed

section \<open>Properties\<close>

text \<open>
  A feature that the degrader switches off at some load stays off at every higher load: the five
  default levels only ever add disabled features, the wildcard of the last one included.
\<close>

theorem degrader_monotone:
  assumes "rps \<le> rps'" and "isFeatureDisabled newGracefulDegrader f rps"
  shows "isFeatureDisabled newGracefulDegrader f rps'"
  using assms unfolding isFeatureDisabled_default by (meson order_trans)

theorem degrader_monotone_witness:
  "isFeatureDisabled newGracefulDegrader ''geo_lookup'' 12000"
proof -
  have "isFeatureDisabled newGracefulDegrader ''geo_lookup'' 2500"
    by (simp add: isFeatureDisabled_default)
  then show ?thesis by (rule degrader_monotone [rotated]) simp
qed

text \<open>
  \<open>Validate\<close> accepts a request exactly when its method is allowed, its URL is within the length
  limit and holds no null byte, its declared body and its headers are within their limits and it names
  a host; a rejected request always carries a reason.
\<close>

theorem validate_spec:
  "(fst (validate v r) \<longleftrightarrow>
     r_method r \<in> set (v_AllowedMethods v) \<and> int (length (r_url r)) \<le> v_MaxURLLength v \<and>
     CHR 0x00 \<notin> set (r_url r) \<and> r_contentLength r \<le> v_MaxBodySize v \<and>
     int (header_size (r_header r)) \<le> v_MaxHeaderSize v \<and> r_host r \<noteq> [])
   \<and> (fst (validate v r) \<longleftrightarrow> snd (validate v r) = [])"
  using validate_accepts_iff validate_reason by blast

end
