(* ===== verification/TlsParser.thy ===== *)
theory TlsParser
  imports GoSlice
begin

text \<open>
  The ClientHello parser of \<open>packages/mango-waf/fingerprint/tls_parser.go\<close>. The record and handshake
  headers, the body's walk over session id, cipher suites, compression methods and extensions, and the
  six extension parsers are translated one by one; every reslicing keeps the capacity of the slice it
  is taken from, so the parser's panics are results of the model.
\<close>

datatype tls_error =
    DataTooShort
  | NotHandshake byte
  | IncompleteRecord nat nat
  | HandshakeTooShort
  | NotClientHello byte
  | IncompleteClientHello
  | BodyTooShort
  | TruncSessionID
  | TruncCipherSuitesLength
  | TruncCipherSuites
  | TruncCompression

record client_hello =
  ch_TLSVersion :: u16
  ch_CipherSuites :: "u16 list"
  ch_Extensions :: "u16 list"
  ch_EllipticCurves :: "u16 list"
  ch_ECPointFormats :: "byte list"
  ch_SignatureAlgs :: "u16 list"
  ch_ALPN :: "string list"
  ch_ServerName :: string
  ch_SupportedVersions :: "u16 list"

definition empty_hello :: client_hello where
  "empty_hello =
     \<lparr>ch_TLSVersion = 0, ch_CipherSuites = [], ch_Extensions = [], ch_EllipticCurves = [],
      ch_ECPointFormats = [], ch_SignatureAlgs = [], ch_ALPN = [], ch_ServerName = [],
      ch_SupportedVersions = []\<rparr>"

definition isGREASE :: "u16 \<Rightarrow> bool" where
  "isGREASE val \<longleftrightarrow> val AND 0x0f0f = 0x0a0a"

section \<open>The extension parsers\<close>

text \<open>Their guards keep every index inside the slice, so they read its visible bytes.\<close>

definition parseServerName :: "byte list \<Rightarrow> string" where
  "parseServerName data =
     (if length data < 5 then []
      else let nameLen = unat (be16 (data ! 3) (data ! 4))
           in if length data < 5 + nameLen then [] else bytes_str (take nameLen (drop 5 data)))"

text \<open>The loop \<open>for ; i+1 < bound && i+1 < len(data); i += 2\<close> of three of the parsers.\<close>

function u16_loop :: "byte list \<Rightarrow> nat \<Rightarrow> nat \<Rightarrow> u16 list" where
  "u16_loop data i bound =
     (if i + 1 < bound \<and> i + 1 < length data
      then be16 (data ! i) (data ! (i + 1)) # u16_loop data (i + 2) bound else [])"
  by pat_completeness auto
termination
  by (relation "measure (\<lambda>(data, i, bound). bound - i)") auto

definition parseSupportedGroups :: "byte list \<Rightarrow> u16 list" where
  "parseSupportedGroups data =
     (if length data < 2 then [] else u16_loop data 2 (2 + unat (be16 (data ! 0) (data ! 1))))"

definition parseECPointFormats :: "byte list \<Rightarrow> byte list" where
  "parseECPointFormats data =
     (if length data < 1 then [] else take (unat (data ! 0)) (drop 1 data))"

definition parseSignatureAlgorithms :: "byte list \<Rightarrow> u16 list" where
  "parseSignatureAlgorithms data =
     (if length data < 2 then [] else u16_loop data 2 (2 + unat (be16 (data ! 0) (data ! 1))))"

function alpn_loop :: "byte list \<Rightarrow> nat \<Rightarrow> nat \<Rightarrow> string list" where
  "alpn_loop data pos bound =
     (if pos < bound \<and> pos < length data
      then let pLen = unat (data ! pos); pos' = pos + 1
           in if length data < pos' + pLen then []
              else bytes_str (take pLen (drop pos' data)) # alpn_loop data (pos' + pLen) bound
      else [])"
  by pat_completeness auto
termination
  by (relation "measure (\<lambda>(data, pos, bound). bound - pos)") auto

definition parseALPN :: "byte list \<Rightarrow> string list" where
  "parseALPN data =
     (if length data < 2 then [] else alpn_loop data 2 (2 + unat (be16 (data ! 0) (data ! 1))))"

definition parseSupportedVersions :: "byte list \<Rightarrow> u16 list" where
  "parseSupportedVersions data =
     (if length data < 1 then [] else u16_loop data 1 (1 + unat (data ! 0)))"

declare u16_loop.simps [simp del] alpn_loop.simps [simp del]

section \<open>The body\<close>

text \<open>The \<open>switch extType\<close> of the extension loop.\<close>

definition set_extension :: "u16 \<Rightarrow> byte list \<Rightarrow> client_hello \<Rightarrow> client_hello" where
  "set_extension t d info =
     (if t = 0x0000 then info\<lparr>ch_ServerName := parseServerName d\<rparr>
      else if t = 0x000a then info\<lparr>ch_EllipticCurves := parseSupportedGroups d\<rparr>
      else if t = 0x000b then info\<lparr>ch_ECPointFormats := parseECPointFormats d\<rparr>
      else if t = 0x000d then info\<lparr>ch_SignatureAlgs := parseSignatureAlgorithms d\<rparr>
      else if t = 0x0010 then info\<lparr>ch_ALPN := parseALPN d\<rparr>
      else if t = 0x002b then info\<lparr>ch_SupportedVersions := parseSupportedVersions d\<rparr>
      else info)"

text \<open>The cipher suite loop \<open>for i := 0; i < csLen; i += 2\<close>: it reads two bytes per step.\<close>

function cs_loop :: "gslice \<Rightarrow> nat \<Rightarrow> nat \<Rightarrow> nat \<Rightarrow> (tls_error, u16 list) res" where
  "cs_loop data pos i csLen =
     (if i < csLen
      then rbind (g_u16 data (pos + i)) (\<lambda>cs.
           rbind (cs_loop data pos (i + 2) csLen) (\<lambda>rest. Ok (cs # rest)))
      else Ok [])"
  by pat_completeness auto
termination
  by (relation "measure (\<lambda>(data, pos, i, csLen). csLen - i)") auto

function ext_loop :: "gslice \<Rightarrow> nat \<Rightarrow> nat \<Rightarrow> client_hello \<Rightarrow> (tls_error, client_hello) res" where
  "ext_loop data pos extEnd info =
     (if pos + 4 \<le> extEnd
      then rbind (g_u16 data pos) (\<lambda>extType.
           rbind (g_u16 data (pos + 2)) (\<lambda>el.
           let extLen = unat el; pos' = pos + 4;
               info1 = info\<lparr>ch_Extensions := ch_Extensions info @ [extType]\<rparr>
           in rbind (g_slice data pos' (g_len data)) (\<lambda>d.
              rbind (if extLen < g_len d then g_slice d 0 extLen else Ok d) (\<lambda>extData.
              ext_loop data (pos' + extLen) extEnd
                (set_extension extType (g_bytes extData) info1)))))
      else Ok info)"
  by pat_completeness auto
termination
  by (relation "measure (\<lambda>(data, pos, extEnd, info). extEnd - pos)") auto

declare cs_loop.simps [simp del] ext_loop.simps [simp del]

text \<open>The highest supported version that is not GREASE replaces the legacy version.\<close>

definition max_version :: "u16 list \<Rightarrow> u16" where
  "max_version vs = fold (\<lambda>v m. if m < v \<and> \<not> isGREASE v then v else m) vs 0"

definition finish_version :: "client_hello \<Rightarrow> client_hello" where
  "finish_version info =
     (if ch_SupportedVersions info \<noteq> [] \<and> 0 < max_version (ch_SupportedVersions info)
      then info\<lparr>ch_TLSVersion := max_version (ch_SupportedVersions info)\<rparr> else info)"

text \<open>From the compression methods on.\<close>

definition body_tail :: "gslice \<Rightarrow> u16 \<Rightarrow> nat \<Rightarrow> u16 list \<Rightarrow> (tls_error, client_hello) res" where
  "body_tail data ver pos suites =
     (let n = g_len data in
      if n \<le> pos then Fail TruncCompression
      else rbind (g_index data pos) (\<lambda>ml.
      let pos = pos + 1 + unat ml;
          info = empty_hello\<lparr>ch_TLSVersion := ver, ch_CipherSuites := suites\<rparr> in
      if n < pos + 2 then Ok info
      else rbind (g_u16 data pos) (\<lambda>el.
      let pos = pos + 2; extEnd = (if n < pos + unat el then n else pos + unat el) in
      rbind (ext_loop data pos extEnd info) (\<lambda>info. Ok (finish_version info)))))"

definition parseClientHelloBody :: "gslice \<Rightarrow> (tls_error, client_hello) res" where
  "parseClientHelloBody data =
     (let n = g_len data in
      if n < 34 then Fail BodyTooShort
      else rbind (g_u16 data 0) (\<lambda>ver.
      let pos = 34 in
      if n \<le> pos then Fail TruncSessionID
      else rbind (g_index data pos) (\<lambda>sl.
      let pos = pos + 1 + unat sl in
      if n < pos + 2 then Fail TruncCipherSuitesLength
      else rbind (g_u16 data pos) (\<lambda>cl.
      let csLen = unat cl; pos = pos + 2 in
      if n < pos + csLen then Fail TruncCipherSuites
      else rbind (cs_loop data pos 0 csLen) (body_tail data ver (pos + csLen))))))"

section \<open>The record and handshake headers\<close>

definition parseClientHello :: "gslice \<Rightarrow> (tls_error, client_hello) res" where
  "parseClientHello data =
     (if g_len data < 5 then Fail DataTooShort
      else rbind (g_index data 0) (\<lambda>contentType.
      if contentType \<noteq> 0x16 then Fail (NotHandshake contentType)
      else rbind (g_u16 data 3) (\<lambda>rl.
      let recordLen = unat rl in
      if g_len data < 5 + recordLen then Fail (IncompleteRecord (5 + recordLen) (g_len data))
      else rbind (g_slice data 5 (5 + recordLen)) (\<lambda>hs.
      if g_len hs < 4 then Fail HandshakeTooShort
      else rbind (g_index hs 0) (\<lambda>hsType.
      if hsType \<noteq> 0x01 then Fail (NotClientHello hsType)
      else rbind (g_index hs 1) (\<lambda>a. rbind (g_index hs 2) (\<lambda>b. rbind (g_index hs 3) (\<lambda>c.
      let hsLen = unat (be24 a b c) in
      if g_len hs < 4 + hsLen then Fail IncompleteClientHello
      else rbind (g_slice hs 4 (4 + hsLen)) parseClientHelloBody))))))))"

section \<open>Where the parser panics\<close>

lemma ext_loop_no_panic:
  "g_ok data \<Longrightarrow> extEnd \<le> g_len data \<Longrightarrow> ext_loop data pos extEnd info \<noteq> Panic"
proof (induction data pos extEnd info rule: ext_loop.induct)
  case (1 data pos extEnd info)
  show ?case
    using 1 by (subst ext_loop.simps)
      (auto simp: rbind_Panic_iff g_u16_eq g_ok_def g_slice_def Let_def split: if_splits)
qed

lemma cs_loop_no_fail [simp]: "cs_loop data pos i csLen \<noteq> Fail e"
proof (induction data pos i csLen rule: cs_loop.induct)
  case (1 data pos i csLen)
  then show ?case
    by (subst cs_loop.simps) (cases "cs_loop data pos (i + 2) csLen"; simp add: g_u16_eq)
qed

text \<open>
  With the list inside the slice, the loop reads past the capacity exactly when the list's length is
  odd and the capacity ends with the list.
\<close>

lemma cs_loop_panic:
  assumes "pos + csLen \<le> length (g_arr data)" and "i \<le> csLen"
  shows "cs_loop data pos i csLen = Panic \<longleftrightarrow>
    odd (csLen - i) \<and> length (g_arr data) = pos + csLen"
  using assms
proof (induction data pos i csLen rule: cs_loop.induct)
  case (1 data pos i csLen)
  consider "i = csLen" | "i + 1 = csLen" | "i + 2 \<le> csLen" using "1.prems" by linarith
  then show ?case
  proof cases
    case 1
    then show ?thesis by (subst cs_loop.simps) simp
  next
    case 2
    have "cs_loop data pos (i + 2) csLen = Ok []"
      using 2 by (subst cs_loop.simps) simp
    then show ?thesis
      using 2 "1.prems" by (subst cs_loop.simps) (auto simp: g_u16_eq)
  next
    case 3
    then have "cs_loop data pos (i + 2) csLen = Panic \<longleftrightarrow>
        odd (csLen - (i + 2)) \<and> length (g_arr data) = pos + csLen"
      using "1.IH" "1.prems" by (simp add: g_u16_eq)
    with 3 "1.prems" show ?thesis
      by (subst cs_loop.simps) (auto simp: g_u16_eq rbind_Panic_iff)
  qed
qed

text \<open>The position and length of the cipher suite list of a body.\<close>

definition suites_at :: "byte list \<Rightarrow> nat" where
  "suites_at bs = 37 + unat (bs ! 34)"

definition suites_len :: "byte list \<Rightarrow> nat" where
  "suites_len bs = unat (be16 (bs ! (35 + unat (bs ! 34))) (bs ! (36 + unat (bs ! 34))))"

lemma body_tail_no_panic: "g_ok data \<Longrightarrow> body_tail data ver pos suites \<noteq> Panic"
  using ext_loop_no_panic [of data]
  by (auto simp: body_tail_def rbind_Panic_iff Let_def g_u16_eq g_index_def g_ok_def split: if_splits)

lemma body_at_suites:
  assumes "g_ok data" and "34 < g_len data" and "suites_at (g_arr data) \<le> g_len data"
    and "suites_at (g_arr data) + suites_len (g_arr data) \<le> g_len data"
  shows "parseClientHelloBody data =
    rbind (cs_loop data (suites_at (g_arr data)) 0 (suites_len (g_arr data)))
      (body_tail data (be16 (g_arr data ! 0) (g_arr data ! 1))
        (suites_at (g_arr data) + suites_len (g_arr data)))"
proof -
  have "2 \<le> length (g_arr data)" "37 + unat (g_arr data ! 34) \<le> length (g_arr data)"
    using assms by (simp_all add: g_ok_def suites_at_def)
  then show ?thesis
    using assms by (simp add: parseClientHelloBody_def Let_def g_u16_eq g_index_def suites_at_def suites_len_def)
qed

lemma body_before_suites:
  assumes "g_ok data"
    and "\<not> (34 < g_len data \<and> suites_at (g_arr data) \<le> g_len data \<and>
          suites_at (g_arr data) + suites_len (g_arr data) \<le> g_len data)"
  shows "parseClientHelloBody data \<noteq> Panic"
  using assms
  by (auto simp: parseClientHelloBody_def rbind_Panic_iff Let_def g_u16_eq g_index_def g_ok_def
      suites_at_def suites_len_def split: if_splits)

lemma body_panic_iff:
  assumes "g_ok data"
  shows "parseClientHelloBody data = Panic \<longleftrightarrow>
    34 < g_len data \<and> suites_at (g_arr data) \<le> g_len data \<and>
    odd (suites_len (g_arr data)) \<and>
    g_len data = suites_at (g_arr data) + suites_len (g_arr data) \<and>
    length (g_arr data) = g_len data"
proof (cases "34 < g_len data \<and> suites_at (g_arr data) \<le> g_len data \<and>
    suites_at (g_arr data) + suites_len (g_arr data) \<le> g_len data")
  case True
  then have "parseClientHelloBody data = Panic \<longleftrightarrow>
      cs_loop data (suites_at (g_arr data)) 0 (suites_len (g_arr data)) = Panic"
    using body_at_suites [OF assms] body_tail_no_panic [OF assms] by (simp add: rbind_Panic_iff)
  also have "\<dots> \<longleftrightarrow> odd (suites_len (g_arr data)) \<and>
      length (g_arr data) = suites_at (g_arr data) + suites_len (g_arr data)"
    using True assms cs_loop_panic [of "suites_at (g_arr data)" "suites_len (g_arr data)" data 0]
    by (simp add: g_ok_def)
  finally show ?thesis using True assms by (auto simp: g_ok_def)
next
  case False
  then show ?thesis using body_before_suites [OF assms False] by auto
qed

section \<open>The encoding of a ClientHello and what the parser makes of it\<close>

definition enc_ext :: "u16 \<times> byte list \<Rightarrow> byte list" where
  "enc_ext e = enc16 (fst e) @ enc16 (of_nat (length (snd e))) @ snd e"

definition enc_exts :: "(u16 \<times> byte list) list \<Rightarrow> byte list" where
  "enc_exts es = concat (map enc_ext es)"

definition enc_suites :: "u16 list \<Rightarrow> byte list" where
  "enc_suites css = concat (map enc16 css)"

record hello_parts =
  hp_version :: u16
  hp_random :: "byte list"
  hp_session :: "byte list"
  hp_suites :: "u16 list"
  hp_compression :: "byte list"
  hp_exts :: "(u16 \<times> byte list) list"

definition enc_body :: "hello_parts \<Rightarrow> byte list" where
  "enc_body h =
     enc16 (hp_version h) @ hp_random h @ [of_nat (length (hp_session h))] @ hp_session h @
     enc16 (of_nat (2 * length (hp_suites h))) @ enc_suites (hp_suites h) @
     [of_nat (length (hp_compression h))] @ hp_compression h @
     enc16 (of_nat (length (enc_exts (hp_exts h)))) @ enc_exts (hp_exts h)"

definition enc_hello :: "u16 \<Rightarrow> hello_parts \<Rightarrow> byte list" where
  "enc_hello recordVersion h =
     [0x16] @ enc16 recordVersion @ enc16 (of_nat (4 + length (enc_body h))) @
     [0x01] @ enc24 (of_nat (length (enc_body h))) @ enc_body h"

definition hello_fits :: "hello_parts \<Rightarrow> bool" where
  "hello_fits h \<longleftrightarrow> length (hp_random h) = 32 \<and> length (hp_session h) < 256 \<and>
     length (hp_compression h) < 256 \<and> length (enc_body h) + 4 < 65536"

definition add_ext :: "u16 \<times> byte list \<Rightarrow> client_hello \<Rightarrow> client_hello" where
  "add_ext e info =
     set_extension (fst e) (snd e) (info\<lparr>ch_Extensions := ch_Extensions info @ [fst e]\<rparr>)"

definition hello_info :: "hello_parts \<Rightarrow> client_hello" where
  "hello_info h =
     finish_version (fold add_ext (hp_exts h)
       (empty_hello\<lparr>ch_TLSVersion := hp_version h, ch_CipherSuites := hp_suites h\<rparr>))"

lemma length_enc_suites [simp]: "length (enc_suites css) = 2 * length css"
  by (induction css) (simp_all add: enc_suites_def)

lemma length_enc_ext [simp]: "length (enc_ext e) = 4 + length (snd e)"
  by (simp add: enc_ext_def)

lemma enc_exts_simps [simp]: "enc_exts [] = []" "enc_exts (e # es) = enc_ext e @ enc_exts es"
  by (simp_all add: enc_exts_def)

lemma enc_suites_simps [simp]: "enc_suites [] = []" "enc_suites (c # cs) = enc16 c @ enc_suites cs"
  by (simp_all add: enc_suites_def)

lemma g_u16_at: "g_arr s = pre @ enc16 v @ post \<Longrightarrow> i = length pre \<Longrightarrow> g_u16 s i = Ok v"
  by (simp add: g_u16_eq enc16_def nth_append)

lemma g_index_at: "g_arr s = pre @ b # post \<Longrightarrow> i = length pre \<Longrightarrow> i < g_len s \<Longrightarrow> g_index s i = Ok b"
  by (simp add: g_index_def nth_append)

lemma cs_loop_enc:
  "g_arr data = pre @ enc_suites css @ post \<Longrightarrow> pos + i = length pre \<Longrightarrow> csLen = i + 2 * length css \<Longrightarrow>
   cs_loop data pos i csLen = Ok css"
proof (induction css arbitrary: pre i)
  case Nil
  then show ?case by (subst cs_loop.simps) simp
next
  case (Cons c css)
  have "g_u16 data (pos + i) = (Ok c :: (tls_error, u16) res)"
    using Cons.prems by (intro g_u16_at [of _ pre _ "enc_suites css @ post"]) simp_all
  moreover have "cs_loop data pos (i + 2) csLen = Ok css"
    using Cons.prems by (intro Cons.IH [of "pre @ enc16 c"]) simp_all
  ultimately show ?case
    using Cons.prems by (subst cs_loop.simps) simp
qed

lemma ext_loop_enc:
  assumes "g_arr data = pre @ enc_exts es @ post" and "g_len data = length pre + length (enc_exts es)"
    and "length (enc_exts es) < 65536"
  shows "ext_loop data (length pre) (g_len data) info = Ok (fold add_ext es info)"
  using assms
proof (induction es arbitrary: pre info)
  case Nil
  then show ?case by (subst ext_loop.simps) simp
next
  case (Cons e es)
  let ?pos = "length pre" and ?n = "length (snd e)"
  have n: "unat (of_nat ?n :: u16) = ?n"
    using Cons.prems(3) by (intro unat_enc_len16) simp
  have r1: "g_u16 data ?pos = (Ok (fst e) :: (tls_error, u16) res)"
    using Cons.prems(1)
    by (intro g_u16_at [of _ pre _ "enc16 (of_nat ?n) @ snd e @ enc_exts es @ post"]) (simp_all add: enc_ext_def)
  have r2: "g_u16 data (?pos + 2) = (Ok (of_nat ?n) :: (tls_error, u16) res)"
    using Cons.prems(1)
    by (intro g_u16_at [of _ "pre @ enc16 (fst e)" _ "snd e @ enc_exts es @ post"]) (simp_all add: enc_ext_def)
  have arr: "drop (?pos + 4) (g_arr data) = snd e @ enc_exts es @ post"
    using Cons.prems(1) by (simp add: enc_ext_def)
  have cut: "g_slice data (?pos + 4) (g_len data) =
      (Ok \<lparr>g_arr = snd e @ enc_exts es @ post, g_len = ?n + length (enc_exts es)\<rparr> :: (tls_error, gslice) res)"
    using Cons.prems(1,2) arr by (simp add: g_slice_def)
  have bytes: "\<exists>t. (if ?n < ?n + length (enc_exts es)
      then g_slice \<lparr>g_arr = snd e @ enc_exts es @ post, g_len = ?n + length (enc_exts es)\<rparr> 0 ?n
      else Ok \<lparr>g_arr = snd e @ enc_exts es @ post, g_len = ?n + length (enc_exts es)\<rparr>) =
      (Ok t :: (tls_error, gslice) res) \<and> g_bytes t = snd e"
    by (auto simp: g_slice_def g_bytes_def)
  have ih: "ext_loop data (?pos + 4 + ?n) (g_len data) (add_ext e info) = Ok (fold add_ext es (add_ext e info))"
    using Cons.IH [of "pre @ enc_ext e" "add_ext e info"] Cons.prems by (simp add: add.assoc)
  show ?case
    using Cons.prems(2) bytes ih
    by (subst ext_loop.simps)
      (auto simp: r1 r2 [simplified] n cut [unfolded Cons.prems(2), simplified] Let_def add_ext_def)
qed

lemma body_enc:
  assumes "hello_fits h"
  shows "parseClientHelloBody (g_view (enc_body h) rest) = Ok (hello_info h)"
proof -
  let ?d = "g_view (enc_body h) rest"
  let ?v = "enc16 (hp_version h)" and ?r = "hp_random h" and ?s = "hp_session h"
  let ?cs = "enc_suites (hp_suites h)" and ?m = "hp_compression h" and ?x = "enc_exts (hp_exts h)"
  let ?ls = "of_nat (length ?s) :: byte" and ?lc = "enc16 (of_nat (2 * length (hp_suites h)))"
  let ?lm = "of_nat (length ?m) :: byte" and ?lx = "enc16 (of_nat (length ?x))"
  have arr: "g_arr ?d = ?v @ ?r @ ?ls # ?s @ ?lc @ ?cs @ ?lm # ?m @ ?lx @ ?x @ rest"
    by (simp add: g_view_def enc_body_def)
  have len: "g_len ?d = 41 + length ?s + 2 * length (hp_suites h) + length ?m + length ?x - 1"
    and r: "length ?r = 32"
    using assms by (simp_all add: g_view_def enc_body_def hello_fits_def)
  have small: "length ?s < 256" "length ?m < 256" "2 * length (hp_suites h) < 65536" "length ?x < 65536"
    using assms by (simp_all add: hello_fits_def enc_body_def)
  let ?p1 = "35 + length ?s" and ?p2 = "37 + length ?s + 2 * length (hp_suites h)"
  let ?p3 = "38 + length ?s + 2 * length (hp_suites h) + length ?m"
  have "g_u16 ?d 0 = (Ok (hp_version h) :: (tls_error, u16) res)"
    using arr by (intro g_u16_at [of _ "[]"]) simp_all
  moreover have "g_index ?d 34 = (Ok ?ls :: (tls_error, byte) res)"
    using arr len r by (intro g_index_at [of _ "?v @ ?r"]) simp_all
  moreover have "g_u16 ?d ?p1 = (Ok (of_nat (2 * length (hp_suites h))) :: (tls_error, u16) res)"
    using arr r by (intro g_u16_at [of _ "?v @ ?r @ ?ls # ?s"]) simp_all
  moreover have "cs_loop ?d (37 + length ?s) 0 (2 * length (hp_suites h)) = Ok (hp_suites h)"
    using arr r by (intro cs_loop_enc [of _ "?v @ ?r @ ?ls # ?s @ ?lc"]) simp_all
  moreover have "g_index ?d ?p2 = (Ok ?lm :: (tls_error, byte) res)"
    using arr len r by (intro g_index_at [of _ "?v @ ?r @ ?ls # ?s @ ?lc @ ?cs"]) simp_all
  moreover have "g_u16 ?d ?p3 = (Ok (of_nat (length ?x)) :: (tls_error, u16) res)"
    using arr r by (intro g_u16_at [of _ "?v @ ?r @ ?ls # ?s @ ?lc @ ?cs @ ?lm # ?m"]) simp_all
  moreover have "ext_loop ?d (?p3 + 2) (g_len ?d) info = Ok (fold add_ext (hp_exts h) info)" for info
    using ext_loop_enc [of ?d "?v @ ?r @ ?ls # ?s @ ?lc @ ?cs @ ?lm # ?m @ ?lx" "hp_exts h" rest info]
      arr len r small by (simp add: add.commute add.left_commute)
  moreover have "unat (2 * of_nat (length (hp_suites h)) :: u16) = 2 * length (hp_suites h)"
    using unat_enc_len16 [OF small(3)] by simp
  ultimately show ?thesis
    using len r small
    by (simp add: parseClientHelloBody_def body_tail_def Let_def unat_enc_len8 unat_enc_len16
        hello_info_def add.commute add.left_commute del: One_nat_def)
qed

text \<open>The whole message, with any record version and any bytes behind it in the same buffer.\<close>

lemma hello_enc_view:
  assumes "hello_fits h"
  shows "parseClientHello (g_view (enc_hello rv h) rest) = Ok (hello_info h)"
proof -
  let ?b = "enc_body h" and ?d = "g_view (enc_hello rv h) rest"
  let ?n = "length (enc_body h)"
  have n: "4 + ?n < 65536" using assms by (simp add: hello_fits_def)
  have arr: "g_arr ?d = 0x16 # enc16 rv @ enc16 (of_nat (4 + ?n)) @ 0x01 # enc24 (of_nat ?n) @ ?b @ rest"
    and len: "g_len ?d = 9 + ?n"
    by (simp_all add: g_view_def enc_hello_def)
  have "g_u16 ?d 3 = (Ok (of_nat (4 + ?n)) :: (tls_error, u16) res)"
    using arr by (intro g_u16_at [of _ "0x16 # enc16 rv"]) simp_all
  moreover have "unat (of_nat (4 + ?n) :: u16) = 4 + ?n"
    using n by (rule unat_enc_len16)
  moreover have "unat (of_nat ?n :: u32) = ?n" and "unat (of_nat ?n :: u32) < 2 ^ 24"
    using n by (simp_all add: unat_enc_len32)
  moreover have "be24 (ucast (drop_bit 16 (of_nat ?n :: u32))) (ucast (drop_bit 8 (of_nat ?n :: u32)))
      (ucast (of_nat ?n :: u32)) = of_nat ?n"
    using calculation(4) by (rule be24_enc)
  moreover have "drop 5 (g_arr ?d) = 0x01 # enc24 (of_nat ?n) @ ?b @ rest"
    using arr by (simp add: enc16_def)
  ultimately show ?thesis
    using len body_enc [OF assms] arr
    by (simp add: parseClientHello_def Let_def g_index_def g_slice_def enc24_def g_view_def)
qed

lemma hello_enc_slice: "hello_fits h \<Longrightarrow> parseClientHello (g_of (enc_hello rv h)) = Ok (hello_info h)"
  using hello_enc_view [of h rv "[]"] by (simp add: g_view_Nil)

section \<open>Properties\<close>

text \<open>
  C1: \<open>ParseClientHello\<close> reads back every well-formed ClientHello: for any version, random, session
  id, cipher suites, compression methods and extensions that fit the length fields, parsing the encoded
  record, whatever bytes follow it in the buffer, gives the suites and the extension types in their order, each known extension as its parser
  reads it, and the version the supported versions imply.
\<close>

theorem client_hello_roundtrip:
  assumes "hello_fits h"
  shows "parseClientHello (g_view (enc_hello rv h) rest) = Ok (hello_info h)"
  using assms by (rule hello_enc_view)

definition sample_hello :: hello_parts where
  "sample_hello =
     \<lparr>hp_version = 0x0303, hp_random = replicate 32 7, hp_session = [], hp_suites = [0x1301, 0x0a0a],
      hp_compression = [0], hp_exts = [(0x002b, [4, 3, 4, 3, 3]), (0x0010, [0, 3, 2, 0x68, 0x32])]\<rparr>"

theorem client_hello_roundtrip_witness:
  "parseClientHello (g_view (enc_hello 0x0301 sample_hello) [1, 2]) = Ok (hello_info sample_hello)"
  by (rule client_hello_roundtrip)
    (simp add: hello_fits_def sample_hello_def enc_body_def enc_exts_def enc_ext_def)

text \<open>
  C2: The body parser panics (an index past the capacity, which takes the process down) exactly when
  the cipher suite list has an odd length and the bytes of the message, with the capacity of their
  buffer, end with that list; on every other input it returns a value or an error.
\<close>

theorem body_panics_iff:
  assumes "g_ok data"
  shows "parseClientHelloBody data = Panic \<longleftrightarrow>
    34 < g_len data \<and> suites_at (g_arr data) \<le> g_len data \<and>
    odd (suites_len (g_arr data)) \<and>
    g_len data = suites_at (g_arr data) + suites_len (g_arr data) \<and>
    length (g_arr data) = g_len data"
  using assms by (rule body_panic_iff)

text \<open>The body of a 38-byte message whose cipher suite list has one byte.\<close>

definition odd_body :: gslice where
  "odd_body = g_of (replicate 34 0 @ [0, 0, 1, 0x13])"

theorem body_panics_iff_witness: "parseClientHelloBody odd_body = Panic"
  unfolding odd_body_def
  by (subst body_panics_iff)
    (simp_all add: suites_at_def suites_len_def g_of_def g_ok_def be16_def nth_append)

end
