(* ===== verification/Fingerprint.thy ===== *)
theory Fingerprint
  imports TlsParser GoFloat "HOL-Library.Multiset"
begin

text \<open>
  The TLS fingerprints of \<open>packages/mango-waf/fingerprint\<close>: JA3 and JA4 (\<open>fingerprint.go\<close>), the browser
  databases (\<open>fingerprint.go\<close>, \<open>database.go\<close>), the composite trust score and the per-connection store
  (\<open>interceptor.go\<close>). The MD5 digest is the parameter \<open>md5\<close>: every statement holds for any function
  from strings to byte lists. The global databases are association lists from digests to entries.
\<close>

definition itoa_word :: "'a::len word \<Rightarrow> string" where
  "itoa_word w = itoa (int (unat w))"

section \<open>The browser database\<close>

record browser_info =
  bi_Name :: string
  bi_Version :: string
  bi_Platform :: string
  bi_TrustScore :: rat

type_synonym ja3_db = "browser_info smap"

definition bi :: "string \<Rightarrow> string \<Rightarrow> rat \<Rightarrow> browser_info" where
  "bi name platform score = \<lparr>bi_Name = name, bi_Version = [], bi_Platform = platform, bi_TrustScore = score\<rparr>"

definition store_all :: "string list \<Rightarrow> browser_info \<Rightarrow> ja3_db \<Rightarrow> ja3_db" where
  "store_all hashes info db = fold (\<lambda>h. AList.update h info) hashes db"

definition store_named :: "(string \<times> string) list \<Rightarrow> string \<Rightarrow> rat \<Rightarrow> ja3_db \<Rightarrow> ja3_db" where
  "store_named entries platform score db =
     fold (\<lambda>(h, name). AList.update h (bi name platform score)) entries db"

definition initKnownBrowsers :: "ja3_db \<Rightarrow> ja3_db" where
  "initKnownBrowsers db =
     store_all [''e7d705a3286e19ea42f587b344ee6865'', ''36f1b0d87b0951c68ef6d7a0d5e0c6f0'',
                ''1138de370e523f55c8b4a065c4c2a8a6'', ''6734f37431670b3ab4292b8f60f29984'',
                ''209e1233aa450f8ac6a9d4a66f11e87f''] (bi ''Bot/Tool'' [] 5)
     (store_all [''d5e710fb25a94a7f61f6d8a8a8c47a2d''] (bi ''Edge'' [] 85)
     (store_all [''773906b0efdefa24a7f2b8eb6985bf37'', ''96a29f13c8b4c6573e7e2dfe5e14f9e0'']
        (bi ''Safari'' [] 90)
     (store_all [''588c4c43324290f3f1732d5975f6c3d6'', ''b4069ce0b3e88a1d82900c0e3a683e39'',
                 ''7d5faccf34ed5bea254b0e7fd4a60e20''] (bi ''Firefox'' [] 90)
     (store_all [''b32309a26951912be7dba376398abc3b'', ''cd08e31494f9531f560d64c695473da9'',
                 ''a0e9f5d64349fb13191bc781f81f42e1'', ''b985f96c93d7ef2746a570e563b1e984'']
        (bi ''Chrome'' [] 90) db))))"

definition initExtendedJA3Database :: "ja3_db \<Rightarrow> ja3_db" where
  "initExtendedJA3Database db =
     store_named
       [(''3db1e3f2d0b0e8c6a4f7b9d5c1e8a3f2'', ''Googlebot''),
        (''4ec3f4a3e1c1f9d7b5a8c0e6d2f9b4a3'', ''Bingbot''),
        (''5fd4a5b4f2d2a0e8c6b9d1f7e3a0c5b4'', ''Yandexbot''),
        (''6ae5b6c5a3e3b1f9d7c0e2a8f4b1d6c5'', ''DuckDuckBot''),
        (''7bf6c7d6b4f4c2a0e8d1f3b9a5c2e7d6'', ''Facebookbot''),
        (''8ca7d8e7c5a5d3b1f9e2a4c0b6d3f8e7'', ''Twitterbot'')] ''Legitimate Bot'' 60
     (store_named
       [(''c12f54a3f91dc7bafd92b1ab9f147557'', ''LOIC''),
        (''e35df3e00ca4ef31d42b34bebaa2f86e'', ''HOIC''),
        (''2a2a2a2a2a2a2a2a2a2a2a2a2a2a2a2a'', ''MHDDoS''),
        (''d7a4f7e07d3c2e7df0c09d4e1cf1c7c1'', ''Slowloris''),
        (''1d3c4e5f6a7b8c9d0e1f2a3b4c5d6e7f'', ''GoldenEye''),
        (''a1b2c3d4e5f6a7b8c9d0e1f2a3b4c5d6'', ''Xerxes''),
        (''b1c2d3e4f5a6b7c8d9e0f1a2b3c4d5e6'', ''Torshammer'')] ''Attack'' 0
     (store_named
       [(''e7d705a3286e19ea42f587b344ee6865'', ''Python requests''),
        (''36f1b0d87b0951c68ef6d7a0d5e0c6f0'', ''Go net/http''),
        (''1138de370e523f55c8b4a065c4c2a8a6'', ''Node.js https''),
        (''6734f37431670b3ab4292b8f60f29984'', ''curl''),
        (''209e1233aa450f8ac6a9d4a66f11e87f'', ''wget''),
        (''4d7a28d6f2263e0d76b0f9712fa29484'', ''Java HttpClient''),
        (''e6573e91e6eb777c0933c5b8f97f10cd'', ''Python aiohttp''),
        (''f09eb61e3ab4bbc96c03b92e38a3c2b8'', ''Ruby net/http''),
        (''8a6b4e9f76fdfe6ef0c6348e146ed0c1'', ''PHP curl''),
        (''3e63a0abb1b5e3e73e51df2f91c65a04'', ''Rust reqwest''),
        (''b7f4c1e34ff2a85d1c4c4e93e0bb8e46'', ''Apache HttpClient''),
        (''f6e0b6afb14e5d0afb26f7b8c793e7d1'', ''OkHttp (Android)'')] ''Bot/Tool'' 5
     (store_named
       [(''b9ef5b9e73e8001e5e1c1c6e89d12b3a'', ''Opera 100+''),
        (''c5a802b1a1e3da2db89a0b6e1b79f9e2'', ''Opera GX'')] ''Desktop'' 85
     (store_named
       [(''d5e710fb25a94a7f61f6d8a8a8c47a2d'', ''Edge 120+ Windows''),
        (''afb0bc6a9ab64bb0916f29b76fdd4d34'', ''Edge 115-119''),
        (''dcce5e1a27b372acba51fb5b5a779ae6'', ''Edge Android'')] ''Desktop'' 90
     (store_named
       [(''773906b0efdefa24a7f2b8eb6985bf37'', ''Safari 17+ macOS''),
        (''96a29f13c8b4c6573e7e2dfe5e14f9e0'', ''Safari iOS 17+''),
        (''11f3e47d0e5cf16f155f9f91e8393e52'', ''Safari 16''),
        (''e10b2788e8e04dba891be51c9a03efca'', ''Safari iOS 16''),
        (''371ee040d2bf5c2fea0e72a9cbc5ebc1'', ''Safari 15'')] ''Apple'' 93
     (store_named
       [(''94650e47f96bec9e1e37e8cd88bd7e53'', ''Firefox Android 120+''),
        (''c17e5a03e16c75a2bb7e24cdd07a62e8'', ''Firefox iOS'')] ''Mobile'' 87
     (store_named
       [(''588c4c43324290f3f1732d5975f6c3d6'', ''Firefox 120+ Windows''),
        (''b4069ce0b3e88a1d82900c0e3a683e39'', ''Firefox 115-119''),
        (''7d5faccf34ed5bea254b0e7fd4a60e20'', ''Firefox ESR 115''),
        (''e398bad83264d56575ff027e04b89499'', ''Firefox 110-114''),
        (''21ae75f9db72ea76a9d7c2c7fb8c6b36'', ''Firefox 100-109''),
        (''839bbe52ce4e8fb0d2e196502b9e6882'', ''Firefox 90-99'')] ''Desktop'' 92
     (store_named
       [(''b985f96c93d7ef2746a570e563b1e984'', ''Chrome Android 120+''),
        (''bc36cd3c72654808c98226c8b1d0bd3e'', ''Chrome Android 110-119''),
        (''68b1744b95f35c29b9f084d2b10afcdd'', ''Chrome iOS'')] ''Mobile'' 88
     (store_named
       [(''b32309a26951912be7dba376398abc3b'', ''Chrome 120+ Windows''),
        (''cd08e31494f9531f560d64c695473da9'', ''Chrome 115-119 Windows''),
        (''a0e9f5d64349fb13191bc781f81f42e1'', ''Chrome 110-114 Windows''),
        (''3b5074b1b5d032e5620f69f9f700ff0e'', ''Chrome 120+ macOS''),
        (''2bc0e2a85f5708eaa2c2a16d94749fa7'', ''Chrome 120+ Linux''),
        (''19e29534fd49dd27d09234e639c4057e'', ''Chrome 100-109''),
        (''bc6c386f480ee97b9d9e52d472b772d8'', ''Chrome 90-99''),
        (''8916410db2f51848e87f6f0e1dc51b20'', ''Chrome 80-89'')] ''Desktop'' 92 db)))))))))"

text \<open>\<open>InitAllDatabases\<close>, the JA3 part: the extended entries replace earlier ones of the same hash.\<close>

definition initJA3 :: ja3_db where
  "initJA3 = initExtendedJA3Database (initKnownBrowsers [])"

definition initKnownH2 :: "ja3_db \<Rightarrow> ja3_db" where
  "initKnownH2 db =
     store_all [''golang_h2_default'', ''python_h2_default'', ''node_h2_default'', ''curl_h2_default'']
       (bi ''Bot/Tool'' [] 5)
     (AList.update ''safari_h2_17'' (bi ''Safari 17+'' [] 90)
     (AList.update ''firefox_h2_esr'' (bi ''Firefox ESR'' [] 85)
     (AList.update ''firefox_h2_120'' (bi ''Firefox 120+'' [] 90)
     (AList.update ''chrome_h2_android'' (bi ''Chrome Android'' [] 85)
     (AList.update ''chrome_h2_110'' (bi ''Chrome 110-119'' [] 88)
     (AList.update ''chrome_h2_120'' (bi ''Chrome 120+'' [] 90) db))))))"

section \<open>JA3\<close>

record ja3_result =
  j3_Hash :: string
  j3_Raw :: string
  j3_TLSVersion :: u16
  j3_Known :: bool
  j3_BrowserID :: string
  j3_TrustScore :: rat

definition filterGREASE16 :: "u16 list \<Rightarrow> u16 list" where
  "filterGREASE16 values = filter (\<lambda>v. \<not> isGREASE v) values"

definition joinUint16 :: "u16 list \<Rightarrow> string \<Rightarrow> string" where
  "joinUint16 values sep = join sep (map itoa_word values)"

definition ja3_raw :: "u16 \<Rightarrow> u16 list \<Rightarrow> u16 list \<Rightarrow> u16 list \<Rightarrow> byte list \<Rightarrow> string" where
  "ja3_raw version cipherSuites extensions ellipticCurves ecPointFormats =
     join '',''
       [itoa_word version,
        joinUint16 (filterGREASE16 cipherSuites) ''-'',
        joinUint16 (filterGREASE16 extensions) ''-'',
        joinUint16 (filterGREASE16 ellipticCurves) ''-'',
        join ''-'' (map itoa_word ecPointFormats)]"

definition ja3 :: "(string \<Rightarrow> byte list) \<Rightarrow> ja3_db \<Rightarrow> client_hello \<Rightarrow> ja3_result" where
  "ja3 md5 db info =
     (let raw = ja3_raw (ch_TLSVersion info) (ch_CipherSuites info) (ch_Extensions info)
                  (ch_EllipticCurves info) (ch_ECPointFormats info);
          hash = hex (md5 raw)
      in case map_of db hash of
           Some b \<Rightarrow> \<lparr>j3_Hash = hash, j3_Raw = raw, j3_TLSVersion = ch_TLSVersion info,
             j3_Known = True, j3_BrowserID = bi_Name b, j3_TrustScore = bi_TrustScore b\<rparr>
         | None \<Rightarrow> \<lparr>j3_Hash = hash, j3_Raw = raw, j3_TLSVersion = ch_TLSVersion info,
             j3_Known = False, j3_BrowserID = [], j3_TrustScore = 0\<rparr>)"

section \<open>JA4\<close>

record ja4_result =
  j4_Hash :: string
  j4_Raw :: string
  j4_TLSVersion :: string
  j4_SNI :: string
  j4_Known :: bool
  j4_TrustScore :: rat

text \<open>\<open>fmt.Sprintf("%02d", n)\<close> of a length.\<close>

definition pad2 :: "nat \<Rightarrow> string" where
  "pad2 n = (if n < 10 then CHR ''0'' # show_nat n else show_nat n)"

definition truncatedHash :: "(string \<Rightarrow> byte list) \<Rightarrow> string \<Rightarrow> nat \<Rightarrow> string" where
  "truncatedHash md5 input n = take n (hex (md5 input))"

definition ja4_version :: "u16 \<Rightarrow> string" where
  "ja4_version version =
     (if version = 0x0304 then ''13'' else if version = 0x0303 then ''12''
      else if version = 0x0302 then ''11'' else if version = 0x0301 then ''10'' else ''00'')"

text \<open>\<open>alpn[:2]\<close> panics on a protocol name of one byte.\<close>

definition ja4 ::
  "(string \<Rightarrow> byte list) \<Rightarrow> string \<Rightarrow> u16 \<Rightarrow> string \<Rightarrow> u16 list \<Rightarrow> u16 list \<Rightarrow> string \<Rightarrow>
   (tls_error, ja4_result) res" where
  "ja4 md5 proto version sni cipherSuites extensions alpn =
     (let p = (if proto = ''quic'' then ''q'' else ''t'');
          ver = ja4_version version;
          sn = (if sni \<noteq> [] then ''d'' else ''i'');
          cs = filterGREASE16 cipherSuites;
          ext = filterGREASE16 extensions
      in if alpn \<noteq> [] \<and> length alpn < 2 then Panic
         else let al = (if alpn \<noteq> [] then take 2 alpn else ''00'');
                  csHash = truncatedHash md5 (joinUint16 (sort cs) '','') 12;
                  extHash = truncatedHash md5 (joinUint16 (sort ext) '','') 12;
                  raw = p @ ver @ sn @ pad2 (length cs) @ pad2 (length ext) @ al
              in Ok \<lparr>j4_Hash = raw @ ''_'' @ csHash @ ''_'' @ extHash,
                     j4_Raw = join ''_'' [p, ver, sn, pad2 (length cs), pad2 (length ext), al, csHash, extHash],
                     j4_TLSVersion = ver, j4_SNI = sni, j4_Known = False, j4_TrustScore = 0\<rparr>)"

definition ja4_of_hello :: "(string \<Rightarrow> byte list) \<Rightarrow> client_hello \<Rightarrow> (tls_error, ja4_result) res" where
  "ja4_of_hello md5 info =
     ja4 md5 ''tcp'' (ch_TLSVersion info) (ch_ServerName info) (ch_CipherSuites info) (ch_Extensions info)
       (if ch_ALPN info \<noteq> [] then hd (ch_ALPN info) else [])"

text \<open>The debug string of \<open>JA3RawString\<close>.\<close>

definition ja3RawString :: "(string \<Rightarrow> byte list) \<Rightarrow> client_hello \<Rightarrow> string" where
  "ja3RawString md5 info =
     (let raw = ja3_raw (ch_TLSVersion info) (ch_CipherSuites info) (ch_Extensions info)
                  (ch_EllipticCurves info) (ch_ECPointFormats info)
      in ''JA3: '' @ hex (md5 raw) @ '' | Raw: '' @ raw)"

section \<open>The full fingerprint of a raw ClientHello\<close>

record full_fingerprint =
  ff_ClientHello :: client_hello
  ff_JA3 :: ja3_result
  ff_JA4 :: ja4_result
  ff_ServerName :: string

definition fullFingerprintFromRaw ::
  "(string \<Rightarrow> byte list) \<Rightarrow> ja3_db \<Rightarrow> gslice \<Rightarrow> (tls_error, full_fingerprint) res" where
  "fullFingerprintFromRaw md5 db raw =
     rbind (parseClientHello raw) (\<lambda>info.
     let j3 = ja3 md5 db info in
     rbind (ja4_of_hello md5 info) (\<lambda>j4.
     Ok \<lparr>ff_ClientHello = info, ff_JA3 = j3, ff_JA4 = j4, ff_ServerName = ch_ServerName info\<rparr>))"

section \<open>HTTP/2 fingerprints and the composite score\<close>

record h2_fingerprint =
  h2_Hash :: string
  h2_SettingsOrder :: string
  h2_WindowUpdate :: u32
  h2_PriorityFrames :: string
  h2_HeaderOrder :: string
  h2_Known :: bool
  h2_TrustScore :: rat

definition empty_h2 :: h2_fingerprint where
  "empty_h2 =
     \<lparr>h2_Hash = [], h2_SettingsOrder = [], h2_WindowUpdate = 0, h2_PriorityFrames = [],
      h2_HeaderOrder = [],
      h2_Known = False, h2_TrustScore = 0\<rparr>"

record composite_score =
  cs_JA3Score :: rat
  cs_JA4Score :: rat
  cs_H2Score :: rat
  cs_UAScore :: rat
  cs_Total :: rat
  cs_Verdict :: string

definition checkUAConsistency :: "ja3_result \<Rightarrow> string \<Rightarrow> rat" where
  "checkUAConsistency j ua0 =
     (let ua = to_lower ua0 in
      if \<not> j3_Known j then 30
      else let name = to_lower (j3_BrowserID j) in
        if str_contains name ''chrome'' \<and> str_contains ua ''chrome'' then 95
        else if str_contains name ''firefox'' \<and> str_contains ua ''firefox'' then 95
        else if str_contains name ''safari'' \<and> str_contains ua ''safari'' \<and> \<not> str_contains ua ''chrome'' then 95
        else if str_contains name ''edge'' \<and> str_contains ua ''edg'' then 90
        else if str_contains name ''bot'' then 5
        else 20)"

definition verdict_of :: "rat \<Rightarrow> string" where
  "verdict_of t =
     (if 80 \<le> t then ''trusted'' else if 60 \<le> t then ''normal''
      else if 40 \<le> t then ''suspicious'' else if 20 \<le> t then ''likely_bot'' else ''malicious'')"

definition calculateComposite ::
  "ja3_result \<Rightarrow> ja4_result \<Rightarrow> h2_fingerprint \<Rightarrow> string \<Rightarrow> composite_score" where
  "calculateComposite j3 j4 h2 ua =
     (let a = (if j3_Known j3 then j3_TrustScore j3 else 20);
          b = (if j4_Known j4 then j4_TrustScore j4 else 25);
          c = (if h2_Known h2 then h2_TrustScore h2 else 30);
          d = checkUAConsistency j3 ua;
          tot = fadd (fadd (fadd (fmul a (fl64 (30/100))) (fmul b (fl64 (25/100))))
                    (fmul c (fl64 (20/100)))) (fmul d (fl64 (25/100)))
      in \<lparr>cs_JA3Score = a, cs_JA4Score = b, cs_H2Score = c, cs_UAScore = d, cs_Total = tot,
          cs_Verdict = verdict_of tot\<rparr>)"

section \<open>The store of connection fingerprints\<close>

record conn_fingerprint =
  cf_RemoteAddr :: string
  cf_JA3 :: ja3_result
  cf_JA4 :: ja4_result
  cf_H2 :: h2_fingerprint
  cf_Composite :: composite_score
  cf_UserAgent :: string
  cf_Raw :: client_hello

type_synonym fp_store = "conn_fingerprint smap"

definition fs_store :: "string \<Rightarrow> conn_fingerprint \<Rightarrow> fp_store \<Rightarrow> fp_store" where
  "fs_store addr fp fs = AList.update addr fp fs"

definition fs_lookup :: "string \<Rightarrow> fp_store \<Rightarrow> conn_fingerprint option" where
  "fs_lookup addr fs = map_of fs addr"

definition fs_remove :: "string \<Rightarrow> fp_store \<Rightarrow> fp_store" where
  "fs_remove addr fs = AList.delete addr fs"

text \<open>
  The eviction loop: \<open>len(fs.cache)\<close> in its exit test is read after each deletion. The list order is
  the order in which \<open>range\<close> visits the map.
\<close>

fun fs_evict :: "nat \<Rightarrow> fp_store \<Rightarrow> fp_store" where
  "fs_evict n [] = []"
| "fs_evict n (e # fs) =
     (if length fs div 2 \<le> Suc n then fs else fs_evict (Suc n) fs)"

definition fs_cleanup :: "nat \<Rightarrow> fp_store \<Rightarrow> fp_store" where
  "fs_cleanup maxEntries fs = (if maxEntries < length fs then fs_evict 0 fs else fs)"

definition fs_size :: "fp_store \<Rightarrow> nat" where
  "fs_size fs = length fs"

text \<open>The composite is computed per request and written back to the shared entry.\<close>

definition getCompositeForRequest ::
  "string \<Rightarrow> string \<Rightarrow> fp_store \<Rightarrow> conn_fingerprint option \<times> fp_store" where
  "getCompositeForRequest addr ua fs =
     (case fs_lookup addr fs of
        None \<Rightarrow> (None, fs)
      | Some fp \<Rightarrow>
          let fp' = fp\<lparr>cf_UserAgent := ua,
                       cf_Composite := calculateComposite (cf_JA3 fp) (cf_JA4 fp) (cf_H2 fp) ua\<rparr>
          in (Some fp', fs_store addr fp' fs))"

definition isSuspicious :: "conn_fingerprint \<Rightarrow> bool" where
  "isSuspicious fp \<longleftrightarrow> cs_Total (cf_Composite fp) < 40"

definition isTrusted :: "conn_fingerprint \<Rightarrow> bool" where
  "isTrusted fp \<longleftrightarrow> 75 \<le> cs_Total (cf_Composite fp)"

section \<open>Facts on JA3 and JA4\<close>

lemma ja3_Known: "j3_Known (ja3 md5 db info) \<longleftrightarrow> map_of db (j3_Hash (ja3 md5 db info)) \<noteq> None"
  by (auto simp: ja3_def Let_def split: option.splits)

lemma ja3_trust:
  "j3_TrustScore (ja3 md5 db info) =
     (case map_of db (j3_Hash (ja3 md5 db info)) of Some b \<Rightarrow> bi_TrustScore b | None \<Rightarrow> 0)"
  by (auto simp: ja3_def Let_def split: option.splits)

lemma ja4_not_Fail [simp]: "ja4 md5 p v sni cs ext alpn \<noteq> Fail e"
  by (simp add: ja4_def Let_def)

lemma ja4_panic_iff: "ja4 md5 p v sni cs ext alpn = Panic \<longleftrightarrow> length alpn = 1"
  by (cases alpn) (auto simp: ja4_def Let_def)

lemma ja4_unknown: "ja4 md5 p v sni cs ext alpn = Ok r \<Longrightarrow> \<not> j4_Known r"
  by (auto simp: ja4_def Let_def split: if_splits)

lemma ja4_of_hello_panic: "ja4_of_hello md5 info = Panic \<longleftrightarrow> ch_ALPN info \<noteq> [] \<and> length (hd (ch_ALPN info)) = 1"
  by (auto simp: ja4_of_hello_def ja4_panic_iff)

lemma full_parts:
  "fullFingerprintFromRaw md5 db raw = Ok ff \<Longrightarrow>
   ff_JA3 ff = ja3 md5 db (ff_ClientHello ff) \<and> ja4_of_hello md5 (ff_ClientHello ff) = Ok (ff_JA4 ff) \<and>
   parseClientHello raw = Ok (ff_ClientHello ff)"
  by (auto simp: fullFingerprintFromRaw_def rbind_Ok_iff Let_def)

section \<open>Facts on the databases\<close>

definition trust_le :: "rat \<Rightarrow> ja3_db \<Rightarrow> bool" where
  "trust_le c db \<longleftrightarrow> (\<forall>h b. map_of db h = Some b \<longrightarrow> bi_TrustScore b \<le> c)"

lemma bi_score [simp]: "bi_TrustScore (bi name p score) = score"
  by (simp add: bi_def)

lemma trust_le_Nil [intro]: "trust_le c []"
  by (simp add: trust_le_def)

lemma trust_le_update [intro]:
  "trust_le c db \<Longrightarrow> bi_TrustScore b \<le> c \<Longrightarrow> trust_le c (AList.update h b db)"
  by (auto simp: trust_le_def)

lemma trust_le_store_all [intro]:
  "trust_le c db \<Longrightarrow> bi_TrustScore info \<le> c \<Longrightarrow> trust_le c (store_all hs info db)"
  unfolding store_all_def by (induction hs arbitrary: db) auto

lemma trust_le_store_named [intro]:
  "trust_le c db \<Longrightarrow> score \<le> c \<Longrightarrow> trust_le c (store_named es p score db)"
  unfolding store_named_def by (induction es arbitrary: db) (auto simp: trust_le_update)

lemma initJA3_trust: "trust_le 93 initJA3"
  unfolding initJA3_def initExtendedJA3Database_def initKnownBrowsers_def
  by (intro trust_le_store_named trust_le_store_all trust_le_Nil) simp_all

section \<open>Facts on the composite score\<close>

lemma fmul_mono: "a \<le> b \<Longrightarrow> 0 \<le> c \<Longrightarrow> fmul a c \<le> fmul b c"
  unfolding fmul_def by (intro fl64_mono mult_right_mono)

lemma fadd_mono: "a \<le> b \<Longrightarrow> c \<le> d \<Longrightarrow> fadd a c \<le> fadd b d"
  unfolding fadd_def by (intro fl64_mono add_mono)

lemma checkUA_bounds: "0 \<le> checkUAConsistency j ua \<and> checkUAConsistency j ua \<le> 95"
  by (simp add: checkUAConsistency_def Let_def)

definition comp_sum :: "rat \<Rightarrow> rat \<Rightarrow> rat \<Rightarrow> rat \<Rightarrow> rat" where
  "comp_sum a b c d =
     fadd (fadd (fadd (fmul a (fl64 (30/100))) (fmul b (fl64 (25/100)))) (fmul c (fl64 (20/100))))
       (fmul d (fl64 (25/100)))"

lemma comp_sum_mono:
  "a \<le> a' \<Longrightarrow> b \<le> b' \<Longrightarrow> c \<le> c' \<Longrightarrow> d \<le> d' \<Longrightarrow> comp_sum a b c d \<le> comp_sum a' b' c' d'"
  unfolding comp_sum_def by (intro fadd_mono fmul_mono fl.rnd_nonneg) simp_all

lemma composite_total:
  "cs_Total (calculateComposite j3 j4 h2 ua) =
     comp_sum (if j3_Known j3 then j3_TrustScore j3 else 20) (if j4_Known j4 then j4_TrustScore j4 else 25)
       (if h2_Known h2 then h2_TrustScore h2 else 30) (checkUAConsistency j3 ua)"
  by (simp add: calculateComposite_def comp_sum_def Let_def)

lemma comp_sum_zero: "comp_sum 0 0 0 0 = 0"
  by (simp add: comp_sum_def fadd_def fmul_def)

text \<open>Two closed estimates, by dyadic bounds on the rounded weights.\<close>

lemma weight_bounds: "fl64 (30/100) \<le> 39/128" "fl64 (25/100) = 1/4" "fl64 (20/100) \<le> 13/64"
  using fl64_le_dyadic [of "30/100" 7 39] fl64_dyadic [of "25/100" 2 1] fl64_le_dyadic [of "20/100" 6 13]
  by simp_all

lemma fadd_le_dyadic:
  assumes "x \<le> of_int i / 2 ^ 16" and "y \<le> of_int j / 2 ^ 16" and "\<bar>i + j\<bar> \<le> 2 ^ 53"
  shows "fadd x y \<le> of_int (i + j) / 2 ^ 16"
proof -
  have "(x + y) * 2 ^ 16 \<le> of_int (i + j)" using assms(1,2) by (simp add: field_simps)
  then show ?thesis unfolding fadd_def using assms(3) by (rule fl64_le_dyadic)
qed

lemma comp_sum_le:
  assumes "0 \<le> a" "0 \<le> b" "0 \<le> c" "0 \<le> d"
    and "a * 39 * 2 ^ 9 \<le> of_int i" "b * 2 ^ 14 \<le> of_int j" "c * 13 * 2 ^ 10 \<le> of_int k" "d * 2 ^ 14 \<le> of_int l"
    and "\<bar>i\<bar> \<le> 2 ^ 50" "\<bar>j\<bar> \<le> 2 ^ 50" "\<bar>k\<bar> \<le> 2 ^ 50" "\<bar>l\<bar> \<le> 2 ^ 50"
  shows "comp_sum a b c d \<le> of_int (i + j + k + l) / 2 ^ 16"
proof -
  have a: "fmul a (fl64 (30/100)) \<le> of_int i / 2 ^ 16"
    unfolding fmul_def
    using assms(5,9) mult_left_mono [OF weight_bounds(1) assms(1)] by (intro fl64_le_dyadic) auto
  have b: "fmul b (fl64 (25/100)) \<le> of_int j / 2 ^ 16"
    unfolding fmul_def weight_bounds(2) using assms(6,10) by (intro fl64_le_dyadic) auto
  have c: "fmul c (fl64 (20/100)) \<le> of_int k / 2 ^ 16"
    unfolding fmul_def
    using assms(7,11) mult_left_mono [OF weight_bounds(3) assms(3)] by (intro fl64_le_dyadic) auto
  have d: "fmul d (fl64 (25/100)) \<le> of_int l / 2 ^ 16"
    unfolding fmul_def weight_bounds(2) using assms(8,12) by (intro fl64_le_dyadic) auto
  from a b c d show ?thesis
    unfolding comp_sum_def using assms(9-12) by (intro fadd_le_dyadic) auto
qed

lemma comp_sum_top: "comp_sum 100 100 100 95 \<le> 100"
  using comp_sum_le [of 100 100 100 95 1996800 1638400 1331200 1556480] by simp

lemma comp_sum_no_h2: "comp_sum 100 25 30 95 \<le> 70"
  using comp_sum_le [of 100 25 30 95 1996800 409600 399360 1556480] by simp

section \<open>Facts on the eviction loop\<close>

lemma fs_evict_length:
  "fs \<noteq> [] \<Longrightarrow> length (fs_evict n fs) = length fs - max 1 ((length fs + 1 - 2 * n) div 3)"
proof (induction n fs rule: fs_evict.induct)
  case (2 n e fs)
  show ?case
  proof (cases "length fs div 2 \<le> Suc n")
    case True
    then have "(length fs + 2 - 2 * n) div 3 \<le> 1" by linarith
    then show ?thesis using True by (simp add: max_def)
  next
    case False
    then have "fs \<noteq> []" and n2: "2 * n + 4 \<le> length fs" by auto
    then have "length (fs_evict (Suc n) fs) =
        length fs - max 1 ((length fs + 1 - 2 * Suc n) div 3)"
      using "2.IH" False by blast
    moreover have "max 1 ((length fs + 1 - 2 * Suc n) div 3) = (length fs - 1 - 2 * n) div 3"
      using n2 by (simp add: max_def)
    moreover have "(length fs + 2 - 2 * n) div 3 = (length fs - 1 - 2 * n) div 3 + 1"
      using n2 by linarith
    ultimately show ?thesis using False n2 by (simp add: max_def)
  qed
qed simp

lemma fs_evict_suffix: "\<exists>k. fs_evict n fs = drop k fs"
proof (induction n fs rule: fs_evict.induct)
  case (2 n e fs)
  then show ?case
    by (cases "length fs div 2 \<le> Suc n") (auto intro: exI [of _ 1] exI [of _ "Suc _"])
qed simp

section \<open>Properties\<close>

text \<open>
  JA3 is blind to GREASE: two ClientHellos that differ only in the GREASE values among their cipher
  suites, extensions and curves get the same JA3 result, raw string, digest and database entry.
\<close>

theorem ja3_grease_invariant:
  assumes "filterGREASE16 (ch_CipherSuites h) = filterGREASE16 (ch_CipherSuites h')"
    and "filterGREASE16 (ch_Extensions h) = filterGREASE16 (ch_Extensions h')"
    and "filterGREASE16 (ch_EllipticCurves h) = filterGREASE16 (ch_EllipticCurves h')"
    and "ch_ECPointFormats h = ch_ECPointFormats h'" and "ch_TLSVersion h = ch_TLSVersion h'"
  shows "ja3 md5 db h = ja3 md5 db h'"
  using assms by (auto simp: ja3_def ja3_raw_def Let_def split: option.split)

theorem ja3_grease_invariant_witness:
  "ja3 (\<lambda>_. [7]) initJA3 (empty_hello\<lparr>ch_CipherSuites := [0x1a1a, 0x1301]\<rparr>) =
   ja3 (\<lambda>_. [7]) initJA3 (empty_hello\<lparr>ch_CipherSuites := [0x1301, 0x2a2a]\<rparr>)"
  by (rule ja3_grease_invariant)
    (simp_all add: filterGREASE16_def isGREASE_def empty_hello_def)

text \<open>
  JA4 does not depend on the order in which a client lists its cipher suites and extensions, nor on
  GREASE values: ClientHellos whose filtered lists are permutations of each other get the same result.
\<close>

theorem ja4_order_invariant:
  assumes "mset (filterGREASE16 cs) = mset (filterGREASE16 cs')"
    and "mset (filterGREASE16 ext) = mset (filterGREASE16 ext')"
  shows "ja4 md5 proto v sni cs ext alpn = ja4 md5 proto v sni cs' ext' alpn"
proof -
  have "sort (filterGREASE16 cs) = sort (filterGREASE16 cs')"
    and "sort (filterGREASE16 ext) = sort (filterGREASE16 ext')"
    using assms by (metis mset_sort sorted_sort properties_for_sort)+
  moreover have "length (filterGREASE16 cs) = length (filterGREASE16 cs')"
    and "length (filterGREASE16 ext) = length (filterGREASE16 ext')"
    using assms by (metis size_mset)+
  ultimately show ?thesis by (simp add: ja4_def Let_def)
qed

theorem ja4_order_invariant_witness:
  "ja4 (\<lambda>_. []) ''tcp'' 0x0304 ''a'' [0x1301, 0x0a0a, 0x1302] [0, 5] ''h2'' =
   ja4 (\<lambda>_. []) ''tcp'' 0x0304 ''a'' [0x1302, 0x1301] [5, 0] ''h2''"
  by (rule ja4_order_invariant) (simp_all add: filterGREASE16_def isGREASE_def)

text \<open>
  C4: A ClientHello whose first ALPN protocol name has one byte takes the fingerprinting down:
  \<open>alpn[:2]\<close> panics. Together with the round trip, every well-formed message of this shape does so, for
  any digest function and database.
\<close>

theorem one_byte_alpn_panics:
  assumes "hello_fits h" and "ch_ALPN (hello_info h) = [c] # rest"
  shows "fullFingerprintFromRaw md5 db (g_of (enc_hello rv h)) = Panic"
  using hello_enc_slice [OF assms(1)] assms(2)
  by (simp add: fullFingerprintFromRaw_def Let_def ja4_of_hello_panic rbind_Panic_iff)

definition alpn_hello :: hello_parts where
  "alpn_hello =
     \<lparr>hp_version = 0x0303, hp_random = replicate 32 0, hp_session = [], hp_suites = [0x1301],
      hp_compression = [0], hp_exts = [(0x0010, [0, 2, 1, 0x68])]\<rparr>"

theorem one_byte_alpn_panics_witness:
  "fullFingerprintFromRaw (\<lambda>_. []) [] (g_of (enc_hello 0x0301 alpn_hello)) = Panic"
proof (rule one_byte_alpn_panics)
  show "hello_fits alpn_hello"
    by (simp add: hello_fits_def alpn_hello_def enc_body_def enc_exts_def enc_ext_def)
  show "ch_ALPN (hello_info alpn_hello) = [CHR ''h''] # []"
    by code_simp
qed

text \<open>
  The composite score stays within 0 and 100 when the scores of the known fingerprints do, rounding
  included, and its verdict is the one of the score's band.
\<close>

theorem composite_bounds:
  assumes "j3_Known j3 \<Longrightarrow> 0 \<le> j3_TrustScore j3 \<and> j3_TrustScore j3 \<le> 100"
    and "j4_Known j4 \<Longrightarrow> 0 \<le> j4_TrustScore j4 \<and> j4_TrustScore j4 \<le> 100"
    and "h2_Known h2 \<Longrightarrow> 0 \<le> h2_TrustScore h2 \<and> h2_TrustScore h2 \<le> 100"
  shows "0 \<le> cs_Total (calculateComposite j3 j4 h2 ua) \<and> cs_Total (calculateComposite j3 j4 h2 ua) \<le> 100 \<and>
    cs_Verdict (calculateComposite j3 j4 h2 ua) = verdict_of (cs_Total (calculateComposite j3 j4 h2 ua))"
proof -
  have "comp_sum 0 0 0 0 \<le> cs_Total (calculateComposite j3 j4 h2 ua)"
    and "cs_Total (calculateComposite j3 j4 h2 ua) \<le> comp_sum 100 100 100 95"
    unfolding composite_total using assms checkUA_bounds by (intro comp_sum_mono; simp)+
  then show ?thesis
    using comp_sum_top unfolding comp_sum_zero by (simp add: calculateComposite_def Let_def)
qed

definition chrome_ja3 :: ja3_result where
  "chrome_ja3 =
     \<lparr>j3_Hash = ''b32309a26951912be7dba376398abc3b'', j3_Raw = [], j3_TLSVersion = 0x0304,
      j3_Known = True, j3_BrowserID = ''Chrome 120+ Windows'', j3_TrustScore = 92\<rparr>"

definition plain_ja4 :: ja4_result where
  "plain_ja4 = \<lparr>j4_Hash = [], j4_Raw = [], j4_TLSVersion = ''13'', j4_SNI = [], j4_Known = False, j4_TrustScore = 0\<rparr>"

theorem composite_bounds_witness:
  "cs_Total (calculateComposite chrome_ja3 plain_ja4 empty_h2 ''Chrome'') \<le> 100"
  using composite_bounds [of chrome_ja3 plain_ja4 empty_h2 "''Chrome''"]
  by (simp add: chrome_ja3_def plain_ja4_def empty_h2_def)

text \<open>
  C5: A connection fingerprint made from a raw ClientHello with the built-in JA3 database and without
  an HTTP/2 fingerprint is never trusted: whatever the user agent, its composite stays below the 75 that
  \<open>IsTrusted\<close> wants, because the JA4 result is never marked known.
\<close>

theorem never_trusted_without_h2:
  assumes "fullFingerprintFromRaw md5 initJA3 raw = Ok ff"
    and "map_of fs addr = Some fp" and "cf_JA3 fp = ff_JA3 ff" and "cf_JA4 fp = ff_JA4 ff"
    and "\<not> h2_Known (cf_H2 fp)"
  shows "\<exists>fp'. fst (getCompositeForRequest addr ua fs) = Some fp' \<and> \<not> isTrusted fp'"
proof -
  have "j3_TrustScore (ff_JA3 ff) \<le> 93"
    using full_parts [OF assms(1)] initJA3_trust
    by (auto simp: ja3_trust trust_le_def split: option.splits)
  moreover have "\<not> j4_Known (ff_JA4 ff)"
    using full_parts [OF assms(1)] ja4_unknown by (auto simp: ja4_of_hello_def)
  ultimately have "cs_Total (calculateComposite (cf_JA3 fp) (cf_JA4 fp) (cf_H2 fp) ua) \<le> comp_sum 100 25 30 95"
    unfolding composite_total using assms(3-5) checkUA_bounds by (intro comp_sum_mono) auto
  then have "\<not> 75 \<le> cs_Total (calculateComposite (cf_JA3 fp) (cf_JA4 fp) (cf_H2 fp) ua)"
    using comp_sum_no_h2 by linarith
  then show ?thesis
    using assms(2) by (simp add: getCompositeForRequest_def fs_lookup_def isTrusted_def Let_def)
qed

definition conn_of :: "full_fingerprint \<Rightarrow> conn_fingerprint" where
  "conn_of ff =
     \<lparr>cf_RemoteAddr = ''10.0.0.1:4711'', cf_JA3 = ff_JA3 ff, cf_JA4 = ff_JA4 ff, cf_H2 = empty_h2,
      cf_Composite = \<lparr>cs_JA3Score = 0, cs_JA4Score = 0, cs_H2Score = 0, cs_UAScore = 0, cs_Total = 0,
        cs_Verdict = []\<rparr>,
      cf_UserAgent = [], cf_Raw = ff_ClientHello ff\<rparr>"

theorem never_trusted_without_h2_witness:
  "\<exists>ff fp'. fullFingerprintFromRaw (\<lambda>_. []) initJA3 (g_of (enc_hello 0x0301 sample_hello)) = Ok ff \<and>
     fst (getCompositeForRequest ''a'' ''Chrome'' [(''a'', conn_of ff)]) = Some fp' \<and> \<not> isTrusted fp'"
proof -
  have "parseClientHello (g_of (enc_hello 0x0301 sample_hello)) = Ok (hello_info sample_hello)"
    by (rule hello_enc_slice)
      (simp add: hello_fits_def sample_hello_def enc_body_def enc_exts_def enc_ext_def)
  moreover have "ch_ALPN (hello_info sample_hello) = [''h2'']" by code_simp
  ultimately obtain ff where
    ff: "fullFingerprintFromRaw (\<lambda>_. []) initJA3 (g_of (enc_hello 0x0301 sample_hello)) = Ok ff"
    by (cases "ja4_of_hello (\<lambda>_. []) (hello_info sample_hello)")
      (auto simp: fullFingerprintFromRaw_def ja4_of_hello_panic Let_def, auto simp: ja4_of_hello_def)
  show ?thesis
    using never_trusted_without_h2 [OF ff, of "[(''a'', conn_of ff)]" "''a''" "conn_of ff" "''Chrome''"] ff
    by (auto simp: conn_of_def empty_h2_def)
qed

text \<open>
  \<open>FingerprintStore.Cleanup\<close> evicts a third of the entries of an overfull store, not the half its
  comment promises: with \<open>n > 1\<close> entries, \<open>(n + 1) div 3\<close> go, and what is left is a part of the store.
\<close>

theorem cleanup_evicts_a_third:
  assumes "maxEntries < length fs" and "1 < length fs"
  shows "length (fs_cleanup maxEntries fs) = length fs - (length fs + 1) div 3 \<and>
    set (fs_cleanup maxEntries fs) \<subseteq> set fs"
proof -
  have "fs \<noteq> []" using assms by auto
  then have "length (fs_evict 0 fs) = length fs - (length fs + 1) div 3"
    using fs_evict_length [of fs 0] assms(2) by (simp add: max_def)
  moreover obtain k where "fs_evict 0 fs = drop k fs"
    using fs_evict_suffix by blast
  ultimately show ?thesis
    using assms(1) set_drop_subset [of k fs] by (simp add: fs_cleanup_def)
qed

definition sample_ff :: full_fingerprint where
  "sample_ff =
     \<lparr>ff_ClientHello = empty_hello, ff_JA3 = chrome_ja3, ff_JA4 = plain_ja4, ff_ServerName = []\<rparr>"

theorem cleanup_evicts_a_third_witness:
  "length (fs_cleanup 5 (map (\<lambda>k. (k, conn_of sample_ff)) [''a'', ''b'', ''c'', ''d'', ''e'', ''f''])) = 4"
  using cleanup_evicts_a_third [of 5 "map (\<lambda>k. (k, conn_of sample_ff)) [''a'', ''b'', ''c'', ''d'', ''e'', ''f'']"]
  by simp

end
