(* ===== verification/H2Parser.thy ===== *)
theory H2Parser
  imports Fingerprint
begin

text \<open>
  The HTTP/2 frame parser and fingerprint of \<open>packages/mango-waf/fingerprint/h2_parser.go\<close>, and
  \<open>ComputeH2Fingerprint\<close> of \<open>fingerprint.go\<close>. Every index of the frame loop is guarded by the length of
  the data, so the parsers read plain byte lists. The database of known HTTP/2 fingerprints is the
  argument \<open>db\<close>; \<open>initKnownH2\<close> of theory \<open>Fingerprint\<close> is its contents after start-up.
\<close>

section \<open>Frames\<close>

text \<open>The type byte of a frame is kept as it is; these are the types the code names.\<close>

definition H2FrameHeaders :: byte where "H2FrameHeaders = 0x01"
definition H2FramePriority :: byte where "H2FramePriority = 0x02"
definition H2FrameSettings :: byte where "H2FrameSettings = 0x04"
definition H2FrameWindowUpdate :: byte where "H2FrameWindowUpdate = 0x08"

lemmas h2_types = H2FrameHeaders_def H2FramePriority_def H2FrameSettings_def H2FrameWindowUpdate_def

record h2_frame =
  fr_Length :: u32
  fr_Type :: byte
  fr_Flags :: byte
  fr_StreamID :: u32
  fr_Payload :: "byte list"

record h2_priority =
  pr_StreamID :: u32
  pr_Exclusive :: bool
  pr_DependsOn :: u32
  pr_Weight :: byte

definition preface :: "byte list" where
  "preface = map (\<lambda>c. of_nat (of_char c)) (''PRI * HTTP/2.0'' @ [CHR 0x0D, CHR 0x0A, CHR 0x0D, CHR 0x0A] @
     ''SM'' @ [CHR 0x0D, CHR 0x0A, CHR 0x0D, CHR 0x0A])"

definition parseH2Preface :: "byte list \<Rightarrow> bool" where
  "parseH2Preface data \<longleftrightarrow> length preface \<le> length data \<and> take (length preface) data = preface"

text \<open>
  The loop \<open>for pos+9 <= len(data)\<close> from position \<open>pos\<close> with \<open>n\<close> frames already read; it stops at an
  incomplete frame and after the twentieth frame.
\<close>

function h2_loop :: "byte list \<Rightarrow> nat \<Rightarrow> nat \<Rightarrow> h2_frame list" where
  "h2_loop data pos n =
     (if pos + 9 \<le> length data
      then let len = be24 (data ! pos) (data ! (pos + 1)) (data ! (pos + 2));
               frameType = data ! (pos + 3);
               flags = data ! (pos + 4);
               streamID = be32 (data ! (pos + 5)) (data ! (pos + 6)) (data ! (pos + 7)) (data ! (pos + 8))
                 AND 0x7FFFFFFF;
               pos' = pos + 9
           in if length data < pos' + unat len then []
              else \<lparr>fr_Length = len, fr_Type = frameType, fr_Flags = flags, fr_StreamID = streamID,
                     fr_Payload = take (unat len) (drop pos' data)\<rparr> #
                   (if 20 \<le> n + 1 then [] else h2_loop data (pos' + unat len) (n + 1))
      else [])"
  by pat_completeness auto
termination
  by (relation "measure (\<lambda>(data, pos, n). length data - pos)") auto

declare h2_loop.simps [simp del]

definition parseH2Frames :: "byte list \<Rightarrow> h2_frame list" where
  "parseH2Frames data = h2_loop data (if parseH2Preface data then length preface else 0) 0"

text \<open>The loop \<open>for i := 0; i+5 < len(payload); i += 6\<close>, on the bytes from \<open>i\<close> on.\<close>

fun parseH2SettingsFrame :: "byte list \<Rightarrow> (u16 \<times> u32) list" where
  "parseH2SettingsFrame (a # b # c # d # e # f # rest) =
     (be16 a b, be32 c d e f) # parseH2SettingsFrame rest"
| "parseH2SettingsFrame _ = []"

definition parseH2PriorityFrame :: "byte list \<Rightarrow> u32 \<Rightarrow> h2_priority option" where
  "parseH2PriorityFrame payload streamID =
     (if length payload < 5 then None
      else let depAndExcl = be32 (payload ! 0) (payload ! 1) (payload ! 2) (payload ! 3)
           in Some \<lparr>pr_StreamID = streamID, pr_Exclusive = (depAndExcl AND 0x80000000 \<noteq> 0),
                    pr_DependsOn = depAndExcl AND 0x7FFFFFFF, pr_Weight = payload ! 4\<rparr>)"

section \<open>Fingerprints\<close>

record h2_settings =
  hs_HeaderTableSize :: u32
  hs_EnablePush :: u32
  hs_MaxConcurrentStreams :: u32
  hs_InitialWindowSize :: u32
  hs_MaxFrameSize :: u32
  hs_MaxHeaderListSize :: u32
  hs_SettingsOrder :: "u16 list"

definition empty_settings :: h2_settings where
  "empty_settings =
     \<lparr>hs_HeaderTableSize = 0, hs_EnablePush = 0, hs_MaxConcurrentStreams = 0, hs_InitialWindowSize = 0,
      hs_MaxFrameSize = 0, hs_MaxHeaderListSize = 0, hs_SettingsOrder = []\<rparr>"

definition set_setting :: "u16 \<times> u32 \<Rightarrow> h2_settings \<Rightarrow> h2_settings" where
  "set_setting p s =
     (let s = s\<lparr>hs_SettingsOrder := hs_SettingsOrder s @ [fst p]\<rparr>; v = snd p
      in if fst p = 1 then s\<lparr>hs_HeaderTableSize := v\<rparr>
         else if fst p = 2 then s\<lparr>hs_EnablePush := v\<rparr>
         else if fst p = 3 then s\<lparr>hs_MaxConcurrentStreams := v\<rparr>
         else if fst p = 4 then s\<lparr>hs_InitialWindowSize := v\<rparr>
         else if fst p = 5 then s\<lparr>hs_MaxFrameSize := v\<rparr>
         else if fst p = 6 then s\<lparr>hs_MaxHeaderListSize := v\<rparr>
         else s)"

text \<open>The local variables of \<open>ExtractH2Fingerprint\<close>, and one turn of its loop over the frames.\<close>

record h2_acc =
  ac_settingsOrder :: "string list"
  ac_priorities :: "string list"
  ac_windowUpdate :: u32
  ac_settings :: h2_settings

definition pair_string :: "u16 \<times> u32 \<Rightarrow> string" where
  "pair_string p = itoa_word (fst p) @ '':'' @ itoa_word (snd p)"

definition priority_string :: "h2_priority \<Rightarrow> string" where
  "priority_string pri =
     join '':'' [itoa_word (pr_StreamID pri), if pr_Exclusive pri then ''1'' else ''0'',
                 itoa_word (pr_DependsOn pri), itoa_word (pr_Weight pri)]"

definition add_setting :: "u16 \<times> u32 \<Rightarrow> h2_acc \<Rightarrow> h2_acc" where
  "add_setting p acc =
     acc\<lparr>ac_settingsOrder := ac_settingsOrder acc @ [pair_string p],
         ac_settings := set_setting p (ac_settings acc)\<rparr>"

definition add_priority :: "h2_priority option \<Rightarrow> h2_acc \<Rightarrow> h2_acc" where
  "add_priority pri acc =
     (case pri of None \<Rightarrow> acc
      | Some p \<Rightarrow> acc\<lparr>ac_priorities := ac_priorities acc @ [priority_string p]\<rparr>)"

definition h2_frame_step :: "h2_frame \<Rightarrow> h2_acc \<Rightarrow> h2_acc" where
  "h2_frame_step fr acc =
     (let pl = fr_Payload fr in
      if fr_Type fr = H2FrameSettings
      then if fr_Flags fr AND 0x01 \<noteq> 0 then acc else fold add_setting (parseH2SettingsFrame pl) acc
      else if fr_Type fr = H2FrameWindowUpdate
      then if 4 \<le> length pl
           then acc\<lparr>ac_windowUpdate := be32 (pl ! 0) (pl ! 1) (pl ! 2) (pl ! 3) AND 0x7FFFFFFF\<rparr> else acc
      else if fr_Type fr = H2FramePriority
      then add_priority (parseH2PriorityFrame pl (fr_StreamID fr)) acc
      else if fr_Type fr = H2FrameHeaders
      then if fr_Flags fr AND 0x20 \<noteq> 0 \<and> 5 \<le> length pl
           then add_priority (parseH2PriorityFrame (take 5 pl) (fr_StreamID fr)) acc else acc
      else acc)"

definition h2_known :: "ja3_db \<Rightarrow> h2_fingerprint \<Rightarrow> h2_fingerprint" where
  "h2_known db fp =
     (case map_of db (h2_Hash fp) of
        None \<Rightarrow> fp
      | Some b \<Rightarrow> fp\<lparr>h2_Known := True, h2_TrustScore := bi_TrustScore b\<rparr>)"

definition extractH2Fingerprint ::
  "(string \<Rightarrow> byte list) \<Rightarrow> ja3_db \<Rightarrow> h2_frame list \<Rightarrow> h2_fingerprint" where
  "extractH2Fingerprint md5 db frames =
     (let acc = fold h2_frame_step frames
            \<lparr>ac_settingsOrder = [], ac_priorities = [], ac_windowUpdate = 0, ac_settings = empty_settings\<rparr>;
          so = join '';'' (ac_settingsOrder acc);
          pf = join ''|'' (ac_priorities acc);
          raw = so @ ''|'' @ itoa_word (ac_windowUpdate acc) @ ''|'' @ pf
      in h2_known db (empty_h2\<lparr>h2_SettingsOrder := so, h2_WindowUpdate := ac_windowUpdate acc,
           h2_PriorityFrames := pf, h2_Hash := hex (md5 raw)\<rparr>))"

definition setting_value :: "h2_settings \<Rightarrow> u16 \<Rightarrow> u32" where
  "setting_value s i =
     (if i = 1 then hs_HeaderTableSize s else if i = 2 then hs_EnablePush s
      else if i = 3 then hs_MaxConcurrentStreams s else if i = 4 then hs_InitialWindowSize s
      else if i = 5 then hs_MaxFrameSize s else if i = 6 then hs_MaxHeaderListSize s else 0)"

definition computeH2Fingerprint ::
  "(string \<Rightarrow> byte list) \<Rightarrow> ja3_db \<Rightarrow> h2_settings \<Rightarrow> u32 \<Rightarrow> h2_fingerprint" where
  "computeH2Fingerprint md5 db settings windowUpdate =
     (let parts = map (\<lambda>i. pair_string (i, setting_value settings i)) (hs_SettingsOrder settings);
          raw = join '';'' parts @ ''|'' @ itoa_word windowUpdate
      in h2_known db (empty_h2\<lparr>h2_Hash := hex (md5 raw), h2_SettingsOrder := join '';'' parts,
           h2_WindowUpdate := windowUpdate\<rparr>))"

definition h2FingerprintString :: "h2_fingerprint \<Rightarrow> string" where
  "h2FingerprintString fp =
     ''H2FP: '' @ h2_Hash fp @ '' | Settings: '' @ h2_SettingsOrder fp @ '' | WU: '' @
     itoa_word (h2_WindowUpdate fp) @ '' | Priority: '' @ h2_PriorityFrames fp"

section \<open>The encoder the round trips are stated for\<close>

definition enc_frame :: "h2_frame \<Rightarrow> byte list" where
  "enc_frame f =
     enc24 (fr_Length f) @ [fr_Type f, fr_Flags f] @ enc32 (fr_StreamID f) @ fr_Payload f"

definition frame_fits :: "h2_frame \<Rightarrow> bool" where
  "frame_fits f \<longleftrightarrow> length (fr_Payload f) < 2 ^ 24 \<and> fr_Length f = of_nat (length (fr_Payload f)) \<and>
     fr_StreamID f AND 0x7FFFFFFF = fr_StreamID f"

definition enc_setting :: "u16 \<times> u32 \<Rightarrow> byte list" where
  "enc_setting p = enc16 (fst p) @ enc32 (snd p)"

lemma settings_round_trip:
  "length rest < 6 \<Longrightarrow> parseH2SettingsFrame (concat (map enc_setting ps) @ rest) = ps"
proof (induction ps)
  case Nil
  then show ?case by (cases rest rule: parseH2SettingsFrame.cases) auto
qed (auto simp: enc_setting_def enc16_def enc32_def)

lemma length_preface: "length preface = 24"
  by (simp add: preface_def)

lemma fits_len: "frame_fits f \<Longrightarrow> unat (fr_Length f) = length (fr_Payload f)"
  by (simp add: frame_fits_def unat_enc_len32)

lemma h2_loop_enc:
  assumes "frame_fits f" and "n < 20"
  shows "h2_loop (pre @ enc_frame f @ rest) (length pre) n =
    f # (if n = 19 then [] else h2_loop ((pre @ enc_frame f) @ rest) (length (pre @ enc_frame f)) (n + 1))"
proof -
  have small: "unat (fr_Length f) < 2 ^ 24"
    using assms(1) fits_len [OF assms(1)] by (simp add: frame_fits_def)
  have masked: "fr_StreamID f AND 0x7FFFFFFF = fr_StreamID f"
    using assms(1) by (simp add: frame_fits_def)
  define data where "data = pre @ enc_frame f @ rest"
  have at: "data ! length pre = ucast (drop_bit 16 (fr_Length f))"
    "data ! Suc (length pre) = ucast (drop_bit 8 (fr_Length f))"
    "data ! Suc (Suc (length pre)) = ucast (fr_Length f)"
    "data ! (length pre + 3) = fr_Type f" "data ! (length pre + 4) = fr_Flags f"
    "data ! (length pre + 5) = ucast (drop_bit 24 (fr_StreamID f))"
    "data ! (length pre + 6) = ucast (drop_bit 16 (fr_StreamID f))"
    "data ! (length pre + 7) = ucast (drop_bit 8 (fr_StreamID f))"
    "data ! (length pre + 8) = ucast (fr_StreamID f)"
    by (simp_all add: data_def enc_frame_def enc24_def enc32_def nth_append)
  have len: "length data = length pre + 9 + length (fr_Payload f) + length rest"
    and payload: "take (length (fr_Payload f)) (drop (length pre + 9) data) = fr_Payload f"
    by (simp_all add: data_def enc_frame_def enc24_def enc32_def)
  have next_pos: "length (enc_frame f) = 9 + length (fr_Payload f)"
    by (simp add: enc_frame_def)
  have "h2_loop data (length pre) n =
      f # (if n = 19 then [] else h2_loop data (length (pre @ enc_frame f)) (n + 1))"
    by (subst h2_loop.simps)
      (use assms(2) len in \<open>simp add: at Let_def be24_enc [OF small] masked fits_len [OF assms(1)]
        payload next_pos add.assoc [symmetric]\<close>)
  then show ?thesis by (simp add: data_def)
qed

lemma h2_loop_frames:
  "\<lbrakk>\<forall>f \<in> set fs. frame_fits f; n < 20; length rest < 9\<rbrakk> \<Longrightarrow>
   h2_loop (pre @ concat (map enc_frame fs) @ rest) (length pre) n = take (20 - n) fs"
proof (induction fs arbitrary: pre n)
  case Nil
  then show ?case by (subst h2_loop.simps) simp
next
  case (Cons f fs)
  have "h2_loop ((pre @ enc_frame f) @ concat (map enc_frame fs) @ rest) (length (pre @ enc_frame f)) (n + 1)
      = take (20 - (n + 1)) fs" if "n \<noteq> 19"
    using Cons.prems that by (intro Cons.IH) auto
  then show ?case
    using Cons.prems h2_loop_enc [of f n pre "concat (map enc_frame fs) @ rest"]
    by (cases "n = 19") (simp_all add: take_Cons')
qed

section \<open>Known fingerprints\<close>

lemma initKnownH2_keys: "map_of (initKnownH2 []) k = Some b \<Longrightarrow> CHR ''_'' \<in> set k"
  by (auto simp: initKnownH2_def store_all_def split: if_splits)

lemma initKnownH2_hex: "map_of (initKnownH2 []) (hex bs) = None"
  using hex_no_underscore initKnownH2_keys by (cases "map_of (initKnownH2 []) (hex bs)") auto

lemma h2_known_keeps [simp]:
  "h2_SettingsOrder (h2_known db fp) = h2_SettingsOrder fp"
  "h2_WindowUpdate (h2_known db fp) = h2_WindowUpdate fp"
  "h2_PriorityFrames (h2_known db fp) = h2_PriorityFrames fp"
  by (simp_all add: h2_known_def split: option.split)

lemma fold_add_setting:
  "ac_settingsOrder (fold add_setting ps acc) = ac_settingsOrder acc @ map pair_string ps"
  "ac_priorities (fold add_setting ps acc) = ac_priorities acc"
  "ac_windowUpdate (fold add_setting ps acc) = ac_windowUpdate acc"
  by (induction ps arbitrary: acc) (auto simp: add_setting_def)

section \<open>Properties\<close>

text \<open>
  C7: The frame parser reads back what a client sends: after the connection preface, a sequence of
  frames whose length fields match their payloads, with fewer than nine bytes of a further frame behind
  them, is parsed into exactly its first twenty frames; nothing of a frame is lost or shifted.
\<close>

theorem h2_frames_roundtrip:
  assumes "\<forall>f \<in> set fs. frame_fits f" and "length rest < 9"
  shows "parseH2Frames (preface @ concat (map enc_frame fs) @ rest) = take 20 fs"
  unfolding parseH2Frames_def parseH2Preface_def
  using h2_loop_frames [OF assms(1) _ assms(2), of 0 preface] by simp

definition sample_frame :: h2_frame where
  "sample_frame = \<lparr>fr_Length = 6, fr_Type = H2FrameSettings, fr_Flags = 0, fr_StreamID = 0,
     fr_Payload = [0, 3, 0, 0, 0, 100]\<rparr>"

theorem h2_frames_roundtrip_witness:
  "parseH2Frames (preface @ concat (map enc_frame [sample_frame, sample_frame]) @ [0, 0]) =
     [sample_frame, sample_frame]"
  using h2_frames_roundtrip [of "[sample_frame, sample_frame]" "[0, 0]"]
  by (simp add: frame_fits_def sample_frame_def)

text \<open>
  No HTTP/2 fingerprint is ever known: the database is filled with names such as chrome\_h2\_120,
  the lookups use the hexadecimal digest of the fingerprint, and no digest is such a name, whatever the
  digest function. Every connection is scored as an unknown HTTP/2 client.
\<close>

theorem h2_never_known:
  "\<not> h2_Known (extractH2Fingerprint md5 (initKnownH2 []) frames) \<and>
   \<not> h2_Known (computeH2Fingerprint md5 (initKnownH2 []) settings wu)"
  by (simp add: extractH2Fingerprint_def computeH2Fingerprint_def h2_known_def Let_def empty_h2_def
      initKnownH2_hex)

text \<open>
  A client's SETTINGS, WINDOW\_UPDATE and PRIORITY frames are all of what its fingerprint depends on,
  in their order: for one SETTINGS frame followed by a WINDOW\_UPDATE the fingerprint string is the list
  of id:value pairs the client sent, with the window increment without its reserved bit.
\<close>

theorem h2_fingerprint_of_client:
  assumes "fr_Type s = H2FrameSettings" and "fr_Flags s = 0"
    and "fr_Payload s = concat (map enc_setting ps)"
    and "fr_Type w = H2FrameWindowUpdate" and "fr_Payload w = enc32 v"
  shows "h2_SettingsOrder (extractH2Fingerprint md5 db [s, w]) = join '';'' (map pair_string ps) \<and>
         h2_WindowUpdate (extractH2Fingerprint md5 db [s, w]) = v AND 0x7FFFFFFF \<and>
         h2_PriorityFrames (extractH2Fingerprint md5 db [s, w]) = []"
  using assms settings_round_trip [of "[]" ps]
  by (simp add: extractH2Fingerprint_def h2_frame_step_def h2_types enc32_def Let_def fold_add_setting)

theorem h2_fingerprint_of_client_witness:
  "h2_WindowUpdate (extractH2Fingerprint (\<lambda>_. []) []
     [sample_frame, \<lparr>fr_Length = 4, fr_Type = H2FrameWindowUpdate, fr_Flags = 0, fr_StreamID = 0,
       fr_Payload = [0x80, 0, 1, 0]\<rparr>]) = 256"
  using h2_fingerprint_of_client
    [of sample_frame "[(3, 100)]" "\<lparr>fr_Length = 4, fr_Type = H2FrameWindowUpdate, fr_Flags = 0, fr_StreamID = 0,
       fr_Payload = [0x80, 0, 1, 0]\<rparr>" "0x80000100" "\<lambda>_. []" "[]"]
  by (simp add: sample_frame_def enc_setting_def enc16_def enc32_def h2_types)

end
