(* ===== verification/Sniffer.thy ===== *)
theory Sniffer
  imports H2Parser
begin

text \<open>
  What happens to a connection before a request is read: the sniffing listener of
  \<open>packages/mango-waf/fingerprint/early_reject.go\<close>, the handshake hook of \<open>interceptor.go\<close>, the lookups
  of \<open>database.go\<close>, and the accept loop of \<open>net/http\<close> they run under. \<open>bufio.Reader.Peek\<close> is modelled
  with the 1024-byte buffer the listener gives it; the slice it returns keeps the rest of that buffer as
  its capacity. A connection is the bytes its peer ever sends and what ends them.
\<close>

section \<open>The browser databases\<close>

record browser_dbs =
  knownJA3DB :: ja3_db
  knownH2DB :: ja3_db

definition initAllDatabases :: browser_dbs where
  "initAllDatabases = \<lparr>knownJA3DB = initExtendedJA3Database (initKnownBrowsers []), knownH2DB = initKnownH2 []\<rparr>"

definition lookupJA3 :: "browser_dbs \<Rightarrow> string \<Rightarrow> browser_info option" where
  "lookupJA3 db h = map_of (knownJA3DB db) h"

definition lookupH2 :: "browser_dbs \<Rightarrow> string \<Rightarrow> browser_info option" where
  "lookupH2 db h = map_of (knownH2DB db) h"

definition addJA3 :: "string \<Rightarrow> browser_info \<Rightarrow> browser_dbs \<Rightarrow> browser_dbs" where
  "addJA3 h info db = db\<lparr>knownJA3DB := AList.update h info (knownJA3DB db)\<rparr>"

definition addH2 :: "string \<Rightarrow> browser_info \<Rightarrow> browser_dbs \<Rightarrow> browser_dbs" where
  "addH2 h info db = db\<lparr>knownH2DB := AList.update h info (knownH2DB db)\<rparr>"

record db_stats =
  ds_JA3Count :: nat
  ds_TrustedJA3 :: nat
  ds_MaliciousJA3 :: nat
  ds_H2Count :: nat

definition statsSnapshot :: "browser_dbs \<Rightarrow> db_stats" where
  "statsSnapshot db =
     (let scores = map (\<lambda>(h, b). bi_TrustScore b) (knownJA3DB db)
      in \<lparr>ds_JA3Count = length scores,
          ds_TrustedJA3 = length (filter (\<lambda>x. 80 \<le> x) scores),
          ds_MaliciousJA3 = length (filter (\<lambda>x. \<not> 80 \<le> x \<and> x \<le> 20) scores),
          ds_H2Count = length (knownH2DB db)\<rparr>)"

section \<open>The handshake hook\<close>

text \<open>The fields of \<open>tls.ClientHelloInfo\<close> the hook reads.\<close>

record std_hello =
  sh_RemoteAddr :: string
  sh_ServerName :: string
  sh_CipherSuites :: "u16 list"
  sh_SupportedVersions :: "u16 list"
  sh_SupportedCurves :: "u16 list"
  sh_SupportedPoints :: "byte list"
  sh_SupportedProtos :: "string list"
  sh_SignatureSchemes :: "u16 list"

definition empty_composite :: composite_score where
  "empty_composite =
     \<lparr>cs_JA3Score = 0, cs_JA4Score = 0, cs_H2Score = 0, cs_UAScore = 0, cs_Total = 0, cs_Verdict = []\<rparr>"

definition std_info :: "std_hello \<Rightarrow> client_hello" where
  "std_info hello =
     (let info = empty_hello\<lparr>ch_ServerName := sh_ServerName hello,
            ch_CipherSuites := sh_CipherSuites hello,
            ch_SupportedVersions := sh_SupportedVersions hello\<rparr>;
          info = (if sh_SupportedVersions hello \<noteq> []
            then info\<lparr>ch_TLSVersion := max_version (sh_SupportedVersions hello)\<rparr> else info)
      in info\<lparr>ch_EllipticCurves := sh_SupportedCurves hello, ch_ECPointFormats := sh_SupportedPoints hello,
              ch_ALPN := sh_SupportedProtos hello, ch_SignatureAlgs := sh_SignatureSchemes hello\<rparr>)"

definition extractFromStdlibHello ::
  "(string \<Rightarrow> byte list) \<Rightarrow> browser_dbs \<Rightarrow> std_hello \<Rightarrow> (tls_error, conn_fingerprint) res" where
  "extractFromStdlibHello md5 db hello =
     (let info = std_info hello; j3 = ja3 md5 (knownJA3DB db) info
      in rbind (ja4_of_hello md5 info) (\<lambda>j4.
         Ok \<lparr>cf_RemoteAddr = sh_RemoteAddr hello, cf_JA3 = j3, cf_JA4 = j4, cf_H2 = empty_h2,
             cf_Composite = empty_composite, cf_UserAgent = [], cf_Raw = info\<rparr>))"

text \<open>The \<open>GetConfigForClient\<close> hook \<open>NewTLSInterceptor\<close> installs: it stores the fingerprint.\<close>

definition interceptor_hook ::
  "(string \<Rightarrow> byte list) \<Rightarrow> browser_dbs \<Rightarrow> std_hello \<Rightarrow> fp_store \<Rightarrow> (tls_error, fp_store) res" where
  "interceptor_hook md5 db hello store =
     rbind (extractFromStdlibHello md5 db hello) (\<lambda>fp. Ok (fs_store (sh_RemoteAddr hello) fp store))"

section \<open>The sniffing listener\<close>

datatype peek_err = NoErr | EndOfFile | BufferFull | ReadErr

record conn_in =
  ci_addr :: string
  ci_bytes :: "byte list"
  ci_end :: peek_err
  ci_arrived :: nat

text \<open>
  \<open>Peek n\<close> on a fresh 1024-byte buffer: it reads until \<open>n\<close> bytes are buffered, the buffer is full or the
  connection has no more. \<open>ci_arrived\<close> is how many bytes the reads had delivered when \<open>n\<close> were there.
\<close>

definition buffered :: "nat \<Rightarrow> conn_in \<Rightarrow> nat" where
  "buffered n c = min 1024 (min (length (ci_bytes c)) (max n (ci_arrived c)))"

definition peek :: "nat \<Rightarrow> conn_in \<Rightarrow> gslice \<times> peek_err" where
  "peek n c =
     (let w = buffered n c; buf = take w (ci_bytes c) @ replicate (1024 - w) 0
      in if 1024 < n then (\<lparr>g_arr = buf, g_len = w\<rparr>, BufferFull)
         else if w < n then (\<lparr>g_arr = buf, g_len = w\<rparr>, ci_end c)
         else (\<lparr>g_arr = buf, g_len = n\<rparr>, NoErr))"

record early_stats =
  es_TotalProcessed :: int
  es_TotalRejected :: int

datatype accepted = Passed | Rejected | Crashed

definition conn_of_full :: "string \<Rightarrow> full_fingerprint \<Rightarrow> conn_fingerprint" where
  "conn_of_full addr fp =
     \<lparr>cf_RemoteAddr = addr, cf_JA3 = ff_JA3 fp, cf_JA4 = ff_JA4 fp, cf_H2 = empty_h2,
      cf_Composite = empty_composite, cf_UserAgent = [], cf_Raw = ff_ClientHello fp\<rparr>"

text \<open>
  What \<open>sniff\<close> does with a parsed hello: \<open>attack\<close> is the listener's \<open>IsUnderAttack\<close> callback with its
  answer, or nil.
\<close>

definition early_reject ::
  "browser_dbs \<Rightarrow> bool option \<Rightarrow> string \<Rightarrow> full_fingerprint \<Rightarrow> fp_store \<times> early_stats \<Rightarrow>
   accepted \<times> fp_store \<times> early_stats" where
  "early_reject db attack addr fp st =
     (let store = fs_store addr (conn_of_full addr fp) (fst st); stats = snd st in
      if attack = Some True
      then case lookupJA3 db (j3_Hash (ff_JA3 fp)) of
             None \<Rightarrow> (Passed, store, stats)
           | Some info \<Rightarrow>
               if bi_TrustScore info < 10
               then (Rejected, store, stats\<lparr>es_TotalRejected := es_TotalRejected stats + 1\<rparr>)
               else (Passed, store, stats)
      else (Passed, store, stats))"

definition sniff_raw ::
  "(string \<Rightarrow> byte list) \<Rightarrow> browser_dbs \<Rightarrow> bool option \<Rightarrow> string \<Rightarrow> gslice \<Rightarrow> fp_store \<times> early_stats \<Rightarrow>
   accepted \<times> fp_store \<times> early_stats" where
  "sniff_raw md5 db attack addr raw st =
     (case fullFingerprintFromRaw md5 (knownJA3DB db) raw of
        Panic \<Rightarrow> (Crashed, st)
      | Fail _ \<Rightarrow> (Passed, st)
      | Ok fp \<Rightarrow> early_reject db attack addr fp st)"

definition sniff ::
  "(string \<Rightarrow> byte list) \<Rightarrow> browser_dbs \<Rightarrow> bool option \<Rightarrow> conn_in \<Rightarrow> fp_store \<times> early_stats \<Rightarrow>
   accepted \<times> fp_store \<times> early_stats" where
  "sniff md5 db attack c st =
     (let (header, err) = peek 5 c in
      if err \<noteq> NoErr then (Passed, st)
      else if g_arr header ! 0 \<noteq> 0x16 then (Passed, st)
      else let recordLen = unat (g_arr header ! 3) * 256 + unat (g_arr header ! 4) in
      if 0 < recordLen \<and> recordLen < 16384
      then let peekSize = (if 2048 < recordLen + 5 then 2048 else recordLen + 5);
               (raw, err) = peek peekSize c in
           if err = NoErr \<or> err = EndOfFile then sniff_raw md5 db attack (ci_addr c) raw st
           else (Passed, st)
      else (Passed, st))"

text \<open>\<open>Accept\<close>: an accepted connection, or the error a rejected one is reported with.\<close>

definition sniff_accept ::
  "(string \<Rightarrow> byte list) \<Rightarrow> browser_dbs \<Rightarrow> bool option \<Rightarrow> conn_in \<Rightarrow> fp_store \<times> early_stats \<Rightarrow>
   accepted \<times> fp_store \<times> early_stats" where
  "sniff_accept md5 db attack c st =
     sniff md5 db attack c
       (fst st, (snd st)\<lparr>es_TotalProcessed := es_TotalProcessed (snd st) + 1\<rparr>)"

text \<open>
  The accept loop of \<open>http.Server.Serve\<close>: it hands every accepted connection to a goroutine and returns
  on the first error of \<open>Accept\<close> that is not a temporary \<open>net.Error\<close>; the error \<open>sniff\<close> makes with
  \<open>fmt.Errorf\<close> is none. The result is the connections served and whether the loop is still running.
\<close>

fun serve ::
  "(string \<Rightarrow> byte list) \<Rightarrow> browser_dbs \<Rightarrow> (bool option \<times> conn_in) list \<Rightarrow> fp_store \<times> early_stats \<Rightarrow>
   string list \<times> bool \<times> (fp_store \<times> early_stats)" where
  "serve md5 db [] st = ([], True, st)"
| "serve md5 db ((attack, c) # cs) st =
     (case sniff_accept md5 db attack c st of
        (Passed, st') \<Rightarrow> (let (served, rest) = serve md5 db cs st' in (ci_addr c # served, rest))
      | (_, st') \<Rightarrow> ([], False, st'))"

section \<open>Facts on the peeks\<close>

lemma buffered_le: "buffered n c \<le> length (ci_bytes c)" "buffered n c \<le> 1024"
  by (simp_all add: buffered_def)

lemma peek_prefix:
  assumes "ci_bytes c = bs @ rest" and "length bs \<le> 1024"
  shows "\<exists>tail. peek (length bs) c = (g_view bs tail, NoErr)"
proof -
  let ?w = "buffered (length bs) c"
  have w: "length bs \<le> ?w" using assms by (simp add: buffered_def)
  then have "take ?w (ci_bytes c) = bs @ take (?w - length bs) rest"
    using assms(1) by (simp add: take_append)
  then show ?thesis
    using w assms(2) by (auto simp: peek_def Let_def g_view_def)
qed

lemma peek_header:
  assumes "ci_bytes c = a # v1 # v2 # l1 # l2 # rest"
  shows "\<exists>arr. peek 5 c = (\<lparr>g_arr = arr, g_len = 5\<rparr>, NoErr) \<and> arr ! 0 = a \<and> arr ! 3 = l1 \<and> arr ! 4 = l2"
proof -
  obtain tail where "peek 5 c = (g_view [a, v1, v2, l1, l2] tail, NoErr)"
    using peek_prefix [of c "[a, v1, v2, l1, l2]" rest] assms by (auto simp: eval_nat_numeral)
  then show ?thesis by (auto simp: g_view_def)
qed

lemma sniff_hello:
  assumes "hello_fits h" and "length (enc_body h) \<le> 1015" and "ci_bytes c = enc_hello rv h @ rest"
  shows "\<exists>tail. sniff md5 db attack c st =
     sniff_raw md5 db attack (ci_addr c) (g_view (enc_hello rv h) tail) st"
proof -
  let ?n = "4 + length (enc_body h)"
  have len: "length (enc_hello rv h) = 5 + ?n" by (simp add: enc_hello_def)
  obtain tail where raw: "peek (5 + ?n) c = (g_view (enc_hello rv h) tail, NoErr)"
    using peek_prefix [of c "enc_hello rv h" rest] assms(2,3) by (auto simp: len)
  define l where "l = (of_nat ?n :: u16)"
  have l: "unat l = ?n" using assms(2) by (simp only: l_def unat_enc_len16)
  have "unat (ucast (drop_bit 8 l) :: byte) * 256 + unat (ucast l :: byte) = unat l"
  proof -
    have "unat (ucast (drop_bit 8 l) :: byte) = unat l div 256 mod 256"
      by (simp add: unsigned_ucast_eq unsigned_drop_bit_eq take_bit_eq_mod drop_bit_eq_div)
        (simp only: unat_div_distrib, simp)
    moreover have "unat (ucast l :: byte) = unat l mod 256"
      by (simp add: unsigned_ucast_eq take_bit_eq_mod)
    moreover have "unat l < 256 * 256" using unsigned_less [of l] by simp
    then have "unat l div 256 < 256" by (rule less_mult_imp_div_less)
    ultimately show ?thesis by simp
  qed
  then have rl: "unat (ucast (drop_bit 8 l) :: byte) * 256 + unat (ucast l :: byte) = ?n"
    using l by simp
  have "\<exists>rest'. ci_bytes c = 0x16 # ucast (drop_bit 8 rv) # ucast rv #
      ucast (drop_bit 8 l) # ucast l # rest'"
    using assms(3) by (simp add: enc_hello_def enc16_def l_def)
  then obtain arr where hdr: "peek 5 c = (\<lparr>g_arr = arr, g_len = 5\<rparr>, NoErr)" "arr ! 0 = 0x16"
    "arr ! 3 = ucast (drop_bit 8 l)" "arr ! 4 = ucast l"
    using peek_header by blast
  have raw': "peek (?n + 5) c = (g_view (enc_hello rv h) tail, NoErr)"
    using raw by (simp only: add.commute)
  have "0 < ?n" "?n < 16384" "\<not> 2048 < ?n + 5" using assms(2) by auto
  then have "sniff md5 db attack c st =
      sniff_raw md5 db attack (ci_addr c) (g_view (enc_hello rv h) tail) st"
    unfolding sniff_def hdr(1) Let_def by (simp only: prod.case gslice.simps hdr(2-4) rl raw' if_True if_False
        simp_thms not_True_eq_False)
  then show ?thesis by blast
qed

text \<open>The rest of a fingerprint the digest and the database do not touch.\<close>

lemma full_of_view:
  assumes "hello_fits h" and "fullFingerprintFromRaw md5 db (g_view (enc_hello rv h) tail) = Ok fp"
  shows "ff_JA3 fp = ja3 md5 db (hello_info h) \<and> ff_ClientHello fp = hello_info h"
  using assms(2)
  by (auto simp: fullFingerprintFromRaw_def hello_enc_view [OF assms(1)] Let_def rbind_Ok_iff)

lemma ja4_of_hello_Ok: "(\<forall>a \<in> set (ch_ALPN info). 2 \<le> length a) \<Longrightarrow> \<exists>j. ja4_of_hello md5 info = Ok j"
  by (cases "ch_ALPN info") (auto simp: ja4_of_hello_def ja4_def Let_def)

lemma sniff_parsed:
  assumes "hello_fits h" and "length (enc_body h) \<le> 1015"
    and "\<forall>a \<in> set (ch_ALPN (hello_info h)). 2 \<le> length a"
    and "ci_bytes c = enc_hello rv h @ rest"
  shows "\<exists>fp. sniff md5 db attack c st = early_reject db attack (ci_addr c) fp st \<and>
    ff_JA3 fp = ja3 md5 (knownJA3DB db) (hello_info h) \<and> ff_ClientHello fp = hello_info h"
proof -
  obtain tail where sniff: "sniff md5 db attack c st =
      sniff_raw md5 db attack (ci_addr c) (g_view (enc_hello rv h) tail) st"
    using sniff_hello [OF assms(1,2,4)] by blast
  obtain fp where "fullFingerprintFromRaw md5 (knownJA3DB db) (g_view (enc_hello rv h) tail) = Ok fp"
    using ja4_of_hello_Ok [OF assms(3), of md5]
    by (auto simp: fullFingerprintFromRaw_def hello_enc_view [OF assms(1)] Let_def)
  then show ?thesis
    using sniff full_of_view [OF assms(1)] by (auto simp: sniff_raw_def)
qed

lemma sniff_outcome_stateless: "fst (sniff md5 db attack c st) = fst (sniff md5 db attack c st')"
  by (simp add: sniff_def sniff_raw_def early_reject_def Let_def split_beta split: res.split option.split)

lemma ja3_raw_field:
  "j3_Raw (ja3 md5 db info) = ja3_raw (ch_TLSVersion info) (ch_CipherSuites info) (ch_Extensions info)
     (ch_EllipticCurves info) (ch_ECPointFormats info)"
  by (simp add: ja3_def Let_def split: option.split)

lemma std_info_parts [simp]:
  "ch_CipherSuites (std_info hello) = sh_CipherSuites hello"
  "ch_EllipticCurves (std_info hello) = sh_SupportedCurves hello"
  "ch_ECPointFormats (std_info hello) = sh_SupportedPoints hello"
  "ch_Extensions (std_info hello) = []"
  by (simp_all add: std_info_def empty_hello_def Let_def)

lemma joinUint16_empty_iff: "joinUint16 vs ''-'' = [] \<longleftrightarrow> vs = []"
  by (cases vs rule: remdups_adj.cases) (auto simp: joinUint16_def itoa_word_def itoa_def)

lemma filterGREASE16_Nil: "joinUint16 (filterGREASE16 []) sep = []"
  by (simp add: filterGREASE16_def joinUint16_def)

section \<open>Properties\<close>

text \<open>
  Under attack the listener drops exactly the known attack tools: a well-formed ClientHello of at
  most 1019 bytes, with ALPN names of two bytes or more, is rejected when the database scores its JA3
  digest below 10 and passed otherwise, and in both cases its fingerprint is stored under the address.
\<close>

theorem sniff_rejects_tools:
  assumes "hello_fits h" and "length (enc_body h) \<le> 1015"
    and "\<forall>a \<in> set (ch_ALPN (hello_info h)). 2 \<le> length a"
    and "ci_bytes c = enc_hello rv h @ rest"
  shows "fst (sniff md5 db (Some True) c st) =
      (case lookupJA3 db (j3_Hash (ja3 md5 (knownJA3DB db) (hello_info h))) of
         Some info \<Rightarrow> if bi_TrustScore info < 10 then Rejected else Passed
       | None \<Rightarrow> Passed) \<and>
    (\<exists>fp. fs_lookup (ci_addr c) (fst (snd (sniff md5 db (Some True) c st))) = Some fp \<and>
          cf_JA3 fp = ja3 md5 (knownJA3DB db) (hello_info h) \<and> cf_Raw fp = hello_info h)"
  using sniff_parsed [OF assms, of md5 db "Some True" st]
  by (auto simp: early_reject_def Let_def fs_lookup_def fs_store_def conn_of_full_def split: option.split)

definition curl_conn :: "byte list \<Rightarrow> conn_in" where
  "curl_conn bs = \<lparr>ci_addr = ''203.0.113.9:4711'', ci_bytes = bs, ci_end = EndOfFile, ci_arrived = 0\<rparr>"

definition no_stats :: early_stats where
  "no_stats = \<lparr>es_TotalProcessed = 0, es_TotalRejected = 0\<rparr>"

definition attack_db :: browser_dbs where
  "attack_db = \<lparr>knownJA3DB = [(hex [7], bi ''LOIC'' ''Attack'' 0)], knownH2DB = []\<rparr>"

lemma sample_conditions:
  "hello_fits sample_hello" "length (enc_body sample_hello) \<le> 1015"
  "\<forall>a \<in> set (ch_ALPN (hello_info sample_hello)). 2 \<le> length a"
proof -
  show "hello_fits sample_hello" "length (enc_body sample_hello) \<le> 1015"
    by (simp_all add: hello_fits_def sample_hello_def enc_body_def enc_exts_def enc_ext_def)
  show "\<forall>a \<in> set (ch_ALPN (hello_info sample_hello)). 2 \<le> length a" by code_simp
qed

lemma sample_lookup:
  "lookupJA3 attack_db (j3_Hash (ja3 (\<lambda>_. [7]) (knownJA3DB attack_db) info)) = Some (bi ''LOIC'' ''Attack'' 0)"
  by (simp add: attack_db_def lookupJA3_def ja3_def Let_def)

theorem sniff_rejects_tools_witness:
  "fst (sniff (\<lambda>_. [7]) attack_db (Some True) (curl_conn (enc_hello 0x0301 sample_hello))
     ([], no_stats)) = Rejected"
  using sniff_rejects_tools [OF sample_conditions, of "curl_conn (enc_hello 0x0301 sample_hello)" "0x0301" "[]"
      "\<lambda>_. [7]" attack_db "([], no_stats)"]
  by (simp add: curl_conn_def sample_lookup bi_def)

text \<open>
  The early rejection is evaded by size: the listener asks for up to 2048 bytes of a record, but its
  buffer has 1024, so the peek of any record of more than 1019 bytes fails; the connection passes
  unparsed, with no fingerprint stored, whatever its digest and whether or not there is an attack.
\<close>

theorem sniff_passes_large_records:
  assumes "ci_bytes c = 0x16 # v1 # v2 # l1 # l2 # rest"
    and "1019 < unat l1 * 256 + unat l2"
  shows "sniff md5 db attack c st = (Passed, st)"
proof -
  obtain arr where hdr: "peek 5 c = (\<lparr>g_arr = arr, g_len = 5\<rparr>, NoErr)" "arr ! 0 = 0x16"
    "arr ! 3 = l1" "arr ! 4 = l2"
    using peek_header [OF assms(1)] by auto
  have "snd (peek n c) = BufferFull" if "1024 < n" for n
    using that by (simp add: peek_def Let_def)
  then show ?thesis
    using hdr assms(2) by (simp add: sniff_def Let_def split_beta)
qed

theorem sniff_passes_large_records_witness:
  "sniff (\<lambda>_. [7]) attack_db (Some True) (curl_conn ([0x16, 3, 1, 4, 0] @ replicate 1024 1)) ([], no_stats) =
     (Passed, [], no_stats)"
  by (rule sniff_passes_large_records [of _ 3 1 4 0 "replicate 1024 1"]) (simp_all add: curl_conn_def)

text \<open>
  C3: One rejection stops the server: the listener reports a rejected connection as an error of
  \<open>Accept\<close>, the accept loop of the HTTP server returns on it, and none of the connections behind it is
  served: what is served is what was served before it.
\<close>

theorem one_reject_stops_server:
  assumes "fst (sniff md5 db attack c st0) = Rejected"
  shows "fst (serve md5 db (before @ (attack, c) # later) st) = fst (serve md5 db before st) \<and>
    \<not> fst (snd (serve md5 db (before @ (attack, c) # later) st))"
proof (induction before arbitrary: st)
  case Nil
  have "fst (sniff_accept md5 db attack c st) = Rejected"
    unfolding sniff_accept_def using assms sniff_outcome_stateless by metis
  then show ?case by (cases "sniff_accept md5 db attack c st") simp
next
  case (Cons x xs)
  obtain a b where x: "x = (a, b)" by (cases x)
  obtain r st' where "sniff_accept md5 db a b st = (r, st')" by (cases "sniff_accept md5 db a b st")
  then show ?case using Cons.IH [of st'] by (cases r) (auto simp: x split_beta)
qed

theorem one_reject_stops_server_witness:
  "fst (serve (\<lambda>_. [7]) attack_db
     [(None, curl_conn []), (Some True, curl_conn (enc_hello 0x0301 sample_hello)), (None, curl_conn [])]
     ([], no_stats)) = [''203.0.113.9:4711'']"
proof -
  have "fst (sniff (\<lambda>_. [7]) attack_db (Some True) (curl_conn (enc_hello 0x0301 sample_hello)) ([], no_stats)) = Rejected"
    using sniff_parsed [OF sample_conditions, of "curl_conn (enc_hello 0x0301 sample_hello)" "0x0301" "[]"
        "\<lambda>_. [7]" attack_db "Some True" "([], no_stats)"]
    by (auto simp: early_reject_def curl_conn_def sample_lookup bi_def Let_def)
  from one_reject_stops_server [OF this, of "[(None, curl_conn [])]" "[(None, curl_conn [])]" "([], no_stats)"]
  show ?thesis
    by (simp add: sniff_accept_def sniff_def peek_def buffered_def curl_conn_def Let_def)
qed

text \<open>
  The handshake hook's JA3 is not the sniffed one: \<open>tls.ClientHelloInfo\<close> gives the hook no extension
  list, so where the two agree on every other field, the raw JA3 strings are equal only for a client that
  sends no extension but GREASE. The hook runs last, and its entry is the one the pipeline reads.
\<close>

theorem hook_ja3_drops_extensions:
  assumes "ch_TLSVersion info = ch_TLSVersion (std_info hello)"
    and "ch_CipherSuites info = sh_CipherSuites hello" and "ch_EllipticCurves info = sh_SupportedCurves hello"
    and "ch_ECPointFormats info = sh_SupportedPoints hello"
    and "interceptor_hook md5 db hello store = Ok store'"
  shows "\<exists>fp. fs_lookup (sh_RemoteAddr hello) store' = Some fp \<and>
    (j3_Raw (cf_JA3 fp) = j3_Raw (ja3 md5 (knownJA3DB db) info) \<longleftrightarrow> filterGREASE16 (ch_Extensions info) = [])"
proof -
  obtain fp where fp: "extractFromStdlibHello md5 db hello = Ok fp" "store' = fs_store (sh_RemoteAddr hello) fp store"
    using assms(5) by (auto simp: interceptor_hook_def rbind_Ok_iff)
  then have j3: "cf_JA3 fp = ja3 md5 (knownJA3DB db) (std_info hello)"
    by (auto simp: extractFromStdlibHello_def Let_def rbind_Ok_iff)
  have "j3_Raw (cf_JA3 fp) = j3_Raw (ja3 md5 (knownJA3DB db) info) \<longleftrightarrow>
      joinUint16 (filterGREASE16 (ch_Extensions info)) ''-'' = []"
    using assms(1-4) by (auto simp: j3 ja3_raw_field ja3_raw_def filterGREASE16_Nil)
  then show ?thesis
    using fp(2) by (auto simp: fs_lookup_def fs_store_def joinUint16_empty_iff)
qed

definition sample_std :: std_hello where
  "sample_std =
     \<lparr>sh_RemoteAddr = ''203.0.113.9:4711'', sh_ServerName = [], sh_CipherSuites = [0x1301],
      sh_SupportedVersions = [0x0304], sh_SupportedCurves = [], sh_SupportedPoints = [],
      sh_SupportedProtos = [], sh_SignatureSchemes = []\<rparr>"

theorem hook_ja3_drops_extensions_witness:
  "\<exists>store' fp. interceptor_hook (\<lambda>_. [7]) attack_db sample_std [] = Ok store' \<and>
     fs_lookup ''203.0.113.9:4711'' store' = Some fp \<and>
     j3_Raw (cf_JA3 fp) \<noteq> j3_Raw (ja3 (\<lambda>_. [7]) (knownJA3DB attack_db)
       ((std_info sample_std)\<lparr>ch_Extensions := [0x002b]\<rparr>))"
proof -
  obtain j where "ja4_of_hello (\<lambda>_. [7]) (std_info sample_std) = Ok j"
    using ja4_of_hello_Ok [of "std_info sample_std"] by (auto simp: std_info_def sample_std_def empty_hello_def)
  then obtain store' where hook: "interceptor_hook (\<lambda>_. [7]) attack_db sample_std [] = Ok store'"
    by (simp add: interceptor_hook_def extractFromStdlibHello_def Let_def)
  show ?thesis
    using hook_ja3_drops_extensions [of "(std_info sample_std)\<lparr>ch_Extensions := [0x002b]\<rparr>" sample_std, OF _ _ _ _ hook]
      hook by (auto simp: filterGREASE16_def isGREASE_def sample_std_def)
qed

end
