(* ===== verification/Challenge.thy ===== *)
theory Challenge
  imports HttpModel GoSlice GoFloat
begin

text \<open>
  The challenge manager of \<open>packages/mango-waf/challenge/challenge.go\<close>: signed proof cookies, the proof of
  work and the hold-to-verify check. HMAC-SHA256 with the manager's secret is the parameter \<open>hmac\<close> and
  SHA-256 the parameter \<open>sha\<close>, both from strings to digests; \<open>hmac.Equal\<close> is equality. A handler's
  answer is its boolean with the cookie it sets, or a panic.
\<close>

section \<open>The manager\<close>

record manager =
  cm_secret :: "byte list"
  cm_CookieTTL :: duration
  cm_PowDifficulty :: int
  cm_TLS :: bool

text \<open>\<open>NewManager\<close>: without a configured secret the 32 random bytes \<open>rnd\<close> are taken.\<close>

definition newManager :: "byte list \<Rightarrow> duration \<Rightarrow> int \<Rightarrow> bool \<Rightarrow> byte list \<Rightarrow> manager" where
  "newManager cookieSecret ttl pow tls rnd =
     \<lparr>cm_secret = (if cookieSecret = [] then rnd else cookieSecret), cm_CookieTTL = ttl,
      cm_PowDifficulty = pow, cm_TLS = tls\<rparr>"

record set_cookie =
  sc_Name :: string
  sc_Value :: string
  sc_Path :: string
  sc_MaxAge :: int
  sc_HttpOnly :: bool
  sc_Secure :: bool

text \<open>\<open>time.Unix(sec, 0)\<close>: the seconds since year 1 are kept in 64 bits.\<close>

definition unix_time :: "int \<Rightarrow> gtime" where
  "unix_time s = (wrap64 (s + 62135596800) - 62135596800) * 1000000000"

type_synonym digest_fun = "string \<Rightarrow> byte list"
type_synonym hmac_fun = "byte list \<Rightarrow> string \<Rightarrow> byte list"

definition sign :: "hmac_fun \<Rightarrow> manager \<Rightarrow> string \<Rightarrow> string" where
  "sign hmac m payload = hex (hmac (cm_secret m) payload)"

section \<open>Proof cookies\<close>

definition verifyProof :: "hmac_fun \<Rightarrow> manager \<Rightarrow> gtime \<Rightarrow> request \<Rightarrow> string \<Rightarrow> bool" where
  "verifyProof hmac m now r currentIP =
     (case cookie r ''mango_proof'' of
        None \<Rightarrow> False
      | Some v \<Rightarrow>
          if v = [] then False
          else (case splitn2 v (CHR ''|'') of
                  [payload, sig] \<Rightarrow>
                    if sig \<noteq> sign hmac m payload then False
                    else (case splitn2 payload (CHR ''_'') of
                            [cookieIP, t] \<Rightarrow>
                              if cookieIP \<noteq> currentIP then False
                              else let (ts, err) = parse_int t in
                                   if \<not> err \<and> cm_CookieTTL m < time_sub now (unix_time ts) then False
                                   else True
                          | _ \<Rightarrow> False)
                | _ \<Rightarrow> False))"

definition proof_payload :: "gtime \<Rightarrow> string \<Rightarrow> string" where
  "proof_payload now ip = ip @ ''_'' @ itoa (unix_sec now)"

definition setProofCookie :: "hmac_fun \<Rightarrow> manager \<Rightarrow> gtime \<Rightarrow> string \<Rightarrow> set_cookie" where
  "setProofCookie hmac m now ip =
     (let payload = proof_payload now ip
      in \<lparr>sc_Name = ''mango_proof'', sc_Value = payload @ ''|'' @ sign hmac m payload, sc_Path = ''/'',
          sc_MaxAge = f_to_int (seconds (cm_CookieTTL m)), sc_HttpOnly = True, sc_Secure = cm_TLS m\<rparr>)"

section \<open>Solutions\<close>

type_synonym answer = "bool \<times> set_cookie option"

text \<open>\<open>strings.Repeat\<close> panics on a negative count.\<close>

definition verifyPoW :: "digest_fun \<Rightarrow> hmac_fun \<Rightarrow> manager \<Rightarrow> gtime \<Rightarrow> request \<Rightarrow> string \<Rightarrow> (unit, answer) res" where
  "verifyPoW sha hmac m now r ip =
     (let nonce = form_value r ''nonce''; challenge = form_value r ''challenge'';
          difficulty = form_value r ''difficulty'' in
      if nonce = [] \<or> challenge = [] then Ok (False, None)
      else let hashHex = hex (sha (challenge @ nonce));
               diffInt = fst (parse_int difficulty);
               diffInt = (if diffInt = 0 then cm_PowDifficulty m else diffInt) in
           if diffInt < 0 then Panic
           else if \<not> has_prefix hashHex (replicate (nat diffInt) (CHR ''0'')) then Ok (False, None)
           else Ok (True, Some (setProofCookie hmac m now ip)))"

definition verifyTurnstile :: "hmac_fun \<Rightarrow> manager \<Rightarrow> gtime \<Rightarrow> request \<Rightarrow> string \<Rightarrow> answer" where
  "verifyTurnstile hmac m now r ip =
     (let tsStr = form_value r ''t_id''; hash = form_value r ''t_hash''; data = form_value r ''t_data'' in
      if tsStr = [] \<or> hash = [] \<or> data = [] then (False, None)
      else let (ts, err) = parse_int tsStr in
           if err \<or> 300 < wrap64 (unix_sec now - ts) then (False, None)
           else if hash \<noteq> sign hmac m tsStr then (False, None)
           else (True, Some (setProofCookie hmac m now ip)))"

definition handleVerification ::
  "digest_fun \<Rightarrow> hmac_fun \<Rightarrow> manager \<Rightarrow> gtime \<Rightarrow> request \<Rightarrow> string \<Rightarrow> (unit, answer) res" where
  "handleVerification sha hmac m now r ip =
     (if r_method r \<noteq> ''POST'' then Ok (False, None)
      else if form_value r ''challenge_type'' = ''pow'' then verifyPoW sha hmac m now r ip
      else if form_value r ''challenge_type'' = ''turnstile'' then Ok (verifyTurnstile hmac m now r ip)
      else Ok (False, None))"

section \<open>Challenge pages\<close>

text \<open>
  What a served page carries: the values its template is filled with, and the response status. The
  request URI of a request in origin form is its URL.
\<close>

datatype page =
    PowPage string int string      \<comment> \<open>challenge, difficulty, request URI\<close>
  | CaptchaPage string string string \<comment> \<open>request URI, time stamp, its signature\<close>
  | SilentPage string

definition serveJSChallenge :: "manager \<Rightarrow> byte list \<Rightarrow> request \<Rightarrow> int \<Rightarrow> page \<times> int" where
  "serveJSChallenge m rnd r difficulty =
     (PowPage (hex rnd) (if difficulty = 0 then cm_PowDifficulty m else difficulty) (r_url r), 503)"

definition serveCAPTCHAChallenge :: "hmac_fun \<Rightarrow> manager \<Rightarrow> gtime \<Rightarrow> request \<Rightarrow> page \<times> int" where
  "serveCAPTCHAChallenge hmac m now r =
     (let ts = itoa (unix_sec now) in (CaptchaPage (r_url r) ts (sign hmac m ts), 503))"

definition serveSilentChallenge :: "request \<Rightarrow> page \<times> int" where
  "serveSilentChallenge r = (SilentPage (r_url r), 200)"

definition serveChallenge :: "hmac_fun \<Rightarrow> manager \<Rightarrow> gtime \<Rightarrow> byte list \<Rightarrow> request \<Rightarrow> int \<Rightarrow> int \<Rightarrow> page \<times> int" where
  "serveChallenge hmac m now rnd r stage difficulty =
     (if stage = 1 then serveJSChallenge m rnd r difficulty
      else if stage = 2 then serveCAPTCHAChallenge hmac m now r
      else if stage = 3 then serveSilentChallenge r
      else serveJSChallenge m rnd r difficulty)"

section \<open>Facts on proof cookies\<close>

lemma itoa_no_sep: "CHR ''|'' \<notin> set (itoa n)" "CHR ''_'' \<notin> set (itoa n)"
  using itoa_not_char [of "CHR ''|''" n] itoa_not_char [of "CHR ''_''" n] by auto

lemma unix_time_id: "\<bar>s\<bar> < 2 ^ 62 \<Longrightarrow> unix_time s = s * 1000000000"
  by (simp add: unix_time_def wrap64_id min_i64_def max_i64_def)

lemma splitn2_pair: "splitn2 v c = [a, b] \<Longrightarrow> v = a @ c # b \<and> c \<notin> set a"
proof -
  have idx: "str_index v c = Some i \<Longrightarrow> v = take i v @ c # drop (Suc i) v \<and> c \<notin> set (take i v)" for i v
  proof (induction v arbitrary: i)
    case (Cons x v)
    then show ?case by (cases i) (auto split: if_splits)
  qed simp
  assume "splitn2 v c = [a, b]"
  then show ?thesis using idx [of v] by (auto simp: splitn2_def split: option.splits)
qed

lemma issued_payload_split:
  assumes "CHR ''_'' \<notin> set ip" and "CHR ''|'' \<notin> set ip"
  shows "splitn2 (proof_payload t ip @ ''|'' @ sig) (CHR ''|'') = [proof_payload t ip, sig]"
    and "splitn2 (proof_payload t ip) (CHR ''_'') = [ip, itoa (unix_sec t)]"
  using assms itoa_no_sep splitn2_append [of "CHR ''|''" "proof_payload t ip"] splitn2_append [of "CHR ''_''" ip]
  by (simp_all add: proof_payload_def)

section \<open>Properties\<close>

text \<open>
  C8: A proof cookie is good for the address it was issued to and for the cookie's lifetime, nothing
  else: presented from an address, at any later time, it is accepted exactly when the address is that
  of the solver and the seconds of the issue are no more than the configured TTL ago.
\<close>

theorem proof_cookie_roundtrip:
  assumes "CHR ''_'' \<notin> set ip" and "CHR ''|'' \<notin> set ip" and "\<bar>unix_sec t\<bar> < 2 ^ 62"
    and "cookie r ''mango_proof'' = Some (sc_Value (setProofCookie hmac m t ip))"
  shows "verifyProof hmac m now r currentIP \<longleftrightarrow>
    currentIP = ip \<and> time_sub now (unix_sec t * 1000000000) \<le> cm_CookieTTL m"
proof -
  have "parse_int (itoa (unix_sec t)) = (unix_sec t, False)"
    using assms(3) by (intro parse_int_itoa) (auto simp: min_i64_def max_i64_def)
  then show ?thesis
    using assms(4) issued_payload_split [OF assms(1,2)] unix_time_id [OF assms(3)]
    by (auto simp: verifyProof_def setProofCookie_def Let_def)
qed

definition sample_manager :: manager where
  "sample_manager = \<lparr>cm_secret = [1, 2, 3], cm_CookieTTL = hour, cm_PowDifficulty = 3000000, cm_TLS = True\<rparr>"

definition toy_hmac :: hmac_fun where
  "toy_hmac k s = k @ map (\<lambda>c. of_nat (of_char c)) s"

definition proof_request :: "string \<Rightarrow> request" where
  "proof_request v = get_request\<lparr>r_cookies := [(''mango_proof'', v)]\<rparr>"

theorem proof_cookie_roundtrip_witness:
  "verifyProof toy_hmac sample_manager (1000 * second)
     (proof_request (sc_Value (setProofCookie toy_hmac sample_manager (5 * second) ''10.0.0.1''))) ''10.0.0.1'' \<and>
   \<not> verifyProof toy_hmac sample_manager (3606 * second)
     (proof_request (sc_Value (setProofCookie toy_hmac sample_manager (5 * second) ''10.0.0.1''))) ''10.0.0.1''"
  by (subst (1 2) proof_cookie_roundtrip [where ip = "''10.0.0.1''" and t = "5 * second"])
    (simp_all add: proof_request_def cookie_def unix_sec_def second_def sample_manager_def time_sub_def
      clamp64_def min_i64_def max_i64_def dur_defs)

text \<open>
  Nothing but a signature under the manager's secret passes: an accepted cookie is a payload that
  names the requesting address, a bar and the hexadecimal HMAC of exactly that payload. In particular
  the signature a hold-to-verify page hands out, which is over a bare number, makes no proof.
\<close>

theorem accepted_proof_is_signed:
  assumes "verifyProof hmac m now r ip"
  shows "\<exists>t. cookie r ''mango_proof'' = Some ((ip @ ''_'' @ t) @ ''|'' @ sign hmac m (ip @ ''_'' @ t)) \<and>
    (\<forall>n. ip @ ''_'' @ t \<noteq> itoa n)"
proof -
  obtain v payload sig where v: "cookie r ''mango_proof'' = Some v" "splitn2 v (CHR ''|'') = [payload, sig]"
    "sig = sign hmac m payload" and "\<exists>t. splitn2 payload (CHR ''_'') = [ip, t]"
    using assms by (auto simp: verifyProof_def split: option.splits list.splits if_splits)
  then obtain t where "payload = ip @ ''_'' @ t" using splitn2_pair by fastforce
  moreover have "ip @ ''_'' @ t \<noteq> itoa n" for n using itoa_no_sep(2) [of n] by (metis append_Cons
      in_set_conv_decomp)
  ultimately show ?thesis
    using v splitn2_pair [OF v(2)] by (intro exI [of _ t]) simp
qed

theorem accepted_proof_is_signed_witness:
  "\<exists>t. sc_Value (setProofCookie toy_hmac sample_manager 0 ''a'') =
     (''a'' @ ''_'' @ t) @ ''|'' @ sign toy_hmac sample_manager (''a'' @ ''_'' @ t)"
proof -
  have "verifyProof toy_hmac sample_manager 0
      (proof_request (sc_Value (setProofCookie toy_hmac sample_manager 0 ''a''))) ''a''"
    by code_simp
  from accepted_proof_is_signed [OF this] show ?thesis
    by (auto simp: proof_request_def cookie_def)
qed

text \<open>
  The client chooses how hard its proof of work is: the difficulty is read from the request. A POST
  that names difficulty 1 passes exactly with a digest that starts with one zero digit, whatever
  difficulty is configured or was served; a negative one makes the handler panic; and where the
  difficulty is left to a default above the 64 digits of a digest, no solution passes at all.
\<close>

theorem pow_difficulty_is_the_clients:
  assumes "r_method r = ''POST''" and "form_value r ''challenge_type'' = ''pow''"
    and "form_value r ''nonce'' \<noteq> []" and "form_value r ''challenge'' \<noteq> []"
    and "length (sha (form_value r ''challenge'' @ form_value r ''nonce'')) = 32"
  shows "(form_value r ''difficulty'' = ''1'' \<longrightarrow>
       (handleVerification sha hmac m now r ip = Ok (True, Some (setProofCookie hmac m now ip)) \<longleftrightarrow>
        has_prefix (hex (sha (form_value r ''challenge'' @ form_value r ''nonce''))) ''0'')) \<and>
    (fst (parse_int (form_value r ''difficulty'')) < 0 \<longrightarrow> handleVerification sha hmac m now r ip = Panic) \<and>
    (fst (parse_int (form_value r ''difficulty'')) = 0 \<and> 64 < cm_PowDifficulty m \<longrightarrow>
       handleVerification sha hmac m now r ip = Ok (False, None))"
proof -
  let ?h = "hex (sha (form_value r ''challenge'' @ form_value r ''nonce''))"
  have one: "fst (parse_int ''1'') = 1"
    by (simp add: parse_int_def has_prefix_def digit_val_def min_i64_def max_i64_def Let_def)
  have "length ?h = 64" using assms(5) by simp
  then have "\<not> has_prefix ?h (replicate (nat d) (CHR ''0''))" if "64 < d" for d
    using that by (auto simp: has_prefix_iff dest: arg_cong [of _ _ length])
  then show ?thesis
    using assms(1-4) by (auto simp: handleVerification_def verifyPoW_def Let_def one)
qed

definition pow_request :: "string \<Rightarrow> request" where
  "pow_request d = get_request\<lparr>r_method := ''POST'', r_form := [(''challenge_type'', [''pow'']),
     (''nonce'', [''7'']), (''challenge'', [''c'']), (''difficulty'', [d])]\<rparr>"

theorem pow_difficulty_is_the_clients_witness:
  "handleVerification (\<lambda>s. 5 # replicate 31 0) toy_hmac sample_manager 0 (pow_request ''1'') ''10.0.0.1'' =
     Ok (True, Some (setProofCookie toy_hmac sample_manager 0 ''10.0.0.1''))"
proof -
  have "hex_digit 0 = CHR ''0''" by code_simp
  then have "has_prefix (hex (5 # replicate 31 0)) ''0''"
    by (simp add: hex_def has_prefix_def)
  then show ?thesis
  using pow_difficulty_is_the_clients [of "pow_request ''1''" "\<lambda>s. 5 # replicate 31 0"]
  by (simp add: pow_request_def form_value_def first_value_def)
qed

end
