(* ===== verification/IntelLists.thy ===== *)
theory IntelLists
  imports NetAddr
begin

text \<open>
  The static lists and the threat feeds of \<open>packages/mango-waf/intelligence\<close>: \<open>ListManager\<close> of
  \<open>intelligence.go\<close> and \<open>ThreatFeedManager\<close> of \<open>feeds.go\<close>. A feed's download is its status and the lines
  the scanner delivers; the maps keep one entry per key.
\<close>

section \<open>The list manager\<close>

record list_entry =
  le_Value :: string
  le_Reason :: string
  le_AddedAt :: gtime
  le_ExpiresAt :: gtime
  le_Source :: string

record list_manager =
  lm_blacklist :: "list_entry smap"
  lm_whitelist :: "list_entry smap"
  lm_cidrBlack :: "ipnet list"
  lm_cidrWhite :: "ipnet list"

definition newListManager :: list_manager where
  "newListManager = \<lparr>lm_blacklist = [], lm_whitelist = [], lm_cidrBlack = [], lm_cidrWhite = []\<rparr>"

definition reserved_cidrs :: "string list" where
  "reserved_cidrs =
     [''127.0.0.0/8'', ''10.0.0.0/8'', ''172.16.0.0/12'', ''192.168.0.0/16'', ''::1/128'', ''fe80::/10'', ''fc00::/7'']"

definition loadReservedIPs :: "list_manager \<Rightarrow> list_manager" where
  "loadReservedIPs lm =
     lm\<lparr>lm_cidrWhite := lm_cidrWhite lm @ List.map_filter parse_cidr reserved_cidrs\<rparr>"

definition le_expired :: "gtime \<Rightarrow> list_entry \<Rightarrow> bool" where
  "le_expired now e \<longleftrightarrow> \<not> is_zero (le_ExpiresAt e) \<and> time_after now (le_ExpiresAt e)"

text \<open>The common body of \<open>IsBlacklisted\<close> and \<open>IsWhitelisted\<close>.\<close>

definition listed :: "gtime \<Rightarrow> string \<Rightarrow> list_entry smap \<Rightarrow> ipnet list \<Rightarrow> bool" where
  "listed now ip entries cidrs =
     (case map_of entries ip of
        Some entry \<Rightarrow> \<not> le_expired now entry
      | None \<Rightarrow> (case parse_ip ip of None \<Rightarrow> False | Some parsed \<Rightarrow> \<exists>c \<in> set cidrs. net_contains c parsed))"

definition isBlacklisted :: "gtime \<Rightarrow> string \<Rightarrow> list_manager \<Rightarrow> bool" where
  "isBlacklisted now ip lm = listed now ip (lm_blacklist lm) (lm_cidrBlack lm)"

definition isWhitelisted :: "gtime \<Rightarrow> string \<Rightarrow> list_manager \<Rightarrow> bool" where
  "isWhitelisted now ip lm = listed now ip (lm_whitelist lm) (lm_cidrWhite lm)"

definition new_entry :: "gtime \<Rightarrow> string \<Rightarrow> string \<Rightarrow> string \<Rightarrow> duration \<Rightarrow> list_entry" where
  "new_entry now val reason source ttl =
     \<lparr>le_Value = val, le_Reason = reason, le_AddedAt = now,
      le_ExpiresAt = (if 0 < ttl then now + ttl else zero_time), le_Source = source\<rparr>"

definition addBlacklist ::
  "gtime \<Rightarrow> string \<Rightarrow> string \<Rightarrow> string \<Rightarrow> duration \<Rightarrow> list_manager \<Rightarrow> list_manager" where
  "addBlacklist now val reason source ttl lm =
     (if CHR ''/'' \<in> set val
      then case parse_cidr val of
             None \<Rightarrow> lm
           | Some network \<Rightarrow> lm\<lparr>lm_cidrBlack := lm_cidrBlack lm @ [network]\<rparr>
      else lm\<lparr>lm_blacklist := AList.update val (new_entry now val reason source ttl) (lm_blacklist lm)\<rparr>)"

definition addWhitelist ::
  "gtime \<Rightarrow> string \<Rightarrow> string \<Rightarrow> string \<Rightarrow> duration \<Rightarrow> list_manager \<Rightarrow> list_manager" where
  "addWhitelist now val reason source ttl lm =
     (if CHR ''/'' \<in> set val
      then case parse_cidr val of
             None \<Rightarrow> lm
           | Some network \<Rightarrow> lm\<lparr>lm_cidrWhite := lm_cidrWhite lm @ [network]\<rparr>
      else lm\<lparr>lm_whitelist := AList.update val (new_entry now val reason source ttl) (lm_whitelist lm)\<rparr>)"

definition removeBlacklist :: "string \<Rightarrow> list_manager \<Rightarrow> list_manager" where
  "removeBlacklist ip lm = lm\<lparr>lm_blacklist := AList.delete ip (lm_blacklist lm)\<rparr>"

definition removeWhitelist :: "string \<Rightarrow> list_manager \<Rightarrow> list_manager" where
  "removeWhitelist ip lm = lm\<lparr>lm_whitelist := AList.delete ip (lm_whitelist lm)\<rparr>"

definition lists_cleanup :: "gtime \<Rightarrow> list_manager \<Rightarrow> list_manager" where
  "lists_cleanup now lm =
     lm\<lparr>lm_blacklist := m_keep (\<lambda>k e. \<not> le_expired now e) (lm_blacklist lm),
        lm_whitelist := m_keep (\<lambda>k e. \<not> le_expired now e) (lm_whitelist lm)\<rparr>"

definition list_stats :: "list_manager \<Rightarrow> nat \<times> nat" where
  "list_stats lm =
     (length (lm_blacklist lm) + length (lm_cidrBlack lm), length (lm_whitelist lm) + length (lm_cidrWhite lm))"

section \<open>Threat feeds\<close>

record threat_entry =
  te_IP :: string
  te_Source :: string
  te_Category :: string
  te_AddedAt :: gtime

record feed_stats =
  fst_LastUpdate :: gtime
  fst_TotalEntries :: nat
  fst_FeedErrors :: nat
  fst_FeedSources :: nat

record feed =
  fd_Name :: string
  fd_URL :: string
  fd_Category :: string
  fd_Parser :: string
  fd_Enabled :: bool

record feed_manager =
  fm_knownBad :: "threat_entry smap"
  fm_stats :: feed_stats

definition mk_feed :: "string \<Rightarrow> string \<Rightarrow> string \<Rightarrow> feed" where
  "mk_feed name url category =
     \<lparr>fd_Name = name, fd_URL = url, fd_Category = category, fd_Parser = ''line'', fd_Enabled = True\<rparr>"

definition defaultFeeds :: "feed list" where
  "defaultFeeds =
     [mk_feed ''FireHOL Level 1''
        ''https://raw.githubusercontent.com/firehol/blocklist-ipsets/master/firehol_level1.netset'' ''malware'',
      mk_feed ''Spamhaus DROP'' ''https://www.spamhaus.org/drop/drop.txt'' ''spam'',
      mk_feed ''Spamhaus EDROP'' ''https://www.spamhaus.org/drop/edrop.txt'' ''spam'',
      mk_feed ''Blocklist.de All'' ''https://lists.blocklist.de/lists/all.txt'' ''bruteforce'',
      mk_feed ''CI Army Badguys'' ''https://cinsscore.com/list/ci-badguys.txt'' ''scanner'',
      mk_feed ''Emerging Threats Compromised IPs''
        ''https://rules.emergingthreats.net/blockrules/compromised-ips.txt'' ''botnet'',
      mk_feed ''TOR Exit Nodes'' ''https://check.torproject.org/torbulkexitlist'' ''anonymizer'',
      mk_feed ''DShield Top Attackers'' ''https://feeds.dshield.org/block.txt'' ''scanner'']"

definition isKnownThreat :: "string \<Rightarrow> feed_manager \<Rightarrow> bool" where
  "isKnownThreat ip tf \<longleftrightarrow> map_of (fm_knownBad tf) ip \<noteq> None"

definition getThreatInfo :: "string \<Rightarrow> feed_manager \<Rightarrow> threat_entry option" where
  "getThreatInfo ip tf = map_of (fm_knownBad tf) ip"

definition cut_comment :: "char \<Rightarrow> string \<Rightarrow> string" where
  "cut_comment c line =
     (case str_index line c of
        Some idx \<Rightarrow> if 0 < idx then trim_space (take idx line) else line
      | None \<Rightarrow> line)"

definition extractIPFromLine :: "string \<Rightarrow> string" where
  "extractIPFromLine line =
     (case str_fields (cut_comment (CHR '';'') (cut_comment (CHR ''#'') line)) of
        [] \<Rightarrow> []
      | candidate # _ \<Rightarrow>
          if parse_ip candidate \<noteq> None then candidate
          else if parse_cidr candidate \<noteq> None then candidate else [])"

definition feed_add :: "gtime \<Rightarrow> string \<Rightarrow> string \<Rightarrow> string \<Rightarrow> threat_entry smap \<Rightarrow> threat_entry smap" where
  "feed_add now ip category source bad =
     AList.update ip \<lparr>te_IP = ip, te_Source = source, te_Category = category, te_AddedAt = now\<rparr> bad"

text \<open>One turn of the scan loop: the map and the count of stored lines.\<close>

definition feed_line :: "gtime \<Rightarrow> feed \<Rightarrow> string \<Rightarrow> threat_entry smap \<times> nat \<Rightarrow> threat_entry smap \<times> nat" where
  "feed_line now fd text st =
     (let line = trim_space text in
      if line = [] \<or> has_prefix line ''#'' \<or> has_prefix line '';'' then st
      else let ip = extractIPFromLine line in
        if ip = [] then st
        else (feed_add now ip (fd_Category fd) (fd_Name fd) (fst st), snd st + 1))"

text \<open>
  A response is \<open>None\<close> when the request failed, otherwise its status, the lines read and whether the scan
  ended with an error; lines read before an error stay stored.
\<close>

type_synonym response = "(int \<times> string list \<times> bool) option"

definition fetchFeed :: "gtime \<Rightarrow> feed \<Rightarrow> response \<Rightarrow> threat_entry smap \<Rightarrow> threat_entry smap \<times> nat \<times> bool" where
  "fetchFeed now fd resp bad =
     (case resp of
        None \<Rightarrow> (bad, 0, True)
      | Some (status, lines, err) \<Rightarrow>
          if status \<noteq> 200 then (bad, 0, True)
          else (let (bad', n) = fold (feed_line now fd) lines (bad, 0) in (bad', n, err)))"

definition updateAll :: "gtime \<Rightarrow> (feed \<Rightarrow> response) \<Rightarrow> feed_manager \<Rightarrow> feed_manager" where
  "updateAll now net tf =
     (let (bad, errors) = fold (\<lambda>fd (bad, errors).
            if \<not> fd_Enabled fd then (bad, errors)
            else (let (bad', n, err) = fetchFeed now fd (net fd) bad
                  in (bad', if err then errors + 1 else errors))) defaultFeeds (fm_knownBad tf, 0)
      in tf\<lparr>fm_knownBad := bad,
            fm_stats := \<lparr>fst_LastUpdate = now, fst_TotalEntries = length bad, fst_FeedErrors = errors,
                         fst_FeedSources = length defaultFeeds\<rparr>\<rparr>)"

definition manualAdd :: "gtime \<Rightarrow> string \<Rightarrow> string \<Rightarrow> string \<Rightarrow> feed_manager \<Rightarrow> feed_manager" where
  "manualAdd now ip category source tf =
     tf\<lparr>fm_knownBad := feed_add now ip category source (fm_knownBad tf)\<rparr>"

definition feed_remove :: "string \<Rightarrow> feed_manager \<Rightarrow> feed_manager" where
  "feed_remove ip tf = tf\<lparr>fm_knownBad := AList.delete ip (fm_knownBad tf)\<rparr>"

section \<open>Facts on the lists\<close>

lemma m_keep_delete: "m_keep P (AList.delete k m) = AList.delete k (m_keep P m)"
  by (induction m) (auto simp: m_keep_def)

lemma feed_line_known:
  "map_of (fst (feed_line now fd l st)) ip \<noteq> map_of (fst st) ip \<Longrightarrow> ip = extractIPFromLine (trim_space l) \<and> ip \<noteq> []"
  by (auto simp: feed_line_def feed_add_def Let_def split: if_splits)

lemma feed_lines_known:
  "\<forall>l \<in> set lines. extractIPFromLine (trim_space l) \<noteq> ip \<Longrightarrow>
   map_of (fst (fold (feed_line now fd) lines st)) ip = map_of (fst st) ip"
proof (induction lines arbitrary: st)
  case (Cons l lines)
  then have "map_of (fst (feed_line now fd l st)) ip = map_of (fst st) ip"
    using feed_line_known [of now fd l st ip] by auto
  then show ?case using Cons by simp
qed simp

lemma extracted_slash_or_address:
  "parse_cidr (extractIPFromLine l) \<noteq> None \<Longrightarrow> parse_ip (extractIPFromLine l) = None"
  using parse_ip_slash parse_cidr_slash by blast

lemma net_of_cidr_v4:
  assumes "length net = 4" and "length ip = 4"
  shows "net_contains \<lparr>net_IP = and_bytes net (cidr_mask n 4), net_Mask = cidr_mask n 4\<rparr> (v4_prefix @ ip) \<longleftrightarrow>
    take n (addr_bits net) = take n (addr_bits ip)"
proof -
  have len: "length (cidr_mask n 4) = 4" and "length (and_bytes net (cidr_mask n 4)) = 4"
    using assms by (simp_all add: cidr_mask_def and_bytes_def)
  moreover have "and_bytes (and_bytes net (cidr_mask n 4)) (cidr_mask n 4) = and_bytes net (cidr_mask n 4)"
    by (rule nth_equalityI) (auto simp: and_bytes_def len assms bit_eq_iff bit_simps)
  ultimately show ?thesis
    using and_mask_eq_iff [of net 4 ip n] assms
    by (simp add: net_contains_def to4_def v4_prefix_def len Let_def)
qed

section \<open>Properties\<close>

text \<open>
  A direct entry of the blacklist holds for its time and for its address only: added with a
  positive ttl it is found up to and including the moment of expiry, added without one for ever; the
  answer for every other address stays what it was, and removing the entry restores its own.
\<close>

theorem blacklist_entry_lifetime:
  assumes "CHR ''/'' \<notin> set v" and "t + ttl \<noteq> zero_time"
  shows "(isBlacklisted now v (addBlacklist t v reason source ttl lm) \<longleftrightarrow> ttl \<le> 0 \<or> now \<le> t + ttl) \<and>
    (\<forall>ip. ip \<noteq> v \<longrightarrow> isBlacklisted now ip (addBlacklist t v reason source ttl lm) = isBlacklisted now ip lm) \<and>
    isBlacklisted now v (removeBlacklist v (addBlacklist t v reason source ttl lm)) =
      isBlacklisted now v (removeBlacklist v lm)"
  using assms
  by (auto simp: isBlacklisted_def addBlacklist_def listed_def removeBlacklist_def new_entry_def le_expired_def
      is_zero_def time_after_def)

theorem blacklist_entry_lifetime_witness:
  "isBlacklisted (60 * second) ''198.51.100.7'' (addBlacklist 0 ''198.51.100.7'' [] [] minute newListManager) \<and>
   \<not> isBlacklisted (60 * second + 1) ''198.51.100.7'' (addBlacklist 0 ''198.51.100.7'' [] [] minute newListManager)"
  by (subst (1 2) blacklist_entry_lifetime [THEN conjunct1]) (simp_all add: dur_defs zero_time_def)

text \<open>
  A network on the blacklist covers exactly the IPv4 addresses that share its first bits, as long
  as they have no direct entry; its ttl is dropped and \<open>RemoveBlacklist\<close> and the cleanup leave it, so it
  is in force at every later moment. A direct entry that has expired masks it for its address.
\<close>

theorem blacklisted_network:
  assumes "parse_cidr v = Some \<lparr>net_IP = and_bytes net (cidr_mask n 4), net_Mask = cidr_mask n 4\<rparr>"
    and "length net = 4" and "length addr = 4" and "parse_ip ip = Some (v4_prefix @ addr)"
    and "lm_cidrBlack lm = []"
  shows "isBlacklisted now ip (lists_cleanup u (removeBlacklist v (addBlacklist t v reason source ttl lm))) \<longleftrightarrow>
    (case map_of (lm_blacklist (lists_cleanup u lm)) ip of
       None \<Rightarrow> take n (addr_bits net) = take n (addr_bits addr)
     | Some e \<Rightarrow> \<not> le_expired now e)"
proof -
  have "CHR ''/'' \<in> set v" and "parse_ip v = None"
    using assms(1) parse_cidr_slash [of v] parse_ip_slash [of v] by auto
  moreover from this have "ip \<noteq> v" using assms(4) by auto
  ultimately show ?thesis
    using assms net_of_cidr_v4 [OF assms(2,3)]
    by (simp add: isBlacklisted_def addBlacklist_def listed_def removeBlacklist_def lists_cleanup_def
        m_keep_delete split: option.split)
qed

theorem blacklisted_network_witness:
  "isBlacklisted 0 ''203.0.113.77'' (lists_cleanup 0 (removeBlacklist ''203.0.113.0/24''
     (addBlacklist 0 ''203.0.113.0/24'' [] [] minute newListManager)))"
proof -
  have "parse_cidr ''203.0.113.0/24'' =
      Some \<lparr>net_IP = and_bytes [203, 0, 113, 0] (cidr_mask 24 4), net_Mask = cidr_mask 24 4\<rparr>"
    by code_simp
  moreover have "parse_ip ''203.0.113.77'' = Some (v4_prefix @ [203, 0, 113, 77])"
    by code_simp
  ultimately show ?thesis
    using blacklisted_network [of "''203.0.113.0/24''" "[203, 0, 113, 0]" 24 "[203, 0, 113, 77]" "''203.0.113.77''"
        newListManager 0 0 0 "[]" "[]" minute]
    by (simp add: newListManager_def lists_cleanup_def m_keep_def eval_nat_numeral)
qed

text \<open>
  The networks of a threat feed match no address: a line that names a network is stored under the
  text of the network and looked up by the exact address, so a feed of networks leaves the answer for
  every address as it was, inside or outside of them.
\<close>

theorem feed_networks_match_nothing:
  assumes "\<forall>l \<in> set lines. parse_cidr (extractIPFromLine (trim_space l)) \<noteq> None"
    and "parse_ip ip \<noteq> None"
  shows "isKnownThreat ip (tf\<lparr>fm_knownBad := fst (fetchFeed now fd (Some (200, lines, err)) (fm_knownBad tf))\<rparr>) =
    isKnownThreat ip tf"
proof -
  have "\<forall>l \<in> set lines. extractIPFromLine (trim_space l) \<noteq> ip"
    using assms extracted_slash_or_address by force
  then show ?thesis
    using feed_lines_known [of lines ip now fd "(fm_knownBad tf, 0)"]
    by (simp add: isKnownThreat_def fetchFeed_def split_beta)
qed

theorem feed_networks_match_nothing_witness:
  "\<not> isKnownThreat ''10.1.2.3'' \<lparr>fm_knownBad = fst (fetchFeed 0 (hd defaultFeeds)
     (Some (200, [''10.1.0.0/16 ; SBL1''], False)) []),
     fm_stats = \<lparr>fst_LastUpdate = 0, fst_TotalEntries = 0, fst_FeedErrors = 0, fst_FeedSources = 0\<rparr>\<rparr>"
proof -
  have "parse_cidr (extractIPFromLine (trim_space ''10.1.0.0/16 ; SBL1'')) \<noteq> None"
    and "parse_ip ''10.1.2.3'' \<noteq> None"
    by code_simp+
  then show ?thesis
    using feed_networks_match_nothing [where lines = "[''10.1.0.0/16 ; SBL1'']" and ip = "''10.1.2.3''"
      and tf = "\<lparr>fm_knownBad = [], fm_stats = \<lparr>fst_LastUpdate = 0, fst_TotalEntries = 0, fst_FeedErrors = 0,
        fst_FeedSources = 0\<rparr>\<rparr>" and now = 0 and fd = "hd defaultFeeds" and err = False]
    by (simp add: isKnownThreat_def)
qed

end
