(* ===== verification/Intel.thy ===== *)
theory Intel
  imports IntelLists GoFloat
begin

text \<open>
  The evaluation of an address in \<open>packages/mango-waf/intelligence\<close>: the ASN analyzer (\<open>asn.go\<close>), the
  reputation engine (\<open>reputation.go\<close>), the GeoIP provider and \<open>Intel.Evaluate\<close> (\<open>intelligence.go\<close>). The
  answers of the AbuseIPDB service are the parameter \<open>abuse\<close>; scores are the float64 results of the
  code's operations.
\<close>

section \<open>GeoIP\<close>

record geo_result =
  geo_Country :: string
  geo_CountryCode :: string
  geo_City :: string
  geo_Region :: string
  geo_Latitude :: rat
  geo_Longitude :: rat
  geo_ASN :: nat
  geo_ASNOrg :: string
  geo_IsEU :: bool

record geo_provider =
  gp_dbPath :: string
  gp_fallback :: bool

definition newGeoProvider :: "string \<Rightarrow> bool \<Rightarrow> geo_provider" where
  "newGeoProvider dbPath exists_db =
     (if dbPath = [] then \<lparr>gp_dbPath = [], gp_fallback = True\<rparr>
      else if \<not> exists_db then \<lparr>gp_dbPath = [], gp_fallback = True\<rparr>
      else \<lparr>gp_dbPath = dbPath, gp_fallback = False\<rparr>)"

definition unknown_geo :: geo_result where
  "unknown_geo =
     \<lparr>geo_Country = ''Unknown'', geo_CountryCode = ''XX'', geo_City = [], geo_Region = [], geo_Latitude = 0,
      geo_Longitude = 0, geo_ASN = 0, geo_ASNOrg = [], geo_IsEU = False\<rparr>"

definition geo_lookup :: "geo_provider \<Rightarrow> string \<Rightarrow> geo_result option" where
  "geo_lookup g ipStr =
     (if gp_fallback g then Some unknown_geo
      else case parse_ip ipStr of None \<Rightarrow> None | Some ip \<Rightarrow> Some unknown_geo)"

section \<open>The ASN analyzer\<close>

record asn_info =
  asn_ASN :: nat
  asn_Organization :: string
  asn_IsHosting :: bool
  asn_IsResidential :: bool
  asn_IsCDN :: bool
  asn_IsEducation :: bool
  asn_IsGovernment :: bool
  asn_RiskLevel :: string
  asn_TrustScore :: rat

definition hostingProviders :: "string list" where
  "hostingProviders =
     [''digitalocean'', ''amazon'', ''aws'', ''google cloud'', ''gcp'',
      ''microsoft azure'', ''azure'', ''ovh'', ''hetzner'', ''linode'',
      ''vultr'', ''choopa'', ''contabo'', ''hostinger'', ''godaddy'',
      ''leaseweb'', ''phoenixnap'', ''rackspace'', ''scaleway'',
      ''upcloud'', ''kamatera'', ''ionos'', ''aruba'', ''hostway'',
      ''quadranet'', ''psychz'', ''colocrossing'', ''buyvm'',
      ''ramnode'', ''greencloudvps'', ''turnkey internet'',
      ''alibaba cloud'', ''tencent cloud'', ''huawei cloud'',
      ''oracle cloud'', ''ibm cloud'', ''softlayer'']"

definition cdnProviders :: "string list" where
  "cdnProviders =
     [''cloudflare'', ''fastly'', ''akamai'', ''incapsula'',
      ''imperva'', ''sucuri'', ''stackpath'', ''keycdn'',
      ''bunny'', ''cdn77'', ''limelight'', ''edgecast'']"

definition highRiskProviders :: "string list" where
  "highRiskProviders =
     [''combahton'', ''blazing'', ''sharktech'', ''fdc servers'',
      ''dacentec'', ''quasi networks'', ''serverius'',
      ''ecatel'', ''lucky'', ''10vps'', ''vpsville'',
      ''colo4'', ''webhosting24'', ''kuroit'']"

definition eduKeywords :: "string list" where
  "eduKeywords = [''university'', ''college'', ''edu'', ''school'', ''academic'', ''research'']"

definition govKeywords :: "string list" where
  "govKeywords = [''government'', ''ministry'', ''federal'', ''military'', ''defense'', ''state of'']"

definition ispKeywords :: "string list" where
  "ispKeywords =
     [''telecom'', ''telecomunicazioni'', ''communications'',
      ''internet service'', ''broadband'', ''fiber'',
      ''mobile'', ''wireless'', ''cellular'',
      ''cable'', ''netcol'', ''comcast'', ''verizon'',
      ''at&t'', ''deutsche telekom'', ''vodafone'',
      ''telefonica'', ''orange'', ''t-mobile'',
      ''viettel'', ''vnpt'', ''fpt telecom'', ''mobifone'']"

definition any_contains :: "string \<Rightarrow> string list \<Rightarrow> bool" where
  "any_contains s ps \<longleftrightarrow> list_ex (str_contains s) ps"

definition classifyOrganization :: "string \<Rightarrow> asn_info \<Rightarrow> asn_info" where
  "classifyOrganization orgLower info =
     (if any_contains orgLower hostingProviders
      then info\<lparr>asn_IsHosting := True, asn_RiskLevel := ''medium'', asn_TrustScore := 35\<rparr>
      else if any_contains orgLower cdnProviders
      then info\<lparr>asn_IsCDN := True, asn_RiskLevel := ''low'', asn_TrustScore := 75\<rparr>
      else if any_contains orgLower highRiskProviders
      then info\<lparr>asn_IsHosting := True, asn_RiskLevel := ''high'', asn_TrustScore := 10\<rparr>
      else if any_contains orgLower eduKeywords
      then info\<lparr>asn_IsEducation := True, asn_RiskLevel := ''low'', asn_TrustScore := 90\<rparr>
      else if any_contains orgLower govKeywords
      then info\<lparr>asn_IsGovernment := True, asn_RiskLevel := ''low'', asn_TrustScore := 95\<rparr>
      else if any_contains orgLower ispKeywords
      then info\<lparr>asn_IsResidential := True, asn_RiskLevel := ''low'', asn_TrustScore := 80\<rparr>
      else info\<lparr>asn_IsResidential := True, asn_TrustScore := 65\<rparr>)"

definition default_asn :: asn_info where
  "default_asn =
     \<lparr>asn_ASN = 0, asn_Organization = [], asn_IsHosting = False, asn_IsResidential = False,
      asn_IsCDN = False, asn_IsEducation = False, asn_IsGovernment = False, asn_RiskLevel = ''low'',
      asn_TrustScore = 70\<rparr>"

definition asn_analyze :: "string \<Rightarrow> geo_result option \<Rightarrow> asn_info smap \<Rightarrow> asn_info \<times> asn_info smap" where
  "asn_analyze ip geo cache =
     (case map_of cache ip of
        Some info \<Rightarrow> (info, cache)
      | None \<Rightarrow>
          let info = default_asn;
              info = (case geo of
                        Some g \<Rightarrow> if 0 < geo_ASN g
                          then info\<lparr>asn_ASN := geo_ASN g, asn_Organization := geo_ASNOrg g\<rparr> else info
                      | None \<Rightarrow> info);
              info = (if asn_Organization info \<noteq> []
                      then classifyOrganization (to_lower (asn_Organization info)) info else info)
          in (info, AList.update ip info cache))"

section \<open>The reputation engine\<close>

record reputation_result =
  rep_IP :: string
  rep_AbuseScore :: int
  rep_TrustLevel :: rat
  rep_IsKnownBad :: bool
  rep_IsProxy :: bool
  rep_IsTor :: bool
  rep_IsVPN :: bool
  rep_IsDatacenter :: bool
  rep_TotalReports :: int
  rep_LastReported :: gtime
  rep_Source :: string
  rep_CachedAt :: gtime

text \<open>The fields the engine reads of an answer of AbuseIPDB that decodes; the date is the parsed one.\<close>

record abuse_data =
  ad_AbuseConfidenceScore :: int
  ad_UsageType :: string
  ad_TotalReports :: int
  ad_LastReportedAt :: "gtime option"
  ad_IsTor :: bool

type_synonym abuse_api = "string \<Rightarrow> abuse_data option"

definition queryAbuseIPDB :: "abuse_api \<Rightarrow> string \<Rightarrow> reputation_result option" where
  "queryAbuseIPDB abuse ip =
     (case abuse ip of
        None \<Rightarrow> None
      | Some d \<Rightarrow> Some
          \<lparr>rep_IP = ip, rep_AbuseScore = ad_AbuseConfidenceScore d,
           rep_TrustLevel = fdiv (f_of_int (wrap64 (100 - ad_AbuseConfidenceScore d))) 100,
           rep_IsKnownBad = (50 < ad_AbuseConfidenceScore d), rep_IsProxy = False, rep_IsTor = ad_IsTor d,
           rep_IsVPN = False,
           rep_IsDatacenter = (ad_UsageType d = ''Data Center/Web Hosting/Transit'' \<or>
                               ad_UsageType d = ''Content Delivery Network''),
           rep_TotalReports = ad_TotalReports d,
           rep_LastReported = (case ad_LastReportedAt d of None \<Rightarrow> zero_time | Some t \<Rightarrow> t),
           rep_Source = ''abuseipdb'', rep_CachedAt = zero_time\<rparr>)"

definition default_reputation :: "string \<Rightarrow> reputation_result" where
  "default_reputation ip =
     \<lparr>rep_IP = ip, rep_AbuseScore = 0, rep_TrustLevel = fl64 (7/10), rep_IsKnownBad = False, rep_IsProxy = False,
      rep_IsTor = False, rep_IsVPN = False, rep_IsDatacenter = False, rep_TotalReports = 0,
      rep_LastReported = zero_time, rep_Source = ''default'', rep_CachedAt = zero_time\<rparr>"

record intel_config =
  ic_GeoEnabled :: bool
  ic_DBPath :: string
  ic_BlockedCountries :: "string list"
  ic_AllowedCountries :: "string list"
  ic_ReputationEnabled :: bool
  ic_AbuseIPDBKey :: string
  ic_CacheTTL :: duration
  ic_ASNEnabled :: bool
  ic_BlockDatacenter :: bool

definition reputation_check ::
  "intel_config \<Rightarrow> abuse_api \<Rightarrow> gtime \<Rightarrow> string \<Rightarrow> reputation_result smap \<Rightarrow> reputation_result \<times> reputation_result smap" where
  "reputation_check cfg abuse now ip cache =
     (let fresh = (let result = (if ic_AbuseIPDBKey cfg \<noteq> [] then queryAbuseIPDB abuse ip else None);
                       rep = (case result of None \<Rightarrow> default_reputation ip | Some x \<Rightarrow> x)\<lparr>rep_CachedAt := now\<rparr>
                   in (rep, AList.update ip rep cache))
      in case map_of cache ip of
           Some rep \<Rightarrow> if time_sub now (rep_CachedAt rep) < ic_CacheTTL cfg then (rep, cache) else fresh
         | None \<Rightarrow> fresh)"

definition reputation_cleanup :: "intel_config \<Rightarrow> gtime \<Rightarrow> reputation_result smap \<Rightarrow> reputation_result smap" where
  "reputation_cleanup cfg now cache =
     m_keep (\<lambda>ip rep. \<not> ic_CacheTTL cfg < time_sub now (rep_CachedAt rep)) cache"

section \<open>The evaluation\<close>

record intel =
  in_geo :: "geo_provider option"
  in_reputation :: "reputation_result smap option"
  in_asn :: "asn_info smap option"
  in_feeds :: feed_manager
  in_lists :: list_manager

definition newIntel :: "intel_config \<Rightarrow> bool \<Rightarrow> feed_manager \<Rightarrow> intel" where
  "newIntel cfg exists_db feeds =
     \<lparr>in_geo = (if ic_GeoEnabled cfg then Some (newGeoProvider (ic_DBPath cfg) exists_db) else None),
      in_reputation = (if ic_ReputationEnabled cfg then Some [] else None),
      in_asn = (if ic_ASNEnabled cfg then Some [] else None),
      in_feeds = feeds, in_lists = loadReservedIPs newListManager\<rparr>"

record eval_result =
  er_IP :: string
  er_TrustScore :: rat
  er_Geo :: "geo_result option"
  er_Reputation :: "reputation_result option"
  er_ASN :: "asn_info option"
  er_Actions :: "string list"

definition act :: "rat \<Rightarrow> string \<Rightarrow> eval_result \<Rightarrow> eval_result" where
  "act penalty action r =
     r\<lparr>er_TrustScore := fsub (er_TrustScore r) penalty, er_Actions := er_Actions r @ [action]\<rparr>"

text \<open>Layer 3; a blocked country ends the evaluation.\<close>

definition eval_geo :: "intel_config \<Rightarrow> geo_provider option \<Rightarrow> string \<Rightarrow> eval_result \<Rightarrow> eval_result \<times> bool" where
  "eval_geo cfg geo ip r =
     (case geo of
        None \<Rightarrow> (r, False)
      | Some g \<Rightarrow>
          if gp_fallback g then (r, False)
          else case geo_lookup g ip of
            None \<Rightarrow> (r, False)
          | Some info \<Rightarrow>
              let r = r\<lparr>er_Geo := Some info\<rparr> in
              case find (\<lambda>b. equal_fold (geo_CountryCode info) b) (ic_BlockedCountries cfg) of
                Some blocked \<Rightarrow>
                  (r\<lparr>er_TrustScore := 0, er_Actions := er_Actions r @ [''geo_blocked:'' @ blocked]\<rparr>, True)
              | None \<Rightarrow>
                  if ic_AllowedCountries cfg \<noteq> [] \<and>
                     \<not> list_ex (\<lambda>a. equal_fold (geo_CountryCode info) a) (ic_AllowedCountries cfg)
                  then (act 30 (''geo_not_allowed:'' @ geo_CountryCode info) r, False)
                  else (r, False))"

text \<open>Layer 4, for a reputation that was checked.\<close>

definition eval_reputation :: "reputation_result \<Rightarrow> eval_result \<Rightarrow> eval_result" where
  "eval_reputation rep r =
     (let r = r\<lparr>er_Reputation := Some rep\<rparr>;
          r = (if rep_IsKnownBad rep then act 50 ''known_bad_ip'' r else r);
          r = (if rep_IsProxy rep \<or> rep_IsTor rep \<or> rep_IsVPN rep then act 20 ''anonymizer'' r else r);
          r = (if rep_IsDatacenter rep then act 15 ''datacenter_ip'' r else r)
      in if 0 < rep_AbuseScore rep
         then r\<lparr>er_TrustScore := fsub (er_TrustScore r) (fmul (f_of_int (rep_AbuseScore rep)) (1/2))\<rparr> else r)"

text \<open>Layer 5.\<close>

definition eval_asn :: "intel_config \<Rightarrow> asn_info \<Rightarrow> eval_result \<Rightarrow> eval_result" where
  "eval_asn cfg info r =
     (let r = r\<lparr>er_ASN := Some info\<rparr>;
          r = (if asn_IsHosting info \<and> ic_BlockDatacenter cfg
               then act 25 (''hosting_asn:'' @ asn_Organization info) r else r)
      in if asn_RiskLevel info = ''high'' then act 20 ''high_risk_asn'' r else r)"

definition clamp_score :: "eval_result \<Rightarrow> eval_result" where
  "clamp_score r =
     (let r = (if er_TrustScore r < 0 then r\<lparr>er_TrustScore := 0\<rparr> else r)
      in if 100 < er_TrustScore r then r\<lparr>er_TrustScore := 100\<rparr> else r)"

definition intel_evaluate ::
  "intel_config \<Rightarrow> abuse_api \<Rightarrow> gtime \<Rightarrow> string \<Rightarrow> intel \<Rightarrow> eval_result \<times> intel" where
  "intel_evaluate cfg abuse now ip i =
     (let r = \<lparr>er_IP = ip, er_TrustScore = 70, er_Geo = None, er_Reputation = None, er_ASN = None,
               er_Actions = []\<rparr> in
      if isBlacklisted now ip (in_lists i) then (r\<lparr>er_TrustScore := 0, er_Actions := [''blacklisted'']\<rparr>, i)
      else if isWhitelisted now ip (in_lists i) then (r\<lparr>er_TrustScore := 100, er_Actions := [''whitelisted'']\<rparr>, i)
      else let r = (if isKnownThreat ip (in_feeds i) then act 40 ''threat_feed_match'' r else r);
               (r, stop) = eval_geo cfg (in_geo i) ip r in
        if stop then (r, i)
        else let (r, i) = (case in_reputation i of
                             None \<Rightarrow> (r, i)
                           | Some cache \<Rightarrow>
                               let (rep, cache) = reputation_check cfg abuse now ip cache
                               in (eval_reputation rep r, i\<lparr>in_reputation := Some cache\<rparr>));
                 (r, i) = (case in_asn i of
                             None \<Rightarrow> (r, i)
                           | Some cache \<Rightarrow>
                               let (info, cache) = asn_analyze ip (er_Geo r) cache
                               in (eval_asn cfg info r, i\<lparr>in_asn := Some cache\<rparr>))
             in (clamp_score r, i))"

text \<open>A run of evaluations at their times; the results in order.\<close>

fun eval_run :: "intel_config \<Rightarrow> abuse_api \<Rightarrow> (gtime \<times> string) list \<Rightarrow> intel \<Rightarrow> eval_result list \<times> intel" where
  "eval_run cfg abuse [] i = ([], i)"
| "eval_run cfg abuse ((now, ip) # rs) i =
     (let (r, i) = intel_evaluate cfg abuse now ip i; (res, i) = eval_run cfg abuse rs i in (r # res, i))"

section \<open>Facts on the evaluation\<close>

lemma clamp_bounds: "0 \<le> er_TrustScore (clamp_score r) \<and> er_TrustScore (clamp_score r) \<le> 100"
  by (simp add: clamp_score_def Let_def)

lemma eval_geo_stop: "snd (eval_geo cfg geo ip r) \<Longrightarrow> er_TrustScore (fst (eval_geo cfg geo ip r)) = 0"
  by (auto simp: eval_geo_def Let_def split: option.splits if_splits)

definition asn_plain :: "asn_info \<Rightarrow> bool" where
  "asn_plain info \<longleftrightarrow> \<not> asn_IsHosting info \<and> asn_RiskLevel info = ''low'' \<and> asn_Organization info = []"

definition asn_idle :: "intel \<Rightarrow> bool" where
  "asn_idle i \<longleftrightarrow> (\<forall>cache. in_asn i = Some cache \<longrightarrow> (\<forall>(ip, info) \<in> set cache. asn_plain info))"

lemma eval_geo_geo:
  "er_Geo r = None \<Longrightarrow> er_Geo (fst (eval_geo cfg geo ip r)) \<in> {None, Some unknown_geo}"
  by (auto simp: eval_geo_def geo_lookup_def act_def Let_def split: option.splits if_splits)

lemma eval_reputation_geo: "er_Geo (eval_reputation rep r) = er_Geo r"
  by (simp add: eval_reputation_def act_def Let_def)

lemma asn_analyze_plain:
  assumes "geo \<in> {None, Some unknown_geo}" and "\<forall>(ip, info) \<in> set cache. asn_plain info"
  shows "asn_plain (fst (asn_analyze ip geo cache)) \<and> (\<forall>(ip, info) \<in> set (snd (asn_analyze ip geo cache)). asn_plain info)"
proof (cases "map_of cache ip")
  case None
  have plain: "asn_plain default_asn" and org: "asn_Organization default_asn = []"
    by (simp_all add: asn_plain_def default_asn_def)
  have "\<forall>(k, x) \<in> set (AList.update ip default_asn cache). asn_plain x"
    using assms(2) plain by (induction cache) auto
  moreover have "asn_analyze ip geo cache = (default_asn, AList.update ip default_asn cache)"
    using None assms(1) org by (auto simp: asn_analyze_def unknown_geo_def Let_def)
  ultimately show ?thesis using plain by simp
next
  case (Some info)
  then show ?thesis using assms(2) by (auto simp: asn_analyze_def dest: map_of_SomeD)
qed

lemma eval_asn_plain: "asn_plain info \<Longrightarrow> er_ASN (eval_asn cfg info r) = Some info"
  by (simp add: eval_asn_def asn_plain_def Let_def)

lemma eval_asn_field:
  "er_ASN (fst (eval_geo cfg geo ip r)) = er_ASN r" "er_ASN (eval_reputation rep r) = er_ASN r"
  "er_ASN (clamp_score r) = er_ASN r" "er_ASN (act p a r) = er_ASN r" "er_Geo (act p a r) = er_Geo r"
  by (auto simp: eval_geo_def eval_reputation_def clamp_score_def act_def Let_def split: option.splits)

definition asn_quiet :: "eval_result \<Rightarrow> bool" where
  "asn_quiet r \<longleftrightarrow> (case er_ASN r of None \<Rightarrow> True | Some info \<Rightarrow> asn_plain info)"

lemma intel_evaluate_idle:
  assumes "asn_idle i"
  shows "asn_quiet (fst (intel_evaluate cfg abuse now ip i)) \<and> asn_idle (snd (intel_evaluate cfg abuse now ip i))"
proof -
  define r0 where "r0 = (if isKnownThreat ip (in_feeds i) then act 40 ''threat_feed_match''
      \<lparr>er_IP = ip, er_TrustScore = 70, er_Geo = None, er_Reputation = None, er_ASN = None, er_Actions = []\<rparr>
    else \<lparr>er_IP = ip, er_TrustScore = 70, er_Geo = None, er_Reputation = None, er_ASN = None, er_Actions = []\<rparr>)"
  obtain r1 stop where g: "eval_geo cfg (in_geo i) ip r0 = (r1, stop)"
    by (cases "eval_geo cfg (in_geo i) ip r0")
  have r1: "er_Geo r1 \<in> {None, Some unknown_geo}" "er_ASN r1 = None"
    using eval_geo_geo [of r0 cfg "in_geo i" ip] eval_asn_field(1) [of cfg "in_geo i" ip r0] g
    by (auto simp: r0_def act_def split: if_splits)
  define r2 where "r2 = (case in_reputation i of None \<Rightarrow> r1
    | Some cache \<Rightarrow> eval_reputation (fst (reputation_check cfg abuse now ip cache)) r1)"
  have r2: "er_Geo r2 \<in> {None, Some unknown_geo}" "er_ASN r2 = None"
    using r1 by (auto simp: r2_def eval_reputation_geo eval_asn_field split: option.splits)
  define i2 where "i2 = (case in_reputation i of None \<Rightarrow> i
    | Some cache \<Rightarrow> i\<lparr>in_reputation := Some (snd (reputation_check cfg abuse now ip cache))\<rparr>)"
  have i2: "in_asn i2 = in_asn i" by (simp add: i2_def split: option.split)
  have "intel_evaluate cfg abuse now ip i =
     (if isBlacklisted now ip (in_lists i) \<or> isWhitelisted now ip (in_lists i)
      then intel_evaluate cfg abuse now ip i
      else if stop then (r1, i)
      else case in_asn i2 of None \<Rightarrow> (clamp_score r2, i2)
        | Some cache \<Rightarrow> (clamp_score (eval_asn cfg (fst (asn_analyze ip (er_Geo r2) cache)) r2),
            i2\<lparr>in_asn := Some (snd (asn_analyze ip (er_Geo r2) cache))\<rparr>))"
    using g by (simp add: intel_evaluate_def r0_def [symmetric] r2_def i2_def split_beta split: option.split)
  moreover have "asn_quiet (fst (intel_evaluate cfg abuse now ip i)) \<and> asn_idle (snd (intel_evaluate cfg abuse now ip i))"
    if "isBlacklisted now ip (in_lists i) \<or> isWhitelisted now ip (in_lists i)"
    using that assms
    by (cases "isBlacklisted now ip (in_lists i)") (auto simp: intel_evaluate_def asn_quiet_def Let_def)
  ultimately show ?thesis
    using assms r1 r2 i2 asn_analyze_plain [OF r2(1), of _ ip]
    by (auto simp: asn_quiet_def asn_idle_def eval_asn_field eval_asn_plain split: if_splits option.splits)
qed

lemma eval_run_idle: "asn_idle i \<Longrightarrow> \<forall>r \<in> set (fst (eval_run cfg abuse rs i)). asn_quiet r"
proof (induction cfg abuse rs i rule: eval_run.induct)
  case (2 cfg abuse now ip rs i)
  obtain r i' where step: "intel_evaluate cfg abuse now ip i = (r, i')"
    by (cases "intel_evaluate cfg abuse now ip i")
  then have "asn_quiet r" and "asn_idle i'"
    using intel_evaluate_idle [OF "2.prems", of cfg abuse now ip] by simp_all
  then show ?case
    using "2.IH" [OF step [symmetric] refl] by (simp add: step split_beta)
qed simp

section \<open>Properties\<close>

text \<open>
  The trust score of an evaluation lies between 0 and 100 whatever the layers subtract and whatever
  the services answer; a blacklisted address gets 0 before any other layer and a whitelisted one that is
  not blacklisted gets 100, both without touching the caches.
\<close>

theorem evaluation_bounds:
  "0 \<le> er_TrustScore (fst (intel_evaluate cfg abuse now ip i)) \<and>
   er_TrustScore (fst (intel_evaluate cfg abuse now ip i)) \<le> 100 \<and>
   (isBlacklisted now ip (in_lists i) \<longrightarrow>
      er_TrustScore (fst (intel_evaluate cfg abuse now ip i)) = 0 \<and> snd (intel_evaluate cfg abuse now ip i) = i) \<and>
   (\<not> isBlacklisted now ip (in_lists i) \<and> isWhitelisted now ip (in_lists i) \<longrightarrow>
      er_TrustScore (fst (intel_evaluate cfg abuse now ip i)) = 100 \<and> snd (intel_evaluate cfg abuse now ip i) = i)"
  using clamp_bounds eval_geo_stop
  by (auto simp: intel_evaluate_def split_beta Let_def)

definition sample_intel_config :: intel_config where
  "sample_intel_config =
     \<lparr>ic_GeoEnabled = True, ic_DBPath = ''/db'', ic_BlockedCountries = [''KP''], ic_AllowedCountries = [],
      ic_ReputationEnabled = True, ic_AbuseIPDBKey = ''key'', ic_CacheTTL = hour, ic_ASNEnabled = True,
      ic_BlockDatacenter = True\<rparr>"

definition no_feeds :: feed_manager where
  "no_feeds = \<lparr>fm_knownBad = [], fm_stats = \<lparr>fst_LastUpdate = 0, fst_TotalEntries = 0, fst_FeedErrors = 0,
     fst_FeedSources = 0\<rparr>\<rparr>"

definition listed_intel :: intel where
  "listed_intel = \<lparr>in_geo = None, in_reputation = None, in_asn = Some [], in_feeds = no_feeds,
     in_lists = addBlacklist 0 ''198.51.100.7'' [] [] 0 newListManager\<rparr>"

theorem evaluation_bounds_witness:
  "er_TrustScore (fst (intel_evaluate sample_intel_config (\<lambda>_. None) 0 ''198.51.100.7'' listed_intel)) = 0"
proof -
  have "isBlacklisted 0 ''198.51.100.7'' (in_lists listed_intel)"
    by (simp add: listed_intel_def isBlacklisted_def addBlacklist_def listed_def new_entry_def le_expired_def is_zero_def)
  then show ?thesis using evaluation_bounds by blast
qed

text \<open>
  The ASN layer never acts: the only GeoIP answer of the code carries no ASN, so in every run of
  evaluations that starts with the analyzer's empty cache each analysed address has no organization, is
  no hosting address and has low risk; the hosting and high-risk penalties are unreachable.
\<close>

theorem asn_layer_never_acts:
  assumes "in_asn i = Some []" and "r \<in> set (fst (eval_run cfg abuse requests i))" and "er_ASN r = Some info"
  shows "\<not> asn_IsHosting info \<and> asn_RiskLevel info = ''low'' \<and> asn_Organization info = []"
proof -
  have "asn_idle i" by (simp add: asn_idle_def assms(1))
  then show ?thesis
    using eval_run_idle assms(2,3) by (fastforce simp: asn_quiet_def asn_plain_def)
qed

theorem asn_layer_never_acts_witness:
  "\<exists>r info. r \<in> set (fst (eval_run sample_intel_config (\<lambda>_. None) [(0, ''203.0.113.5'')] listed_intel)) \<and>
     er_ASN r = Some info \<and> \<not> asn_IsHosting info"
proof -
  let ?res = "fst (eval_run sample_intel_config (\<lambda>_. None) [(0, ''203.0.113.5'')] listed_intel)"
  have "\<not> isBlacklisted 0 ''203.0.113.5'' (in_lists listed_intel)"
    "\<not> isWhitelisted 0 ''203.0.113.5'' (in_lists listed_intel)"
    by (auto simp: listed_intel_def isBlacklisted_def isWhitelisted_def addBlacklist_def listed_def newListManager_def
        split: option.split)
  then have "map er_ASN ?res = [Some default_asn]"
    by (simp add: intel_evaluate_def listed_intel_def asn_analyze_def eval_geo_def default_asn_def eval_asn_def
        clamp_score_def act_def Let_def)
  then obtain r where r: "r \<in> set ?res" "er_ASN r = Some default_asn" by (cases ?res) auto
  have "in_asn listed_intel = Some []" by (simp add: listed_intel_def)
  from asn_layer_never_acts [OF this r] r show ?thesis by blast
qed

end
