(* ===== verification/DetEngine.thy ===== *)
theory DetEngine
  imports RateLimit "HOL-Library.Multiset"
begin

text \<open>
  The detection engine of \<open>packages/mango-waf/detection/detection.go\<close>: the traffic baseline, the anomaly
  test, the adaptive rate limiter and the session tracker. Samples are finite float64 values; a division
  that may be by zero gives an extended value. \<open>math.Sqrt\<close> is computed from the integer square root of
  the scaled argument, with a sticky bit under the rounding.
\<close>

section \<open>Square roots\<close>

function isqrt :: "int \<Rightarrow> int" where
  "isqrt n =
     (if n \<le> 0 then 0
      else let r = 2 * isqrt (n div 4) in if (r + 1) * (r + 1) \<le> n then r + 1 else r)"
  by pat_completeness auto
termination
  by (relation "measure nat") auto

declare isqrt.simps [simp del]

definition fsqrt :: "rat \<Rightarrow> rat" where
  "fsqrt x =
     (if x \<le> 0 then 0
      else let k = nat (110 - expo x);
               y = x * 4 ^ k;
               r = isqrt \<lfloor>y\<rfloor>
           in fl64 (of_int (2 * r + (if of_int (r * r) = y then 0 else 1)) / 2 ^ (k + 1)))"

section \<open>Statistics\<close>

definition mean :: "rat list \<Rightarrow> rat" where
  "mean xs = fdiv (fold (\<lambda>v s. fadd s v) xs 0) (f_of_int (int (length xs)))"

definition stddev :: "rat list \<Rightarrow> rat \<Rightarrow> rat" where
  "stddev xs avg =
     fsqrt (fdiv (fold (\<lambda>v s. let diff = fsub v avg in fadd s (fmul diff diff)) xs 0)
       (f_of_int (int (length xs))))"

text \<open>The inner loop of the insertion sort: the element at \<open>j\<close> moves left past the greater ones.\<close>

fun sift :: "rat list \<Rightarrow> nat \<Rightarrow> rat list" where
  "sift xs 0 = xs"
| "sift xs (Suc j) = (if xs ! Suc j < xs ! j then sift (xs[Suc j := xs ! j, j := xs ! Suc j]) j else xs)"

definition insertion_sort :: "rat list \<Rightarrow> rat list" where
  "insertion_sort xs = fold (\<lambda>i ys. sift ys i) [1..<length xs] xs"

definition percentile :: "rat list \<Rightarrow> rat \<Rightarrow> rat" where
  "percentile xs p =
     (if xs = [] then 0
      else let sorted_xs = insertion_sort xs; idx = f_to_int (fmul (f_of_int (int (length sorted_xs) - 1)) p)
           in sorted_xs ! nat idx)"

section \<open>The baseline\<close>

record baseline =
  bl_avgRPS :: rat
  bl_stddevRPS :: rat
  bl_p95RPS :: rat
  bl_p99RPS :: rat
  bl_samples :: "rat list"
  bl_maxSamples :: nat
  bl_learningUntil :: gtime
  bl_isLearning :: bool

record det_config =
  dc_RateEnabled :: bool
  dc_RequestsPerSecond :: int
  dc_Burst :: int
  dc_Adaptive :: bool
  dc_BaselineEnabled :: bool
  dc_LearningPeriod :: duration
  dc_Sensitivity :: rat
  dc_SessionEnabled :: bool
  dc_SessionTTL :: duration

record session =
  ss_ID :: string
  ss_IP :: string
  ss_FirstSeen :: gtime
  ss_LastSeen :: gtime
  ss_Requests :: int
  ss_UniqueURLs :: "int smap"
  ss_UserAgent :: string
  ss_TrustScore :: rat
  ss_Suspicious :: bool

text \<open>A rate limit bucket is a token bucket: its tokens, maximum, refill rate and last refill.\<close>

record det_engine =
  de_baseline :: baseline
  de_counters :: "token_bucket smap"
  de_sessions :: "session smap"
  de_globalRPS :: int

definition newDetEngine :: "det_config \<Rightarrow> gtime \<Rightarrow> det_engine" where
  "newDetEngine cfg now =
     \<lparr>de_baseline = \<lparr>bl_avgRPS = 0, bl_stddevRPS = 0, bl_p95RPS = 0, bl_p99RPS = 0, bl_samples = [],
        bl_maxSamples = 3600, bl_learningUntil = now + dc_LearningPeriod cfg,
        bl_isLearning = dc_BaselineEnabled cfg\<rparr>,
      de_counters = [], de_sessions = [], de_globalRPS = 0\<rparr>"

definition add_sample :: "rat \<Rightarrow> baseline \<Rightarrow> baseline" where
  "add_sample rps b =
     (let old = (if bl_maxSamples b \<le> length (bl_samples b) then tl (bl_samples b) else bl_samples b);
          samples = old @ [rps]; b = b\<lparr>bl_samples := samples\<rparr>
      in if 60 \<le> length samples
         then b\<lparr>bl_avgRPS := mean samples, bl_stddevRPS := stddev samples (mean samples),
                bl_p95RPS := percentile samples (fl64 (95/100)), bl_p99RPS := percentile samples (fl64 (99/100))\<rparr>
         else b)"

definition recordRPSSample :: "gtime \<Rightarrow> rat \<Rightarrow> det_engine \<Rightarrow> det_engine" where
  "recordRPSSample now rps e =
     (let b = add_sample rps (de_baseline e);
          b = (if bl_isLearning b \<and> time_after now (bl_learningUntil b) then b\<lparr>bl_isLearning := False\<rparr> else b)
      in e\<lparr>de_baseline := b\<rparr>)"

section \<open>Anomalies\<close>

record anomaly_result =
  ar_IsAnomaly :: bool
  ar_Score :: xf64
  ar_Reason :: string
  ar_Severity :: string

definition classifySeverity :: "xf64 \<Rightarrow> string" where
  "classifySeverity z =
     (if xgt z (Fin 10) then ''critical'' else if xgt z (Fin 6) then ''high''
      else if xgt z (Fin 4) then ''medium'' else ''low'')"

definition detectAnomaly :: "det_config \<Rightarrow> rat \<Rightarrow> det_engine \<Rightarrow> anomaly_result" where
  "detectAnomaly cfg currentRPS e =
     (let b = de_baseline e in
      if bl_isLearning b \<or> bl_avgRPS b = 0
      then \<lparr>ar_IsAnomaly = False, ar_Score = Fin 0, ar_Reason = ''learning'', ar_Severity = []\<rparr>
      else let result = \<lparr>ar_IsAnomaly = False, ar_Score = Fin 0, ar_Reason = [], ar_Severity = []\<rparr>;
               zScore = xdiv (fsub currentRPS (bl_avgRPS b)) (bl_stddevRPS b);
               threshold = xscale 3 (xdiv 1 (dc_Sensitivity cfg));
               result = (if xgt zScore threshold
                 then \<lparr>ar_IsAnomaly = True, ar_Score = zScore, ar_Reason = ''rps_spike'',
                       ar_Severity = classifySeverity zScore\<rparr> else result)
           in if fmul (bl_p99RPS b) (3/2) < currentRPS
              then \<lparr>ar_IsAnomaly = True, ar_Score = xdiv currentRPS (bl_p99RPS b), ar_Reason = ''above_p99'',
                    ar_Severity = ''high''\<rparr>
              else result)"

section \<open>The adaptive rate limiter\<close>

definition new_bucket :: "det_config \<Rightarrow> gtime \<Rightarrow> token_bucket" where
  "new_bucket cfg now =
     \<lparr>tb_tokens = f_of_int (dc_Burst cfg), tb_capacity = f_of_int (dc_Burst cfg),
      tb_rate = f_of_int (dc_RequestsPerSecond cfg), tb_lastTime = now\<rparr>"

text \<open>The traffic is low enough for the bonus.\<close>

definition lenient :: "det_config \<Rightarrow> det_engine \<Rightarrow> bool" where
  "lenient cfg e \<longleftrightarrow> dc_Adaptive cfg \<and> 0 < bl_avgRPS (de_baseline e) \<and>
     f_of_int (de_globalRPS e) < fmul (bl_avgRPS (de_baseline e)) (1/2)"

definition bucket_step :: "bool \<Rightarrow> gtime \<Rightarrow> token_bucket \<Rightarrow> bool \<times> token_bucket" where
  "bucket_step bonus now b =
     (let t = tb_refill now b; t = (if bonus then fadd t 5 else t); b = b\<lparr>tb_lastTime := now\<rparr>
      in if 1 \<le> t then (False, b\<lparr>tb_tokens := fsub t 1\<rparr>) else (True, b\<lparr>tb_tokens := t\<rparr>))"

definition checkRateLimit :: "det_config \<Rightarrow> gtime \<Rightarrow> string \<Rightarrow> det_engine \<Rightarrow> bool \<times> det_engine" where
  "checkRateLimit cfg now ip e =
     (if \<not> dc_RateEnabled cfg then (False, e)
      else let bucket = (case map_of (de_counters e) ip of Some b \<Rightarrow> b | None \<Rightarrow> new_bucket cfg now);
               (limited, bucket) = bucket_step (lenient cfg e) now bucket
           in (limited, e\<lparr>de_counters := AList.update ip bucket (de_counters e)\<rparr>))"

definition setGlobalRPS :: "int \<Rightarrow> det_engine \<Rightarrow> det_engine" where
  "setGlobalRPS rps e = e\<lparr>de_globalRPS := rps\<rparr>"

section \<open>Sessions\<close>

definition analyzeBehavior :: "gtime \<Rightarrow> session \<Rightarrow> session" where
  "analyzeBehavior now s =
     (let elapsed = seconds (time_sub now (ss_FirstSeen s));
          s = (if 0 < elapsed \<and> 30 < fdiv (f_of_int (ss_Requests s)) elapsed
               then s\<lparr>ss_Suspicious := True, ss_TrustScore := fsub (ss_TrustScore s) 20\<rparr> else s);
          s = (if 100 < ss_Requests s \<and> length (ss_UniqueURLs s) < 3
               then s\<lparr>ss_Suspicious := True, ss_TrustScore := fsub (ss_TrustScore s) 15\<rparr> else s)
      in if ss_TrustScore s < 0 then s\<lparr>ss_TrustScore := 0\<rparr> else s)"

definition new_session :: "gtime \<Rightarrow> string \<Rightarrow> string \<Rightarrow> session" where
  "new_session now ip ua =
     \<lparr>ss_ID = ip, ss_IP = ip, ss_FirstSeen = now, ss_LastSeen = zero_time, ss_Requests = 0, ss_UniqueURLs = [],
      ss_UserAgent = ua, ss_TrustScore = 50, ss_Suspicious = False\<rparr>"

definition trackSession ::
  "det_config \<Rightarrow> gtime \<Rightarrow> string \<Rightarrow> string \<Rightarrow> string \<Rightarrow> det_engine \<Rightarrow> session option \<times> det_engine" where
  "trackSession cfg now ip url ua e =
     (if \<not> dc_SessionEnabled cfg then (None, e)
      else let old = map_of (de_sessions e) ip;
               s = (case old of Some s \<Rightarrow> s | None \<Rightarrow> new_session now ip ua);
               s = s\<lparr>ss_LastSeen := now, ss_Requests := ss_Requests s + 1,
                     ss_UniqueURLs := m_incr url (ss_UniqueURLs s)\<rparr>;
               s = (if old \<noteq> None then analyzeBehavior now s else s)
           in (Some s, e\<lparr>de_sessions := AList.update ip s (de_sessions e)\<rparr>))"

definition cleanupSessions :: "det_config \<Rightarrow> gtime \<Rightarrow> det_engine \<Rightarrow> det_engine" where
  "cleanupSessions cfg now e =
     e\<lparr>de_sessions := m_keep (\<lambda>ip s. \<not> dc_SessionTTL cfg < time_sub now (ss_LastSeen s)) (de_sessions e),
       de_counters := m_keep (\<lambda>ip b. \<not> 5 * minute < time_sub now (tb_lastTime b)) (de_counters e)\<rparr>"

section \<open>Facts on the square root\<close>

lemma isqrt_spec: "0 \<le> n \<Longrightarrow> 0 \<le> isqrt n \<and> isqrt n * isqrt n \<le> n \<and> n < (isqrt n + 1) * (isqrt n + 1)"
proof (induction n rule: isqrt.induct)
  case (1 n)
  show ?case
  proof (cases "n \<le> 0")
    case True
    have "isqrt 0 = 0" by (subst isqrt.simps) simp
    then show ?thesis using True "1.prems" by simp
  next
    case False
    define q where "q = isqrt (n div 4)"
    have "0 \<le> q" "q * q \<le> n div 4" "n div 4 < (q + 1) * (q + 1)"
      using "1.IH" [OF False] False by (simp_all add: q_def pos_imp_zdiv_nonneg_iff)
    then have q: "0 \<le> q" "4 * (q * q) \<le> n" "n < 4 * ((q + 1) * (q + 1))" by linarith+
    have "isqrt n = (if (2 * q + 1) * (2 * q + 1) \<le> n then 2 * q + 1 else 2 * q)"
      using False by (subst isqrt.simps) (simp add: q_def Let_def)
    then show ?thesis using q by (auto simp: algebra_simps)
  qed
qed

lemma fsqrt_nonneg: "0 \<le> fsqrt x"
  using isqrt_spec [of "\<lfloor>x * 4 ^ nat (110 - expo x)\<rfloor>"]
  by (auto simp: fsqrt_def Let_def intro!: fl.rnd_nonneg divide_nonneg_nonneg)

lemma stddev_nonneg: "0 \<le> stddev xs avg"
  by (simp add: stddev_def fsqrt_nonneg)

section \<open>The insertion sort sorts\<close>

lemma sift_insert:
  "sorted p \<Longrightarrow> sift (p @ x # q) (length p) = takeWhile (\<lambda>y. y \<le> x) p @ x # dropWhile (\<lambda>y. y \<le> x) p @ q"
proof (induction p arbitrary: q rule: rev_induct)
  case Nil
  then show ?case by simp
next
  case (snoc y p)
  have sorted: "sorted p" and below: "\<forall>z \<in> set p. z \<le> y"
    using snoc.prems by (auto simp: sorted_append)
  have at: "((p @ [y]) @ x # q) ! Suc (length p) = x" "((p @ [y]) @ x # q) ! length p = y"
    by (simp_all add: nth_append)
  have swap: "((p @ [y]) @ x # q)[Suc (length p) := y, length p := x] = p @ x # y # q"
    by (simp add: list_update_append)
  show ?case
  proof (cases "x < y")
    case True
    have "sift ((p @ [y]) @ x # q) (length (p @ [y])) = sift (p @ x # y # q) (length p)"
      using True at swap by simp
    also have "\<dots> = takeWhile (\<lambda>y. y \<le> x) p @ x # dropWhile (\<lambda>y. y \<le> x) p @ y # q"
      by (rule snoc.IH [OF sorted])
    also have "\<dots> = takeWhile (\<lambda>y. y \<le> x) (p @ [y]) @ x # dropWhile (\<lambda>y. y \<le> x) (p @ [y]) @ q"
      using True by (cases "\<forall>z \<in> set p. z \<le> x") (auto simp: takeWhile_append dropWhile_append)
    finally show ?thesis .
  next
    case False
    then have "\<forall>z \<in> set (p @ [y]). z \<le> x" using below by auto
    then have "takeWhile (\<lambda>y. y \<le> x) (p @ [y]) = p @ [y]" "dropWhile (\<lambda>y. y \<le> x) (p @ [y]) = []"
      by (simp_all only: takeWhile_eq_all_conv dropWhile_eq_Nil_conv)
    then show ?thesis using False at by simp
  qed
qed

lemma sift_sorts:
  assumes "sorted p"
  shows "\<exists>p'. sift (p @ x # q) (length p) = p' @ q \<and> sorted p' \<and> mset p' = mset (p @ [x])"
proof -
  let ?a = "takeWhile (\<lambda>y. y \<le> x) p" and ?b = "dropWhile (\<lambda>y. y \<le> x) p"
  have "sorted (?a @ ?b)" using assms by simp
  then have ab: "sorted ?a" "sorted ?b" "\<forall>u \<in> set ?a. \<forall>v \<in> set ?b. u \<le> v"
    unfolding sorted_append by blast+
  have "\<forall>v \<in> set ?b. x \<le> v"
  proof (cases ?b)
    case (Cons v r)
    then have "\<not> v \<le> x" using hd_dropWhile [of "\<lambda>y. y \<le> x" p] by simp
    then show ?thesis using ab(2) Cons by auto
  next
    case Nil
    then show ?thesis by (metis empty_iff list.set(1))
  qed
  then have "sorted (?a @ x # ?b)"
    using ab by (auto simp: sorted_append dest: set_takeWhileD)
  moreover have "mset (?a @ x # ?b) = mset (p @ [x])"
    by simp (metis mset_append takeWhile_dropWhile_id)
  ultimately show ?thesis
    using sift_insert [OF assms, of x q] by (intro exI [of _ "?a @ x # ?b"]) simp
qed

lemma insertion_prefix:
  "n \<le> length xs \<Longrightarrow> 0 < n \<Longrightarrow> \<exists>p. fold (\<lambda>i ys. sift ys i) [1..<n] xs = p @ drop n xs \<and> sorted p \<and> mset p = mset (take n xs)"
proof (induction n)
  case (Suc n)
  show ?case
  proof (cases "n = 0")
    case True
    then show ?thesis using Suc.prems by (cases xs) auto
  next
    case False
    then obtain p where p: "fold (\<lambda>i ys. sift ys i) [1..<n] xs = p @ drop n xs" "sorted p" "mset p = mset (take n xs)"
      using Suc by auto
    then have len: "length p = n" using Suc.prems(1) by (metis Suc_leD length_take min.absorb2 size_mset)
    have d: "drop n xs = xs ! n # drop (Suc n) xs" using Suc.prems(1) by (simp add: Cons_nth_drop_Suc)
    obtain p' where "sift (p @ xs ! n # drop (Suc n) xs) (length p) = p' @ drop (Suc n) xs" "sorted p'"
      "mset p' = mset (p @ [xs ! n])"
      using sift_sorts [OF p(2)] by blast
    then show ?thesis
      using p(1,3) d len False Suc.prems(1)
      by (intro exI [of _ p']) (simp add: take_Suc_conv_app_nth)
  qed
qed simp

lemma insertion_sort_sorts: "insertion_sort xs = sort xs"
proof (cases "xs = []")
  case True
  then show ?thesis by (simp add: insertion_sort_def)
next
  case False
  then obtain p where "insertion_sort xs = p" "sorted p" "mset p = mset xs"
    using insertion_prefix [of "length xs" xs] by (auto simp: insertion_sort_def)
  then show ?thesis by (metis properties_for_sort)
qed

section \<open>Facts on the rate limiter\<close>

lemma bucket_step_plain: "fst (bucket_step False now b) = (\<not> fst (tb_allow now b)) \<and>
    snd (bucket_step False now b) = snd (tb_allow now b)"
  by (simp add: bucket_step_def tb_allow_def allowN_def Let_def)

text \<open>Without the bonus a bucket of the engine is a burst limiter, with the credit of a token bucket.\<close>

interpretation det_burst: burst_limiter "\<lambda>b. (\<not> fst (bucket_step False now b), snd (bucket_step False now b))"
    tb_tokens "\<lambda>b. tb_inv b \<and> tb_lastTime b = now"
  for now
proof -
  have "(\<lambda>b. (\<not> fst (bucket_step False now b), snd (bucket_step False now b))) = tb_allow now"
    by (rule ext) (simp add: prod_eq_iff bucket_step_plain)
  then show "burst_limiter (\<lambda>b. (\<not> fst (bucket_step False now b), snd (bucket_step False now b)))
      tb_tokens (\<lambda>b. tb_inv b \<and> tb_lastTime b = now)"
    using tb_burst.burst_limiter_axioms by simp
qed

definition de_inv :: "det_config \<Rightarrow> gtime \<Rightarrow> det_engine \<Rightarrow> bool" where
  "de_inv cfg now e \<longleftrightarrow> 0 \<le> dc_Burst cfg \<and> 0 \<le> dc_RequestsPerSecond cfg \<and>
     (\<forall>ip b. map_of (de_counters e) ip = Some b \<longrightarrow>
        0 \<le> tb_tokens b \<and> 0 \<le> tb_rate b \<and> 0 \<le> tb_capacity b \<and> tb_lastTime b \<le> now)"

definition the_bucket :: "det_config \<Rightarrow> gtime \<Rightarrow> string \<Rightarrow> det_engine \<Rightarrow> token_bucket" where
  "the_bucket cfg now ip e = (case map_of (de_counters e) ip of Some b \<Rightarrow> b | None \<Rightarrow> new_bucket cfg now)"

lemma the_bucket_ok:
  "de_inv cfg now e \<Longrightarrow> 0 \<le> tb_tokens (the_bucket cfg now ip e) \<and> 0 \<le> tb_rate (the_bucket cfg now ip e) \<and>
     0 \<le> tb_capacity (the_bucket cfg now ip e) \<and> tb_lastTime (the_bucket cfg now ip e) \<le> now"
  by (auto simp: de_inv_def the_bucket_def new_bucket_def f_of_int_nonneg split: option.splits)

lemma refill_nonneg:
  assumes "0 \<le> tb_tokens b" "0 \<le> tb_rate b" "0 \<le> tb_capacity b" "tb_lastTime b \<le> now"
  shows "0 \<le> tb_refill now b"
proof -
  have "0 \<le> fmul (seconds (time_sub now (tb_lastTime b))) (tb_rate b)"
    unfolding fmul_def using assms by (intro fl.rnd_nonneg mult_nonneg_nonneg seconds_nonneg time_sub_nonneg)
  then show ?thesis
    using assms by (auto simp: tb_refill_def Let_def fadd_def intro!: fl.rnd_nonneg)
qed

lemma bucket_step_keeps:
  assumes "0 \<le> tb_tokens b" "0 \<le> tb_rate b" "0 \<le> tb_capacity b" "tb_lastTime b \<le> now"
  shows "0 \<le> tb_tokens (snd (bucket_step bonus now b))"
    and "tb_rate (snd (bucket_step bonus now b)) = tb_rate b"
    and "tb_capacity (snd (bucket_step bonus now b)) = tb_capacity b"
    and "tb_lastTime (snd (bucket_step bonus now b)) = now"
  using refill_nonneg [OF assms]
  by (auto simp: bucket_step_def Let_def fadd_def fsub_def intro!: fl.rnd_nonneg)

lemma bonus_admits:
  assumes "0 \<le> tb_tokens b" "0 \<le> tb_rate b" "0 \<le> tb_capacity b" "tb_lastTime b \<le> now"
  shows "\<not> fst (bucket_step True now b)"
proof -
  have "(1::rat) \<le> fadd (tb_refill now b) 5"
    unfolding fadd_def using fl.rnd_ge_int [of 1] refill_nonneg [OF assms] by simp
  then show ?thesis by (simp add: bucket_step_def Let_def)
qed

lemma checkRateLimit_eq:
  "dc_RateEnabled cfg \<Longrightarrow> checkRateLimit cfg now ip e =
     (fst (bucket_step (lenient cfg e) now (the_bucket cfg now ip e)),
      e\<lparr>de_counters := AList.update ip (snd (bucket_step (lenient cfg e) now (the_bucket cfg now ip e))) (de_counters e)\<rparr>)"
  by (simp add: checkRateLimit_def the_bucket_def split_beta Let_def)

lemma checkRateLimit_inv: "de_inv cfg now e \<Longrightarrow> de_inv cfg now (snd (checkRateLimit cfg now ip e))"
proof (cases "dc_RateEnabled cfg")
  case True
  assume inv: "de_inv cfg now e"
  note b = the_bucket_ok [OF inv, of ip]
  show ?thesis
    using inv b bucket_step_keeps [of "the_bucket cfg now ip e" now "lenient cfg e"]
    by (auto simp: checkRateLimit_eq [OF True] de_inv_def)
qed (simp add: checkRateLimit_def)

text \<open>A sequence of checks of one address, at times in order; how many are admitted.\<close>

fun check_run :: "det_config \<Rightarrow> string \<Rightarrow> gtime list \<Rightarrow> det_engine \<Rightarrow> nat \<times> det_engine" where
  "check_run cfg ip [] e = (0, e)"
| "check_run cfg ip (now # ts) e =
     (let (limited, e) = checkRateLimit cfg now ip e; (n, e) = check_run cfg ip ts e
      in (if limited then n else Suc n, e))"

lemma checkRateLimit_lenient: "lenient cfg (snd (checkRateLimit cfg now ip e)) = lenient cfg e"
  by (simp add: checkRateLimit_def lenient_def split_beta Let_def)

lemma de_inv_later: "de_inv cfg t e \<Longrightarrow> t \<le> u \<Longrightarrow> de_inv cfg u e"
  unfolding de_inv_def by (meson order_trans)

section \<open>Properties\<close>

text \<open>
  In quiet traffic the adaptive limiter limits nobody: while the global rate is below half of the
  learned average, every check adds five tokens and takes one, so of any number of checks of an address
  in a row, at whatever times, all are admitted, whatever burst and rate are configured.
\<close>

theorem quiet_traffic_is_unlimited:
  assumes "lenient cfg e" and "de_inv cfg t e" and "sorted (t # ts)"
  shows "fst (check_run cfg ip ts e) = length ts"
  using assms
proof (induction ts arbitrary: t e)
  case (Cons now ts)
  let ?e = "snd (checkRateLimit cfg now ip e)"
  have inv: "de_inv cfg now e" using Cons.prems by (auto intro: de_inv_later)
  then have "\<not> fst (checkRateLimit cfg now ip e)"
    using Cons.prems(1) bonus_admits the_bucket_ok [OF inv, of ip]
    by (cases "dc_RateEnabled cfg") (simp_all add: checkRateLimit_eq, simp add: checkRateLimit_def)
  moreover have "fst (check_run cfg ip ts ?e) = length ts"
    using Cons.prems(1,3) checkRateLimit_inv [OF inv] by (intro Cons.IH [of _ now]) (auto simp: checkRateLimit_lenient)
  ultimately show ?case by (simp add: split_beta)
qed simp

definition quiet_config :: det_config where
  "quiet_config =
     \<lparr>dc_RateEnabled = True, dc_RequestsPerSecond = 10, dc_Burst = 1, dc_Adaptive = True,
      dc_BaselineEnabled = True, dc_LearningPeriod = hour, dc_Sensitivity = 1, dc_SessionEnabled = True,
      dc_SessionTTL = hour\<rparr>"

definition quiet_engine :: det_engine where
  "quiet_engine = (newDetEngine quiet_config 0)\<lparr>de_baseline := (de_baseline (newDetEngine quiet_config 0))
     \<lparr>bl_avgRPS := 100\<rparr>\<rparr>"

theorem quiet_traffic_is_unlimited_witness:
  "fst (check_run quiet_config ''10.0.0.1'' (replicate 500 0) quiet_engine) = 500"
proof -
  have "lenient quiet_config quiet_engine"
    by (simp add: lenient_def quiet_config_def quiet_engine_def newDetEngine_def f_of_int_def fmul_def)
  moreover have "de_inv quiet_config 0 quiet_engine"
    by (simp add: de_inv_def quiet_config_def quiet_engine_def newDetEngine_def)
  moreover have "sorted ((0::int) # replicate 500 0)" by simp
  ultimately show ?thesis
    using quiet_traffic_is_unlimited [of quiet_config quiet_engine 0 "replicate 500 0" "''10.0.0.1''"] by simp
qed

text \<open>
  Traffic at or below the learned average is never an anomaly: with a nonnegative 99th percentile
  of at least two thirds of the current rate, the result is no anomaly for any sensitivity above zero,
  even where the deviation is zero and the Z-score is a division by zero.
\<close>

theorem calm_traffic_is_no_anomaly:
  assumes "currentRPS \<le> bl_avgRPS (de_baseline e)" and "0 \<le> bl_stddevRPS (de_baseline e)"
    and "currentRPS \<le> fmul (bl_p99RPS (de_baseline e)) (3/2)" and "0 < dc_Sensitivity cfg"
  shows "\<not> ar_IsAnomaly (detectAnomaly cfg currentRPS e)"
proof -
  let ?b = "de_baseline e"
  have "fsub currentRPS (bl_avgRPS ?b) \<le> 0"
    unfolding fsub_def using fl64_mono [of "currentRPS - bl_avgRPS ?b" 0] assms(1) by simp
  moreover have "fdiv (fsub currentRPS (bl_avgRPS ?b)) (bl_stddevRPS ?b) \<le> 0"
    unfolding fdiv_def using fl64_mono [of "fsub currentRPS (bl_avgRPS ?b) / bl_stddevRPS ?b" 0] calculation assms(2)
    by (simp add: divide_nonpos_nonneg)
  moreover have "0 \<le> fmul 3 (fdiv 1 (dc_Sensitivity cfg))"
    unfolding fmul_def fdiv_def using assms(4) by (intro fl.rnd_nonneg mult_nonneg_nonneg) simp_all
  ultimately have "\<not> xgt (xdiv (fsub currentRPS (bl_avgRPS ?b)) (bl_stddevRPS ?b))
      (xscale 3 (xdiv 1 (dc_Sensitivity cfg)))"
    using assms(2,4) by (auto simp: xdiv_def)
  then show ?thesis
    using assms(3) by (simp add: detectAnomaly_def Let_def not_less)
qed

theorem calm_traffic_is_no_anomaly_witness:
  "\<not> ar_IsAnomaly (detectAnomaly quiet_config 40
     (quiet_engine\<lparr>de_baseline := (de_baseline quiet_engine)\<lparr>bl_p99RPS := 120, bl_isLearning := False\<rparr>\<rparr>))"
  by (rule calm_traffic_is_no_anomaly)
    (simp_all add: quiet_engine_def newDetEngine_def quiet_config_def fmul_def)

end
