(* ===== verification/Behavior.thy ===== *)
theory Behavior
  imports DetEngine
begin

text \<open>
  The behaviour analyzer of \<open>packages/mango-waf/detection/behavior.go\<close>: one profile per address, and the
  verdict computed from timing, URL entropy, diversity, speed, errors and user agents. \<open>math.Log2\<close> is the
  parameter \<open>log2\<close>; the order of the URL counters is the order in which \<open>range\<close> visits the map.
\<close>

section \<open>Profiles\<close>

text \<open>
  The fields the code never writes after creation (content types and the three partial scores) are left
  out.
\<close>

record profile =
  bp_IP :: string
  bp_FirstSeen :: gtime
  bp_LastSeen :: gtime
  bp_TotalReqs :: int
  bp_WindowReqs :: int
  bp_WindowStart :: gtime
  bp_URLs :: "int smap"
  bp_Methods :: "int smap"
  bp_StatusCodes :: "(int \<times> int) list"
  bp_UserAgents :: "int smap"
  bp_IntervalSamples :: "rat list"
  bp_LastReqTime :: gtime
  bp_Depth4xx :: int
  bp_APIEndpoints :: int
  bp_StaticReqs :: int
  bp_DynamicReqs :: int
  bp_BotProbability :: rat

record verdict =
  bv_Score :: rat
  bv_IsBot :: bool
  bv_IsSuspicious :: bool
  bv_Reasons :: "string list"
  bv_Profile :: string

definition new_profile :: "gtime \<Rightarrow> string \<Rightarrow> profile" where
  "new_profile now ip =
     \<lparr>bp_IP = ip, bp_FirstSeen = now, bp_LastSeen = zero_time, bp_TotalReqs = 0, bp_WindowReqs = 0,
      bp_WindowStart = zero_time, bp_URLs = [], bp_Methods = [], bp_StatusCodes = [], bp_UserAgents = [],
      bp_IntervalSamples = [], bp_LastReqTime = zero_time, bp_Depth4xx = 0, bp_APIEndpoints = 0,
      bp_StaticReqs = 0, bp_DynamicReqs = 0, bp_BotProbability = 0\<rparr>"

section \<open>Helpers\<close>

definition normalizeURL :: "string \<Rightarrow> string" where
  "normalizeURL url =
     (case str_index url (CHR ''?'') of Some idx \<Rightarrow> if 0 < idx then take idx url else url | None \<Rightarrow> url)"

definition isStaticResource :: "string \<Rightarrow> bool" where
  "isStaticResource url \<longleftrightarrow>
     list_ex (has_suffix (to_lower url))
       [''.css'', ''.js'', ''.png'', ''.jpg'', ''.jpeg'', ''.gif'', ''.svg'', ''.woff'', ''.woff2'', ''.ico'', ''.webp'']"

definition isAPIEndpoint :: "string \<Rightarrow> bool" where
  "isAPIEndpoint url \<longleftrightarrow> has_prefix url ''/api/'' \<or> has_prefix url ''/v1/'' \<or> has_prefix url ''/v2/''"

definition meanFloat :: "rat list \<Rightarrow> rat" where
  "meanFloat xs = (if xs = [] then 0 else mean xs)"

definition stddevFloat :: "rat list \<Rightarrow> rat \<Rightarrow> rat" where
  "stddevFloat xs avg = (if xs = [] then 0 else stddev xs avg)"

section \<open>The penalties\<close>

definition analyzeTimingRegularity :: "profile \<Rightarrow> rat" where
  "analyzeTimingRegularity p =
     (if length (bp_IntervalSamples p) < 10 then 0
      else let avg = meanFloat (bp_IntervalSamples p) in
        if avg = 0 then 100
        else let cv = fdiv (stddevFloat (bp_IntervalSamples p) avg) avg in
          if cv < fl64 (5/100) then 100 else if cv < fl64 (15/100) then 80
          else if cv < fl64 (30/100) then 50 else if cv < 1/2 then 20 else 0)"

definition analyzeURLEntropy :: "(rat \<Rightarrow> rat) \<Rightarrow> profile \<Rightarrow> rat" where
  "analyzeURLEntropy log2 p =
     (if bp_URLs p = [] then 50
      else let tot = fold (\<lambda>(u, c) s. fadd s (f_of_int c)) (bp_URLs p) 0;
               entropy = fold (\<lambda>(u, c) e. let prob = fdiv (f_of_int c) tot
                 in if 0 < prob then fsub e (fmul prob (log2 prob)) else e) (bp_URLs p) 0;
               maxEntropy = log2 (f_of_int (int (length (bp_URLs p)))) in
        if maxEntropy = 0 then 80
        else let n = fdiv entropy maxEntropy in
          if n < fl64 (2/10) then 90 else if n < fl64 (4/10) then 60 else if n < fl64 (6/10) then 30 else 0)"

definition analyzeDiversity :: "profile \<Rightarrow> rat" where
  "analyzeDiversity p =
     (let penalty = 0;
          penalty = (if length (bp_Methods p) = 1 then fadd penalty 20 else penalty);
          penalty = (if bp_StaticReqs p = 0 \<and> 20 < bp_TotalReqs p then fadd penalty 40 else penalty);
          penalty = (if 0 < bp_DynamicReqs p \<and> bp_StaticReqs p = 0 \<and> 0 < bp_APIEndpoints p
                     then fadd penalty 30 else penalty);
          uniqueRatio = fdiv (f_of_int (int (length (bp_URLs p)))) (f_of_int (bp_TotalReqs p));
          penalty = (if 50 < bp_TotalReqs p \<and> uniqueRatio < fl64 (5/100) then fadd penalty 40 else penalty)
      in if 100 < penalty then 100 else penalty)"

definition analyzeSpeed :: "gtime \<Rightarrow> profile \<Rightarrow> rat" where
  "analyzeSpeed now p =
     (let elapsed = seconds (time_sub now (bp_FirstSeen p));
          elapsed = (if elapsed < 1 then 1 else elapsed);
          rps = fdiv (f_of_int (bp_TotalReqs p)) elapsed
      in if 100 < rps then 100 else if 50 < rps then 80 else if 20 < rps then 60
         else if 10 < rps then 30 else 0)"

definition analyzeErrorPattern :: "profile \<Rightarrow> rat" where
  "analyzeErrorPattern p =
     (if bp_TotalReqs p < 10 then 0
      else let total4xx = fold (\<lambda>(code, c) s. if 400 \<le> code \<and> code < 500 then s + c else s) (bp_StatusCodes p) 0;
               errorRate = fdiv (f_of_int total4xx) (f_of_int (bp_TotalReqs p))
           in if 1/2 < errorRate then 100 else if fl64 (3/10) < errorRate then 70
              else if fl64 (15/100) < errorRate then 40 else 0)"

definition analyzeUAConsistency :: "profile \<Rightarrow> rat" where
  "analyzeUAConsistency p = (if 3 < length (bp_UserAgents p) then 60 else 0)"

section \<open>The verdict\<close>

definition classify_score :: "rat \<Rightarrow> verdict" where
  "classify_score score =
     (if score < 20 then \<lparr>bv_Score = score, bv_IsBot = True, bv_IsSuspicious = False,
        bv_Reasons = [''extreme_bot_behavior''], bv_Profile = ''ddos''\<rparr>
      else if score < 40 then \<lparr>bv_Score = score, bv_IsBot = True, bv_IsSuspicious = False,
        bv_Reasons = [''high_bot_probability''], bv_Profile = ''bot''\<rparr>
      else if score < 55 then \<lparr>bv_Score = score, bv_IsBot = False, bv_IsSuspicious = True,
        bv_Reasons = [''suspicious_pattern''], bv_Profile = ''suspicious''\<rparr>
      else \<lparr>bv_Score = score, bv_IsBot = False, bv_IsSuspicious = False,
        bv_Reasons = [], bv_Profile = ''human''\<rparr>)"

definition computeVerdict :: "(rat \<Rightarrow> rat) \<Rightarrow> gtime \<Rightarrow> profile \<Rightarrow> verdict \<times> profile" where
  "computeVerdict log2 now p =
     (let s = 100;
          s = fsub s (fmul (analyzeTimingRegularity p) (1/4));
          s = fsub s (fmul (analyzeURLEntropy log2 p) (fl64 (2/10)));
          s = fsub s (fmul (analyzeDiversity p) (fl64 (2/10)));
          s = fsub s (fmul (analyzeSpeed now p) (fl64 (15/100)));
          s = fsub s (fmul (analyzeErrorPattern p) (fl64 (1/10)));
          s = fsub s (fmul (analyzeUAConsistency p) (fl64 (1/10)));
          s = (if s < 0 then 0 else s)
      in (classify_score s, p\<lparr>bp_BotProbability := fsub 1 (fdiv s 100)\<rparr>))"

text \<open>What a request adds to its profile.\<close>

definition add_interval :: "gtime \<Rightarrow> profile \<Rightarrow> profile" where
  "add_interval now p =
     (if is_zero (bp_LastReqTime p) then p
      else let interval = fmul (seconds (time_sub now (bp_LastReqTime p))) 1000
           in if length (bp_IntervalSamples p) < 1000
              then p\<lparr>bp_IntervalSamples := bp_IntervalSamples p @ [interval]\<rparr>
              else p\<lparr>bp_IntervalSamples := tl (bp_IntervalSamples p) @ [interval]\<rparr>)"

definition classify_request :: "string \<Rightarrow> profile \<Rightarrow> profile" where
  "classify_request url p =
     (if isStaticResource url then p\<lparr>bp_StaticReqs := bp_StaticReqs p + 1\<rparr>
      else if isAPIEndpoint url
      then p\<lparr>bp_APIEndpoints := bp_APIEndpoints p + 1, bp_DynamicReqs := bp_DynamicReqs p + 1\<rparr>
      else p\<lparr>bp_DynamicReqs := bp_DynamicReqs p + 1\<rparr>)"

definition update_profile :: "gtime \<Rightarrow> string \<Rightarrow> string \<Rightarrow> string \<Rightarrow> int \<Rightarrow> profile \<Rightarrow> profile" where
  "update_profile now url meth ua statusCode p =
     (let p = p\<lparr>bp_LastSeen := now, bp_TotalReqs := bp_TotalReqs p + 1\<rparr>;
          p = (add_interval now p)\<lparr>bp_LastReqTime := now\<rparr>;
          p = p\<lparr>bp_URLs := m_incr (normalizeURL url) (bp_URLs p), bp_Methods := m_incr meth (bp_Methods p),
                bp_StatusCodes := m_incr statusCode (bp_StatusCodes p),
                bp_UserAgents := m_incr ua (bp_UserAgents p)\<rparr>;
          p = classify_request url p;
          p = (if 400 \<le> statusCode \<and> statusCode < 500 then p\<lparr>bp_Depth4xx := bp_Depth4xx p + 1\<rparr> else p)
      in if 5 * minute < time_sub now (bp_WindowStart p)
         then p\<lparr>bp_WindowReqs := 1, bp_WindowStart := now\<rparr>
         else p\<lparr>bp_WindowReqs := bp_WindowReqs p + 1\<rparr>)"

definition behavior_analyze ::
  "(rat \<Rightarrow> rat) \<Rightarrow> gtime \<Rightarrow> string \<Rightarrow> string \<Rightarrow> string \<Rightarrow> string \<Rightarrow> int \<Rightarrow> profile smap \<Rightarrow> verdict \<times> profile smap" where
  "behavior_analyze log2 now ip url meth ua statusCode ba =
     (let p = (case map_of ba ip of Some p \<Rightarrow> p | None \<Rightarrow> new_profile now ip);
          p = update_profile now url meth ua statusCode p
      in if bp_TotalReqs p < 5
         then (\<lparr>bv_Score = 70, bv_IsBot = False, bv_IsSuspicious = False, bv_Reasons = [], bv_Profile = ''unknown''\<rparr>,
               AList.update ip p ba)
         else (let (v, p) = computeVerdict log2 now p in (v, AList.update ip p ba)))"

definition behavior_cleanup :: "gtime \<Rightarrow> duration \<Rightarrow> profile smap \<Rightarrow> profile smap" where
  "behavior_cleanup now maxAge ba = m_keep (\<lambda>ip p. \<not> maxAge < time_sub now (bp_LastSeen p)) ba"

section \<open>Facts on the verdict\<close>

lemma penalties_nonneg:
  "0 \<le> analyzeTimingRegularity p" "0 \<le> analyzeURLEntropy log2 p" "0 \<le> analyzeDiversity p"
  "0 \<le> analyzeSpeed now p" "0 \<le> analyzeErrorPattern p" "0 \<le> analyzeUAConsistency p"
  by (auto simp: analyzeTimingRegularity_def analyzeURLEntropy_def analyzeDiversity_def analyzeSpeed_def
      analyzeErrorPattern_def analyzeUAConsistency_def Let_def fadd_def)

lemma fsub_penalty_le: "fl64 s = s \<Longrightarrow> 0 \<le> x \<Longrightarrow> 0 \<le> w \<Longrightarrow> fsub s (fmul x (fl64 w)) \<le> s"
  unfolding fsub_def fmul_def by (intro fl.rnd_sub_le fl.rnd_nonneg mult_nonneg_nonneg) simp_all

lemma fl64_fsub [simp]: "fl64 (fsub a b) = fsub a b"
  by (simp add: fsub_def)

lemma computeVerdict_score: "0 \<le> bv_Score (fst (computeVerdict log2 now p)) \<and> bv_Score (fst (computeVerdict log2 now p)) \<le> 100"
proof -
  have q: "fl64 (1/4) = (1/4 :: rat)" using fl64_dyadic [of "1/4" 2 1] by simp
  define s1 where "s1 = fsub 100 (fmul (analyzeTimingRegularity p) (fl64 (1/4)))"
  define s2 where "s2 = fsub s1 (fmul (analyzeURLEntropy log2 p) (fl64 (2/10)))"
  define s3 where "s3 = fsub s2 (fmul (analyzeDiversity p) (fl64 (2/10)))"
  define s4 where "s4 = fsub s3 (fmul (analyzeSpeed now p) (fl64 (15/100)))"
  define s5 where "s5 = fsub s4 (fmul (analyzeErrorPattern p) (fl64 (1/10)))"
  define s6 where "s6 = fsub s5 (fmul (analyzeUAConsistency p) (fl64 (1/10)))"
  note defs = s1_def s2_def s3_def s4_def s5_def s6_def
  have "s1 \<le> 100" "s2 \<le> s1" "s3 \<le> s2" "s4 \<le> s3" "s5 \<le> s4" "s6 \<le> s5"
    unfolding defs by (rule fsub_penalty_le; simp add: penalties_nonneg)+
  then have "s6 \<le> 100" by linarith
  moreover have "bv_Score (fst (computeVerdict log2 now p)) = (if s6 < 0 then 0 else s6)"
    by (simp add: computeVerdict_def classify_score_def Let_def defs q)
  ultimately show ?thesis by simp
qed

section \<open>Properties\<close>

text \<open>
  Every verdict of the analyzer is on its scale and means what its bands say: the score is between 0
  and 100 whatever the profile, the address is called a bot exactly below 40, suspicious exactly from 40
  up to 55, and never anything but unknown in its first four requests.
\<close>

theorem behavior_verdict_bands:
  "(let v = fst (behavior_analyze log2 now ip url meth ua statusCode ba);
        n = (case map_of ba ip of Some p \<Rightarrow> bp_TotalReqs p | None \<Rightarrow> 0)
    in 0 \<le> bv_Score v \<and> bv_Score v \<le> 100 \<and> bv_IsBot v = (bv_Score v < 40) \<and>
       bv_IsSuspicious v = (40 \<le> bv_Score v \<and> bv_Score v < 55) \<and>
       (bv_Profile v = ''unknown'') = (n < 4))"
proof -
  define p where "p = update_profile now url meth ua statusCode
    (case map_of ba ip of Some p \<Rightarrow> p | None \<Rightarrow> new_profile now ip)"
  have n: "bp_TotalReqs p = (case map_of ba ip of Some p \<Rightarrow> bp_TotalReqs p | None \<Rightarrow> 0) + 1"
    by (auto simp: p_def update_profile_def add_interval_def classify_request_def new_profile_def Let_def
        split: option.split)
  have bands: "bv_IsBot (classify_score s) = (s < 40) \<and> bv_Score (classify_score s) = s \<and>
      bv_IsSuspicious (classify_score s) = (40 \<le> s \<and> s < 55) \<and> bv_Profile (classify_score s) \<noteq> ''unknown''" for s
    by (auto simp: classify_score_def)
  have cv: "\<exists>s. fst (computeVerdict log2 now p) = classify_score s"
    by (auto simp: computeVerdict_def Let_def)
  show ?thesis
  proof (cases "bp_TotalReqs p < 5")
    case True
    then show ?thesis
      using n by (simp add: behavior_analyze_def p_def [symmetric] Let_def)
  next
    case False
    then have "fst (behavior_analyze log2 now ip url meth ua statusCode ba) = fst (computeVerdict log2 now p)"
      by (simp add: behavior_analyze_def p_def [symmetric] Let_def split_beta)
    moreover obtain s where s: "fst (computeVerdict log2 now p) = classify_score s" using cv by blast
    moreover have "0 \<le> s \<and> s \<le> 100"
      using computeVerdict_score [of log2 now p] bands [of s] by (simp only: s)
    moreover have "\<not> (case map_of ba ip of Some p \<Rightarrow> bp_TotalReqs p | None \<Rightarrow> 0) < 4"
      using False n by linarith
    ultimately show ?thesis
      using bands [of s] by (simp only: Let_def)
  qed
qed

end
