(* ===== verification/Classifier.thy ===== *)
theory Classifier
  imports Behavior Fingerprint
begin

text \<open>
  The bot classifier of \<open>packages/mango-waf/detection/classifier.go\<close>: twelve signatures over a request, the
  evidence of the TLS fingerprint and of the behaviour analyzer, and a cache of 30 seconds per address.
\<close>

section \<open>Requests and signatures\<close>

record classify_request =
  cr_IP :: string
  cr_UserAgent :: string
  cr_Headers :: "string smap"
  cr_URL :: string
  cr_Method :: string
  cr_Fingerprint :: "conn_fingerprint option"
  cr_Behavior :: "verdict option"

record bot_signature =
  bs_Name :: string
  bs_Category :: string
  bs_Threat :: string
  bs_MatchFn :: "classify_request \<Rightarrow> bool"

record bot_result =
  br_IsBot :: bool
  br_BotType :: string
  br_BotName :: string
  br_Confidence :: rat
  br_Threat :: string
  br_Reasons :: "string list"
  br_CachedAt :: gtime

text \<open>\<open>req.Headers[k]\<close>, the empty string for a missing key.\<close>

definition hdr :: "classify_request \<Rightarrow> string \<Rightarrow> string" where
  "hdr req k = (case map_of (cr_Headers req) k of Some v \<Rightarrow> v | None \<Rightarrow> [])"

definition has_hdr :: "classify_request \<Rightarrow> string \<Rightarrow> bool" where
  "has_hdr req k \<longleftrightarrow> map_of (cr_Headers req) k \<noteq> None"

definition ddosTools :: "string list" where
  "ddosTools =
     [''mhddos'', ''loic'', ''hoic'', ''slowloris'', ''goldeneye'', ''hulk'', ''xerxes'', ''torshammer'',
      ''slowhttptest'', ''pyloris'', ''rudy'', ''thc-ssl'', ''apache-bench'']"

definition ua_contains :: "classify_request \<Rightarrow> string list \<Rightarrow> bool" where
  "ua_contains req ps \<longleftrightarrow> list_ex (str_contains (to_lower (cr_UserAgent req))) ps"

definition sql_or_probe :: string where
  "sql_or_probe = [CHR 0x27] @ '' or '' @ [CHR 0x27] @ ''1'' @ [CHR 0x27] @ ''='' @ [CHR 0x27] @ ''1''"

definition sig :: "string \<Rightarrow> string \<Rightarrow> string \<Rightarrow> (classify_request \<Rightarrow> bool) \<Rightarrow> bot_signature" where
  "sig name category threat f =
     \<lparr>bs_Name = name, bs_Category = category, bs_Threat = threat, bs_MatchFn = f\<rparr>"

definition defaultSignatures :: "bot_signature list" where
  "defaultSignatures =
     [sig ''no_accept_header'' ''automation'' ''medium'' (\<lambda>req. \<not> has_hdr req ''Accept'' \<or> hdr req ''Accept'' = []),
      sig ''no_accept_language'' ''automation'' ''low'' (\<lambda>req. \<not> has_hdr req ''Accept-Language''),
      sig ''no_accept_encoding'' ''automation'' ''low'' (\<lambda>req. \<not> has_hdr req ''Accept-Encoding''),
      sig ''connection_close'' ''ddos_tool'' ''medium'' (\<lambda>req. to_lower (hdr req ''Connection'') = ''close''),
      sig ''missing_referer_on_subresource'' ''scraper'' ''low''
        (\<lambda>req. isStaticResource (cr_URL req) \<and> hdr req ''Referer'' = []),
      sig ''ddos_ua_mhddos'' ''ddos_tool'' ''critical'' (\<lambda>req. ua_contains req ddosTools),
      sig ''ua_browser_no_sec_headers'' ''automation'' ''medium''
        (\<lambda>req. ua_contains req [''mozilla'', ''chrome'', ''firefox''] \<and>
               \<not> has_hdr req ''Sec-Fetch-Mode'' \<and> \<not> has_hdr req ''Sec-Fetch-Dest''),
      sig ''post_no_content_type'' ''scanner'' ''medium''
        (\<lambda>req. cr_Method req = ''POST'' \<and> hdr req ''Content-Type'' = []),
      sig ''path_traversal_attempt'' ''scanner'' ''high''
        (\<lambda>req. list_ex (str_contains (cr_URL req)) [''..'', ''.env'', ''wp-login'', ''phpmyadmin'', ''.git/'']),
      sig ''sql_injection_probe'' ''scanner'' ''high''
        (\<lambda>req. list_ex (str_contains (to_lower (cr_URL req)))
           [''union+select'', sql_or_probe, ''1=1'', ''sleep('', ''benchmark('']),
      sig ''googlebot'' ''legitimate_bot'' ''none'' (\<lambda>req. ua_contains req [''googlebot'', ''google-inspectiontool'']),
      sig ''bingbot'' ''legitimate_bot'' ''none'' (\<lambda>req. ua_contains req [''bingbot''])]"

definition threat_level :: "string \<Rightarrow> nat" where
  "threat_level t =
     (if t = ''low'' then 1 else if t = ''medium'' then 2 else if t = ''high'' then 3
      else if t = ''critical'' then 4 else 0)"

definition threatHigher :: "string \<Rightarrow> string \<Rightarrow> bool" where
  "threatHigher a b \<longleftrightarrow> threat_level b < threat_level a"

section \<open>Classification\<close>

text \<open>The loop over the signatures: the result so far, the match count and the highest threat.\<close>

definition match_sig :: "classify_request \<Rightarrow> bot_signature \<Rightarrow> bot_result \<times> int \<times> string \<Rightarrow> bot_result \<times> int \<times> string" where
  "match_sig req s st =
     (let (r, n, hi) = st in
      if bs_MatchFn s req
      then let r = r\<lparr>br_Reasons := br_Reasons r @ [bs_Name s]\<rparr>;
               r = (if bs_Category s \<noteq> [] \<and> br_BotType r = [] then r\<lparr>br_BotType := bs_Category s\<rparr> else r);
               r = (if bs_Name s \<noteq> [] \<and> br_BotName r = [] then r\<lparr>br_BotName := bs_Name s\<rparr> else r)
           in (r, n + 1, if threatHigher (bs_Threat s) hi then bs_Threat s else hi)
      else st)"

definition fp_evidence :: "classify_request \<Rightarrow> bot_result \<times> int \<Rightarrow> bot_result \<times> int" where
  "fp_evidence req st =
     (case cr_Fingerprint req of
        None \<Rightarrow> st
      | Some fp \<Rightarrow>
          let (r, n) = st;
              (r, n) = (if cs_Total (cf_Composite fp) < 30
                        then (r\<lparr>br_Reasons := br_Reasons r @ [''low_fp_trust'']\<rparr>, n + 2) else (r, n))
          in if j3_Known (cf_JA3 fp) \<and> j3_TrustScore (cf_JA3 fp) < 10
             then (r\<lparr>br_Reasons := br_Reasons r @ [''known_tool_ja3''], br_BotType := ''ddos_tool''\<rparr>, n + 3)
             else (r, n))"

definition behavior_evidence :: "classify_request \<Rightarrow> bot_result \<times> int \<Rightarrow> bot_result \<times> int" where
  "behavior_evidence req st =
     (case cr_Behavior req of
        None \<Rightarrow> st
      | Some b \<Rightarrow>
          let (r, n) = st;
              (r, n) = (if bv_IsBot b
                        then (r\<lparr>br_Reasons := br_Reasons r @ [''behavior_bot:'' @ bv_Profile b]\<rparr>, n + 2) else (r, n))
          in if bv_Score b < 30 then (r, n + 2) else (r, n))"

definition final_class :: "bot_result \<times> int \<Rightarrow> string \<Rightarrow> bot_result" where
  "final_class st hi =
     (let (r, n) = st; c = fdiv (f_of_int n) 10;
          r = r\<lparr>br_Confidence := (if 1 < c then 1 else c)\<rparr>
      in if 3 \<le> n then r\<lparr>br_IsBot := True, br_Threat := hi\<rparr>
         else if 2 \<le> n then r\<lparr>br_IsBot := True, br_Threat := ''low''\<rparr> else r)"

definition classify_fresh :: "bot_signature list \<Rightarrow> classify_request \<Rightarrow> bot_result" where
  "classify_fresh sigs req =
     (let r = \<lparr>br_IsBot = False, br_BotType = [], br_BotName = [], br_Confidence = 0, br_Threat = ''none'',
               br_Reasons = [], br_CachedAt = zero_time\<rparr>;
          (r, n, hi) = fold (match_sig req) sigs (r, 0, ''none'')
      in final_class (behavior_evidence req (fp_evidence req (r, n))) hi)"

definition classify :: "gtime \<Rightarrow> classify_request \<Rightarrow> bot_result smap \<Rightarrow> bot_result \<times> bot_result smap" where
  "classify now req cache =
     (let fresh = (let r = (classify_fresh defaultSignatures req)\<lparr>br_CachedAt := now\<rparr>
                   in (r, AList.update (cr_IP req) r cache))
      in case map_of cache (cr_IP req) of
           Some r \<Rightarrow> if time_sub now (br_CachedAt r) < 30 * second then (r, cache) else fresh
         | None \<Rightarrow> fresh)"

definition classifier_cleanup :: "gtime \<Rightarrow> bot_result smap \<Rightarrow> bot_result smap" where
  "classifier_cleanup now cache = m_keep (\<lambda>ip r. \<not> 5 * minute < time_sub now (br_CachedAt r)) cache"

section \<open>The weight of the evidence\<close>

definition matches :: "bot_signature list \<Rightarrow> classify_request \<Rightarrow> bot_signature list" where
  "matches sigs req = filter (\<lambda>s. bs_MatchFn s req) sigs"

definition evidence :: "bot_signature list \<Rightarrow> classify_request \<Rightarrow> int" where
  "evidence sigs req =
     int (length (matches sigs req)) +
     (case cr_Fingerprint req of None \<Rightarrow> 0
      | Some fp \<Rightarrow> (if cs_Total (cf_Composite fp) < 30 then 2 else 0) +
          (if j3_Known (cf_JA3 fp) \<and> j3_TrustScore (cf_JA3 fp) < 10 then 3 else 0)) +
     (case cr_Behavior req of None \<Rightarrow> 0
      | Some b \<Rightarrow> (if bv_IsBot b then 2 else 0) + (if bv_Score b < 30 then 2 else 0))"

lemma fold_match:
  "fst (snd (fold (match_sig req) sigs (r, n, hi))) = n + int (length (matches sigs req)) \<and>
   snd (snd (fold (match_sig req) sigs (r, n, hi))) =
     fold (\<lambda>s h. if threatHigher (bs_Threat s) h then bs_Threat s else h) (matches sigs req) hi \<and>
   br_IsBot (fst (fold (match_sig req) sigs (r, n, hi))) = br_IsBot r \<and>
   br_Threat (fst (fold (match_sig req) sigs (r, n, hi))) = br_Threat r"
  by (induction sigs arbitrary: r n hi) (simp_all add: match_sig_def matches_def Let_def)

lemma evidence_steps:
  "snd (behavior_evidence req (fp_evidence req (r, n))) = evidence sigs req - int (length (matches sigs req)) + n"
  "br_IsBot (fst (behavior_evidence req (fp_evidence req (r, n)))) = br_IsBot r"
  "br_Threat (fst (behavior_evidence req (fp_evidence req (r, n)))) = br_Threat r"
  by (simp_all add: behavior_evidence_def fp_evidence_def evidence_def Let_def split: option.split)

lemma final_class_facts:
  "br_IsBot (final_class (r, n) hi) = (2 \<le> n \<or> br_IsBot r)"
  "br_Threat (final_class (r, n) hi) = (if 3 \<le> n then hi else if 2 \<le> n then ''low'' else br_Threat r)"
  "br_Confidence (final_class (r, n) hi) \<le> 1"
  by (simp_all add: final_class_def Let_def)

lemma classify_fresh_facts:
  "br_IsBot (classify_fresh sigs req) = (2 \<le> evidence sigs req)"
  "br_Threat (classify_fresh sigs req) =
     (if 3 \<le> evidence sigs req
      then fold (\<lambda>s h. if threatHigher (bs_Threat s) h then bs_Threat s else h) (matches sigs req) ''none''
      else if 2 \<le> evidence sigs req then ''low'' else ''none'')"
proof -
  let ?r = "\<lparr>br_IsBot = False, br_BotType = [], br_BotName = [], br_Confidence = 0, br_Threat = ''none'',
               br_Reasons = [], br_CachedAt = zero_time\<rparr>"
  obtain r n hi where f: "fold (match_sig req) sigs (?r, 0, ''none'') = (r, n, hi)"
    by (cases "fold (match_sig req) sigs (?r, 0, ''none'')")
  obtain r' n' where e: "behavior_evidence req (fp_evidence req (r, n)) = (r', n')"
    by (cases "behavior_evidence req (fp_evidence req (r, n))")
  have "n = int (length (matches sigs req))" "\<not> br_IsBot r" "br_Threat r = ''none''"
    "hi = fold (\<lambda>s h. if threatHigher (bs_Threat s) h then bs_Threat s else h) (matches sigs req) ''none''"
    using fold_match [of req sigs ?r 0 "''none''"] f by simp_all
  moreover from this have "n' = evidence sigs req" "\<not> br_IsBot r'" "br_Threat r' = ''none''"
    using evidence_steps(1) [of req r n sigs] evidence_steps(2,3) [of req r n] e by simp_all
  ultimately show "br_IsBot (classify_fresh sigs req) = (2 \<le> evidence sigs req)"
    "br_Threat (classify_fresh sigs req) =
     (if 3 \<le> evidence sigs req
      then fold (\<lambda>s h. if threatHigher (bs_Threat s) h then bs_Threat s else h) (matches sigs req) ''none''
      else if 2 \<le> evidence sigs req then ''low'' else ''none'')"
    using f e by (simp_all add: classify_fresh_def final_class_facts)
qed

section \<open>Properties\<close>

text \<open>
  The verdict on an address is a matter of weight, not of severity: without a cached verdict of the
  last 30 seconds the address is called a bot exactly when its evidence weighs two or more, a threat
  above low takes three, and a single match is ignored however critical its signature; the verdict then
  stands for 30 seconds for every request of the address, whatever the request is.
\<close>

theorem classification_by_weight:
  assumes "\<forall>r. map_of cache (cr_IP req) = Some r \<longrightarrow> 30 * second \<le> time_sub now (br_CachedAt r)"
  shows "br_IsBot (fst (classify now req cache)) = (2 \<le> evidence defaultSignatures req) \<and>
    (evidence defaultSignatures req < 3 \<longrightarrow> br_Threat (fst (classify now req cache)) \<in> {''none'', ''low''}) \<and>
    (cr_IP req' = cr_IP req \<and> now \<le> u \<and> u < now + 30 * second \<longrightarrow>
      fst (classify u req' (snd (classify now req cache))) = fst (classify now req cache))"
proof -
  define r where "r = (classify_fresh defaultSignatures req)\<lparr>br_CachedAt := now\<rparr>"
  have c: "classify now req cache = (r, AList.update (cr_IP req) r cache)"
    using assms by (auto simp: classify_def r_def Let_def split: option.split)
  have "br_IsBot r = (2 \<le> evidence defaultSignatures req)"
    and "evidence defaultSignatures req < 3 \<longrightarrow> br_Threat r \<in> {''none'', ''low''}"
    by (simp_all add: r_def classify_fresh_facts)
  moreover have "fst (classify u req' (snd (classify now req cache))) = r"
    if "cr_IP req' = cr_IP req" "now \<le> u" "u < now + 30 * second"
  proof -
    have "br_CachedAt r = now" by (simp add: r_def)
    moreover have "time_sub u now < 30 * second"
      using that by (simp add: time_sub_def clamp64_def min_i64_def max_i64_def second_def)
    ultimately show ?thesis
      unfolding c using that(1) by (simp add: classify_def [of u] Let_def)
  qed
  ultimately show ?thesis by (simp add: c)
qed

text \<open>A flood tool that sends a browser's headers.\<close>

definition mhddos_request :: classify_request where
  "mhddos_request =
     \<lparr>cr_IP = ''203.0.113.9'', cr_UserAgent = ''MHDDoS'',
      cr_Headers = [(''Accept'', ''a''), (''Accept-Language'', ''en''), (''Accept-Encoding'', ''gzip'')],
      cr_URL = ''/'', cr_Method = ''GET'', cr_Fingerprint = None, cr_Behavior = None\<rparr>"

theorem classification_by_weight_witness:
  "bs_MatchFn (defaultSignatures ! 5) mhddos_request \<and> bs_Threat (defaultSignatures ! 5) = ''critical'' \<and>
   \<not> br_IsBot (fst (classify 0 mhddos_request []))"
proof -
  have "evidence defaultSignatures mhddos_request = 1" and "bs_MatchFn (defaultSignatures ! 5) mhddos_request"
    and "bs_Threat (defaultSignatures ! 5) = ''critical''"
    by code_simp+
  then show ?thesis
    using classification_by_weight [of "[]" mhddos_request 0] by simp
qed

end
