(* ===== verification/Attack.thy ===== *)
theory Attack
  imports Behavior
begin

text \<open>
  The attack detector of \<open>packages/mango-waf/detection/signatures.go\<close>: ten signatures over a snapshot of
  the traffic, the alerts they keep active and the history of ended attacks. The clock reading of a call is
  its argument \<open>now\<close>. The specification \<open>spec_step\<close> is the life of one alert: opened by its signature,
  renewed by every match, closed when it has not matched for more than 30 seconds.
\<close>

section \<open>Snapshots and signatures\<close>

record traffic_snapshot =
  sn_CurrentRPS :: int
  sn_PeakRPS :: int
  sn_BaselineRPS :: rat
  sn_ActiveConns :: int
  sn_UniqueIPs :: int
  sn_NewIPsPerSec :: int
  sn_AvgReqSize :: rat
  sn_MethodDistrib :: "int smap"
  sn_StatusDistrib :: "(int \<times> int) list"
  sn_TopPaths :: "int smap"
  sn_TopIPs :: "int smap"
  sn_AvgLatency :: rat
  sn_ErrorRate :: rat
  sn_BotPercentage :: rat
  sn_TCPHalfOpen :: int
  sn_SlowConns :: int

record attack_signature =
  as_ID :: string
  as_Name :: string
  as_Type :: string
  as_Severity :: string
  as_CheckFn :: "traffic_snapshot \<Rightarrow> bool"

definition isLoginPath :: "string \<Rightarrow> bool" where
  "isLoginPath path \<longleftrightarrow>
     path \<in> set [''/login'', ''/signin'', ''/auth'', ''/api/login'', ''/api/auth'', ''/wp-login.php'']"

definition flood :: "int \<Rightarrow> rat \<Rightarrow> traffic_snapshot \<Rightarrow> bool" where
  "flood abs_limit factor snap =
     (if sn_BaselineRPS snap = 0 then abs_limit < sn_CurrentRPS snap
      else fmul (sn_BaselineRPS snap) factor < f_of_int (sn_CurrentRPS snap))"

definition check_api_abuse :: "traffic_snapshot \<Rightarrow> bool" where
  "check_api_abuse snap =
     (if sn_TopPaths snap = [] then False
      else let maxPath = fold (\<lambda>(_, n) m. if m < n then n else m) (sn_TopPaths snap) 0;
               totalReqs = fold (\<lambda>(_, n) t. wrap64 (t + n)) (sn_TopPaths snap) 0
           in if totalReqs = 0 then False
              else fl64 (6/10) < fdiv (f_of_int maxPath) (f_of_int totalReqs) \<and> 100 < totalReqs)"

definition check_credential_stuffing :: "traffic_snapshot \<Rightarrow> bool" where
  "check_credential_stuffing snap =
     (let postCount = (case map_of (sn_MethodDistrib snap) ''POST'' of None \<Rightarrow> 0 | Some n \<Rightarrow> n);
          loginReqs = fold (\<lambda>(path, n) t. if isLoginPath path then wrap64 (t + n) else t) (sn_TopPaths snap) 0
      in 50 < postCount \<and> 30 < loginReqs)"

definition attack_sig ::
  "string \<Rightarrow> string \<Rightarrow> string \<Rightarrow> string \<Rightarrow> (traffic_snapshot \<Rightarrow> bool) \<Rightarrow> attack_signature" where
  "attack_sig i name typ severity f =
     \<lparr>as_ID = i, as_Name = name, as_Type = typ, as_Severity = severity, as_CheckFn = f\<rparr>"

definition loadSignatures :: "attack_signature list" where
  "loadSignatures =
     [attack_sig ''http_flood_medium'' ''HTTP Flood (Medium)'' ''http_flood'' ''medium'' (flood 500 3),
      attack_sig ''http_flood_high'' ''HTTP Flood (High)'' ''http_flood'' ''high'' (flood 2000 8),
      attack_sig ''http_flood_critical'' ''HTTP Flood (Critical)'' ''http_flood'' ''critical'' (flood 10000 20),
      attack_sig ''slowloris'' ''Slowloris Attack'' ''slowloris'' ''high''
        (\<lambda>snap. 50 < sn_SlowConns snap \<and> 200 < sn_ActiveConns snap),
      attack_sig ''conn_exhaustion'' ''Connection Exhaustion'' ''conn_exhaustion'' ''high''
        (\<lambda>snap. 5000 < sn_ActiveConns snap),
      attack_sig ''api_abuse'' ''API Abuse'' ''api_abuse'' ''medium'' check_api_abuse,
      attack_sig ''credential_stuffing'' ''Credential Stuffing'' ''credential_stuffing'' ''high''
        check_credential_stuffing,
      attack_sig ''bot_swarm'' ''Bot Swarm Detected'' ''bot_swarm'' ''high''
        (\<lambda>snap. fl64 (7/10) < sn_BotPercentage snap \<and> 100 < sn_CurrentRPS snap),
      attack_sig ''ip_rotation'' ''IP Rotation Attack'' ''ip_rotation'' ''high''
        (\<lambda>snap. 50 < sn_NewIPsPerSec snap),
      attack_sig ''error_spike'' ''Error Rate Spike'' ''scanning'' ''medium''
        (\<lambda>snap. fl64 (4/10) < sn_ErrorRate snap \<and> 50 < sn_CurrentRPS snap)]"

section \<open>Alerts and the detector\<close>

text \<open>The map \<open>Details\<close> of an alert is created empty and never written; it is left out.\<close>

record attack_alert =
  aa_ID :: string
  aa_SignatureID :: string
  aa_Type :: string
  aa_Severity :: string
  aa_StartTime :: gtime
  aa_LastSeen :: gtime
  aa_PeakRPS :: int
  aa_Mitigated :: bool

record attack_event =
  ae_ID :: string
  ae_Type :: string
  ae_Severity :: string
  ae_StartTime :: gtime
  ae_EndTime :: gtime
  ae_Duration :: duration
  ae_PeakRPS :: int
  ae_TotalReqs :: int
  ae_Blocked :: int
  ae_TopIPs :: "string list"

record attack_detector =
  ad_signatures :: "attack_signature list"
  ad_activeAlerts :: "attack_alert smap"
  ad_history :: "attack_event list"

definition newAttackDetector :: attack_detector where
  "newAttackDetector = \<lparr>ad_signatures = loadSignatures, ad_activeAlerts = [], ad_history = []\<rparr>"

definition renew_alert :: "gtime \<Rightarrow> traffic_snapshot \<Rightarrow> attack_alert \<Rightarrow> attack_alert" where
  "renew_alert now snap a =
     (let a = a\<lparr>aa_LastSeen := now\<rparr>
      in if aa_PeakRPS a < sn_CurrentRPS snap then a\<lparr>aa_PeakRPS := sn_CurrentRPS snap\<rparr> else a)"

definition new_alert :: "gtime \<Rightarrow> traffic_snapshot \<Rightarrow> attack_signature \<Rightarrow> attack_alert" where
  "new_alert now snap s =
     \<lparr>aa_ID = as_ID s @ ''_'' @ itoa (unix_sec now), aa_SignatureID = as_ID s, aa_Type = as_Type s,
      aa_Severity = as_Severity s, aa_StartTime = now, aa_LastSeen = now, aa_PeakRPS = sn_CurrentRPS snap,
      aa_Mitigated = False\<rparr>"

text \<open>One round of the loop over the signatures: the alerts to return and the active ones.\<close>

definition detect_sig ::
  "gtime \<Rightarrow> traffic_snapshot \<Rightarrow> attack_signature \<Rightarrow> attack_alert list \<times> attack_alert smap \<Rightarrow>
   attack_alert list \<times> attack_alert smap" where
  "detect_sig now snap s st =
     (let (alerts, active) = st in
      if as_CheckFn s snap
      then case map_of active (as_ID s) of
             Some a \<Rightarrow> let a = renew_alert now snap a in (alerts @ [a], AList.update (as_ID s) a active)
           | None \<Rightarrow> let a = new_alert now snap s in (alerts @ [a], AList.update (as_ID s) a active)
      else (alerts, active))"

definition alert_over :: "gtime \<Rightarrow> attack_alert \<Rightarrow> bool" where
  "alert_over now a \<longleftrightarrow> 30 * second < time_sub now (aa_LastSeen a)"

definition event_of :: "gtime \<Rightarrow> attack_alert \<Rightarrow> attack_event" where
  "event_of now a =
     \<lparr>ae_ID = aa_ID a, ae_Type = aa_Type a, ae_Severity = aa_Severity a, ae_StartTime = aa_StartTime a,
      ae_EndTime = now, ae_Duration = time_sub now (aa_StartTime a), ae_PeakRPS = aa_PeakRPS a,
      ae_TotalReqs = 0, ae_Blocked = 0, ae_TopIPs = []\<rparr>"

definition recordEvent :: "gtime \<Rightarrow> attack_alert \<Rightarrow> attack_event list \<Rightarrow> attack_event list" where
  "recordEvent now a history =
     (let history = history @ [event_of now a]
      in if 1000 < length history then drop (length history - 1000) history else history)"

text \<open>The \<open>Range\<close> over the active alerts that ends the old ones.\<close>

fun end_alerts ::
  "gtime \<Rightarrow> attack_alert smap \<Rightarrow> attack_alert smap \<times> attack_event list \<Rightarrow> attack_alert smap \<times> attack_event list" where
  "end_alerts now [] st = st"
| "end_alerts now ((key, a) # rest) (active, history) =
     (if alert_over now a
      then end_alerts now rest (AList.delete key active, recordEvent now (a\<lparr>aa_Mitigated := True\<rparr>) history)
      else end_alerts now rest (active, history))"

definition detect :: "gtime \<Rightarrow> traffic_snapshot \<Rightarrow> attack_detector \<Rightarrow> attack_alert list \<times> attack_detector" where
  "detect now snap d =
     (let (alerts, active) = fold (detect_sig now snap) (ad_signatures d) ([], ad_activeAlerts d);
          (active, history) = end_alerts now active (active, ad_history d)
      in (alerts, d\<lparr>ad_activeAlerts := active, ad_history := history\<rparr>))"

definition getHistory :: "int \<Rightarrow> attack_detector \<Rightarrow> attack_event list" where
  "getHistory limit d =
     (let n = int (length (ad_history d)); limit = (if limit \<le> 0 \<or> n < limit then n else limit)
      in drop (nat (n - limit)) (ad_history d))"

definition getActiveAlerts :: "attack_detector \<Rightarrow> attack_alert list" where
  "getActiveAlerts d = map snd (ad_activeAlerts d)"

section \<open>The life of an alert\<close>

definition spec_alert :: "gtime \<Rightarrow> traffic_snapshot \<Rightarrow> attack_signature \<Rightarrow> attack_alert option \<Rightarrow> attack_alert option" where
  "spec_alert now snap s old =
     (if as_CheckFn s snap
      then Some (case old of Some a \<Rightarrow> renew_alert now snap a | None \<Rightarrow> new_alert now snap s)
      else case old of None \<Rightarrow> None | Some a \<Rightarrow> if alert_over now a then None else Some a)"

definition spec_step ::
  "attack_signature list \<Rightarrow> gtime \<times> traffic_snapshot \<Rightarrow> (string \<Rightarrow> attack_alert option) \<Rightarrow> string \<Rightarrow> attack_alert option" where
  "spec_step sigs step m i =
     (case find (\<lambda>s. as_ID s = i) sigs of
        None \<Rightarrow> None
      | Some s \<Rightarrow> spec_alert (fst step) (snd step) s (m i))"

definition detect_run :: "(gtime \<times> traffic_snapshot) list \<Rightarrow> attack_detector \<Rightarrow> attack_detector" where
  "detect_run steps d = fold (\<lambda>(now, snap) d. snd (detect now snap d)) steps d"

definition det_ok :: "attack_detector \<Rightarrow> bool" where
  "det_ok d \<longleftrightarrow> m_ok (ad_activeAlerts d) \<and> distinct (map as_ID (ad_signatures d)) \<and>
     fst ` set (ad_activeAlerts d) \<subseteq> as_ID ` set (ad_signatures d) \<and> length (ad_history d) \<le> 1000"

lemma detect_sig_active:
  "snd (detect_sig now snap s (alerts, active)) =
     (if as_CheckFn s snap
      then AList.update (as_ID s)
             (case map_of active (as_ID s) of Some a \<Rightarrow> renew_alert now snap a | None \<Rightarrow> new_alert now snap s) active
      else active)"
  by (simp add: detect_sig_def Let_def split: option.split)

lemma sigs_active_other:
  "i \<notin> as_ID ` set sigs \<Longrightarrow> map_of (snd (fold (detect_sig now snap) sigs st)) i = map_of (snd st) i"
  by (induction sigs arbitrary: st) (auto simp: detect_sig_def Let_def update_conv' split: option.splits)

lemma sigs_active:
  assumes "distinct (map as_ID sigs)" and "s \<in> set sigs"
  shows "map_of (snd (fold (detect_sig now snap) sigs st)) (as_ID s) =
    (if as_CheckFn s snap
     then Some (case map_of (snd st) (as_ID s) of Some a \<Rightarrow> renew_alert now snap a | None \<Rightarrow> new_alert now snap s)
     else map_of (snd st) (as_ID s))"
  using assms
proof (induction sigs arbitrary: st)
  case (Cons x sigs)
  obtain alerts active where st: "st = (alerts, active)" by (cases st)
  show ?case
  proof (cases "x = s")
    case True
    then have "as_ID s \<notin> as_ID ` set sigs" using Cons.prems(1) by auto
    then show ?thesis
      using True by (simp add: sigs_active_other detect_sig_active st update_conv')
  next
    case False
    then have s: "s \<in> set sigs" "as_ID x \<noteq> as_ID s" using Cons.prems by (auto simp: image_iff)
    then have "map_of (snd (detect_sig now snap x st)) (as_ID s) = map_of (snd st) (as_ID s)"
      by (simp add: detect_sig_active st update_conv')
    then show ?thesis
      using Cons.IH [of "detect_sig now snap x st"] Cons.prems(1) s(1) by simp
  qed
qed simp

lemma sigs_keys:
  "fst ` set (snd (fold (detect_sig now snap) sigs st)) \<subseteq> fst ` set (snd st) \<union> as_ID ` set sigs"
proof (induction sigs arbitrary: st)
  case (Cons x sigs)
  have "fst ` set (snd (detect_sig now snap x st)) \<subseteq> fst ` set (snd st) \<union> {as_ID x}"
    by (cases st) (auto simp: detect_sig_active dom_update)
  with Cons.IH [of "detect_sig now snap x st"] show ?case unfolding fold_Cons o_apply list.set image_insert by blast
qed simp

lemma sigs_ok: "m_ok (snd st) \<Longrightarrow> m_ok (snd (fold (detect_sig now snap) sigs st))"
  by (induction sigs arbitrary: st) (auto simp: detect_sig_def Let_def split: option.splits prod.splits)

lemma recordEvent_length [simp]: "length (recordEvent now a h) \<le> 1000"
  by (simp add: recordEvent_def Let_def)

lemma end_alerts_facts:
  "m_ok m \<Longrightarrow> map_of (fst (end_alerts now rest (m, h))) i =
      (if \<exists>a. (i, a) \<in> set rest \<and> alert_over now a then None else map_of m i)"
  "m_ok m \<Longrightarrow> m_ok (fst (end_alerts now rest (m, h)))"
  "fst ` set (fst (end_alerts now rest (m, h))) \<subseteq> fst ` set m"
  "length h \<le> 1000 \<Longrightarrow> length (snd (end_alerts now rest (m, h))) \<le> 1000"
proof (induction rest arbitrary: m h)
  case (Cons x rest)
  obtain key a where x: "x = (key, a)" by (cases x)
  { case 1 then show ?case
      using Cons.IH(1) [of m h] Cons.IH(1) [of "AList.delete key m" "recordEvent now (a\<lparr>aa_Mitigated := True\<rparr>) h"]
      by (auto simp: x delete_conv')
  next
    case 2 then show ?case using Cons.IH(2) by (simp add: x)
  next
    case 3
    show ?case
      using Cons.IH(3) [of m h] subset_trans [OF Cons.IH(3) dom_delete_subset] by (simp add: x)
  next
    case 4 then show ?case using Cons.IH(4) by (simp add: x) }
qed simp_all

lemma renewed_not_over [simp]: "\<not> alert_over now (renew_alert now snap a)" "\<not> alert_over now (new_alert now snap s)"
  by (simp_all add: alert_over_def renew_alert_def new_alert_def Let_def second_def)

lemma detect_active:
  "ad_activeAlerts (snd (detect now snap d)) =
     fst (end_alerts now (snd (fold (detect_sig now snap) (ad_signatures d) ([], ad_activeAlerts d)))
       (snd (fold (detect_sig now snap) (ad_signatures d) ([], ad_activeAlerts d)), ad_history d))"
  "ad_history (snd (detect now snap d)) =
     snd (end_alerts now (snd (fold (detect_sig now snap) (ad_signatures d) ([], ad_activeAlerts d)))
       (snd (fold (detect_sig now snap) (ad_signatures d) ([], ad_activeAlerts d)), ad_history d))"
  "ad_signatures (snd (detect now snap d)) = ad_signatures d"
  by (simp_all add: detect_def Let_def split_beta)

lemma detect_ok:
  assumes "det_ok d"
  shows "det_ok (snd (detect now snap d))"
proof -
  let ?m = "snd (fold (detect_sig now snap) (ad_signatures d) ([], ad_activeAlerts d))"
  have m: "fst ` set ?m \<subseteq> as_ID ` set (ad_signatures d)"
    using sigs_keys [of now snap "ad_signatures d" "([], ad_activeAlerts d)"] assms
    unfolding det_ok_def snd_conv by blast
  have "m_ok ?m" using sigs_ok [of "([], ad_activeAlerts d)"] assms by (simp add: det_ok_def)
  then show ?thesis
    using assms subset_trans [OF end_alerts_facts(3) [of now ?m ?m "ad_history d"] m]
    unfolding det_ok_def detect_active by (simp add: end_alerts_facts(2,4))
qed

lemma over_lookup: "m_ok m \<Longrightarrow> (\<exists>a. (i, a) \<in> set m \<and> alert_over now a) \<longleftrightarrow>
    (case map_of m i of None \<Rightarrow> False | Some a \<Rightarrow> alert_over now a)"
  by (auto simp: m_ok_def split: option.split dest: map_of_SomeD eq_key_imp_eq_value)

lemma detect_step:
  assumes "det_ok d"
  shows "map_of (ad_activeAlerts (snd (detect now snap d))) i =
    spec_step (ad_signatures d) (now, snap) (map_of (ad_activeAlerts d)) i"
proof -
  let ?sigs = "ad_signatures d" and ?m = "ad_activeAlerts d"
  define m' where "m' = snd (fold (detect_sig now snap) ?sigs ([], ?m))"
  have ok: "m_ok m'" using assms sigs_ok [of "([], ?m)"] by (simp add: m'_def det_ok_def)
  have lk: "map_of (ad_activeAlerts (snd (detect now snap d))) i =
      (case map_of m' i of None \<Rightarrow> None | Some a \<Rightarrow> if alert_over now a then None else Some a)"
    using end_alerts_facts(1) [OF ok, of now m'] over_lookup [OF ok]
    by (auto simp: detect_active m'_def split: option.split)
  show ?thesis
  proof (cases "find (\<lambda>s. as_ID s = i) ?sigs")
    case None
    then have "i \<notin> as_ID ` set ?sigs" by (auto simp: find_None_iff)
    moreover from this have "map_of ?m i = None"
      using assms by (auto simp: det_ok_def map_of_eq_None_iff)
    ultimately show ?thesis
      using None by (simp add: lk m'_def sigs_active_other spec_step_def)
  next
    case (Some s)
    then have s: "s \<in> set ?sigs" "as_ID s = i" by (auto simp: find_Some_iff)
    then have "map_of m' i = (if as_CheckFn s snap
        then Some (case map_of ?m i of Some a \<Rightarrow> renew_alert now snap a | None \<Rightarrow> new_alert now snap s)
        else map_of ?m i)"
      using assms sigs_active [of ?sigs s now snap "([], ?m)"] by (simp add: m'_def det_ok_def)
    then show ?thesis
      using Some by (simp add: lk spec_step_def spec_alert_def split: option.split)
  qed
qed

lemma detect_run_spec:
  "det_ok d \<Longrightarrow> det_ok (detect_run steps d) \<and>
     map_of (ad_activeAlerts (detect_run steps d)) = fold (spec_step (ad_signatures d)) steps (map_of (ad_activeAlerts d))"
proof (induction steps arbitrary: d)
  case (Cons st steps)
  obtain now snap where st: "st = (now, snap)" by (cases st)
  have "map_of (ad_activeAlerts (snd (detect now snap d))) = spec_step (ad_signatures d) st (map_of (ad_activeAlerts d))"
    using detect_step [OF Cons.prems] by (auto simp: st)
  then show ?case
    using Cons.IH [OF detect_ok [OF Cons.prems, of now snap]]
    by (simp add: detect_run_def st detect_active(3))
qed (simp add: detect_run_def)

lemma new_detector_ok: "det_ok newAttackDetector"
  by (simp add: det_ok_def newAttackDetector_def loadSignatures_def attack_sig_def)

section \<open>Properties\<close>


end
