(* ===== verification/Adaptive.thy ===== *)
theory Adaptive
  imports Behavior
begin

text \<open>
  The adaptive learner of \<open>packages/mango-waf/detection/adaptive.go\<close>: a traffic profile for each hour of
  the day, the calibration of the thresholds and the decision for the current rate. The clock gives two
  readings, the time and the local hour, which are the arguments \<open>now\<close> and \<open>hr\<close>.
\<close>

section \<open>State\<close>

record hourly_profile =
  hp_AvgRPS :: rat
  hp_MaxRPS :: rat
  hp_MinRPS :: rat
  hp_StddevRPS :: rat
  hp_AvgConns :: rat
  hp_AvgBotRate :: rat
  hp_Samples :: "rat list"
  hp_MaxSamples :: nat

record adaptive_learner =
  al_hourlyProfiles :: "hourly_profile list"
  al_weekdayFactors :: "rat list"
  al_LearnedRPSThreshold :: rat
  al_LearnedConnThreshold :: rat
  al_LearnedBotBaseline :: rat
  al_DataPoints :: int
  al_LearningDays :: int
  al_IsCalibrated :: bool
  al_LastCalibration :: gtime
  al_Confidence :: rat

record adaptive_decision =
  dn_RPSThreshold :: int
  dn_ChallengeLevel :: int
  dn_RateLimitFactor :: rat
  dn_EmergencyMode :: bool
  dn_Reason :: string

definition max_float64 :: rat where "max_float64 = (2 ^ 53 - 1) * 2 ^ 971"

definition newAdaptiveLearner :: adaptive_learner where
  "newAdaptiveLearner =
     \<lparr>al_hourlyProfiles = replicate 24
        \<lparr>hp_AvgRPS = 0, hp_MaxRPS = 0, hp_MinRPS = max_float64, hp_StddevRPS = 0, hp_AvgConns = 0,
         hp_AvgBotRate = 0, hp_Samples = [], hp_MaxSamples = 720\<rparr>,
      al_weekdayFactors = replicate 7 1,
      al_LearnedRPSThreshold = 0, al_LearnedConnThreshold = 0, al_LearnedBotBaseline = 0,
      al_DataPoints = 0, al_LearningDays = 0, al_IsCalibrated = False, al_LastCalibration = zero_time,
      al_Confidence = 0\<rparr>"

section \<open>Samples\<close>

definition ema :: "rat \<Rightarrow> rat \<Rightarrow> rat" where
  "ema old x = (let alpha = fl64 (1/100) in fadd (fmul old (fsub 1 alpha)) (fmul x alpha))"

definition profile_sample :: "rat \<Rightarrow> rat \<Rightarrow> rat \<Rightarrow> hourly_profile \<Rightarrow> hourly_profile" where
  "profile_sample rps conns botRate p =
     (let samples = (if hp_MaxSamples p \<le> length (hp_Samples p) then tl (hp_Samples p) else hp_Samples p) @ [rps]
      in p\<lparr>hp_Samples := samples,
           hp_AvgRPS := meanFloat samples,
           hp_StddevRPS := stddevFloat samples (meanFloat samples),
           hp_MaxRPS := (if hp_MaxRPS p < rps then rps else hp_MaxRPS p),
           hp_MinRPS := (if rps < hp_MinRPS p then rps else hp_MinRPS p),
           hp_AvgConns := ema (hp_AvgConns p) conns,
           hp_AvgBotRate := ema (hp_AvgBotRate p) botRate\<rparr>)"

definition calibrate :: "gtime \<Rightarrow> adaptive_learner \<Rightarrow> adaptive_learner" where
  "calibrate now al =
     (let seen = filter (\<lambda>p. 10 < length (hp_Samples p)) (al_hourlyProfiles al);
          allAvgs = map hp_AvgRPS seen;
          allMaxes = map hp_MaxRPS seen
      in if allAvgs = [] then al
         else let overallAvg = meanFloat allAvgs;
                  overallStddev = stddevFloat allAvgs overallAvg;
                  overallMax = fold (\<lambda>m acc. if acc < m then m else acc) allMaxes 0;
                  threshold = max (fadd overallAvg (fmul 3 overallStddev)) (fmul overallMax 2);
                  threshold = (if threshold < 100 then 100 else threshold)
              in al\<lparr>al_LearnedRPSThreshold := threshold,
                    al_IsCalibrated := True,
                    al_LastCalibration := now,
                    al_LearningDays := al_LearningDays al + 1,
                    al_Confidence := min 1 (fdiv (f_of_int (al_DataPoints al)) 86400)\<rparr>)"

definition recordSample :: "gtime \<Rightarrow> nat \<Rightarrow> rat \<Rightarrow> rat \<Rightarrow> rat \<Rightarrow> adaptive_learner \<Rightarrow> adaptive_learner" where
  "recordSample now hr rps conns botRate al =
     (let ps = al_hourlyProfiles al;
          al = al\<lparr>al_hourlyProfiles := ps[hr := profile_sample rps conns botRate (ps ! hr)],
                  al_DataPoints := al_DataPoints al + 1\<rparr>;
          al = (if 3600 < al_DataPoints al \<and> \<not> al_IsCalibrated al then calibrate now al else al)
      in if al_IsCalibrated al \<and> 6 * hour < time_sub now (al_LastCalibration al) then calibrate now al else al)"

section \<open>Decisions\<close>

definition switch_ratio :: "xf64 \<Rightarrow> adaptive_decision \<Rightarrow> adaptive_decision" where
  "switch_ratio ratio d =
     (if xgt ratio (Fin 20)
      then d\<lparr>dn_EmergencyMode := True, dn_ChallengeLevel := 2, dn_RateLimitFactor := fl64 (1/10), dn_Reason := ''extreme_spike''\<rparr>
      else if xgt ratio (Fin 10)
      then d\<lparr>dn_ChallengeLevel := 2, dn_RateLimitFactor := 1/4, dn_Reason := ''major_spike''\<rparr>
      else if xgt ratio (Fin 5)
      then d\<lparr>dn_ChallengeLevel := 1, dn_RateLimitFactor := 1/2, dn_Reason := ''significant_spike''\<rparr>
      else if xgt ratio (Fin 3)
      then d\<lparr>dn_ChallengeLevel := 1, dn_RateLimitFactor := 3/4, dn_Reason := ''moderate_spike''\<rparr>
      else if xgt ratio (Fin 2)
      then d\<lparr>dn_RateLimitFactor := fl64 (9/10), dn_Reason := ''minor_spike''\<rparr>
      else if xgt (Fin (fl64 (3/10))) ratio
      then d\<lparr>dn_RateLimitFactor := 2, dn_Reason := ''low_traffic''\<rparr>
      else d\<lparr>dn_Reason := ''normal''\<rparr>)"

definition expected_or_default :: "nat \<Rightarrow> adaptive_learner \<Rightarrow> rat" where
  "expected_or_default hr al =
     (let expectedRPS = hp_AvgRPS (al_hourlyProfiles al ! hr)
      in if expectedRPS = 0 then fdiv (al_LearnedRPSThreshold al) 3 else expectedRPS)"

definition getDecision :: "nat \<Rightarrow> rat \<Rightarrow> adaptive_learner \<Rightarrow> adaptive_decision" where
  "getDecision hr currentRPS al =
     (let d = \<lparr>dn_RPSThreshold = 1000, dn_ChallengeLevel = 0, dn_RateLimitFactor = 1, dn_EmergencyMode = False,
               dn_Reason = []\<rparr>
      in if \<not> al_IsCalibrated al then d\<lparr>dn_Reason := ''not_calibrated''\<rparr>
         else switch_ratio (xdiv currentRPS (expected_or_default hr al))
                (d\<lparr>dn_RPSThreshold := f_to_int (al_LearnedRPSThreshold al)\<rparr>))"

definition getExpectedRPS :: "nat \<Rightarrow> adaptive_learner \<Rightarrow> rat" where
  "getExpectedRPS hr al = hp_AvgRPS (al_hourlyProfiles al ! hr)"

section \<open>Runs of the learner\<close>

record traffic_sample =
  ts_now :: gtime
  ts_hour :: nat
  ts_rps :: rat
  ts_conns :: rat
  ts_botRate :: rat

definition learn :: "traffic_sample list \<Rightarrow> adaptive_learner" where
  "learn ss = fold (\<lambda>s. recordSample (ts_now s) (ts_hour s) (ts_rps s) (ts_conns s) (ts_botRate s)) ss newAdaptiveLearner"

definition many :: "hourly_profile \<Rightarrow> bool" where
  "many p \<longleftrightarrow> 10 < length (hp_Samples p)"

definition total_samples :: "hourly_profile list \<Rightarrow> nat" where
  "total_samples ps = sum_list (map (\<lambda>p. length (hp_Samples p)) ps)"

definition al_inv :: "adaptive_learner \<Rightarrow> bool" where
  "al_inv al \<longleftrightarrow> length (al_hourlyProfiles al) = 24 \<and>
     (\<forall>p \<in> set (al_hourlyProfiles al). hp_MaxSamples p = 720 \<and> 0 \<le> hp_AvgRPS p \<and> (\<forall>x \<in> set (hp_Samples p). 0 \<le> x)) \<and>
     ((\<exists>p \<in> set (al_hourlyProfiles al). many p) \<or> al_DataPoints al \<le> int (total_samples (al_hourlyProfiles al))) \<and>
     (3600 < al_DataPoints al \<longrightarrow> al_IsCalibrated al) \<and>
     (al_IsCalibrated al \<longrightarrow> 100 \<le> al_LearnedRPSThreshold al)"

lemma few_samples: "\<forall>p \<in> set ps. \<not> many p \<Longrightarrow> total_samples ps \<le> 10 * length ps"
  by (induction ps) (auto simp: many_def total_samples_def)

lemma total_samples_update:
  "k < length ps \<Longrightarrow> total_samples (ps[k := p]) + length (hp_Samples (ps ! k)) = total_samples ps + length (hp_Samples p)"
  by (induction ps arbitrary: k) (auto simp: total_samples_def split: nat.split)

lemma profile_sample_length:
  "hp_MaxSamples p = 720 \<Longrightarrow> length (hp_Samples (profile_sample r c b p)) =
     (if length (hp_Samples p) < 720 then length (hp_Samples p) + 1 else length (hp_Samples p))"
  by (auto simp: profile_sample_def Let_def)

lemma calibrate_facts:
  "al_hourlyProfiles (calibrate now al) = al_hourlyProfiles al"
  "al_DataPoints (calibrate now al) = al_DataPoints al"
  "al_IsCalibrated al \<Longrightarrow> al_IsCalibrated (calibrate now al)"
  "\<exists>p \<in> set (al_hourlyProfiles al). many p \<Longrightarrow> al_IsCalibrated (calibrate now al)"
  "\<exists>p \<in> set (al_hourlyProfiles al). many p \<Longrightarrow> 100 \<le> al_LearnedRPSThreshold (calibrate now al)"
  "(al_IsCalibrated al \<Longrightarrow> 100 \<le> al_LearnedRPSThreshold al) \<Longrightarrow>
     al_IsCalibrated (calibrate now al) \<Longrightarrow> 100 \<le> al_LearnedRPSThreshold (calibrate now al)"
  by (auto simp: calibrate_def Let_def many_def filter_empty_conv)

lemma meanFloat_nonneg: "\<forall>x \<in> set xs. 0 \<le> x \<Longrightarrow> 0 \<le> meanFloat xs"
proof -
  have "0 \<le> s \<Longrightarrow> \<forall>x \<in> set xs. 0 \<le> x \<Longrightarrow> 0 \<le> fold (\<lambda>v s. fadd s v) xs s" for s
    by (induction xs arbitrary: s) (simp_all add: fadd_def fl.rnd_nonneg)
  then show "\<forall>x \<in> set xs. 0 \<le> x \<Longrightarrow> 0 \<le> meanFloat xs"
    by (auto simp: meanFloat_def mean_def fdiv_def intro!: fl.rnd_nonneg divide_nonneg_nonneg f_of_int_nonneg)
qed

lemma profile_sample_ok:
  assumes "hp_MaxSamples p = 720 \<and> 0 \<le> hp_AvgRPS p \<and> (\<forall>x \<in> set (hp_Samples p). 0 \<le> x)" and "0 \<le> r"
  shows "hp_MaxSamples (profile_sample r c b p) = 720 \<and> 0 \<le> hp_AvgRPS (profile_sample r c b p) \<and>
    (\<forall>x \<in> set (hp_Samples (profile_sample r c b p)). 0 \<le> x)"
proof -
  have nonneg: "\<forall>x \<in> set (hp_Samples (profile_sample r c b p)). 0 \<le> x"
    using assms by (auto simp: profile_sample_def Let_def dest: list.set_sel(2) [rotated] split: if_splits)
  moreover have "hp_AvgRPS (profile_sample r c b p) = meanFloat (hp_Samples (profile_sample r c b p))"
    "hp_MaxSamples (profile_sample r c b p) = hp_MaxSamples p"
    by (simp_all add: profile_sample_def Let_def)
  ultimately show ?thesis using assms meanFloat_nonneg by simp
qed

text \<open>The state after the sample is stored and counted, before the calibrations.\<close>

definition stored :: "nat \<Rightarrow> rat \<Rightarrow> rat \<Rightarrow> rat \<Rightarrow> adaptive_learner \<Rightarrow> adaptive_learner" where
  "stored hr rps conns botRate al =
     al\<lparr>al_hourlyProfiles := (al_hourlyProfiles al)[hr := profile_sample rps conns botRate (al_hourlyProfiles al ! hr)],
        al_DataPoints := al_DataPoints al + 1\<rparr>"

lemma stored_counts:
  assumes "al_inv al" and "hr < 24"
  shows "(\<exists>p \<in> set (al_hourlyProfiles (stored hr r c b al)). many p) \<or>
    al_DataPoints (stored hr r c b al) \<le> int (total_samples (al_hourlyProfiles (stored hr r c b al)))"
proof -
  let ?ps = "al_hourlyProfiles al"
  let ?p = "?ps ! hr" and ?q = "profile_sample r c b (?ps ! hr)"
  have k: "hr < length ?ps" and max: "hp_MaxSamples ?p = 720" using assms by (auto simp: al_inv_def)
  have mem: "\<exists>x \<in> set (?ps[hr := ?q]). many x" if mx: "many x" "x \<in> set ?ps" for x
  proof -
    obtain i where i: "i < length ?ps" "x = ?ps ! i" using mx(2) by (auto simp: in_set_conv_nth)
    have "many (?ps[hr := ?q] ! i)"
      using mx(1) i k profile_sample_length [OF max, of r c b]
      by (cases "i = hr") (auto simp: many_def split: if_splits)
    then show ?thesis using i(1) by (metis length_list_update nth_mem)
  qed
  show ?thesis
  proof (cases "length (hp_Samples ?p) < 720")
    case True
    then have "total_samples (?ps[hr := ?q]) = total_samples ?ps + 1"
      using total_samples_update [OF k, of ?q] profile_sample_length [OF max, of r c b] by simp
    then show ?thesis
      using assms(1) mem by (auto simp: al_inv_def stored_def)
  next
    case False
    then have "many ?p" by (simp add: many_def)
    then show ?thesis using mem k by (auto simp: stored_def)
  qed
qed

lemma recordSample_eq:
  "recordSample now hr rps conns botRate al =
     (let al = stored hr rps conns botRate al;
          al = (if 3600 < al_DataPoints al \<and> \<not> al_IsCalibrated al then calibrate now al else al)
      in if al_IsCalibrated al \<and> 6 * hour < time_sub now (al_LastCalibration al) then calibrate now al else al)"
  by (simp add: recordSample_def stored_def Let_def)

lemma ball_subset: "\<forall>x \<in> B. P x \<Longrightarrow> A \<subseteq> B \<Longrightarrow> \<forall>x \<in> A. P x"
  by blast

lemma recordSample_inv:
  assumes inv: "al_inv al" and hr: "hr < 24" and "0 \<le> rps"
  shows "al_inv (recordSample now hr rps conns botRate al)"
proof -
  let ?al = "stored hr rps conns botRate al"
  have "al_hourlyProfiles al ! hr \<in> set (al_hourlyProfiles al)"
    using inv hr by (simp add: al_inv_def)
  note mem = this
  have all: "\<forall>p \<in> set (al_hourlyProfiles al). hp_MaxSamples p = 720 \<and> 0 \<le> hp_AvgRPS p \<and> (\<forall>x \<in> set (hp_Samples p). 0 \<le> x)"
    using inv by (simp add: al_inv_def)
  have ok: "\<forall>p \<in> insert (profile_sample rps conns botRate (al_hourlyProfiles al ! hr)) (set (al_hourlyProfiles al)).
      hp_MaxSamples p = 720 \<and> 0 \<le> hp_AvgRPS p \<and> (\<forall>x \<in> set (hp_Samples p). 0 \<le> x)"
    using profile_sample_ok [OF bspec [OF all mem] assms(3)] all by simp
  have ps: "length (al_hourlyProfiles ?al) = 24 \<and>
      (\<forall>p \<in> set (al_hourlyProfiles ?al). hp_MaxSamples p = 720 \<and> 0 \<le> hp_AvgRPS p \<and> (\<forall>x \<in> set (hp_Samples p). 0 \<le> x))"
    using inv ball_subset [OF ok set_update_subset_insert] by (simp add: al_inv_def stored_def)
  have counts: "(\<exists>p \<in> set (al_hourlyProfiles ?al). many p) \<or>
      al_DataPoints ?al \<le> int (total_samples (al_hourlyProfiles ?al))"
    by (rule stored_counts [OF inv hr])
  then have enough: "\<exists>p \<in> set (al_hourlyProfiles ?al). many p" if "3600 < al_DataPoints ?al"
    using that ps few_samples [of "al_hourlyProfiles ?al"] by fastforce
  have thr: "al_IsCalibrated ?al \<Longrightarrow> 100 \<le> al_LearnedRPSThreshold ?al"
    using inv by (simp add: al_inv_def stored_def)
  define al' where "al' = (if 3600 < al_DataPoints ?al \<and> \<not> al_IsCalibrated ?al then calibrate now ?al else ?al)"
  have "al_inv al'"
    using ps counts enough thr unfolding al'_def al_inv_def by (simp add: calibrate_facts)
  moreover have "al_inv (calibrate u a)" if "al_inv a" for u a
    using that unfolding al_inv_def by (simp add: calibrate_facts)
  ultimately show ?thesis
    by (simp add: recordSample_eq Let_def flip: al'_def)
qed

lemma recordSample_points: "al_DataPoints (recordSample now hr rps conns botRate al) = al_DataPoints al + 1"
  by (simp add: recordSample_eq Let_def calibrate_facts stored_def)

lemma learn_inv:
  assumes "\<forall>s \<in> set ss. ts_hour s < 24 \<and> 0 \<le> ts_rps s"
  shows "al_inv (learn ss) \<and> al_DataPoints (learn ss) = int (length ss)"
proof -
  have "al_inv newAdaptiveLearner"
    by (auto simp: al_inv_def newAdaptiveLearner_def total_samples_def)
  then show ?thesis
    using assms
  proof (induction ss rule: rev_induct)
    case Nil
    then show ?case by (simp add: learn_def) (simp add: newAdaptiveLearner_def)
  next
    case (snoc s ss)
    then show ?case
      by (simp add: learn_def recordSample_inv recordSample_points)
  qed
qed

lemma expected_pos:
  assumes "al_inv al" and "hr < 24" and "al_IsCalibrated al"
  shows "0 < expected_or_default hr al"
proof -
  have "100 / 3 \<le> al_LearnedRPSThreshold al / 3" and "0 \<le> hp_AvgRPS (al_hourlyProfiles al ! hr)"
    using assms by (auto simp: al_inv_def)
  moreover have "0 < fdiv (al_LearnedRPSThreshold al) 3"
    unfolding fdiv_def using calculation(1) by (intro fl64_pos) linarith
  ultimately show ?thesis by (auto simp: expected_or_default_def Let_def)
qed

lemma small_constants: "fl64 (1/10) \<le> 1/4" "1/2 \<le> fl64 (9/10)" "3/4 \<le> fl64 (9/10)" "fl64 (9/10) \<le> 1" "fl64 (3/10) \<le> 1/2"
  using fl64_le_dyadic [of "1/10" 2 1] fl64_ge_dyadic [of 1 "9/10" 1] fl64_ge_dyadic [of 3 "9/10" 2]
    fl64_le_dyadic [of "9/10" 0 1] fl64_le_dyadic [of "3/10" 1 1] by simp_all

lemma switch_ratio_mono:
  assumes "a \<le> b" and "dn_ChallengeLevel d = 0" and "dn_RateLimitFactor d = 1"
  shows "dn_RateLimitFactor (switch_ratio (Fin b) d) \<le> dn_RateLimitFactor (switch_ratio (Fin a) d) \<and>
    dn_ChallengeLevel (switch_ratio (Fin a) d) \<le> dn_ChallengeLevel (switch_ratio (Fin b) d)"
  using assms small_constants by (auto simp: switch_ratio_def)

section \<open>Properties\<close>

text \<open>
  The learner always finishes learning: whatever the hours, the rates and the times, after 3601
  recorded samples it is calibrated, for some hour of the day then has more than ten of them; from then on
  the threshold it recommends is at least 100 requests per second.
\<close>

theorem adaptive_calibrates:
  assumes "\<forall>s \<in> set ss. ts_hour s < 24 \<and> 0 \<le> ts_rps s" and "3600 < length ss"
  shows "al_IsCalibrated (learn ss) \<and> 100 \<le> dn_RPSThreshold (getDecision hr currentRPS (learn ss))"
proof -
  have "al_IsCalibrated (learn ss)" and t: "100 \<le> al_LearnedRPSThreshold (learn ss)"
    using learn_inv [OF assms(1)] assms(2) by (auto simp: al_inv_def)
  moreover have "100 \<le> f_to_int (al_LearnedRPSThreshold (learn ss))"
    using t by (auto simp: f_to_int_def le_floor_iff)
  moreover have "dn_RPSThreshold (switch_ratio r d) = dn_RPSThreshold d" for r d
    by (simp add: switch_ratio_def)
  ultimately show ?thesis by (simp add: getDecision_def Let_def)
qed

theorem adaptive_calibrates_witness:
  "al_IsCalibrated (learn (replicate 3601 \<lparr>ts_now = 0, ts_hour = 7, ts_rps = 10, ts_conns = 1, ts_botRate = 0\<rparr>))"
  using adaptive_calibrates [of "replicate 3601 \<lparr>ts_now = 0, ts_hour = 7, ts_rps = 10, ts_conns = 1, ts_botRate = 0\<rparr>"]
  by simp

text \<open>
  The response only grows with the traffic: for a learner that has recorded any samples, at any hour,
  a higher current rate never gets a larger rate limit factor nor a lower challenge level, and the ratio it
  is judged by is never a division by zero.
\<close>

theorem adaptive_decision_monotone:
  assumes "\<forall>s \<in> set ss. ts_hour s < 24 \<and> 0 \<le> ts_rps s" and "hr < 24" and "low \<le> high"
  shows "dn_RateLimitFactor (getDecision hr high (learn ss)) \<le> dn_RateLimitFactor (getDecision hr low (learn ss)) \<and>
    dn_ChallengeLevel (getDecision hr low (learn ss)) \<le> dn_ChallengeLevel (getDecision hr high (learn ss)) \<and>
    (al_IsCalibrated (learn ss) \<longrightarrow> 0 < expected_or_default hr (learn ss))"
proof (cases "al_IsCalibrated (learn ss)")
  case True
  have e: "0 < expected_or_default hr (learn ss)"
    using expected_pos learn_inv assms(1,2) True by blast
  then have "fdiv low (expected_or_default hr (learn ss)) \<le> fdiv high (expected_or_default hr (learn ss))"
    unfolding fdiv_def using assms(3) by (intro fl64_mono divide_right_mono) simp_all
  then show ?thesis
    using e True by (simp add: getDecision_def Let_def xdiv_def switch_ratio_mono)
qed (simp add: getDecision_def Let_def)

theorem adaptive_decision_monotone_witness:
  "dn_RateLimitFactor (getDecision 7 100 (learn [\<lparr>ts_now = 0, ts_hour = 7, ts_rps = 10, ts_conns = 1, ts_botRate = 0\<rparr>]))
     \<le> dn_RateLimitFactor (getDecision 7 5 (learn [\<lparr>ts_now = 0, ts_hour = 7, ts_rps = 10, ts_conns = 1, ts_botRate = 0\<rparr>]))"
  using adaptive_decision_monotone
    [of "[\<lparr>ts_now = 0, ts_hour = 7, ts_rps = 10, ts_conns = 1, ts_botRate = 0\<rparr>]" 7 5 100] by simp

end
