(* ===== verification/Regex.thy ===== *)
theory Regex
  imports GoBase
begin

text \<open>
  The part of Go's \<open>regexp\<close> the rules use: \<open>Compile\<close> of a case-insensitive pattern and \<open>MatchString\<close>.
  The syntax is that of the built-in patterns: literals, escapes, classes, groups, alternation, repetition,
  anchors and word boundaries; a group that opens with \<open>(?\<close> and is not \<open>(?:\<close> is refused, as RE2 refuses
  look-ahead. (Counted repetitions, flag groups and Unicode classes are outside this subset.) Only whether
  a string matches is asked, so greedy and lazy repetition are one. A position is the character before it
  and the rest of the string; \<open>rx_step\<close> is the meaning of an expression, \<open>ends\<close> computes it.
\<close>

section \<open>Expressions and their meaning\<close>

type_synonym ranges = "(char \<times> char) list"

datatype rx =
  Eps
| Cls bool ranges           \<comment> \<open>complemented, ranges\<close>
| Seq rx rx
| Alt rx rx
| Star rx
| Bol
| Eol
| WordB

type_synonym pos = "char option \<times> string"

definition code :: "char \<Rightarrow> int" where "code c = of_char c"

definition upper_char :: "char \<Rightarrow> char" where
  "upper_char c = (let n = (of_char c :: nat) in if 97 \<le> n \<and> n \<le> 122 then char_of (n - 32) else c)"

definition in_ranges :: "ranges \<Rightarrow> char \<Rightarrow> bool" where
  "in_ranges rs c \<longleftrightarrow> list_ex (\<lambda>(a, b). code a \<le> code c \<and> code c \<le> code b) rs"

definition in_class :: "bool \<Rightarrow> ranges \<Rightarrow> char \<Rightarrow> bool" where
  "in_class neg rs c \<longleftrightarrow>
     (in_ranges rs c \<or> in_ranges rs (lower_char c) \<or> in_ranges rs (upper_char c)) \<noteq> neg"

definition word_ranges :: ranges where "word_ranges = [(CHR ''0'', CHR ''9''), (CHR ''A'', CHR ''Z''), (CHR ''_'', CHR ''_''), (CHR ''a'', CHR ''z'')]"
definition digit_ranges :: ranges where "digit_ranges = [(CHR ''0'', CHR ''9'')]"
definition space_ranges :: ranges where "space_ranges = [(CHR 0x09, CHR 0x0A), (CHR 0x0C, CHR 0x0D), (CHR 0x20, CHR 0x20)]"
definition nonspace_ranges :: ranges where
  "nonspace_ranges = [(CHR 0x00, CHR 0x08), (CHR 0x0B, CHR 0x0B), (CHR 0x0E, CHR 0x1F), (CHR 0x21, CHR 0xFF)]"

fun is_word :: "char option \<Rightarrow> bool" where
  "is_word None = False"
| "is_word (Some c) = in_ranges word_ranges c"

definition next_char :: "string \<Rightarrow> char option" where
  "next_char s = (case s of [] \<Rightarrow> None | c # _ \<Rightarrow> Some c)"

inductive rx_step :: "rx \<Rightarrow> pos \<Rightarrow> pos \<Rightarrow> bool" where
  eps: "rx_step Eps p p"
| cls: "in_class neg rs c \<Longrightarrow> rx_step (Cls neg rs) (b, c # s) (Some c, s)"
| seq: "rx_step r p q \<Longrightarrow> rx_step r' q q' \<Longrightarrow> rx_step (Seq r r') p q'"
| alt1: "rx_step r p q \<Longrightarrow> rx_step (Alt r r') p q"
| alt2: "rx_step r' p q \<Longrightarrow> rx_step (Alt r r') p q"
| star0: "rx_step (Star r) p p"
| star1: "rx_step r p q \<Longrightarrow> rx_step (Star r) q q' \<Longrightarrow> rx_step (Star r) p q'"
| bol: "rx_step Bol (None, s) (None, s)"
| eol: "rx_step Eol (b, []) (b, [])"
| wordb: "is_word b \<noteq> is_word (next_char s) \<Longrightarrow> rx_step WordB (b, s) (b, s)"

inductive_cases eps_cases [elim!]: "rx_step Eps p q"
inductive_cases cls_cases [elim!]: "rx_step (Cls neg rs) p q"
inductive_cases seq_cases [elim!]: "rx_step (Seq r r') p q"
inductive_cases alt_cases [elim!]: "rx_step (Alt r r') p q"
inductive_cases star_cases: "rx_step (Star r) p q"
inductive_cases bol_cases [elim!]: "rx_step Bol p q"
inductive_cases eol_cases [elim!]: "rx_step Eol p q"
inductive_cases wordb_cases [elim!]: "rx_step WordB p q"

fun star_ends :: "(pos \<Rightarrow> pos list) \<Rightarrow> nat \<Rightarrow> pos \<Rightarrow> pos list" where
  "star_ends f 0 p = [p]"
| "star_ends f (Suc n) p = p # concat (map (star_ends f n) (filter (\<lambda>q. length (snd q) < length (snd p)) (f p)))"

primrec ends :: "rx \<Rightarrow> pos \<Rightarrow> pos list" where
  "ends Eps p = [p]"
| "ends (Cls neg rs) p = (case snd p of [] \<Rightarrow> [] | c # s \<Rightarrow> if in_class neg rs c then [(Some c, s)] else [])"
| "ends (Seq r r') p = concat (map (ends r') (ends r p))"
| "ends (Alt r r') p = ends r p @ ends r' p"
| "ends (Star r) p = star_ends (ends r) (length (snd p)) p"
| "ends Bol p = (if fst p = None then [p] else [])"
| "ends Eol p = (if snd p = [] then [p] else [])"
| "ends WordB p = (if is_word (fst p) \<noteq> is_word (next_char (snd p)) then [p] else [])"

text \<open>\<open>MatchString\<close>: some substring matches.\<close>

fun search :: "rx \<Rightarrow> char option \<Rightarrow> string \<Rightarrow> bool" where
  "search r b [] = (ends r (b, []) \<noteq> [])"
| "search r b (c # s) = (ends r (b, c # s) \<noteq> [] \<or> search r (Some c) s)"

definition match_string :: "rx \<Rightarrow> string \<Rightarrow> bool" where
  "match_string r s = search r None s"

text \<open>A step never goes back; one that stays is at the same position.\<close>

lemma rx_step_advances: "rx_step r p q \<Longrightarrow> length (snd q) < length (snd p) \<or> q = p"
  by (induction rule: rx_step.induct) auto

lemma star_ends_sound:
  assumes f: "\<And>p q. q \<in> set (f p) \<Longrightarrow> rx_step r p q" and "q \<in> set (star_ends f n p)"
  shows "rx_step (Star r) p q"
  using assms(2)
proof (induction n arbitrary: p)
  case (Suc n)
  then consider "q = p" | x where "x \<in> set (f p)" "q \<in> set (star_ends f n x)"
    by (auto simp del: split_paired_Ex)
  then show ?case using f Suc.IH by cases (blast intro: rx_step.intros)+
qed (simp add: star0)

lemma star_ends_step:
  "x \<in> set (f p) \<Longrightarrow> length (snd x) < length (snd p) \<Longrightarrow> q \<in> set (star_ends f m x) \<Longrightarrow>
   q \<in> set (star_ends f (Suc m) p)"
  by (simp del: split_paired_Ex) blast

lemma star_ends_complete:
  assumes "rx_step (Star r) p q" and f: "\<And>p q. rx_step r p q \<Longrightarrow> q \<in> set (f p)" and "length (snd p) \<le> n"
  shows "q \<in> set (star_ends f n p)"
  using assms(1,3)
proof (induction "Star r" p q arbitrary: n rule: rx_step.induct)
  case (star0 p)
  then show ?case by (cases n) auto
next
  case (star1 p q q')
  show ?case
  proof (cases "q = p")
    case False
    then have lt: "length (snd q) < length (snd p)" using rx_step_advances star1.hyps(1) by blast
    then obtain m where m: "n = Suc m" using star1.prems by (cases n) auto
    then have "q' \<in> set (star_ends f m q)" using star1.hyps(4) star1.prems lt by simp
    then show ?thesis using m star_ends_step [where f = f, OF f [OF star1.hyps(1)] lt] by blast
  qed (use star1 in simp)
qed

lemma ends_iff: "q \<in> set (ends r p) \<longleftrightarrow> rx_step r p q"
proof (induction r arbitrary: p q)
  case (Cls neg rs)
  then show ?case by (cases p; cases "snd p") (auto intro: rx_step.intros)
next
  case (Seq r r')
  have "q \<in> set (ends (Seq r r') p) \<longleftrightarrow> (\<exists>x \<in> set (ends r p). q \<in> set (ends r' x))" by simp
  also have "\<dots> \<longleftrightarrow> (\<exists>x. rx_step r p x \<and> rx_step r' x q)" using Seq.IH by blast
  also have "\<dots> \<longleftrightarrow> rx_step (Seq r r') p q" by (blast intro: rx_step.seq)
  finally show ?case .
next
  case (Alt r r')
  then show ?case by (auto intro: rx_step.intros)
next
  case (Star r)
  then show ?case
    using star_ends_sound [of "ends r" r q "length (snd p)" p] star_ends_complete [of r p q "ends r" "length (snd p)"]
    by (metis ends.simps(5) order_refl)
qed (cases p; auto intro: rx_step.intros)+

lemma ends_nonempty: "ends r p \<noteq> [] \<longleftrightarrow> (\<exists>q. rx_step r p q)"
  using ends_iff [of _ r p] by (metis ex_in_conv set_empty)

text \<open>\<open>MatchString\<close> decides whether the expression matches some substring in its context.\<close>

definition matches_at :: "rx \<Rightarrow> char option \<Rightarrow> string \<Rightarrow> string \<Rightarrow> bool" where
  "matches_at r b u v \<longleftrightarrow> (\<exists>q. rx_step r (if u = [] then b else Some (last u), v) q)"

lemma split_front: "(\<exists>u v. c # s = u @ v \<and> P u v) \<longleftrightarrow> P [] (c # s) \<or> (\<exists>u v. s = u @ v \<and> P (c # u) v)"
  by (auto simp: Cons_eq_append_conv)

lemma search_iff: "search r b s \<longleftrightarrow> (\<exists>u v. s = u @ v \<and> matches_at r b u v)"
proof (induction s arbitrary: b)
  case Nil
  then show ?case using ends_nonempty [of r "(b, [])"] by (simp add: matches_at_def)
next
  case (Cons c s)
  have shift: "matches_at r b (c # u) v = matches_at r (Some c) u v" for u v
    by (simp add: matches_at_def)
  have "(\<exists>u v. c # s = u @ v \<and> matches_at r b u v) \<longleftrightarrow>
      matches_at r b [] (c # s) \<or> (\<exists>u v. s = u @ v \<and> matches_at r b (c # u) v)"
    by (rule split_front)
  then show ?case
    using Cons.IH [of "Some c"] ends_nonempty [of r "(b, c # s)"] by (simp add: shift) (simp add: matches_at_def)
qed

section \<open>Compile\<close>

datatype tok = TSet bool ranges | TStar | TPlus | TOpt | TBar | TOpen | TClose | TBol | TEol | TWordB

definition backslash :: char where "backslash = CHR 0x5C"

definition single :: "char \<Rightarrow> ranges" where "single c = [(c, c)]"

definition hex_digit_val :: "char \<Rightarrow> int option" where
  "hex_digit_val c =
     (let n = code c in
      if 48 \<le> n \<and> n \<le> 57 then Some (n - 48) else if 97 \<le> n \<and> n \<le> 102 then Some (n - 87)
      else if 65 \<le> n \<and> n \<le> 70 then Some (n - 55) else None)"

text \<open>An escape in a class or outside: a class of its own, a control character or a punctuation mark.\<close>

definition escape :: "char \<Rightarrow> ranges option" where
  "escape c =
     (if c = CHR ''s'' then Some space_ranges else if c = CHR ''S'' then Some nonspace_ranges
      else if c = CHR ''d'' then Some digit_ranges else if c = CHR ''w'' then Some word_ranges
      else if c = CHR ''n'' then Some (single (CHR 0x0A)) else if c = CHR ''r'' then Some (single (CHR 0x0D))
      else if c = CHR ''t'' then Some (single (CHR 0x09))
      else if in_ranges word_ranges c then None else Some (single c))"

text \<open>One element of a class: its ranges and the rest of the pattern. \<open>single\<close> elements may open a range.\<close>

definition class_char :: "string \<Rightarrow> (char \<times> string) option" where
  "class_char s =
     (case s of
        [] \<Rightarrow> None
      | c # s \<Rightarrow>
          if c \<noteq> backslash then Some (c, s)
          else case s of
                 e # a # b # s \<Rightarrow>
                   if e = CHR ''x''
                   then (case (hex_digit_val a, hex_digit_val b) of
                           (Some m, Some n) \<Rightarrow> Some (char_of (16 * m + n), s) | _ \<Rightarrow> None)
                   else None
               | _ \<Rightarrow> None)"

lemma class_char_shorter: "class_char s = Some (n, r) \<Longrightarrow> length r < length s"
  by (auto simp: class_char_def split: list.splits if_splits option.splits)

definition class_elem :: "string \<Rightarrow> (ranges \<times> string) option" where
  "class_elem s =
     (case class_char s of
        Some (lo, r) \<Rightarrow>
          (case r of
             d # t \<Rightarrow>
               if d = CHR ''-'' \<and> t \<noteq> [] \<and> hd t \<noteq> CHR '']''
               then (case class_char t of
                       Some (hi, t) \<Rightarrow> if code lo \<le> code hi then Some ([(lo, hi)], t) else None
                     | None \<Rightarrow> None)
               else Some (single lo, r)
           | [] \<Rightarrow> Some (single lo, r))
      | None \<Rightarrow>
          (case s of _ # e # r \<Rightarrow> map_option (\<lambda>rs. (rs, r)) (escape e) | _ \<Rightarrow> None))"

lemma class_elem_shorter: "class_elem s = Some (rs, r) \<Longrightarrow> length r < length s"
  by (auto simp: class_elem_def split: list.splits if_splits option.splits
      dest!: class_char_shorter)

function class_body :: "ranges \<Rightarrow> string \<Rightarrow> (ranges \<times> string) option" where
  "class_body acc s =
     (case s of
        [] \<Rightarrow> None
      | c # r \<Rightarrow>
          if c = CHR '']'' then Some (acc, r)
          else case class_elem s of None \<Rightarrow> None | Some (rs, r) \<Rightarrow> class_body (acc @ rs) r)"
  by pat_completeness auto
termination
  by (relation "measure (\<lambda>(acc, s). length s)") (auto dest: class_elem_shorter)

declare class_body.simps [simp del]

lemma class_body_shorter: "class_body acc s = Some (rs, r) \<Longrightarrow> length r < length s"
proof (induction acc s rule: class_body.induct)
  case (1 acc s)
  then show ?case
    by (subst (asm) class_body.simps)
      (fastforce split: list.splits if_splits option.splits dest: class_elem_shorter)
qed

definition skip_lazy :: "string \<Rightarrow> string" where
  "skip_lazy s = (case s of c # r \<Rightarrow> if c = CHR ''?'' then r else s | [] \<Rightarrow> [])"

lemma skip_lazy_simps: "skip_lazy [] = []" "skip_lazy (c # r) = (if c = CHR ''?'' then r else c # r)"
  by (simp_all add: skip_lazy_def)

definition repeats :: "string \<Rightarrow> bool" where
  "repeats s \<longleftrightarrow> (case s of c # _ \<Rightarrow> c \<in> {CHR ''*'', CHR ''+'', CHR ''?''} | [] \<Rightarrow> False)"

definition any_but_newline :: ranges where "any_but_newline = [(CHR 0x00, CHR 0x09), (CHR 0x0B, CHR 0xFF)]"

text \<open>One token and the rest of the pattern.\<close>

definition token :: "string \<Rightarrow> (tok \<times> string) option" where
  "token s =
     (case s of
        [] \<Rightarrow> None
      | c # r \<Rightarrow>
          if c \<in> {CHR ''*'', CHR ''+'', CHR ''?''}
          then let r = skip_lazy r;
                   t = (if c = CHR ''*'' then TStar else if c = CHR ''+'' then TPlus else TOpt)
               in if repeats r then None else Some (t, r)
          else if c = CHR ''|'' then Some (TBar, r)
          else if c = CHR '')'' then Some (TClose, r)
          else if c = CHR ''('' then
            (if has_prefix r ''?'' then (if has_prefix r ''?:'' then Some (TOpen, drop 2 r) else None)
             else Some (TOpen, r))
          else if c = CHR ''^'' then Some (TBol, r)
          else if c = CHR ''$'' then Some (TEol, r)
          else if c = CHR ''.'' then Some (TSet False any_but_newline, r)
          else if c = CHR ''['' then
            (let neg = has_prefix r ''^'' in
             case class_body [] (if neg then tl r else r) of
               None \<Rightarrow> None | Some (rs, r) \<Rightarrow> Some (TSet neg rs, r))
          else if c = backslash then
            (case r of
               [] \<Rightarrow> None
             | e # r' \<Rightarrow>
                 if e = CHR ''b'' then Some (TWordB, r')
                 else case class_char s of
                        Some (n, r) \<Rightarrow> Some (TSet False (single n), r)
                      | None \<Rightarrow> map_option (\<lambda>rs. (TSet False rs, r')) (escape e))
          else Some (TSet False (single c), r))"

lemma token_shorter: "token s = Some (t, r) \<Longrightarrow> length r < length s"
  by (auto simp: token_def Let_def skip_lazy_simps split: list.splits if_splits option.splits
      dest!: class_body_shorter dest: class_char_shorter)

function lex :: "string \<Rightarrow> tok list option" where
  "lex s =
     (if s = [] then Some []
      else case token s of None \<Rightarrow> None | Some (t, r) \<Rightarrow> map_option ((#) t) (lex r))"
  by pat_completeness auto
termination
  by (relation "measure length") (auto dest: token_shorter)

declare lex.simps [simp del]

text \<open>
  The parser: for every open group the alternatives and the sequence read so far, the latest first.
  A repetition takes the last element of the sequence; with none it is an error.
\<close>

type_synonym frame = "rx list \<times> rx list"

definition seq_of :: "rx list \<Rightarrow> rx" where
  "seq_of rs = (case rs of [] \<Rightarrow> Eps | r # rest \<Rightarrow> fold Seq rest r)"

definition group_of :: "frame \<Rightarrow> rx" where
  "group_of f = fold (\<lambda>a acc. Alt a acc) (fst f) (seq_of (snd f))"

fun parse_tok :: "tok \<Rightarrow> frame list \<Rightarrow> frame list option" where
  "parse_tok _ [] = None"
| "parse_tok TOpen fs = Some (([], []) # fs)"
| "parse_tok TClose (f # fs) = (case fs of [] \<Rightarrow> None | (alts, sq) # fs \<Rightarrow> Some ((alts, group_of f # sq) # fs))"
| "parse_tok TBar ((alts, sq) # fs) = Some ((seq_of sq # alts, []) # fs)"
| "parse_tok (TSet neg rs) ((alts, sq) # fs) = Some ((alts, Cls neg rs # sq) # fs)"
| "parse_tok TBol ((alts, sq) # fs) = Some ((alts, Bol # sq) # fs)"
| "parse_tok TEol ((alts, sq) # fs) = Some ((alts, Eol # sq) # fs)"
| "parse_tok TWordB ((alts, sq) # fs) = Some ((alts, WordB # sq) # fs)"
| "parse_tok q ((alts, sq) # fs) =
     (case sq of
        [] \<Rightarrow> None
      | r # rest \<Rightarrow>
          Some ((alts, (if q = TStar then Star r else if q = TPlus then Seq r (Star r) else Alt r Eps) # rest) # fs))"

fun parse_toks :: "tok list \<Rightarrow> frame list \<Rightarrow> rx option" where
  "parse_toks [] fs = (case fs of [f] \<Rightarrow> Some (group_of f) | _ \<Rightarrow> None)"
| "parse_toks (t # ts) fs = (case parse_tok t fs of None \<Rightarrow> None | Some fs \<Rightarrow> parse_toks ts fs)"

text \<open>\<open>regexp.Compile("(?i)" + pattern)\<close>.\<close>

definition rx_compile :: "string \<Rightarrow> rx option" where
  "rx_compile s = (case lex s of None \<Rightarrow> None | Some ts \<Rightarrow> parse_toks ts [([], [])])"

text \<open>
  \<open>regexp.Compile\<close> of a pattern that starts with the flag \<open>(?i)\<close>, and \<open>MatchString\<close> of its result.
\<close>

definition go_regexp :: "string \<Rightarrow> (string \<Rightarrow> bool) option" where
  "go_regexp s = (if has_prefix s ''(?i)'' then map_option match_string (rx_compile (drop 4 s)) else None)"

text \<open>A pattern is written with \<open>~\<close> for the backslash and \<open>@\<close> for the apostrophe.\<close>

definition pat :: "string \<Rightarrow> string" where
  "pat s = map (\<lambda>c. if c = CHR ''~'' then backslash else if c = CHR ''@'' then CHR 0x27 else c) s"

end
