(* ===== verification/Rules.thy ===== *)
theory Rules
  imports Regex HttpModel
begin

text \<open>
  The WAF rule engine of \<open>packages/mango-waf/rules\<close>: the engine with its inspection (\<open>engine.go\<close>), the
  built-in rules (\<open>owasp.go\<close>) and the custom rules (\<open>custom.go\<close>). Rules are pointers that the rule list
  and the index share, so they live in a store and both hold addresses. \<open>regexp.Compile\<close> is the argument
  \<open>rx\<close>; the facts on the built-in rules are for \<open>go_regexp\<close>.
\<close>

section \<open>State\<close>

type_synonym regexp = "string \<Rightarrow> (string \<Rightarrow> bool) option"

record rule =
  ru_ID :: string
  ru_Name :: string
  ru_Description :: string
  ru_Category :: string
  ru_Severity :: string
  ru_Phase :: int
  ru_Targets :: "string list"
  ru_Operator :: string
  ru_Pattern :: string
  ru_Compiled :: "(string \<Rightarrow> bool) option"
  ru_Action :: string
  ru_Enabled :: bool
  ru_Tags :: "string list"
  ru_Paranoia :: int

record match_result =
  mt_Rule :: rule
  mt_MatchedVal :: string
  mt_Target :: string

record inspect_result =
  ir_Blocked :: bool
  ir_Matches :: "match_result list"
  ir_Score :: int
  ir_Action :: string
  ir_TopRule :: string

record engine_stats =
  st_TotalInspected :: int
  st_TotalBlocked :: int
  st_TotalMatched :: int
  st_RuleHits :: "int smap"

record waf_config =
  wc_Enabled :: bool
  wc_ParanoiaLevel :: int

record engine =
  eg_store :: "rule list"
  eg_rules :: "nat list"
  eg_ruleIndex :: "nat smap"
  eg_stats :: engine_stats

definition the_rules :: "engine \<Rightarrow> rule list" where
  "the_rules e = map (\<lambda>a. eg_store e ! a) (eg_rules e)"

section \<open>Inspection\<close>

record request_data =
  rd_URL :: string
  rd_Path :: string
  rd_Query :: string
  rd_Method :: string
  rd_Headers :: "string smap"
  rd_Cookies :: "string smap"
  rd_UA :: string
  rd_Body :: string
  rd_Args :: "string smap"

definition extractRequestData :: "request \<Rightarrow> request_data" where
  "extractRequestData r =
     \<lparr>rd_URL = r_url r, rd_Path = r_path r, rd_Query = r_query r, rd_Method = r_method r,
      rd_Headers = fold (\<lambda>(k, v). AList.update (to_lower k) (join '', '' v)) (r_header r) [],
      rd_Cookies = fold (\<lambda>(k, v). AList.update k v) (r_cookies r) [],
      rd_UA = user_agent r, rd_Body = [],
      rd_Args = fold (\<lambda>(k, v). AList.update k (join '', '' v)) (r_args r) []\<rparr>"

definition getTargetValues :: "string \<Rightarrow> request_data \<Rightarrow> string list" where
  "getTargetValues target rd =
     (if target = ''URL'' then [rd_URL rd]
      else if target = ''PATH'' then [rd_Path rd]
      else if target = ''QUERY'' then [rd_Query rd]
      else if target = ''METHOD'' then [rd_Method rd]
      else if target = ''UA'' then [rd_UA rd]
      else if target = ''HEADERS'' then map snd (rd_Headers rd)
      else if target = ''ARGS'' then map snd (rd_Args rd)
      else if target = ''COOKIES'' then map snd (rd_Cookies rd)
      else if target = ''BODY'' then [rd_Body rd]
      else [])"

definition matchOperator :: "rule \<Rightarrow> string \<Rightarrow> bool" where
  "matchOperator rule v =
     (if ru_Operator rule = ''rx'' then (case ru_Compiled rule of Some f \<Rightarrow> f v | None \<Rightarrow> False)
      else if ru_Operator rule = ''contains'' then str_contains (to_lower v) (to_lower (ru_Pattern rule))
      else if ru_Operator rule = ''eq'' then equal_fold v (ru_Pattern rule)
      else if ru_Operator rule = ''beginsWith'' then has_prefix (to_lower v) (to_lower (ru_Pattern rule))
      else if ru_Operator rule = ''endsWith'' then has_suffix (to_lower v) (to_lower (ru_Pattern rule))
      else False)"

definition truncate :: "string \<Rightarrow> nat \<Rightarrow> string" where
  "truncate s maxLen = (if length s \<le> maxLen then s else take maxLen s @ ''...'')"

fun matchTargets :: "rule \<Rightarrow> request_data \<Rightarrow> string list \<Rightarrow> match_result option" where
  "matchTargets rule rd [] = None"
| "matchTargets rule rd (target # targets) =
     (case find (matchOperator rule) (getTargetValues target rd) of
        Some v \<Rightarrow> Some \<lparr>mt_Rule = rule, mt_MatchedVal = truncate v 100, mt_Target = target\<rparr>
      | None \<Rightarrow> matchTargets rule rd targets)"

definition matchRule :: "rule \<Rightarrow> request_data \<Rightarrow> match_result option" where
  "matchRule rule rd = matchTargets rule rd (ru_Targets rule)"

definition severityScore :: "string \<Rightarrow> int" where
  "severityScore s =
     (if s = ''critical'' then 25 else if s = ''high'' then 15 else if s = ''medium'' then 10
      else if s = ''low'' then 5 else 1)"

definition empty_result :: inspect_result where
  "empty_result = \<lparr>ir_Blocked = False, ir_Matches = [], ir_Score = 0, ir_Action = [], ir_TopRule = []\<rparr>"

text \<open>One round of the loop over the rules.\<close>

definition inspect_rule ::
  "waf_config \<Rightarrow> request_data \<Rightarrow> rule \<Rightarrow> inspect_result \<times> engine_stats \<Rightarrow> inspect_result \<times> engine_stats" where
  "inspect_rule cfg rd rule st =
     (if \<not> ru_Enabled rule then st
      else if wc_ParanoiaLevel cfg < ru_Paranoia rule then st
      else case matchRule rule rd of
             None \<Rightarrow> st
           | Some m \<Rightarrow>
               let (res, stats) = st;
                   res = res\<lparr>ir_Matches := ir_Matches res @ [m],
                             ir_Score := ir_Score res + severityScore (ru_Severity rule)\<rparr>;
                   stats = stats\<lparr>st_TotalMatched := st_TotalMatched stats + 1,
                                 st_RuleHits := m_incr (ru_ID rule) (st_RuleHits stats)\<rparr>
               in (if ru_Action rule = ''block'' \<or> ru_Action rule = ''drop''
                   then res\<lparr>ir_Blocked := True, ir_Action := ru_Action rule, ir_TopRule := ru_ID rule\<rparr>
                   else res, stats))"

definition inspect :: "waf_config \<Rightarrow> request \<Rightarrow> engine \<Rightarrow> inspect_result \<times> engine" where
  "inspect cfg r e =
     (if \<not> wc_Enabled cfg then (empty_result, e)
      else let stats = (eg_stats e)\<lparr>st_TotalInspected := st_TotalInspected (eg_stats e) + 1\<rparr>;
               (res, stats) = fold (inspect_rule cfg (extractRequestData r)) (the_rules e) (empty_result, stats);
               stats = (if ir_Blocked res then stats\<lparr>st_TotalBlocked := st_TotalBlocked stats + 1\<rparr> else stats)
           in (res, e\<lparr>eg_stats := stats\<rparr>))"

section \<open>The rule set\<close>

definition append_rule :: "rule \<Rightarrow> engine \<Rightarrow> engine" where
  "append_rule rule e =
     (let a = length (eg_store e)
      in e\<lparr>eg_store := eg_store e @ [rule], eg_rules := eg_rules e @ [a],
           eg_ruleIndex := AList.update (ru_ID rule) a (eg_ruleIndex e)\<rparr>)"

text \<open>\<open>AddRule\<close>: the engine, or \<open>None\<close> for a pattern that does not compile.\<close>

definition addRule :: "regexp \<Rightarrow> rule \<Rightarrow> engine \<Rightarrow> engine option" where
  "addRule rx rule e =
     (if ru_Operator rule = ''rx'' \<and> ru_Pattern rule \<noteq> []
      then case rx (''(?i)'' @ ru_Pattern rule) of
             None \<Rightarrow> None
           | Some f \<Rightarrow> Some (append_rule (rule\<lparr>ru_Compiled := Some f\<rparr>) e)
      else Some (append_rule rule e))"

definition set_enabled :: "bool \<Rightarrow> string \<Rightarrow> engine \<Rightarrow> bool \<times> engine" where
  "set_enabled b i e =
     (case map_of (eg_ruleIndex e) i of
        Some a \<Rightarrow> (True, e\<lparr>eg_store := (eg_store e)[a := (eg_store e ! a)\<lparr>ru_Enabled := b\<rparr>]\<rparr>)
      | None \<Rightarrow> (False, e))"

definition enableRule :: "string \<Rightarrow> engine \<Rightarrow> bool \<times> engine" where "enableRule = set_enabled True"
definition disableRule :: "string \<Rightarrow> engine \<Rightarrow> bool \<times> engine" where "disableRule = set_enabled False"

definition getRules :: "engine \<Rightarrow> rule list" where "getRules e = the_rules e"

definition getRule :: "string \<Rightarrow> engine \<Rightarrow> rule option" where
  "getRule i e = map_option (\<lambda>a. eg_store e ! a) (map_of (eg_ruleIndex e) i)"

text \<open>The list without the first rule of that name.\<close>

fun remove_first :: "('a \<Rightarrow> bool) \<Rightarrow> 'a list \<Rightarrow> 'a list" where
  "remove_first P [] = []"
| "remove_first P (x # xs) = (if P x then xs else x # remove_first P xs)"

definition removeRule :: "string \<Rightarrow> engine \<Rightarrow> bool \<times> engine" where
  "removeRule i e =
     (let named = (\<lambda>a. ru_ID (eg_store e ! a) = i)
      in (list_ex named (eg_rules e),
          e\<lparr>eg_ruleIndex := AList.delete i (eg_ruleIndex e), eg_rules := remove_first named (eg_rules e)\<rparr>))"

definition createQuickRule :: "regexp \<Rightarrow> string \<Rightarrow> string \<Rightarrow> string \<Rightarrow> string \<Rightarrow> rule" where
  "createQuickRule rx i pattern target category =
     \<lparr>ru_ID = i, ru_Name = ''Quick Rule: '' @ i, ru_Description = [], ru_Category = category,
      ru_Severity = ''high'', ru_Phase = 1, ru_Targets = [target], ru_Operator = ''rx'', ru_Pattern = pattern,
      ru_Compiled = rx (''(?i)'' @ pattern), ru_Action = ''block'', ru_Enabled = True, ru_Tags = [],
      ru_Paranoia = 1\<rparr>"

text \<open>
  \<open>LoadCustomRules\<close>: the file as read and parsed, or the error of reading or parsing it. An entry is a rule
  without phase and compiled pattern.
\<close>

datatype rule_file = Unreadable | Unparsable | Parsed "rule list"
datatype rules_error = ReadCustomRules | ParseCustomRules

definition custom_entry :: "rule \<Rightarrow> rule" where
  "custom_entry entry =
     (let rule = entry\<lparr>ru_Phase := 0, ru_Compiled := None\<rparr>;
          rule = (if ru_Paranoia rule = 0 then rule\<lparr>ru_Paranoia := 1\<rparr> else rule)
      in if ru_Action rule = [] then rule\<lparr>ru_Action := ''block''\<rparr> else rule)"

definition loadCustomRules :: "regexp \<Rightarrow> string \<Rightarrow> rule_file \<Rightarrow> engine \<Rightarrow> rules_error option \<times> engine" where
  "loadCustomRules rx path file e =
     (if path = [] then (None, e)
      else case file of
             Unreadable \<Rightarrow> (Some ReadCustomRules, e)
           | Unparsable \<Rightarrow> (Some ParseCustomRules, e)
           | Parsed entries \<Rightarrow>
               (None, fold (\<lambda>entry e. case addRule rx (custom_entry entry) e of None \<Rightarrow> e | Some e' \<Rightarrow> e') entries e))"

section \<open>The built-in rules\<close>

definition em_dash :: string where "em_dash = [CHR 0xE2, CHR 0x80, CHR 0x94]"

definition owasp :: "string \<Rightarrow> string \<Rightarrow> string \<Rightarrow> string \<Rightarrow> int \<Rightarrow> string list \<Rightarrow> string \<Rightarrow> string \<Rightarrow> string list \<Rightarrow> rule" where
  "owasp i name category severity paranoia targets pattern act tags =
     \<lparr>ru_ID = i, ru_Name = name, ru_Description = [], ru_Category = category, ru_Severity = severity,
      ru_Phase = 1, ru_Targets = targets, ru_Operator = ''rx'', ru_Pattern = pattern, ru_Compiled = None,
      ru_Action = act, ru_Enabled = True, ru_Tags = tags, ru_Paranoia = paranoia\<rparr>"

definition owaspRules :: "rule list" where
  "owaspRules =
     [
      owasp ''920100'' ''Invalid HTTP Request Line'' ''protocol'' ''high'' 1 [''METHOD'']
        (pat ''^(?!GET|POST|HEAD|PUT|DELETE|PATCH|OPTIONS|CONNECT|TRACE)'')
        ''block'' [''OWASP_CRS'', ''protocol''],
      owasp ''920170'' ''GET/HEAD with Body'' ''protocol'' ''medium'' 1 [''HEADERS'']
        (pat ''content-length:~s*[1-9]'')
        ''block'' [''OWASP_CRS'', ''protocol''],
      owasp ''920270'' ''Invalid Character in Request'' ''protocol'' ''high'' 2 [''URL'']
        (pat ''[~x00-~x08~x0b~x0c~x0e-~x1f~x7f]'')
        ''block'' [''OWASP_CRS'', ''protocol''],
      owasp ''930100'' ''Path Traversal Attack'' ''lfi'' ''critical'' 1 [''URL'', ''ARGS'']
        (pat ''(?:~.~./|~.~.~~|%2e%2e[/~~%]|%252e%252e)'')
        ''block'' [''OWASP_CRS'', ''LFI'', ''path-traversal''],
      owasp ''930110'' ''OS File Access Attempt'' ''lfi'' ''critical'' 1 [''URL'', ''ARGS'']
        (pat ''(?:/etc/passwd|/etc/shadow|/proc/self|c:~~windows|boot~.ini|win~.ini)'')
        ''block'' [''OWASP_CRS'', ''LFI''],
      owasp ''930120'' ''Restricted File Access'' ''lfi'' ''high'' 1 [''URL'']
        (pat ''(?:~.htaccess|~.htpasswd|~.env|~.git/|~.svn/|~.DS_Store|web~.config|~.bak|~.old|~.sql|~.log)'')
        ''block'' [''OWASP_CRS'', ''LFI'', ''info-disclosure''],
      owasp ''941100'' ''XSS Attack via Script Tag'' ''xss'' ''critical'' 1 [''ARGS'', ''URL'', ''HEADERS'', ''COOKIES'']
        (pat ''(?:<script[^>]*>|<~/script>|javascript~s*:|on~w+~s*=)'')
        ''block'' [''OWASP_CRS'', ''XSS''],
      owasp ''941110'' ''XSS Attack via Event Handler'' ''xss'' ''high'' 1 [''ARGS'', ''URL'']
        (pat ''(?:on(?:abort|blur|change|click|dblclick|error|focus|keydown|keypress|keyup|load|mousedown|mousemove|mouseout|mouseover|mouseup|resize|select|submit|unload)~s*=)'')
        ''block'' [''OWASP_CRS'', ''XSS''],
      owasp ''941120'' ''XSS Attack via img/iframe/object'' ''xss'' ''high'' 1 [''ARGS'', ''URL'']
        (pat ''(?:<(?:img|iframe|object|embed|svg|math|video|audio|source|base|link|meta|form|input|button|textarea|select)~b)'')
        ''block'' [''OWASP_CRS'', ''XSS''],
      owasp ''941130'' ''XSS eval/alert Injection'' ''xss'' ''high'' 1 [''ARGS'', ''URL'']
        (pat ''(?:eval~s*~(|alert~s*~(|prompt~s*~(|confirm~s*~(|String~.fromCharCode|document~.cookie|document~.write|window~.location)'')
        ''block'' [''OWASP_CRS'', ''XSS''],
      owasp ''942100'' (''SQL Injection Attack '' @ em_dash @ '' Tautology'') ''sqli'' ''critical'' 1 [''ARGS'', ''URL'', ''COOKIES'']
        (pat ''(?:@~s*(?:or|and)~s*@?~d*~s*[=<>]|\"~s*(?:or|and)~s*\"~s*[=<>]|(?:or|and)~s+~d+~s*=~s*~d+|~bor~b~s+~d+~s*=~s*~d+|@~s*or~s+@[^@]*@~s*=~s*@)'')
        ''block'' [''OWASP_CRS'', ''SQLi''],
      owasp ''942110'' (''SQL Injection Attack '' @ em_dash @ '' UNION'') ''sqli'' ''critical'' 1 [''ARGS'', ''URL'']
        (pat ''(?:union~s+(?:all~s+)?select~s|union~s+select~s)'')
        ''block'' [''OWASP_CRS'', ''SQLi''],
      owasp ''942120'' (''SQL Injection '' @ em_dash @ '' Stacked Queries'') ''sqli'' ''critical'' 1 [''ARGS'', ''URL'']
        (pat ''(?:;~s*(?:drop|alter|create|truncate|rename|insert|update|delete|exec|execute)~s)'')
        ''block'' [''OWASP_CRS'', ''SQLi''],
      owasp ''942130'' (''SQL Injection '' @ em_dash @ '' Comment Bypass'') ''sqli'' ''high'' 1 [''ARGS'', ''URL'']
        (pat ''(?:/~*[~s~S]*?~*/|--~s|#~s|;~s*--|%23|%2d%2d)'')
        ''block'' [''OWASP_CRS'', ''SQLi''],
      owasp ''942140'' (''SQL Injection '' @ em_dash @ '' Information Schema'') ''sqli'' ''critical'' 1 [''ARGS'', ''URL'']
        (pat ''(?:information_schema|sysobjects|syscolumns|sysusers|pg_catalog|pg_tables)'')
        ''block'' [''OWASP_CRS'', ''SQLi''],
      owasp ''942150'' (''SQL Injection '' @ em_dash @ '' Functions'') ''sqli'' ''high'' 1 [''ARGS'', ''URL'']
        (pat ''(?:(?:sleep|benchmark|waitfor|delay|load_file|into~s+(?:out|dump)file)~s*~()'')
        ''block'' [''OWASP_CRS'', ''SQLi''],
      owasp ''932100'' ''Unix Command Injection'' ''rce'' ''critical'' 1 [''ARGS'', ''URL'', ''HEADERS'']
        (pat ''(?:;~s*(?:cat|ls|id|whoami|uname|pwd|wget|curl|nc|netcat|bash|sh|python|perl|php|ruby|gcc|chmod|chown)~b|`|~$~(|~|~||~&~&)'')
        ''block'' [''OWASP_CRS'', ''RCE''],
      owasp ''932110'' ''Windows Command Injection'' ''rce'' ''critical'' 1 [''ARGS'', ''URL'']
        (pat ''(?:cmd~.exe|powershell|command~.com|cscript|wscript|mshta|regsvr32|rundll32|certutil)'')
        ''block'' [''OWASP_CRS'', ''RCE''],
      owasp ''931100'' (''Remote File Inclusion '' @ em_dash @ '' URL in Parameter'') ''rfi'' ''critical'' 1 [''ARGS'']
        (pat ''(?:https?://|ftp://|data:|php://|zlib://|glob://|expect://|phar://)'')
        ''block'' [''OWASP_CRS'', ''RFI''],
      owasp ''934100'' ''Node.js Injection'' ''rce'' ''critical'' 2 [''ARGS'', ''URL'']
        (pat ''(?:require~s*~(~s*[@\"]~s*(?:child_process|fs|net|http|crypto)|process~.(?:env|exit|argv|mainModule)|__proto__|constructor~s*~[)'')
        ''block'' [''OWASP_CRS'', ''NodeJS''],
      owasp ''944100'' ''Java Deserialization Attack'' ''rce'' ''critical'' 2 [''ARGS'', ''URL'', ''HEADERS'']
        (pat ''(?:java~.lang~.Runtime|ProcessBuilder|javax~.script|org~.apache~.commons|com~.sun~.org~.apache|java~.io~.ObjectInputStream)'')
        ''block'' [''OWASP_CRS'', ''Java''],
      owasp ''913100'' ''Known Security Scanner'' ''scanner'' ''high'' 1 [''UA'']
        (pat ''(?:nikto|sqlmap|nmap|masscan|dirbuster|gobuster|wfuzz|ffuf|burpsuite|zaproxy|acunetix|nessus|openvas|qualys|nuclei|httpx|subfinder)'')
        ''block'' [''OWASP_CRS'', ''scanner''],
      owasp ''913110'' ''Known Scraping Tool'' ''scanner'' ''medium'' 2 [''UA'']
        (pat ''(?:scrapy|beautifulsoup|mechanize|phantom|headless|puppeteer|playwright|selenium)'')
        ''challenge'' [''OWASP_CRS'', ''scraper''],
      owasp ''921100'' ''HTTP Splitting/Smuggling'' ''protocol'' ''critical'' 1 [''HEADERS'', ''ARGS'']
        (pat ''(?:~r~n|~n)(?:Content-|Transfer-|Set-Cookie|Location)'')
        ''block'' [''OWASP_CRS'', ''HTTP-smuggling''],
      owasp ''933100'' ''PHP Injection Attack'' ''rce'' ''critical'' 1 [''ARGS'', ''URL'']
        (pat ''(?:<~?(?:php)?|assert~s*~(|eval~s*~(|preg_replace~s*~(.*/e|system~s*~(|exec~s*~(|passthru~s*~(|shell_exec~s*~(|popen~s*~()'')
        ''block'' [''OWASP_CRS'', ''PHP''],
      owasp ''950100'' (''SSRF '' @ em_dash @ '' Internal Network Access'') ''ssrf'' ''critical'' 1 [''ARGS'']
        (pat ''(?:127~.~d+~.~d+~.~d+|localhost|0~.0~.0~.0|10~.~d+~.~d+~.~d+|172~.(?:1[6-9]|2~d|3[01])~.~d+~.~d+|192~.168~.~d+~.~d+|169~.254~.~d+~.~d+|~[::1~]|metadata~.google|instance-data)'')
        ''block'' [''OWASP_CRS'', ''SSRF'']
     ]"

definition load_owasp_rule :: "regexp \<Rightarrow> int \<Rightarrow> rule \<Rightarrow> engine \<Rightarrow> engine" where
  "load_owasp_rule rx paranoiaLevel rule e =
     (if ru_Paranoia rule \<le> paranoiaLevel
      then if ru_Operator rule = ''rx'' \<and> ru_Pattern rule \<noteq> []
           then case rx (''(?i)'' @ ru_Pattern rule) of
                  None \<Rightarrow> e
                | Some f \<Rightarrow> append_rule (rule\<lparr>ru_Compiled := Some f\<rparr>) e
           else append_rule rule e
      else e)"

definition loadOWASPRules :: "regexp \<Rightarrow> int \<Rightarrow> engine \<Rightarrow> engine" where
  "loadOWASPRules rx paranoiaLevel e = fold (load_owasp_rule rx paranoiaLevel) owaspRules e"

definition newEngine :: "regexp \<Rightarrow> waf_config \<Rightarrow> engine" where
  "newEngine rx cfg =
     (let e = \<lparr>eg_store = [], eg_rules = [], eg_ruleIndex = [],
               eg_stats = \<lparr>st_TotalInspected = 0, st_TotalBlocked = 0, st_TotalMatched = 0, st_RuleHits = []\<rparr>\<rparr>
      in if wc_Enabled cfg then loadOWASPRules rx (wc_ParanoiaLevel cfg) e else e)"

section \<open>What an inspection reports\<close>

definition hits :: "waf_config \<Rightarrow> request_data \<Rightarrow> rule \<Rightarrow> bool" where
  "hits cfg rd rule \<longleftrightarrow> ru_Enabled rule \<and> ru_Paranoia rule \<le> wc_ParanoiaLevel cfg \<and>
     (\<exists>t \<in> set (ru_Targets rule). \<exists>v \<in> set (getTargetValues t rd). matchOperator rule v)"

definition blocking :: "rule \<Rightarrow> bool" where
  "blocking rule \<longleftrightarrow> ru_Action rule = ''block'' \<or> ru_Action rule = ''drop''"

lemma find_Some: "find P xs = Some v \<Longrightarrow> v \<in> set xs \<and> P v"
  by (metis find_Some_iff nth_mem)

lemma matchTargets_iff:
  "matchTargets rule rd ts \<noteq> None \<longleftrightarrow> (\<exists>t \<in> set ts. \<exists>v \<in> set (getTargetValues t rd). matchOperator rule v)"
  by (induction ts) (auto simp: find_None_iff split: option.split dest: find_Some)

lemma matchTargets_rule: "matchTargets rule rd ts = Some m \<Longrightarrow> mt_Rule m = rule"
  by (induction ts) (auto split: option.splits)

lemma inspect_rule_cases:
  "\<not> hits cfg rd rule \<Longrightarrow> inspect_rule cfg rd rule st = st"
  "hits cfg rd rule \<Longrightarrow> \<exists>m. mt_Rule m = rule \<and> inspect_rule cfg rd rule (res, stats) =
     (let res = res\<lparr>ir_Matches := ir_Matches res @ [m], ir_Score := ir_Score res + severityScore (ru_Severity rule)\<rparr>
      in if blocking rule
         then res\<lparr>ir_Blocked := True, ir_Action := ru_Action rule, ir_TopRule := ru_ID rule\<rparr> else res,
      stats\<lparr>st_TotalMatched := st_TotalMatched stats + 1, st_RuleHits := m_incr (ru_ID rule) (st_RuleHits stats)\<rparr>)"
proof -
  have hit: "hits cfg rd rule \<longleftrightarrow>
      ru_Enabled rule \<and> \<not> wc_ParanoiaLevel cfg < ru_Paranoia rule \<and> matchRule rule rd \<noteq> None"
    using matchTargets_iff [of rule rd "ru_Targets rule"] by (simp add: hits_def matchRule_def not_less)
  show "\<not> hits cfg rd rule \<Longrightarrow> inspect_rule cfg rd rule st = st"
    unfolding hit by (auto simp: inspect_rule_def)
  assume "hits cfg rd rule"
  then obtain m where "matchRule rule rd = Some m" "ru_Enabled rule" "\<not> wc_ParanoiaLevel cfg < ru_Paranoia rule"
    using hit by blast
  then show "\<exists>m. mt_Rule m = rule \<and> inspect_rule cfg rd rule (res, stats) =
     (let res = res\<lparr>ir_Matches := ir_Matches res @ [m], ir_Score := ir_Score res + severityScore (ru_Severity rule)\<rparr>
      in if blocking rule
         then res\<lparr>ir_Blocked := True, ir_Action := ru_Action rule, ir_TopRule := ru_ID rule\<rparr> else res,
      stats\<lparr>st_TotalMatched := st_TotalMatched stats + 1, st_RuleHits := m_incr (ru_ID rule) (st_RuleHits stats)\<rparr>)"
    using matchTargets_rule [of rule rd "ru_Targets rule" m]
    by (intro exI [of _ m]) (simp add: inspect_rule_def matchRule_def blocking_def Let_def)
qed

definition reports :: "rule list \<Rightarrow> inspect_result \<Rightarrow> inspect_result \<Rightarrow> bool" where
  "reports ms old new \<longleftrightarrow>
     map mt_Rule (ir_Matches new) = map mt_Rule (ir_Matches old) @ ms \<and>
     ir_Score new = ir_Score old + sum_list (map (severityScore \<circ> ru_Severity) ms) \<and>
     ir_Blocked new = (ir_Blocked old \<or> filter blocking ms \<noteq> []) \<and>
     ir_TopRule new = (if filter blocking ms = [] then ir_TopRule old else ru_ID (last (filter blocking ms))) \<and>
     ir_Action new = (if filter blocking ms = [] then ir_Action old else ru_Action (last (filter blocking ms)))"

lemma inspect_fold:
  "reports (filter (hits cfg rd) rules) res (fst (fold (inspect_rule cfg rd) rules (res, stats))) \<and>
   st_TotalMatched (snd (fold (inspect_rule cfg rd) rules (res, stats))) =
     st_TotalMatched stats + int (length (filter (hits cfg rd) rules)) \<and>
   st_TotalInspected (snd (fold (inspect_rule cfg rd) rules (res, stats))) = st_TotalInspected stats \<and>
   st_TotalBlocked (snd (fold (inspect_rule cfg rd) rules (res, stats))) = st_TotalBlocked stats"
proof (induction rules arbitrary: res stats)
  case Nil
  then show ?case by (simp add: reports_def)
next
  case (Cons rule rules)
  show ?case
  proof (cases "hits cfg rd rule")
    case False
    then show ?thesis using Cons.IH by (simp add: inspect_rule_cases(1))
  next
    case True
    obtain m where "mt_Rule m = rule" and
      "inspect_rule cfg rd rule (res, stats) =
        (let res = res\<lparr>ir_Matches := ir_Matches res @ [m], ir_Score := ir_Score res + severityScore (ru_Severity rule)\<rparr>
         in if blocking rule
            then res\<lparr>ir_Blocked := True, ir_Action := ru_Action rule, ir_TopRule := ru_ID rule\<rparr> else res,
         stats\<lparr>st_TotalMatched := st_TotalMatched stats + 1, st_RuleHits := m_incr (ru_ID rule) (st_RuleHits stats)\<rparr>)"
      using inspect_rule_cases(2) [OF True] by blast
    then show ?thesis
      using True Cons.IH [of "fst (inspect_rule cfg rd rule (res, stats))" "snd (inspect_rule cfg rd rule (res, stats))"]
      by (simp add: reports_def Let_def split: if_splits)
  qed
qed

lemma inspect_reports:
  assumes "wc_Enabled cfg"
  shows "reports (filter (hits cfg (extractRequestData r)) (the_rules e)) empty_result (fst (inspect cfg r e))"
  using inspect_fold assms by (simp add: inspect_def Let_def split_beta)

lemma inspect_disabled:
  "fold (inspect_rule cfg rd) rules st = fold (inspect_rule cfg rd) (filter ru_Enabled rules) st"
  by (induction rules arbitrary: st) (simp_all add: inspect_rule_def)

section \<open>The rules in force\<close>

definition eg_ok :: "engine \<Rightarrow> bool" where
  "eg_ok e \<longleftrightarrow> (\<forall>a \<in> set (eg_rules e). a < length (eg_store e)) \<and>
     distinct (map ru_ID (the_rules e)) \<and>
     (\<forall>i a. map_of (eg_ruleIndex e) i = Some a \<longleftrightarrow> a \<in> set (eg_rules e) \<and> ru_ID (eg_store e ! a) = i)"

lemma append_rule_the_rules:
  "(\<forall>a \<in> set (eg_rules e). a < length (eg_store e)) \<Longrightarrow> the_rules (append_rule rule e) = the_rules e @ [rule]"
  by (auto simp: append_rule_def the_rules_def Let_def nth_append)

lemma append_rule_ok:
  assumes "eg_ok e" and "ru_ID rule \<notin> ru_ID ` set (the_rules e)"
  shows "eg_ok (append_rule rule e)"
proof -
  have "map_of (eg_ruleIndex (append_rule rule e)) i = Some a \<longleftrightarrow>
      a \<in> set (eg_rules (append_rule rule e)) \<and> ru_ID (eg_store (append_rule rule e) ! a) = i" for i a
    using assms by (auto simp: eg_ok_def append_rule_def Let_def update_conv' nth_append the_rules_def image_iff)
  moreover have "distinct (map ru_ID (the_rules (append_rule rule e)))"
    using assms by (simp add: append_rule_the_rules eg_ok_def)
  moreover have "\<forall>a \<in> set (eg_rules (append_rule rule e)). a < length (eg_store (append_rule rule e))"
    using assms(1) by (auto simp: eg_ok_def append_rule_def Let_def)
  ultimately show ?thesis by (simp add: eg_ok_def)
qed

definition compiles :: "regexp \<Rightarrow> rule \<Rightarrow> bool" where
  "compiles rx rule \<longleftrightarrow> \<not> Option.is_none (rx (''(?i)'' @ ru_Pattern rule))"

lemma load_rules:
  assumes "\<forall>r \<in> set rs. ru_Operator r = ''rx'' \<and> ru_Pattern r \<noteq> []" and "eg_ok e"
    and "distinct (map ru_ID (the_rules e) @ map ru_ID rs)"
  shows "eg_ok (fold (load_owasp_rule rx level) rs e) \<and>
    the_rules (fold (load_owasp_rule rx level) rs e) =
      the_rules e @ map (\<lambda>r. r\<lparr>ru_Compiled := rx (''(?i)'' @ ru_Pattern r)\<rparr>)
        (filter (\<lambda>r. ru_Paranoia r \<le> level \<and> compiles rx r) rs)"
  using assms
proof (induction rs arbitrary: e)
  case (Cons r rs)
  show ?case
  proof (cases "ru_Paranoia r \<le> level \<and> compiles rx r")
    case True
    let ?r = "r\<lparr>ru_Compiled := rx (''(?i)'' @ ru_Pattern r)\<rparr>"
    have e: "load_owasp_rule rx level r e = append_rule ?r e"
      using True Cons.prems(1) by (auto simp: load_owasp_rule_def compiles_def Option.is_none_def)
    have "eg_ok (append_rule ?r e)" using Cons.prems by (intro append_rule_ok) auto
    moreover have "the_rules (append_rule ?r e) = the_rules e @ [?r]"
      using Cons.prems(2) by (intro append_rule_the_rules) (simp add: eg_ok_def)
    ultimately show ?thesis
      using Cons.IH [of "append_rule ?r e"] Cons.prems True by (simp add: e)
  next
    case False
    then have "load_owasp_rule rx level r e = e"
      using Cons.prems(1) by (auto simp: load_owasp_rule_def compiles_def Option.is_none_def)
    then show ?thesis using Cons False by simp
  qed
qed simp

lemma pat_nonempty: "pat (c # s) \<noteq> []"
  by (simp add: pat_def)

lemma owasp_rules_rx: "\<forall>r \<in> set owaspRules. ru_Operator r = ''rx'' \<and> ru_Pattern r \<noteq> []"
  unfolding owaspRules_def owasp_def by (simp add: pat_nonempty)

lemma owasp_ids_distinct: "distinct (map ru_ID owaspRules)"
  unfolding owaspRules_def owasp_def by simp

lemma owasp_compiles_1:
  "list_all (\<lambda>r. compiles go_regexp r = (ru_ID r \<noteq> ''920100'')) (take 7 (drop 0 owaspRules))"
  by code_simp

lemma owasp_compiles_2:
  "list_all (\<lambda>r. compiles go_regexp r = (ru_ID r \<noteq> ''920100'')) (take 7 (drop 7 owaspRules))"
  by code_simp

lemma owasp_compiles_3:
  "list_all (\<lambda>r. compiles go_regexp r = (ru_ID r \<noteq> ''920100'')) (take 6 (drop 14 owaspRules))"
  by code_simp

lemma owasp_compiles_4:
  "list_all (\<lambda>r. compiles go_regexp r = (ru_ID r \<noteq> ''920100'')) (take 6 (drop 20 owaspRules))"
  by code_simp

lemma owasp_compiles: "r \<in> set owaspRules \<Longrightarrow> compiles go_regexp r = (ru_ID r \<noteq> ''920100'')"
proof -
  have "owaspRules = take 7 (drop 0 owaspRules) @ take 7 (drop 7 owaspRules) @ take 6 (drop 14 owaspRules) @ take 6 (drop 20 owaspRules)"
    by (simp add: owaspRules_def)
  then show "r \<in> set owaspRules \<Longrightarrow> compiles go_regexp r = (ru_ID r \<noteq> ''920100'')"
    using owasp_compiles_1 owasp_compiles_2 owasp_compiles_3 owasp_compiles_4
    unfolding list_all_iff by (metis Un_iff set_append)
qed

lemma owasp_method_rules: "list_all (\<lambda>r. (''METHOD'' \<in> set (ru_Targets r)) = (ru_ID r = ''920100'')) owaspRules"
  unfolding owaspRules_def owasp_def by simp

lemma new_engine_rules:
  "eg_ok (newEngine rx cfg) \<and>
   the_rules (newEngine rx cfg) =
     (if wc_Enabled cfg
      then map (\<lambda>r. r\<lparr>ru_Compiled := rx (''(?i)'' @ ru_Pattern r)\<rparr>)
             (filter (\<lambda>r. ru_Paranoia r \<le> wc_ParanoiaLevel cfg \<and> compiles rx r) owaspRules)
      else [])"
proof -
  let ?e = "\<lparr>eg_store = [], eg_rules = [], eg_ruleIndex = [],
    eg_stats = \<lparr>st_TotalInspected = 0, st_TotalBlocked = 0, st_TotalMatched = 0, st_RuleHits = []\<rparr>\<rparr>"
  have "eg_ok ?e" and "the_rules ?e = []" by (simp_all add: eg_ok_def the_rules_def)
  then show ?thesis
    using load_rules [OF owasp_rules_rx, of ?e rx "wc_ParanoiaLevel cfg"] owasp_ids_distinct
    by (simp add: newEngine_def loadOWASPRules_def)
qed

lemma builtin_rules_in_force:
  "map ru_ID (the_rules (newEngine go_regexp cfg)) =
     (if wc_Enabled cfg
      then map ru_ID (filter (\<lambda>r. ru_Paranoia r \<le> wc_ParanoiaLevel cfg \<and> ru_ID r \<noteq> ''920100'') owaspRules) else [])"
proof -
  have "filter (\<lambda>r. ru_Paranoia r \<le> wc_ParanoiaLevel cfg \<and> compiles go_regexp r) owaspRules =
      filter (\<lambda>r. ru_Paranoia r \<le> wc_ParanoiaLevel cfg \<and> ru_ID r \<noteq> ''920100'') owaspRules"
    by (intro filter_cong) (auto simp: owasp_compiles)
  then show ?thesis using new_engine_rules [of go_regexp cfg] by (simp add: comp_def)
qed

lemma hits_method:
  assumes "''METHOD'' \<notin> set (ru_Targets rule)"
  shows "inspect_rule cfg (extractRequestData (r\<lparr>r_method := m\<rparr>)) rule = inspect_rule cfg (extractRequestData r) rule"
proof -
  have "getTargetValues t (extractRequestData (r\<lparr>r_method := m\<rparr>)) = getTargetValues t (extractRequestData r)"
    if "t \<noteq> ''METHOD''" for t
    using that by (simp add: getTargetValues_def extractRequestData_def user_agent_def header_get_def)
  then have "''METHOD'' \<notin> set ts \<Longrightarrow>
      matchTargets rule (extractRequestData (r\<lparr>r_method := m\<rparr>)) ts = matchTargets rule (extractRequestData r) ts" for ts
    by (induction ts) (auto split: option.split)
  then show ?thesis using assms by (auto simp: inspect_rule_def matchRule_def fun_eq_iff)
qed

lemma no_method_rule:
  assumes "rule \<in> set (the_rules (newEngine go_regexp cfg))"
  shows "''METHOD'' \<notin> set (ru_Targets rule)"
proof -
  obtain r where "r \<in> set owaspRules" "compiles go_regexp r" "ru_Targets rule = ru_Targets r"
    using assms new_engine_rules [of go_regexp cfg] by (auto split: if_splits)
  then show ?thesis using owasp_compiles owasp_method_rules by (auto simp: list_all_iff)
qed

lemma remove_first_distinct:
  "(\<And>x y. x \<in> set xs \<Longrightarrow> y \<in> set xs \<Longrightarrow> P x \<Longrightarrow> P y \<Longrightarrow> x = y) \<Longrightarrow> distinct xs \<Longrightarrow>
   remove_first P xs = filter (\<lambda>x. \<not> P x) xs"
proof (induction xs)
  case (Cons x xs)
  show ?case
  proof (cases "P x")
    case True
    then have "\<forall>y \<in> set xs. \<not> P y" using Cons.prems by fastforce
    then show ?thesis using True by (simp add: filter_id_conv)
  next
    case False
    then show ?thesis using Cons.IH Cons.prems by auto
  qed
qed simp

lemma named_once:
  assumes "eg_ok e" and "a \<in> set (eg_rules e)" and "b \<in> set (eg_rules e)"
    and "ru_ID (eg_store e ! a) = ru_ID (eg_store e ! b)"
  shows "a = b"
  using assms by (auto simp: eg_ok_def the_rules_def comp_def distinct_map inj_on_def)

lemma removed_rules:
  assumes "eg_ok e"
  shows "the_rules (snd (removeRule i e)) = filter (\<lambda>r. ru_ID r \<noteq> i) (the_rules e)"
proof -
  have "distinct (eg_rules e)" using assms by (auto simp: eg_ok_def the_rules_def comp_def distinct_map)
  then have "remove_first (\<lambda>a. ru_ID (eg_store e ! a) = i) (eg_rules e) =
      filter (\<lambda>a. ru_ID (eg_store e ! a) \<noteq> i) (eg_rules e)"
    using named_once [OF assms] by (intro remove_first_distinct) auto
  then show ?thesis by (simp add: removeRule_def the_rules_def Let_def filter_map comp_def)
qed

lemma set_enabled_rules:
  assumes "eg_ok e"
  shows "the_rules (snd (set_enabled b i e)) = map (\<lambda>r. if ru_ID r = i then r\<lparr>ru_Enabled := b\<rparr> else r) (the_rules e)"
proof (cases "map_of (eg_ruleIndex e) i")
  case None
  then have "\<forall>a \<in> set (eg_rules e). ru_ID (eg_store e ! a) \<noteq> i"
    using assms by (metis eg_ok_def option.distinct(1))
  then show ?thesis using None by (auto simp: set_enabled_def the_rules_def)
next
  case (Some a)
  then have a: "a \<in> set (eg_rules e)" "ru_ID (eg_store e ! a) = i" "a < length (eg_store e)"
    using assms by (auto simp: eg_ok_def)
  have "(eg_store e)[a := (eg_store e ! a)\<lparr>ru_Enabled := b\<rparr>] ! c =
      (if ru_ID (eg_store e ! c) = i then (eg_store e ! c)\<lparr>ru_Enabled := b\<rparr> else eg_store e ! c)"
    if "c \<in> set (eg_rules e)" for c
    using a named_once [OF assms a(1) that] that by (cases "c = a") auto
  then show ?thesis using Some by (simp add: set_enabled_def the_rules_def)
qed

lemma filter_disabled:
  "filter ru_Enabled (map (\<lambda>r. if ru_ID r = i then r\<lparr>ru_Enabled := False\<rparr> else r) rs) =
   filter (\<lambda>r. ru_ID r \<noteq> i \<and> ru_Enabled r) rs"
  by (induction rs) auto

lemma set_enabled_ok:
  assumes "eg_ok e"
  shows "eg_ok (snd (set_enabled b i e))"
proof -
  have "map ru_ID (the_rules (snd (set_enabled b i e))) = map ru_ID (the_rules e)"
    by (simp add: set_enabled_rules [OF assms] comp_def if_distrib cong: if_cong)
  moreover have "ru_ID (eg_store (snd (set_enabled b i e)) ! a) = ru_ID (eg_store e ! a)" for a
    by (cases "map_of (eg_ruleIndex e) i"; cases "the (map_of (eg_ruleIndex e) i) = a";
        cases "a < length (eg_store e)") (auto simp: set_enabled_def list_update_beyond)
  moreover have "eg_rules (snd (set_enabled b i e)) = eg_rules e"
    "eg_ruleIndex (snd (set_enabled b i e)) = eg_ruleIndex e"
    "length (eg_store (snd (set_enabled b i e))) = length (eg_store e)"
    by (simp_all add: set_enabled_def split: option.split)
  ultimately show ?thesis using assms by (simp add: eg_ok_def)
qed

lemma set_enabled_stats [simp]: "eg_stats (snd (set_enabled b i e)) = eg_stats e"
  by (simp add: set_enabled_def split: option.split)

lemma inspect_cong:
  assumes "filter ru_Enabled (the_rules e) = filter ru_Enabled (the_rules e')" and "eg_stats e = eg_stats e'"
  shows "fst (inspect cfg r e) = fst (inspect cfg r e')"
  using inspect_disabled [of cfg "extractRequestData r" "the_rules e"]
    inspect_disabled [of cfg "extractRequestData r" "the_rules e'"] assms
  by (simp add: inspect_def Let_def split_beta)

section \<open>Properties\<close>

text \<open>
  C10: An inspection reports every enabled rule within the paranoia level that matches one of its targets,
  in the order of the rules, scores the sum of their severities and blocks exactly when one of them asks for
  it; the action and the top rule are those of the last blocking rule in the list, whatever the severities.
\<close>

theorem inspection_report:
  assumes "wc_Enabled cfg"
  shows "let res = fst (inspect cfg r e); ms = filter (hits cfg (extractRequestData r)) (the_rules e) in
    map mt_Rule (ir_Matches res) = ms \<and> ir_Score res = sum_list (map (severityScore \<circ> ru_Severity) ms) \<and>
    (ir_Blocked res \<longleftrightarrow> (\<exists>rule \<in> set ms. blocking rule)) \<and>
    (ir_Blocked res \<longrightarrow> ir_TopRule res = ru_ID (last (filter blocking ms)) \<and>
       ir_Action res = ru_Action (last (filter blocking ms)))"
  using inspect_reports [OF assms, of r e]
  unfolding Let_def reports_def empty_result_def by (auto simp: filter_empty_conv)

text \<open>A scanner's request, and an engine with the one rule on scanners.\<close>

definition scanner_request :: request where
  "scanner_request = get_request\<lparr>r_header := [(''User-Agent'', [''nikto/2.5''])]\<rparr>"

definition one_rule :: "rule \<Rightarrow> engine" where
  "one_rule rule =
     \<lparr>eg_store = [rule], eg_rules = [0], eg_ruleIndex = [(ru_ID rule, 0)],
      eg_stats = \<lparr>st_TotalInspected = 0, st_TotalBlocked = 0, st_TotalMatched = 0, st_RuleHits = []\<rparr>\<rparr>"

definition scanner_rule :: rule where
  "scanner_rule = createQuickRule (\<lambda>s. Some (\<lambda>v. str_contains v ''nikto'')) ''913100'' ''nikto'' ''UA'' ''scanner''"

theorem inspection_report_witness:
  "ir_TopRule (fst (inspect \<lparr>wc_Enabled = True, wc_ParanoiaLevel = 1\<rparr> scanner_request (one_rule scanner_rule))) = ''913100'' \<and>
   ir_Score (fst (inspect \<lparr>wc_Enabled = True, wc_ParanoiaLevel = 1\<rparr> scanner_request (one_rule scanner_rule))) = 15"
proof -
  have "filter (hits \<lparr>wc_Enabled = True, wc_ParanoiaLevel = 1\<rparr> (extractRequestData scanner_request)) (the_rules (one_rule scanner_rule)) = [scanner_rule]"
    by (simp add: hits_def the_rules_def one_rule_def scanner_rule_def createQuickRule_def scanner_request_def
        get_request_def extractRequestData_def getTargetValues_def matchOperator_def user_agent_def header_get_def
        first_value_def has_prefix_def)
  moreover have "blocking scanner_rule" "ru_ID scanner_rule = ''913100''" "ru_Severity scanner_rule = ''high''"
    by (simp_all add: scanner_rule_def createQuickRule_def blocking_def)
  ultimately show ?thesis
    using inspection_report [of "\<lparr>wc_Enabled = True, wc_ParanoiaLevel = 1\<rparr>" scanner_request "one_rule scanner_rule"]
    by (simp add: severityScore_def Let_def)
qed

text \<open>
  Of the built-in rules within the configured paranoia level every one is in force but the one on the
  request method, whose look-ahead Go's regular expressions refuse; so the method of a request never makes
  a difference to its inspection.
\<close>

theorem method_is_never_inspected:
  "map ru_ID (the_rules (newEngine go_regexp cfg)) =
     (if wc_Enabled cfg
      then map ru_ID (filter (\<lambda>r. ru_Paranoia r \<le> wc_ParanoiaLevel cfg \<and> ru_ID r \<noteq> ''920100'') owaspRules) else []) \<and>
   fst (inspect cfg (r\<lparr>r_method := m\<rparr>) (newEngine go_regexp cfg)) = fst (inspect cfg r (newEngine go_regexp cfg))"
proof -
  let ?rules = "the_rules (newEngine go_regexp cfg)"
  have "fold (inspect_rule cfg (extractRequestData (r\<lparr>r_method := m\<rparr>))) ?rules st =
      fold (inspect_rule cfg (extractRequestData r)) ?rules st" for st
    using hits_method no_method_rule by (intro fold_cong) auto
  then show ?thesis
    using builtin_rules_in_force [of cfg] by (simp add: inspect_def Let_def split_beta)
qed

text \<open>
  Disabling a rule has the effect of removing it, and enabling it again undoes it, as long as the names
  of the rules are distinct, which holds for the built-in rules; a rule added under a name already in use
  does not replace the old one: disabling that name then leaves the old rule as it was.
\<close>

theorem disable_is_remove:
  assumes "eg_ok e"
  shows "fst (inspect cfg r (snd (disableRule i e))) = fst (inspect cfg r (snd (removeRule i e))) \<and>
    (\<forall>rule \<in> set (the_rules e). ru_Enabled rule \<longrightarrow>
       rule \<in> set (the_rules (snd (enableRule i (snd (disableRule i e)))))) \<and>
    (\<forall>rule old. old \<in> set (the_rules e) \<and> ru_ID old = ru_ID rule \<longrightarrow>
       old \<in> set (the_rules (snd (disableRule (ru_ID rule) (append_rule rule e)))))"
proof -
  have "filter ru_Enabled (the_rules (snd (disableRule i e))) = filter ru_Enabled (the_rules (snd (removeRule i e)))"
    by (simp add: disableRule_def set_enabled_rules [OF assms] removed_rules [OF assms] filter_disabled)
  then have remove: "fst (inspect cfg r (snd (disableRule i e))) = fst (inspect cfg r (snd (removeRule i e)))"
    by (rule inspect_cong) (simp add: disableRule_def removeRule_def Let_def)
  have "eg_ok (snd (disableRule i e))"
    unfolding disableRule_def by (rule set_enabled_ok [OF assms])
  then have enable: "the_rules (snd (enableRule i (snd (disableRule i e)))) =
      map (\<lambda>r. if ru_ID r = i then r\<lparr>ru_Enabled := True\<rparr> else r) (the_rules e)"
    by (simp add: disableRule_def enableRule_def set_enabled_rules assms comp_def)
  have restored: "rule \<in> set (the_rules (snd (enableRule i (snd (disableRule i e)))))"
    if "rule \<in> set (the_rules e)" "ru_Enabled rule" for rule
    unfolding enable set_map using that by (intro image_eqI [of _ _ rule]) (cases rule, auto)
  have "old \<in> set (the_rules (snd (disableRule (ru_ID rule) (append_rule rule e))))"
    if old: "old \<in> set (the_rules e)" for rule old
  proof -
    obtain a where a: "a \<in> set (eg_rules e)" "old = eg_store e ! a" "a < length (eg_store e)"
      using old assms by (auto simp: the_rules_def eg_ok_def)
    then have "eg_store (snd (disableRule (ru_ID rule) (append_rule rule e))) ! a = old"
      and "a \<in> set (eg_rules (snd (disableRule (ru_ID rule) (append_rule rule e))))"
      by (simp_all add: disableRule_def set_enabled_def append_rule_def Let_def update_conv' nth_append)
    then show ?thesis by (force simp: the_rules_def)
  qed
  with remove restored show ?thesis by blast
qed

theorem disable_is_remove_witness:
  "fst (inspect \<lparr>wc_Enabled = True, wc_ParanoiaLevel = 1\<rparr> scanner_request (snd (disableRule ''913100'' (one_rule scanner_rule)))) =
   fst (inspect \<lparr>wc_Enabled = True, wc_ParanoiaLevel = 1\<rparr> scanner_request (snd (removeRule ''913100'' (one_rule scanner_rule))))"
proof -
  have "eg_ok (one_rule scanner_rule)"
    by (auto simp: eg_ok_def one_rule_def the_rules_def)
  then show ?thesis using disable_is_remove by blast
qed

end
