(* ===== verification/Bans.thy ===== *)
theory Bans
  imports GoFloat NetAddr HttpModel
begin

text \<open>
  What the pipeline of \<open>packages/mango-waf/core/pipeline.go\<close> keeps per address: the bans and the dynamic
  whitelist with their expiry, the request state and the connection counts; with the kernel filter of
  \<open>core/xdp.go\<close> and the messages of \<open>cluster/gossip.go\<close>. Commands run outside the process and gossip
  messages are appended to a log. The bans and the whitelist are interpretations of \<open>expiring_store\<close>.
\<close>

section \<open>State\<close>

record ip_state =
  is_RequestCount :: int
  is_RPS :: int
  is_LastReset :: gtime
  is_LastSeen :: gtime
  is_Stage :: int
  is_Fails :: int
  is_TrustScore :: rat
  is_JA3Hash :: string
  is_Countries :: string
  is_FirstSeen :: gtime
  is_TotalRequests :: int
  is_ChallengesServed :: int
  is_ChallengesPassed :: int
  is_RateLimitHits :: int
  is_CPS :: int
  is_ConnLastReset :: gtime

text \<open>The payload of the gossip messages (\<open>BanMessage\<close>, \<open>AlertSyncMessage\<close>).\<close>

datatype mesh_message =
  BanMessage (bm_IP: string) (bm_Duration: duration) (bm_Source: string) (bm_SentAt: int)
| AlertSync (am_Type: string) (am_Source: string) (am_SentAt: int)

datatype effect =
  BpfUpdate "byte list"
| BpfDelete "byte list"
| IpsetAdd string int
| Broadcast mesh_message

record ip_tables =
  it_ipStates :: "ip_state smap"
  it_banned :: "gtime smap"
  it_whitelist :: "gtime smap"
  it_connCount :: "int smap"
  it_BannedIPs :: int
  it_effects :: "effect list"

record ban_config =
  bc_UseIptables :: bool
  bc_xdpEnabled :: bool
  bc_mesh :: "string option"      \<comment> \<open>the name of this node when the mesh runs\<close>
  bc_WhitelistIPs :: "string list"

definition emptyTables :: ip_tables where
  "emptyTables = \<lparr>it_ipStates = [], it_banned = [], it_whitelist = [], it_connCount = [], it_BannedIPs = 0, it_effects = []\<rparr>"

section \<open>Effects\<close>

definition emit :: "effect list \<Rightarrow> ip_tables \<Rightarrow> ip_tables" where
  "emit es s = s\<lparr>it_effects := it_effects s @ es\<rparr>"

text \<open>\<open>XDPManager.BanIP\<close> and \<open>UnbanIP\<close>: the command they run, if any; only IPv4 addresses have a key.\<close>

definition xdp_key :: "string \<Rightarrow> byte list option" where
  "xdp_key ip = (case parse_ip ip of None \<Rightarrow> None | Some parsed \<Rightarrow> to4 parsed)"

definition xdp_banIP :: "ban_config \<Rightarrow> string \<Rightarrow> effect list" where
  "xdp_banIP cfg ip =
     (if \<not> bc_xdpEnabled cfg then []
      else case xdp_key ip of None \<Rightarrow> [] | Some k \<Rightarrow> [BpfUpdate k])"

definition xdp_unbanIP :: "ban_config \<Rightarrow> string \<Rightarrow> effect list" where
  "xdp_unbanIP cfg ip =
     (if \<not> bc_xdpEnabled cfg then []
      else case xdp_key ip of None \<Rightarrow> [] | Some k \<Rightarrow> [BpfDelete k])"

definition broadcastBan :: "ban_config \<Rightarrow> gtime \<Rightarrow> string \<Rightarrow> duration \<Rightarrow> effect list" where
  "broadcastBan cfg now ip d =
     (case bc_mesh cfg of None \<Rightarrow> [] | Some node \<Rightarrow> [Broadcast (BanMessage ip d node (unix_sec now))])"

definition broadcastAlert :: "ban_config \<Rightarrow> gtime \<Rightarrow> string \<Rightarrow> effect list" where
  "broadcastAlert cfg now t =
     (case bc_mesh cfg of None \<Rightarrow> [] | Some node \<Rightarrow> [Broadcast (AlertSync t node (unix_sec now))])"

section \<open>Bans\<close>

definition set_ban :: "string \<Rightarrow> gtime \<Rightarrow> ip_tables \<Rightarrow> ip_tables" where
  "set_ban ip expiry s =
     (let s' = s\<lparr>it_banned := AList.update ip expiry (it_banned s)\<rparr>
      in case map_of (it_banned s) ip of
           None \<Rightarrow> s'\<lparr>it_BannedIPs := it_BannedIPs s + 1\<rparr>
         | Some _ \<Rightarrow> s')"

definition banIP :: "ban_config \<Rightarrow> gtime \<Rightarrow> string \<Rightarrow> duration \<Rightarrow> ip_tables \<Rightarrow> ip_tables" where
  "banIP cfg now ip d s =
     emit (xdp_banIP cfg ip @ (if bc_UseIptables cfg then [IpsetAdd ip (f_to_int (seconds d))] else []))
       (set_ban ip (now + d) s)"

definition banIPLocal :: "ban_config \<Rightarrow> gtime \<Rightarrow> string \<Rightarrow> duration \<Rightarrow> ip_tables \<Rightarrow> ip_tables" where
  "banIPLocal cfg now ip d s = emit (broadcastBan cfg now ip d) (banIP cfg now ip d s)"

definition banIPRemote :: "ban_config \<Rightarrow> gtime \<Rightarrow> string \<Rightarrow> duration \<Rightarrow> ip_tables \<Rightarrow> ip_tables" where
  "banIPRemote cfg now ip d s = banIP cfg now ip d s"

definition isBanned :: "gtime \<Rightarrow> string \<Rightarrow> ip_tables \<Rightarrow> bool \<times> ip_tables" where
  "isBanned now ip s =
     (case map_of (it_banned s) ip of
        None \<Rightarrow> (False, s)
      | Some expiry \<Rightarrow>
          if time_after now expiry then (False, s\<lparr>it_banned := AList.delete ip (it_banned s)\<rparr>) else (True, s))"

definition whitelistIP :: "gtime \<Rightarrow> string \<Rightarrow> duration \<Rightarrow> ip_tables \<Rightarrow> ip_tables" where
  "whitelistIP now ip d s = s\<lparr>it_whitelist := AList.update ip (now + d) (it_whitelist s)\<rparr>"

definition dynamic_whitelisted :: "gtime \<Rightarrow> string \<Rightarrow> ip_tables \<Rightarrow> bool \<times> ip_tables" where
  "dynamic_whitelisted now ip s =
     (case map_of (it_whitelist s) ip of
        None \<Rightarrow> (False, s)
      | Some expiry \<Rightarrow>
          if time_after now expiry then (False, s\<lparr>it_whitelist := AList.delete ip (it_whitelist s)\<rparr>) else (True, s))"

definition pl_isWhitelisted :: "ban_config \<Rightarrow> gtime \<Rightarrow> string \<Rightarrow> ip_tables \<Rightarrow> bool \<times> ip_tables" where
  "pl_isWhitelisted cfg now ip s = (if ip \<in> set (bc_WhitelistIPs cfg) then (True, s) else dynamic_whitelisted now ip s)"

text \<open>A gossip message reaches the node: \<open>delegate.NotifyMsg\<close> with \<open>BanIPRemote\<close> as the handler of bans.\<close>

definition notifyMsg :: "ban_config \<Rightarrow> gtime \<Rightarrow> mesh_message \<Rightarrow> ip_tables \<Rightarrow> ip_tables" where
  "notifyMsg cfg now msg s =
     (case msg of
        BanMessage ip d source sentAt \<Rightarrow>
          if ip = [] then s
          else if Some source = bc_mesh cfg then s
          else if 60 < unix_sec now - sentAt then s
          else banIPRemote cfg now ip d s
      | AlertSync _ _ _ \<Rightarrow> s)"

section \<open>The state of an address\<close>

definition new_state :: "gtime \<Rightarrow> ip_state" where
  "new_state now =
     \<lparr>is_RequestCount = 0, is_RPS = 0, is_LastReset = now, is_LastSeen = zero_time, is_Stage = 0, is_Fails = 0,
      is_TrustScore = 50, is_JA3Hash = [], is_Countries = [], is_FirstSeen = now, is_TotalRequests = 0,
      is_ChallengesServed = 0, is_ChallengesPassed = 0, is_RateLimitHits = 0, is_CPS = 0,
      is_ConnLastReset = zero_time\<rparr>"

definition getState :: "gtime \<Rightarrow> string \<Rightarrow> ip_tables \<Rightarrow> ip_state \<times> ip_tables" where
  "getState now ip s =
     (let st = (case map_of (it_ipStates s) ip of None \<Rightarrow> new_state now | Some st \<Rightarrow> st\<lparr>is_LastSeen := now\<rparr>)
      in (st, s\<lparr>it_ipStates := AList.update ip st (it_ipStates s)\<rparr>))"

text \<open>\<open>state := p.getState(ip)\<close> followed by changes of the state it points to.\<close>

definition put_state :: "string \<Rightarrow> ip_state \<Rightarrow> ip_tables \<Rightarrow> ip_tables" where
  "put_state ip st s = s\<lparr>it_ipStates := AList.update ip st (it_ipStates s)\<rparr>"

definition updateRPS :: "gtime \<Rightarrow> ip_state \<Rightarrow> ip_state" where
  "updateRPS now st =
     (let st = st\<lparr>is_TotalRequests := is_TotalRequests st + 1\<rparr>
      in if second \<le> time_sub now (is_LastReset st) then st\<lparr>is_RPS := 1, is_LastReset := now\<rparr>
         else st\<lparr>is_RPS := is_RPS st + 1\<rparr>)"

definition checkConnRate :: "gtime \<Rightarrow> string \<Rightarrow> ip_tables \<Rightarrow> bool \<times> ip_tables" where
  "checkConnRate now ip s =
     (let (st, s) = getState now ip s;
          st = (if second \<le> time_sub now (is_ConnLastReset st) then st\<lparr>is_CPS := 1, is_ConnLastReset := now\<rparr>
                else st\<lparr>is_CPS := is_CPS st + 1\<rparr>)
      in (\<not> 20 < is_CPS st, put_state ip st s))"

section \<open>Connection counts\<close>

definition getConnCount :: "string \<Rightarrow> ip_tables \<Rightarrow> int" where
  "getConnCount ip s = (case map_of (it_connCount s) ip of None \<Rightarrow> 0 | Some n \<Rightarrow> n)"

definition incrementConnCount :: "string \<Rightarrow> ip_tables \<Rightarrow> int \<times> ip_tables" where
  "incrementConnCount ip s =
     (let n = getConnCount ip s + 1 in (n, s\<lparr>it_connCount := AList.update ip n (it_connCount s)\<rparr>))"

definition decrementConnCount :: "string \<Rightarrow> ip_tables \<Rightarrow> int \<times> ip_tables" where
  "decrementConnCount ip s =
     (case map_of (it_connCount s) ip of
        None \<Rightarrow> (0, s)
      | Some v \<Rightarrow>
          let n = v - 1
          in if n \<le> 0 then (0, s\<lparr>it_connCount := AList.delete ip (it_connCount s)\<rparr>)
             else (n, s\<lparr>it_connCount := AList.update ip n (it_connCount s)\<rparr>))"

section \<open>Cleanup\<close>

text \<open>One expired ban that the \<open>Range\<close> of \<open>Cleanup\<close> meets.\<close>

definition unban :: "ban_config \<Rightarrow> string \<Rightarrow> ip_tables \<Rightarrow> ip_tables" where
  "unban cfg ip s =
     emit (xdp_unbanIP cfg ip) (s\<lparr>it_banned := AList.delete ip (it_banned s), it_BannedIPs := it_BannedIPs s - 1\<rparr>)"

definition it_cleanup :: "ban_config \<Rightarrow> gtime \<Rightarrow> ip_tables \<Rightarrow> ip_tables" where
  "it_cleanup cfg now s =
     (let s = fold (\<lambda>(ip, expiry). if time_after now expiry then unban cfg ip else id) (it_banned s) s
      in s\<lparr>it_whitelist := m_keep (\<lambda>ip expiry. \<not> time_after now expiry) (it_whitelist s),
           it_ipStates := m_keep (\<lambda>ip st. \<not> 10 * minute < time_sub now (is_LastSeen st)) (it_ipStates s)\<rparr>)"

section \<open>The stores of bans and of the whitelist\<close>

named_theorems tbl "fields of the tables that an operation leaves alone"

lemma emit_fields [simp, tbl]:
  "it_banned (emit es s) = it_banned s" "it_BannedIPs (emit es s) = it_BannedIPs s"
  "it_whitelist (emit es s) = it_whitelist s" "it_ipStates (emit es s) = it_ipStates s"
  "it_connCount (emit es s) = it_connCount s"
  by (simp_all add: emit_def)

lemma set_ban_fields [simp, tbl]:
  "it_banned (set_ban ip e s) = AList.update ip e (it_banned s)"
  "it_whitelist (set_ban ip e s) = it_whitelist s" "it_ipStates (set_ban ip e s) = it_ipStates s"
  "it_connCount (set_ban ip e s) = it_connCount s"
  "it_BannedIPs (set_ban ip e s) = it_BannedIPs s + (if map_of (it_banned s) ip = None then 1 else 0)"
  by (auto simp: set_ban_def Let_def split: option.split)

lemma banIP_fields [simp, tbl]:
  "it_banned (banIP cfg now ip d s) = AList.update ip (now + d) (it_banned s)"
  "it_whitelist (banIP cfg now ip d s) = it_whitelist s" "it_ipStates (banIP cfg now ip d s) = it_ipStates s"
  "it_connCount (banIP cfg now ip d s) = it_connCount s"
  "it_banned (banIPLocal cfg now ip d s) = AList.update ip (now + d) (it_banned s)"
  "it_whitelist (banIPLocal cfg now ip d s) = it_whitelist s" "it_ipStates (banIPLocal cfg now ip d s) = it_ipStates s"
  "it_connCount (banIPLocal cfg now ip d s) = it_connCount s"
  by (simp_all add: banIP_def banIPLocal_def)

lemma unban_fields [simp, tbl]:
  "it_banned (unban cfg ip s) = AList.delete ip (it_banned s)" "it_BannedIPs (unban cfg ip s) = it_BannedIPs s - 1"
  "it_whitelist (unban cfg ip s) = it_whitelist s" "it_ipStates (unban cfg ip s) = it_ipStates s"
  "it_connCount (unban cfg ip s) = it_connCount s"
  by (simp_all add: unban_def)

definition unban_expired :: "ban_config \<Rightarrow> gtime \<Rightarrow> gtime smap \<Rightarrow> ip_tables \<Rightarrow> ip_tables" where
  "unban_expired cfg now bans s =
     fold (\<lambda>(ip, expiry). if time_after now expiry then unban cfg ip else id) bans s"

lemma unban_expired_Cons:
  "unban_expired cfg now ((ip, e) # bans) s =
     unban_expired cfg now bans (if time_after now e then unban cfg ip s else s)"
  by (simp add: unban_expired_def)

lemma it_cleanup_eq:
  "it_cleanup cfg now s =
     (unban_expired cfg now (it_banned s) s)
       \<lparr>it_whitelist := m_keep (\<lambda>ip expiry. \<not> time_after now expiry) (it_whitelist (unban_expired cfg now (it_banned s) s)),
        it_ipStates := m_keep (\<lambda>ip st. \<not> 10 * minute < time_sub now (is_LastSeen st))
          (it_ipStates (unban_expired cfg now (it_banned s) s))\<rparr>"
  by (simp add: it_cleanup_def Let_def unban_expired_def)

lemma unban_expired_fields [simp, tbl]:
  "it_whitelist (unban_expired cfg now bans s) = it_whitelist s"
  "it_ipStates (unban_expired cfg now bans s) = it_ipStates s"
  "it_connCount (unban_expired cfg now bans s) = it_connCount s"
  "m_ok (it_banned s) \<Longrightarrow> m_ok (it_banned (unban_expired cfg now bans s))"
  by (induction bans arbitrary: s) (auto simp: unban_expired_def)

lemma unban_expired_lookup:
  "map_of (it_banned (unban_expired cfg now bans s)) k =
     (if \<exists>e. (k, e) \<in> set bans \<and> time_after now e then None else map_of (it_banned s) k)"
  by (induction bans arbitrary: s) (auto simp: unban_expired_Cons unban_expired_def split: if_splits)

lemma expired_in: "m_ok m \<Longrightarrow> (\<exists>e. (k, e) \<in> set m \<and> P e) \<longleftrightarrow> (case map_of m k of None \<Rightarrow> False | Some e \<Rightarrow> P e)"
  by (auto simp: m_ok_def split: option.split dest: map_of_SomeD eq_key_imp_eq_value)

lemma cleanup_fields [tbl]:
  "m_ok (it_banned s) \<Longrightarrow> map_of (it_banned (it_cleanup cfg now s)) k =
     (case map_of (it_banned s) k of None \<Rightarrow> None | Some e \<Rightarrow> if time_after now e then None else Some e)"
  "m_ok (it_banned s) \<Longrightarrow> m_ok (it_banned (it_cleanup cfg now s))"
  "it_whitelist (it_cleanup cfg now s) = m_keep (\<lambda>ip expiry. \<not> time_after now expiry) (it_whitelist s)"
  "it_ipStates (it_cleanup cfg now s) = m_keep (\<lambda>ip st. \<not> 10 * minute < time_sub now (is_LastSeen st)) (it_ipStates s)"
  "it_connCount (it_cleanup cfg now s) = it_connCount s"
  by (auto simp: it_cleanup_eq unban_expired_lookup expired_in split: option.split)

interpretation bans: expiring_store "\<lambda>s. map_of (it_banned s)" "\<lambda>s. m_ok (it_banned s)" set_ban isBanned "it_cleanup cfg"
  for cfg
  by unfold_locales
    (auto simp: isBanned_def time_after_def cleanup_fields split: option.splits if_splits)

definition set_whitelist :: "string \<Rightarrow> gtime \<Rightarrow> ip_tables \<Rightarrow> ip_tables" where
  "set_whitelist ip e s = s\<lparr>it_whitelist := AList.update ip e (it_whitelist s)\<rparr>"

interpretation whitelist: expiring_store "\<lambda>s. map_of (it_whitelist s)" "\<lambda>s. m_ok (it_whitelist s)" set_whitelist
    dynamic_whitelisted "it_cleanup cfg"
  for cfg
  by unfold_locales
    (auto simp: dynamic_whitelisted_def set_whitelist_def time_after_def cleanup_fields map_of_m_keep split: option.splits if_splits)

lemma whitelistIP_eq: "whitelistIP now ip d s = set_whitelist ip (now + d) s"
  by (simp add: whitelistIP_def set_whitelist_def)

lemma isBanned_emit: "fst (isBanned now ip (emit es s)) = fst (isBanned now ip s)"
  by (simp add: isBanned_def split: option.split)

lemma isBanned_banIPLocal:
  "fst (isBanned now ip (banIPLocal cfg t ip' d s)) = fst (isBanned now ip (set_ban ip' (t + d) s))"
  by (simp add: banIPLocal_def banIP_def isBanned_emit)

lemma getState_states:
  "it_ipStates (snd (getState now ip s)) = AList.update ip
     (case map_of (it_ipStates s) ip of None \<Rightarrow> new_state now | Some st \<Rightarrow> st\<lparr>is_LastSeen := now\<rparr>) (it_ipStates s)"
  by (simp add: getState_def Let_def)

section \<open>The counter of bans\<close>

definition drift :: "ip_tables \<Rightarrow> int" where
  "drift s = it_BannedIPs s - int (length (it_banned s))"

lemma drift_banIP: "drift (banIP cfg now ip d s) = drift s" "drift (banIPLocal cfg now ip d s) = drift s"
  by (cases "map_of (it_banned s) ip";
      simp add: drift_def banIPLocal_def banIP_def length_update_new length_update_old)+

lemma drift_unban: "m_ok (it_banned s) \<Longrightarrow> map_of (it_banned s) ip = Some e \<Longrightarrow> drift (unban cfg ip s) = drift s"
  using length_delete_in [of "it_banned s" ip e] by (simp add: drift_def)

lemma drift_unban_expired:
  "m_ok (it_banned s) \<Longrightarrow> m_ok bans \<Longrightarrow> (\<And>ip e. (ip, e) \<in> set bans \<Longrightarrow> map_of (it_banned s) ip = Some e) \<Longrightarrow>
   drift (unban_expired cfg now bans s) = drift s"
proof (induction bans arbitrary: s)
  case (Cons x bans)
  obtain ip e where x: "x = (ip, e)" by (cases x)
  let ?s = "if time_after now e then unban cfg ip s else s"
  have "map_of (it_banned ?s) ip' = Some e'" if "(ip', e') \<in> set bans" for ip' e'
  proof -
    have "ip' \<noteq> ip" using Cons.prems(2) that by (force simp: x m_ok_def)
    then show ?thesis using Cons.prems(3) that by simp
  qed
  moreover have "m_ok (it_banned ?s)" using Cons.prems(1) by simp
  moreover have "m_ok bans" using Cons.prems(2) by (simp add: m_ok_def)
  moreover have "drift ?s = drift s"
    using Cons.prems(1) drift_unban [OF _ Cons.prems(3) [of ip e]] by (simp add: x)
  ultimately show ?case using Cons.IH [of ?s] by (simp add: x unban_expired_Cons)
qed (simp add: unban_expired_def)

lemma drift_cleanup:
  assumes "m_ok (it_banned s)"
  shows "drift (it_cleanup cfg now s) = drift s"
proof -
  have "drift (it_cleanup cfg now s) = drift (unban_expired cfg now (it_banned s) s)"
    by (simp add: it_cleanup_eq drift_def)
  also have "\<dots> = drift s"
    using assms by (intro drift_unban_expired) (auto simp: m_ok_def)
  finally show ?thesis .
qed

text \<open>The operations on the bans as steps, and the number of expired bans that a lookup dropped.\<close>

datatype ban_op = BanLocal gtime string duration | BanRemote gtime string duration | LookUp gtime string | CleanUp gtime

fun ban_step :: "ban_config \<Rightarrow> ban_op \<Rightarrow> ip_tables \<Rightarrow> ip_tables" where
  "ban_step cfg (BanLocal now ip d) s = banIPLocal cfg now ip d s"
| "ban_step cfg (BanRemote now ip d) s = banIPRemote cfg now ip d s"
| "ban_step cfg (LookUp now ip) s = snd (isBanned now ip s)"
| "ban_step cfg (CleanUp now) s = it_cleanup cfg now s"

fun drops :: "ban_op \<Rightarrow> ip_tables \<Rightarrow> int" where
  "drops (LookUp now ip) s = (case map_of (it_banned s) ip of Some e \<Rightarrow> if e < now then 1 else 0 | None \<Rightarrow> 0)"
| "drops _ s = 0"

fun ban_run :: "ban_config \<Rightarrow> ban_op list \<Rightarrow> ip_tables \<times> int \<Rightarrow> ip_tables \<times> int" where
  "ban_run cfg [] st = st"
| "ban_run cfg (op # ops) (s, n) = ban_run cfg ops (ban_step cfg op s, n + drops op s)"

lemma ban_step_drift:
  assumes "m_ok (it_banned s)"
  shows "drift (ban_step cfg op s) = drift s + drops op s \<and> m_ok (it_banned (ban_step cfg op s))"
proof (cases op)
  case (LookUp now ip)
  show ?thesis
  proof (cases "map_of (it_banned s) ip")
    case (Some e)
    then show ?thesis
      using assms length_delete_in [OF assms Some] by (simp add: LookUp isBanned_def drift_def time_after_def)
  qed (use assms LookUp in \<open>simp add: isBanned_def\<close>)
qed (use assms in \<open>simp_all add: drift_banIP banIPRemote_def drift_cleanup cleanup_fields\<close>)

lemma ban_run_drift:
  "m_ok (it_banned s) \<Longrightarrow> ban_run cfg ops (s, n) = (s', n') \<Longrightarrow> drift s' - drift s = n' - n \<and> m_ok (it_banned s')"
proof (induction ops arbitrary: s n)
  case (Cons op ops)
  then show ?case
    using ban_step_drift [OF Cons.prems(1), of cfg op] Cons.IH [of "ban_step cfg op s" "n + drops op s"] by simp
qed simp

section \<open>Properties\<close>

text \<open>
  A ban holds exactly for its duration: from the moment it is set until its expiry, the expiry
  included, the address is banned, and not after it, whatever other addresses are banned and cleaned up
  meanwhile; and it concerns no other address.
\<close>

theorem ban_lifetime:
  assumes "m_ok (it_banned s)" and "ip' \<noteq> ip" and "w \<le> u"
  shows "(fst (isBanned u ip (it_cleanup cfg w (banIPLocal cfg t' ip' d' (banIPLocal cfg t ip d s)))) \<longleftrightarrow> u \<le> t + d) \<and>
    fst (isBanned u ip' (banIPLocal cfg t ip d s)) = fst (isBanned u ip' s)"
proof -
  let ?s = "banIPLocal cfg t ip d s"
  have ok: "m_ok (it_banned ?s)" "m_ok (it_banned (banIPLocal cfg t' ip' d' ?s))" using assms(1) by simp_all
  have "fst (isBanned u ip (it_cleanup cfg w (banIPLocal cfg t' ip' d' ?s))) = fst (isBanned u ip (set_ban ip' (t' + d') ?s))"
    using bans.sweep_look [OF ok(2) assms(3)] isBanned_banIPLocal by simp
  also have "\<dots> = fst (isBanned u ip (set_ban ip (t + d) s))"
    using bans.put_look_other [OF ok(1)] assms(2) isBanned_banIPLocal by metis
  also have "\<dots> \<longleftrightarrow> u \<le> t + d"
    using bans.put_look [OF assms(1)] bans.put_look_expired [OF assms(1)] by (metis not_le)
  finally show ?thesis
    using bans.put_look_other [OF assms(1) assms(2)] isBanned_banIPLocal by metis
qed

definition plain_bans :: ban_config where
  "plain_bans = \<lparr>bc_UseIptables = False, bc_xdpEnabled = False, bc_mesh = None, bc_WhitelistIPs = []\<rparr>"

theorem ban_lifetime_witness:
  "\<not> fst (isBanned 11 ''a'' (it_cleanup plain_bans 9 (banIPLocal plain_bans 5 ''b'' 100 (banIPLocal plain_bans 0 ''a'' 10 emptyTables))))"
  using ban_lifetime [of emptyTables "''b''" "''a''" 9 11 plain_bans 5 100 0 10] by (simp add: emptyTables_def)

text \<open>
  The statistic of banned addresses is the number of bans plus the number of expired bans that a lookup
  removed: a ban and the cleanup keep the two in step, but every expired ban that is removed when its address
  comes back stays in the count for ever.
\<close>

theorem ban_counter_drifts:
  assumes "ban_run cfg ops (emptyTables, 0) = (s, n)"
  shows "it_BannedIPs s = int (length (it_banned s)) + n"
  using ban_run_drift [OF _ assms] by (simp add: emptyTables_def drift_def)

theorem ban_counter_drifts_witness:
  "it_BannedIPs (fst (ban_run plain_bans [BanLocal 0 ''a'' 10, LookUp 20 ''a'', CleanUp 30] (emptyTables, 0))) = 1 \<and>
   it_banned (fst (ban_run plain_bans [BanLocal 0 ''a'' 10, LookUp 20 ''a'', CleanUp 30] (emptyTables, 0))) = []"
proof -
  obtain s n where r: "ban_run plain_bans [BanLocal 0 ''a'' 10, LookUp 20 ''a'', CleanUp 30] (emptyTables, 0) = (s, n)"
    by (cases "ban_run plain_bans [BanLocal 0 ''a'' 10, LookUp 20 ''a'', CleanUp 30] (emptyTables, 0)")
  then have "n = 1" and "it_banned s = []"
    by (auto simp: emptyTables_def isBanned_def time_after_def it_cleanup_eq unban_expired_def)
  then show ?thesis using ban_counter_drifts [OF r] r by simp
qed

text \<open>
  The state of an address is lost at the first cleanup after its first request: a state starts with the
  zero time as its last use, and only a second request sets it, so the cleanup finds it old at once, and the
  counts of the address start again.
\<close>

theorem first_state_is_lost:
  assumes "map_of (it_ipStates s) ip = None" and "m_ok (it_ipStates s)" and "zero_time + 10 * minute < u"
  shows "map_of (it_ipStates (it_cleanup cfg u (snd (getState now ip s)))) ip = None \<and>
    (\<forall>later. later \<le> u \<and> u \<le> later + 10 * minute \<longrightarrow>
       map_of (it_ipStates (it_cleanup cfg u (snd (getState later ip (snd (getState now ip s)))))) ip \<noteq> None)"
proof -
  have "10 * minute < time_sub u zero_time"
    using assms(3) by (simp add: time_sub_def clamp64_def max_i64_def min_i64_def dur_defs)
  moreover have "\<not> 10 * minute < time_sub u later" if "later \<le> u" "u \<le> later + 10 * minute" for later
    using that by (simp add: time_sub_def clamp64_def max_i64_def min_i64_def dur_defs)
  ultimately show ?thesis
    using assms(1,2) by (simp add: cleanup_fields map_of_m_keep getState_states new_state_def)
qed

theorem first_state_is_lost_witness:
  "map_of (it_ipStates (it_cleanup plain_bans (5 * second) (snd (getState (4 * second) ''a'' emptyTables)))) ''a'' = None"
  using first_state_is_lost [of emptyTables "''a''" "5 * second" plain_bans "4 * second"]
  by (simp add: emptyTables_def zero_time_def dur_defs)

end
