(* ===== verification/Pipeline.thy ===== *)
theory Pipeline
  imports Bans Challenge Intel Classifier Adaptive Hardening Rules
begin

text \<open>
  The request pipeline of \<open>packages/mango-waf/core/pipeline.go\<close>: the layers of \<open>ProcessWithFingerprint\<close> in
  their order over the state of all components. A layer either decides with an action or passes the
  request on; \<open>lay\<close> composes them. The tables per address are those of theory Bans. Logging is left out.
\<close>

section \<open>State, configuration and environment\<close>

datatype action_type = ActionAllow | ActionChallenge | ActionBlock | ActionDrop

record pl_action =
  ac_Type :: action_type
  ac_Reason :: string
  ac_Stage :: int
  ac_Difficulty :: int

text \<open>
  The part of the configuration the pipeline reads. \<open>RateLimit.Enabled\<close>, \<open>RequestsPerSecond\<close> and
  \<open>SessionTracking.Enabled\<close> are those of \<open>pc_det\<close>, the proof-of-work difficulty is that of the challenge
  manager, the static whitelist and the ban effects are in \<open>pc_bans\<close>.
\<close>

record pl_config =
  pc_Mode :: string
  pc_AutoEnable :: bool
  pc_RPSThreshold :: int
  pc_MaxPerIP :: int
  pc_BanDuration :: duration
  pc_PowAdaptive :: bool
  pc_JA3Enabled :: bool
  pc_BotEnabled :: bool
  pc_Domains :: "string list"
  pc_bans :: ban_config
  pc_det :: det_config
  pc_intel :: intel_config
  pc_waf :: waf_config
  pc_chall :: manager

text \<open>What comes from outside: the clock with the local hour, \<open>math.Log2\<close>, the reputation service, HMAC.\<close>

record outside =
  ou_now :: gtime
  ou_hour :: nat
  ou_log2 :: "rat \<Rightarrow> rat"
  ou_abuse :: abuse_api
  ou_hmac :: hmac_fun

record pipeline =
  pp_tables :: ip_tables
  pp_intel :: "intel option"
  pp_det :: "det_engine option"
  pp_behavior :: "profile smap option"
  pp_botClass :: "bot_result smap option"
  pp_adaptive :: "adaptive_learner option"
  pp_waf :: "engine option"
  pp_rate :: "ip_limiter option"
  pp_degrader :: "degradation_level list option"
  pp_validator :: "validator option"
  pp_underAttack :: bool
  pp_CurrentRPS :: int

type_synonym outcome = "pl_action option \<times> pipeline"

definition act_of :: "action_type \<Rightarrow> string \<Rightarrow> pl_action" where
  "act_of t reason = \<lparr>ac_Type = t, ac_Reason = reason, ac_Stage = 0, ac_Difficulty = 0\<rparr>"

definition challenge :: "string \<Rightarrow> int \<Rightarrow> int \<Rightarrow> pl_action" where
  "challenge reason stage difficulty =
     \<lparr>ac_Type = ActionChallenge, ac_Reason = reason, ac_Stage = stage, ac_Difficulty = difficulty\<rparr>"

fun lay :: "outcome \<Rightarrow> (pipeline \<Rightarrow> outcome) \<Rightarrow> outcome" where
  "lay (Some a, p) k = (Some a, p)"
| "lay (None, p) k = k p"

definition on_tables :: "(ip_tables \<Rightarrow> ip_tables) \<Rightarrow> pipeline \<Rightarrow> pipeline" where
  "on_tables f p = p\<lparr>pp_tables := f (pp_tables p)\<rparr>"

definition ban_for :: "pl_config \<Rightarrow> outside \<Rightarrow> string \<Rightarrow> duration \<Rightarrow> pipeline \<Rightarrow> pipeline" where
  "ban_for cfg ou ip d = on_tables (banIPLocal (pc_bans cfg) (ou_now ou) ip d)"

text \<open>\<open>state := p.getState(ip)\<close> followed by a change of that state.\<close>

definition with_state :: "outside \<Rightarrow> string \<Rightarrow> (ip_state \<Rightarrow> ip_state) \<Rightarrow> pipeline \<Rightarrow> ip_state \<times> pipeline" where
  "with_state ou ip f p =
     (let (st, tables) = getState (ou_now ou) ip (pp_tables p); st = f st
      in (st, p\<lparr>pp_tables := put_state ip st tables\<rparr>))"

definition whitelisted :: "pl_config \<Rightarrow> outside \<Rightarrow> string \<Rightarrow> pipeline \<Rightarrow> bool \<times> pipeline" where
  "whitelisted cfg ou ip p =
     (let (ok, tables) = pl_isWhitelisted (pc_bans cfg) (ou_now ou) ip (pp_tables p)
      in (ok, p\<lparr>pp_tables := tables\<rparr>))"

definition feature_on :: "string \<Rightarrow> pipeline \<Rightarrow> bool" where
  "feature_on feature p =
     (case pp_degrader p of None \<Rightarrow> True | Some levels \<Rightarrow> \<not> isFeatureDisabled levels feature (pp_CurrentRPS p))"

section \<open>The address of a client\<close>

text \<open>\<open>net.SplitHostPort\<close>, the host only (empty on an error).\<close>

definition split_host :: "string \<Rightarrow> string" where
  "split_host s =
     (case str_last_index s (CHR '':'') of
        None \<Rightarrow> []
      | Some i \<Rightarrow>
          if has_prefix s ''['' then
            (case str_index s (CHR '']'') of
               None \<Rightarrow> []
             | Some e \<Rightarrow>
                 if Suc e \<noteq> i then []
                 else if CHR ''['' \<in> set (drop 1 s) \<or> CHR '']'' \<in> set (drop (Suc e) s) then []
                 else take (e - 1) (drop 1 s))
          else let host = take i s in
               if CHR '':'' \<in> set host \<or> CHR ''['' \<in> set s \<or> CHR '']'' \<in> set s then [] else host)"

definition splitFirst :: "string \<Rightarrow> char \<Rightarrow> string" where
  "splitFirst s sep = takeWhile (\<lambda>c. c \<noteq> sep) s"

definition trimSpace :: "string \<Rightarrow> string" where
  "trimSpace s = rev (dropWhile (\<lambda>c. c = CHR '' '') (rev (dropWhile (\<lambda>c. c = CHR '' '') s)))"

definition extractIP :: "request \<Rightarrow> string" where
  "extractIP r =
     (if header_get r ''X-Forwarded-For'' \<noteq> [] then trimSpace (splitFirst (header_get r ''X-Forwarded-For'') (CHR '',''))
      else if header_get r ''X-Real-IP'' \<noteq> [] then trimSpace (header_get r ''X-Real-IP'')
      else split_host (r_remoteAddr r))"

section \<open>Validation\<close>

definition validHost :: "pl_config \<Rightarrow> request \<Rightarrow> bool" where
  "validHost cfg r = list_ex (\<lambda>d. str_contains (host_name (r_host r)) (to_lower d)) (pc_Domains cfg)"

definition badAgents :: "string list" where
  "badAgents =
     [''curl'', ''wget'', ''python'', ''java'', ''go-http-client'', ''node-fetch'', ''axios'', ''httpie'', ''scrapy'',
      ''crawler'', ''spider'', ''scan'', ''masscan'', ''nikto'', ''sqlmap'', ''nmap'', ''dirbuster'', ''gobuster'']"

definition isBadUA :: "request \<Rightarrow> bool" where
  "isBadUA r =
     (let ua = to_lower (user_agent r) in ua = [] \<or> list_ex (str_contains ua) badAgents)"

definition validateRequest :: "pl_config \<Rightarrow> request \<Rightarrow> pl_action" where
  "validateRequest cfg r =
     (if \<not> validHost cfg r then act_of ActionBlock ''invalid_host''
      else if isBadUA r then act_of ActionBlock ''bad_ua''
      else act_of ActionAllow [])"

definition extractHeaders :: "request \<Rightarrow> string smap" where
  "extractHeaders r =
     fold (\<lambda>(k, v) m. case v of [] \<Rightarrow> m | x # _ \<Rightarrow> AList.update k x m) (r_header r) []"

section \<open>The challenge stage\<close>

definition hasValidProof :: "pl_config \<Rightarrow> outside \<Rightarrow> request \<Rightarrow> bool" where
  "hasValidProof cfg ou r = verifyProof (ou_hmac ou) (pc_chall cfg) (ou_now ou) r (extractIP r)"

text \<open>The stages of the mode \<open>auto\<close> by trust, attack and the rate of the address.\<close>

definition trust_stage :: "rat \<Rightarrow> bool \<Rightarrow> int \<Rightarrow> int \<Rightarrow> int" where
  "trust_stage trust attack rps limit =
     (if 60 \<le> trust then (if limit * 4 < rps then 2 else if limit * 2 < rps then 1 else 0)
      else if 30 \<le> trust then
        (if attack then (if limit * 2 < rps then 2 else if 10 < rps then 1 else 0)
         else if limit * 3 < rps then 2 else if trunc_div (limit * 3) 2 < rps then 1 else 0)
      else if attack then (if limit < rps then 2 else 1)
      else if limit < rps then 1 else 0)"

definition auto_stage :: "pl_config \<Rightarrow> pipeline \<Rightarrow> int \<Rightarrow> conn_fingerprint option \<Rightarrow> int" where
  "auto_stage cfg p rps fp =
     (let limit = dc_RequestsPerSecond (pc_det cfg) in
      if pc_RPSThreshold cfg * 2 < pp_CurrentRPS p then (if limit * 2 < rps then 4 else 2)
      else case fp of
             Some f \<Rightarrow> trust_stage (cs_Total (cf_Composite f)) (pp_underAttack p) rps limit
           | None \<Rightarrow>
               if pp_underAttack p then (if limit < rps then 2 else 1)
               else if limit * 2 < rps then 2 else if limit < rps then 1 else 0)"

definition determineStage ::
  "pl_config \<Rightarrow> outside \<Rightarrow> pipeline \<Rightarrow> int \<Rightarrow> request \<Rightarrow> conn_fingerprint option \<Rightarrow> int" where
  "determineStage cfg ou p rps r fp =
     (let proof = hasValidProof cfg ou r in
      if pc_Mode cfg = ''off'' then 0
      else if pc_Mode cfg = ''silent'' then (if proof then 0 else 3)
      else if pc_Mode cfg = ''challenge'' then (if proof then 0 else 1)
      else if pc_Mode cfg = ''captcha'' then (if proof then 0 else 2)
      else if pc_Mode cfg = ''emergency'' then (if proof then 0 else 4)
      else if pc_Mode cfg = ''auto'' then (if proof then 0 else auto_stage cfg p rps fp)
      else 0)"

section \<open>The layers\<close>

definition l_banned :: "outside \<Rightarrow> string \<Rightarrow> pipeline \<Rightarrow> outcome" where
  "l_banned ou ip p =
     (let (banned, tables) = isBanned (ou_now ou) ip (pp_tables p)
      in (if banned then Some (act_of ActionDrop ''banned'') else None, p\<lparr>pp_tables := tables\<rparr>))"

definition l_emergency :: "pl_config \<Rightarrow> outside \<Rightarrow> string \<Rightarrow> pipeline \<Rightarrow> outcome" where
  "l_emergency cfg ou ip p =
     (if pp_underAttack p \<and> pc_AutoEnable cfg
      then let (ok, p) = whitelisted cfg ou ip p
           in (if \<not> ok \<and> pc_Mode cfg = ''emergency'' then Some (act_of ActionBlock ''emergency_mode'') else None, p)
      else (None, p))"

definition l_connlimit :: "pl_config \<Rightarrow> outside \<Rightarrow> string \<Rightarrow> pipeline \<Rightarrow> outcome" where
  "l_connlimit cfg ou ip p =
     (if pc_MaxPerIP cfg < getConnCount ip (pp_tables p)
      then (Some (act_of ActionBlock ''conn_limit''),
            on_tables (banIP (pc_bans cfg) (ou_now ou) ip (pc_BanDuration cfg)) p)
      else (None, p))"

definition l_validate :: "pl_config \<Rightarrow> outside \<Rightarrow> request \<Rightarrow> string \<Rightarrow> pipeline \<Rightarrow> outcome" where
  "l_validate cfg ou r ip p =
     (case pp_validator p of
        None \<Rightarrow> (None, p)
      | Some v \<Rightarrow>
          let (valid, reason) = validate v r
          in if \<not> valid then (Some (act_of ActionBlock (''validation:'' @ reason)), ban_for cfg ou ip hour p) else (None, p))"

definition l_basic :: "pl_config \<Rightarrow> request \<Rightarrow> pipeline \<Rightarrow> outcome" where
  "l_basic cfg r p =
     (let a = validateRequest cfg r in (if ac_Type a \<noteq> ActionAllow then Some a else None, p))"

definition l_fingerprint :: "pl_config \<Rightarrow> outside \<Rightarrow> conn_fingerprint option \<Rightarrow> string \<Rightarrow> pipeline \<Rightarrow> outcome" where
  "l_fingerprint cfg ou fp ip p =
     (case fp of
        None \<Rightarrow> (None, p)
      | Some f \<Rightarrow>
          if \<not> pc_JA3Enabled cfg then (None, p)
          else if j3_Known (cf_JA3 f) \<and> j3_TrustScore (cf_JA3 f) = 0
          then (Some (act_of ActionDrop (''attack_tool_ja3:'' @ j3_BrowserID (cf_JA3 f))),
                ban_for cfg ou ip (pc_BanDuration cfg * 6) p)
          else if cs_Total (cf_Composite f) < 15
          then (Some (act_of ActionBlock ''fp_malicious''), ban_for cfg ou ip (pc_BanDuration cfg * 3) p)
          else if isTrusted f \<and> \<not> pp_underAttack p
          then (Some (act_of ActionAllow (''fp_trusted:'' @ cs_Verdict (cf_Composite f))), p)
          else (None, snd (with_state ou ip
                 (\<lambda>st. st\<lparr>is_TrustScore := cs_Total (cf_Composite f), is_JA3Hash := j3_Hash (cf_JA3 f)\<rparr>) p)))"

definition l_intel :: "pl_config \<Rightarrow> outside \<Rightarrow> string \<Rightarrow> pipeline \<Rightarrow> outcome" where
  "l_intel cfg ou ip p =
     (case pp_intel p of
        None \<Rightarrow> (None, p)
      | Some i \<Rightarrow>
          if \<not> feature_on ''reputation_lookup'' p then (None, p)
          else let (res, i) = intel_evaluate (pc_intel cfg) (ou_abuse ou) (ou_now ou) ip i;
                   p = p\<lparr>pp_intel := Some i\<rparr>
               in if er_TrustScore res \<le> 0
                  then (Some (act_of ActionBlock
                          (case er_Actions res of [] \<Rightarrow> ''intel_blocked'' | a # _ \<Rightarrow> ''intel:'' @ a)),
                        ban_for cfg ou ip (pc_BanDuration cfg) p)
                  else if er_TrustScore res < 30
                  then (None, snd (with_state ou ip (\<lambda>st. st\<lparr>is_TrustScore := er_TrustScore res\<rparr>) p))
                  else (None, p))"

definition l_rate :: "pl_config \<Rightarrow> outside \<Rightarrow> string \<Rightarrow> pipeline \<Rightarrow> outcome" where
  "l_rate cfg ou ip p =
     (case pp_rate p of
        None \<Rightarrow> (None, p)
      | Some rl \<Rightarrow>
          if \<not> dc_RateEnabled (pc_det cfg) then (None, p)
          else let (ok, rl) = rl_allow (ou_now ou) ip rl; p = p\<lparr>pp_rate := Some rl\<rparr>
               in if ok then (None, p)
                  else let (st, p) = with_state ou ip (\<lambda>st. st\<lparr>is_RateLimitHits := is_RateLimitHits st + 1\<rparr>) p
                       in if 20 < is_RateLimitHits st
                          then (Some (act_of ActionDrop ''rate_limit_persistent''), ban_for cfg ou ip (pc_BanDuration cfg * 2) p)
                          else (Some (challenge ''rate_limited'' 1 (cm_PowDifficulty (pc_chall cfg))), p))"

definition l_whitelist :: "pl_config \<Rightarrow> outside \<Rightarrow> string \<Rightarrow> pipeline \<Rightarrow> outcome" where
  "l_whitelist cfg ou ip p =
     (let (ok, p) = whitelisted cfg ou ip p in (if ok then Some (act_of ActionAllow ''whitelisted'') else None, p))"

definition l_waf :: "pl_config \<Rightarrow> outside \<Rightarrow> request \<Rightarrow> string \<Rightarrow> pipeline \<Rightarrow> outcome" where
  "l_waf cfg ou r ip p =
     (case pp_waf p of
        None \<Rightarrow> (None, p)
      | Some e \<Rightarrow>
          if \<not> (wc_Enabled (pc_waf cfg) \<and> feature_on ''waf_deep_inspect'' p) then (None, p)
          else let (res, e) = inspect (pc_waf cfg) r e; p = p\<lparr>pp_waf := Some e\<rparr>
               in if \<not> ir_Blocked res then (None, p)
                  else if ir_Action res = ''drop''
                  then (Some (act_of ActionDrop (''waf:'' @ ir_TopRule res)), ban_for cfg ou ip (pc_BanDuration cfg) p)
                  else (Some (act_of ActionBlock (''waf:'' @ ir_TopRule res)), p))"

definition analyze_behavior :: "outside \<Rightarrow> request \<Rightarrow> string \<Rightarrow> pipeline \<Rightarrow> verdict option \<times> pipeline" where
  "analyze_behavior ou r ip p =
     (case pp_behavior p of
        None \<Rightarrow> (None, p)
      | Some ba \<Rightarrow>
          let (v, ba) = behavior_analyze (ou_log2 ou) (ou_now ou) ip (r_path r) (r_method r) (user_agent r) 200 ba
          in (Some v, p\<lparr>pp_behavior := Some ba\<rparr>))"

definition l_bot :: "pl_config \<Rightarrow> outside \<Rightarrow> request \<Rightarrow> conn_fingerprint option \<Rightarrow> verdict option \<Rightarrow> string \<Rightarrow> pipeline \<Rightarrow> outcome" where
  "l_bot cfg ou r fp v ip p =
     (case pp_botClass p of
        None \<Rightarrow> (None, p)
      | Some cache \<Rightarrow>
          if \<not> pc_BotEnabled cfg then (None, p)
          else let req = \<lparr>cr_IP = ip, cr_UserAgent = user_agent r, cr_Headers = extractHeaders r, cr_URL = r_path r,
                          cr_Method = r_method r, cr_Fingerprint = fp, cr_Behavior = v\<rparr>;
                   (res, cache) = classify (ou_now ou) req cache; p = p\<lparr>pp_botClass := Some cache\<rparr>
               in if br_IsBot res \<and> br_Threat res = ''critical''
                  then (Some (act_of ActionDrop (''bot:'' @ br_BotType res)), ban_for cfg ou ip (pc_BanDuration cfg * 6) p)
                  else if br_IsBot res \<and> br_Threat res = ''high''
                  then (Some (challenge ''bot_suspicious'' 2 (cm_PowDifficulty (pc_chall cfg) + 1)), p)
                  else (None, p))"

definition l_behavior :: "pl_config \<Rightarrow> outside \<Rightarrow> request \<Rightarrow> conn_fingerprint option \<Rightarrow> string \<Rightarrow> pipeline \<Rightarrow> outcome" where
  "l_behavior cfg ou r fp ip p =
     (let (v, p) = analyze_behavior ou r ip p
      in case v of
           Some w \<Rightarrow>
             if bv_IsBot w \<and> bv_Score w < 20
             then (Some (act_of ActionBlock ''behavior_ddos''), ban_for cfg ou ip (pc_BanDuration cfg) p)
             else l_bot cfg ou r fp v ip p
         | None \<Rightarrow> l_bot cfg ou r fp v ip p)"

definition l_session :: "pl_config \<Rightarrow> outside \<Rightarrow> request \<Rightarrow> string \<Rightarrow> pipeline \<Rightarrow> outcome" where
  "l_session cfg ou r ip p =
     (case pp_det p of
        None \<Rightarrow> (None, p)
      | Some e \<Rightarrow>
          (None, if dc_SessionEnabled (pc_det cfg)
                 then p\<lparr>pp_det := Some (snd (trackSession (pc_det cfg) (ou_now ou) ip (r_path r) (user_agent r) e))\<rparr>
                 else p))"

definition l_detrate :: "pl_config \<Rightarrow> outside \<Rightarrow> string \<Rightarrow> pipeline \<Rightarrow> outcome" where
  "l_detrate cfg ou ip p =
     (case pp_det p of
        None \<Rightarrow> (None, p)
      | Some e \<Rightarrow>
          if \<not> dc_RateEnabled (pc_det cfg) then (None, p)
          else let (limited, e) = checkRateLimit (pc_det cfg) (ou_now ou) ip e; p = p\<lparr>pp_det := Some e\<rparr>
               in (if limited then Some (challenge ''det_rate_limited'' 1 (cm_PowDifficulty (pc_chall cfg))) else None, p))"

definition stage_difficulty :: "pl_config \<Rightarrow> int \<Rightarrow> conn_fingerprint option \<Rightarrow> int" where
  "stage_difficulty cfg rps fp =
     (let d = cm_PowDifficulty (pc_chall cfg);
          d = (if pc_PowAdaptive cfg
               then d + (if 50 < rps then 1 else 0) + (if 100 < rps then 2 else 0) +
                    (case fp of Some f \<Rightarrow> if cs_Total (cf_Composite f) < 40 then 1 else 0 | None \<Rightarrow> 0)
               else d)
      in if 6 < d then 6 else d)"

definition l_stage :: "pl_config \<Rightarrow> outside \<Rightarrow> request \<Rightarrow> conn_fingerprint option \<Rightarrow> string \<Rightarrow> pipeline \<Rightarrow> outcome" where
  "l_stage cfg ou r fp ip p =
     (let (st, p) = with_state ou ip (updateRPS (ou_now ou)) p;
          stage = determineStage cfg ou p (is_RPS st) r fp
      in if stage = 4 then (Some (act_of ActionDrop ''auto_l7_drop''), p)
         else if 0 < stage
         then let stage = (case pp_adaptive p of
                             None \<Rightarrow> stage
                           | Some al \<Rightarrow> max stage (dn_ChallengeLevel (getDecision (ou_hour ou) (f_of_int (is_RPS st)) al)))
              in (Some (challenge (''stage_'' @ itoa stage) stage (stage_difficulty cfg (is_RPS st) fp)), p)
         else (Some (act_of ActionAllow ''clean''), p))"

definition process ::
  "pl_config \<Rightarrow> outside \<Rightarrow> request \<Rightarrow> string \<Rightarrow> conn_fingerprint option \<Rightarrow> pipeline \<Rightarrow> outcome" where
  "process cfg ou r ip fp p =
     lay (l_banned ou ip p) (\<lambda>p.
     lay (l_emergency cfg ou ip p) (\<lambda>p.
     lay (l_connlimit cfg ou ip p) (\<lambda>p.
     lay (l_validate cfg ou r ip p) (\<lambda>p.
     lay (l_basic cfg r p) (\<lambda>p.
     lay (l_fingerprint cfg ou fp ip p) (\<lambda>p.
     lay (l_intel cfg ou ip p) (\<lambda>p.
     lay (l_rate cfg ou ip p) (\<lambda>p.
     lay (l_whitelist cfg ou ip p) (\<lambda>p.
     lay (l_waf cfg ou r ip p) (\<lambda>p.
     lay (l_behavior cfg ou r fp ip p) (\<lambda>p.
     lay (l_session cfg ou r ip p) (\<lambda>p.
     lay (l_detrate cfg ou ip p) (\<lambda>p.
     l_stage cfg ou r fp ip p)))))))))))))"

definition process_plain :: "pl_config \<Rightarrow> outside \<Rightarrow> request \<Rightarrow> string \<Rightarrow> pipeline \<Rightarrow> outcome" where
  "process_plain cfg ou r ip p = process cfg ou r ip None p"

section \<open>Facts on the layers\<close>

named_theorems layer_def "the definitions of the layers"

lemmas layers [layer_def] = l_banned_def l_emergency_def l_connlimit_def l_validate_def l_basic_def l_fingerprint_def
  l_intel_def l_rate_def l_whitelist_def l_waf_def l_behavior_def l_bot_def l_session_def l_detrate_def l_stage_def

text \<open>A property of outcomes that every layer has holds of the pipeline.\<close>

definition outcome_ok :: "(pl_action \<Rightarrow> pipeline \<Rightarrow> bool) \<Rightarrow> outcome \<Rightarrow> bool" where
  "outcome_ok P o' \<longleftrightarrow> (case fst o' of None \<Rightarrow> True | Some a \<Rightarrow> P a (snd o'))"

lemma outcome_ok_simps [simp]: "outcome_ok P (Some a, p) = P a p" "outcome_ok P (None, p)"
  by (simp_all add: outcome_ok_def)

lemma lay_ok: "outcome_ok P o' \<Longrightarrow> (\<And>p. outcome_ok P (k p)) \<Longrightarrow> outcome_ok P (lay o' k)"
  by (cases o'; cases "fst o'") auto

definition banned_now :: "outside \<Rightarrow> string \<Rightarrow> pipeline \<Rightarrow> bool" where
  "banned_now ou ip p = fst (isBanned (ou_now ou) ip (pp_tables p))"

lemma banned_after_ban:
  "0 \<le> d \<Longrightarrow> banned_now ou ip (ban_for cfg ou ip d p)"
  "0 \<le> d \<Longrightarrow> banned_now ou ip (on_tables (banIP b (ou_now ou) ip d) p)"
  by (simp_all add: banned_now_def ban_for_def on_tables_def isBanned_def time_after_def)

definition drop_banned :: "outside \<Rightarrow> string \<Rightarrow> pl_action \<Rightarrow> pipeline \<Rightarrow> bool" where
  "drop_banned ou ip a p \<longleftrightarrow>
     (ac_Type a = ActionDrop \<and> ac_Reason a \<noteq> ''auto_l7_drop'' \<longrightarrow> banned_now ou ip p)"

lemma drop_banned_simps [simp]:
  "t \<noteq> ActionDrop \<Longrightarrow> drop_banned ou ip (act_of t reason) p" "drop_banned ou ip (challenge reason s d) p"
  "drop_banned ou ip (act_of ActionDrop ''auto_l7_drop'') p"
  by (simp_all add: drop_banned_def act_of_def challenge_def)

lemma drop_banned_ban [simp]: "0 \<le> d \<Longrightarrow> drop_banned ou ip a (ban_for cfg ou ip d p)"
  by (simp add: drop_banned_def banned_after_ban)

lemma drop_banned_layers:
  assumes "0 \<le> pc_BanDuration cfg"
  shows "outcome_ok (drop_banned ou ip) (l_banned ou ip p)"
    and "outcome_ok (drop_banned ou ip) (l_emergency cfg ou ip p)"
    and "outcome_ok (drop_banned ou ip) (l_connlimit cfg ou ip p)"
    and "outcome_ok (drop_banned ou ip) (l_validate cfg ou r ip p)"
    and "outcome_ok (drop_banned ou ip) (l_basic cfg r p)"
    and "outcome_ok (drop_banned ou ip) (l_fingerprint cfg ou fp ip p)"
    and "outcome_ok (drop_banned ou ip) (l_intel cfg ou ip p)"
    and "outcome_ok (drop_banned ou ip) (l_rate cfg ou ip p)"
    and "outcome_ok (drop_banned ou ip) (l_whitelist cfg ou ip p)"
    and "outcome_ok (drop_banned ou ip) (l_waf cfg ou r ip p)"
    and "outcome_ok (drop_banned ou ip) (l_bot cfg ou r fp v ip p)"
    and "outcome_ok (drop_banned ou ip) (l_session cfg ou r ip p)"
    and "outcome_ok (drop_banned ou ip) (l_detrate cfg ou ip p)"
    and "outcome_ok (drop_banned ou ip) (l_stage cfg ou r fp ip p)"
proof -
  show "outcome_ok (drop_banned ou ip) (l_banned ou ip p)"
    by (auto simp: l_banned_def drop_banned_def banned_now_def isBanned_def split: option.splits)
qed (use assms in \<open>simp_all add: layers validateRequest_def Let_def split_beta split: option.split\<close>)

lemma drop_banned_behavior:
  "0 \<le> pc_BanDuration cfg \<Longrightarrow> outcome_ok (drop_banned ou ip) (l_behavior cfg ou r fp ip p)"
  by (simp add: l_behavior_def Let_def split_beta drop_banned_layers split: option.split)

lemma process_drop_banned:
  "0 \<le> pc_BanDuration cfg \<Longrightarrow> outcome_ok (drop_banned ou ip) (process cfg ou r ip fp p)"
  unfolding process_def by (intro lay_ok drop_banned_layers drop_banned_behavior)

text \<open>The last layer decides every request.\<close>

lemma lay_decides: "(\<And>p. fst (k p) \<noteq> None) \<Longrightarrow> fst (lay o' k) \<noteq> None"
  by (cases o'; cases "fst o'") auto

lemma process_decides: "fst (process cfg ou r ip fp p) \<noteq> None"
  unfolding process_def by (intro lay_decides) (simp add: l_stage_def Let_def split_beta)

definition challenge_ok :: "pl_config \<Rightarrow> outside \<Rightarrow> request \<Rightarrow> pl_action \<Rightarrow> pipeline \<Rightarrow> bool" where
  "challenge_ok cfg ou r a p \<longleftrightarrow>
     (ac_Type a = ActionChallenge \<longrightarrow> 1 \<le> ac_Stage a \<and> ac_Stage a \<le> 3 \<and>
        (if ac_Reason a \<in> set [''rate_limited'', ''bot_suspicious'', ''det_rate_limited'']
         then ac_Difficulty a \<in> {cm_PowDifficulty (pc_chall cfg), cm_PowDifficulty (pc_chall cfg) + 1}
         else ac_Difficulty a \<le> 6 \<and> \<not> hasValidProof cfg ou r))"

lemma challenge_ok_simps [simp]:
  "t \<noteq> ActionChallenge \<Longrightarrow> challenge_ok cfg ou r (act_of t reason) p"
  "challenge_ok cfg ou r (challenge ''rate_limited'' 1 (cm_PowDifficulty (pc_chall cfg))) p"
  "challenge_ok cfg ou r (challenge ''det_rate_limited'' 1 (cm_PowDifficulty (pc_chall cfg))) p"
  "challenge_ok cfg ou r (challenge ''bot_suspicious'' 2 (cm_PowDifficulty (pc_chall cfg) + 1)) p"
  by (simp_all add: challenge_ok_def act_of_def challenge_def)

lemma determineStage_range:
  "0 \<le> determineStage cfg ou p rps r fp \<and> determineStage cfg ou p rps r fp \<le> 4"
  "hasValidProof cfg ou r \<Longrightarrow> determineStage cfg ou p rps r fp = 0"
  by (auto simp: determineStage_def auto_stage_def trust_stage_def Let_def split: option.split)

lemma challengeLevel_range: "0 \<le> dn_ChallengeLevel (getDecision hr rps al) \<and> dn_ChallengeLevel (getDecision hr rps al) \<le> 2"
  by (simp add: getDecision_def switch_ratio_def Let_def)

lemma stage_difficulty_le: "stage_difficulty cfg rps fp \<le> 6"
  by (simp add: stage_difficulty_def Let_def)

lemma stage_reason: "''stage_'' @ s \<notin> set [''rate_limited'', ''bot_suspicious'', ''det_rate_limited'']"
  by simp

lemma challenge_ok_stage: "outcome_ok (challenge_ok cfg ou r) (l_stage cfg ou r fp ip p)"
proof -
  obtain st q where q: "with_state ou ip (updateRPS (ou_now ou)) p = (st, q)"
    by (cases "with_state ou ip (updateRPS (ou_now ou)) p")
  let ?s = "determineStage cfg ou q (is_RPS st) r fp"
  have r: "0 \<le> ?s" "?s \<le> 4" "0 < ?s \<longrightarrow> \<not> hasValidProof cfg ou r"
    using determineStage_range(1) [of cfg ou q "is_RPS st" r fp] determineStage_range(2) [of cfg ou r q "is_RPS st" fp]
    by auto
  have "challenge_ok cfg ou r (challenge (''stage_'' @ itoa n) n (stage_difficulty cfg (is_RPS st) fp)) q"
    if "1 \<le> n" "n \<le> 3" "\<not> hasValidProof cfg ou r" for n
    using that stage_difficulty_le stage_reason [of "itoa n"]
    by (simp add: challenge_ok_def challenge_def)
  moreover define n where "n = (case pp_adaptive q of None \<Rightarrow> ?s
      | Some al \<Rightarrow> max ?s (dn_ChallengeLevel (getDecision (ou_hour ou) (f_of_int (is_RPS st)) al)))"
  moreover have "1 \<le> n \<and> n \<le> 3" if "0 < ?s" "?s \<noteq> 4"
  proof (cases "pp_adaptive q")
    case (Some al)
    then show ?thesis
      using r that challengeLevel_range [of "ou_hour ou" "f_of_int (is_RPS st)" al] by (simp add: n_def max_def)
  qed (use r that in \<open>simp add: n_def\<close>)
  ultimately show ?thesis
    using r by (simp add: l_stage_def q Let_def flip: n_def)
qed

lemma challenge_ok_layers:
  "outcome_ok (challenge_ok cfg ou r) (l_banned ou ip p)"
  "outcome_ok (challenge_ok cfg ou r) (l_emergency cfg ou ip p)"
  "outcome_ok (challenge_ok cfg ou r) (l_connlimit cfg ou ip p)"
  "outcome_ok (challenge_ok cfg ou r) (l_validate cfg ou r ip p)"
  "outcome_ok (challenge_ok cfg ou r) (l_basic cfg r p)"
  "outcome_ok (challenge_ok cfg ou r) (l_fingerprint cfg ou fp ip p)"
  "outcome_ok (challenge_ok cfg ou r) (l_intel cfg ou ip p)"
  "outcome_ok (challenge_ok cfg ou r) (l_rate cfg ou ip p)"
  "outcome_ok (challenge_ok cfg ou r) (l_whitelist cfg ou ip p)"
  "outcome_ok (challenge_ok cfg ou r) (l_waf cfg ou r ip p)"
  "outcome_ok (challenge_ok cfg ou r) (l_bot cfg ou r fp v ip p)"
  "outcome_ok (challenge_ok cfg ou r) (l_session cfg ou r ip p)"
  "outcome_ok (challenge_ok cfg ou r) (l_detrate cfg ou ip p)"
  by (simp_all add: l_banned_def l_emergency_def l_connlimit_def l_validate_def l_basic_def l_fingerprint_def
      l_intel_def l_rate_def l_whitelist_def l_waf_def l_bot_def l_session_def l_detrate_def
      validateRequest_def Let_def split_beta split: option.split)

lemma challenge_ok_behavior: "outcome_ok (challenge_ok cfg ou r) (l_behavior cfg ou r fp ip p)"
  by (simp add: l_behavior_def Let_def split_beta challenge_ok_layers split: option.split)

text \<open>The address of the peer is read by nothing but \<open>extractIP\<close>.\<close>

lemma peer_address_unread:
  assumes "header_get r ''X-Forwarded-For'' \<noteq> []"
  shows "process cfg ou (r\<lparr>r_remoteAddr := a\<rparr>) ip fp p = process cfg ou r ip fp p"
proof -
  have h: "header_get (r\<lparr>r_remoteAddr := a\<rparr>) k = header_get r k" for k by (simp add: header_get_def)
  have d: "extractRequestData (r\<lparr>r_remoteAddr := a\<rparr>) = extractRequestData r"
    by (simp add: extractRequestData_def user_agent_def h)
  have bot: "l_bot cfg ou (r\<lparr>r_remoteAddr := a\<rparr>) = l_bot cfg ou r"
    by (simp add: l_bot_def extractHeaders_def user_agent_def h fun_eq_iff split: option.split)
  have behavior: "analyze_behavior ou (r\<lparr>r_remoteAddr := a\<rparr>) = analyze_behavior ou r"
    by (simp add: analyze_behavior_def user_agent_def h fun_eq_iff split: option.split)
  have "l_behavior cfg ou (r\<lparr>r_remoteAddr := a\<rparr>) fp ip p = l_behavior cfg ou r fp ip p" for p
    unfolding l_behavior_def bot behavior ..
  moreover have "l_validate cfg ou (r\<lparr>r_remoteAddr := a\<rparr>) ip p = l_validate cfg ou r ip p" for p
    by (simp add: l_validate_def validate_def h split: option.split)
  moreover have "l_basic cfg (r\<lparr>r_remoteAddr := a\<rparr>) p = l_basic cfg r p" for p
    by (simp add: l_basic_def validateRequest_def validHost_def isBadUA_def user_agent_def h)
  moreover have "l_waf cfg ou (r\<lparr>r_remoteAddr := a\<rparr>) ip p = l_waf cfg ou r ip p" for p
    by (simp add: l_waf_def inspect_def d split: option.split)
  moreover have "l_session cfg ou (r\<lparr>r_remoteAddr := a\<rparr>) ip p = l_session cfg ou r ip p" for p
    by (simp add: l_session_def user_agent_def h split: option.split)
  moreover have "hasValidProof cfg ou (r\<lparr>r_remoteAddr := a\<rparr>) = hasValidProof cfg ou r"
    using assms by (simp add: hasValidProof_def extractIP_def h verifyProof_def cookie_def)
  then have "l_stage cfg ou (r\<lparr>r_remoteAddr := a\<rparr>) fp ip p = l_stage cfg ou r fp ip p" for p
    by (simp add: l_stage_def determineStage_def)
  ultimately show ?thesis by (simp add: process_def)
qed

section \<open>Properties\<close>

text \<open>
  C11: Every request gets a decision, and a drop is a ban: when the pipeline drops a request for any reason
  but the automatic drop of the last layer, the address is banned at that moment, whichever layer dropped it
  and whatever the other components answered.
\<close>

theorem dropped_is_banned:
  assumes "0 \<le> pc_BanDuration cfg"
  shows "\<exists>a. fst (process cfg ou r ip fp p) = Some a \<and>
    (ac_Type a = ActionDrop \<and> ac_Reason a \<noteq> ''auto_l7_drop'' \<longrightarrow>
       fst (isBanned (ou_now ou) ip (pp_tables (snd (process cfg ou r ip fp p)))))"
  using process_decides [of cfg ou r ip fp p] process_drop_banned [OF assms, of ou ip r fp p]
  by (auto simp: outcome_ok_def drop_banned_def banned_now_def)

text \<open>
  A challenge has a stage from 1 to 3. Those of the last layer ask for at most six zero digits and never
  of a client with a valid proof; those of the rate limiters and of the bot classifier pass the configured
  difficulty on without that limit, and to clients with a proof as well.
\<close>

theorem challenge_limits:
  "\<forall>a. fst (process cfg ou r ip fp p) = Some a \<and> ac_Type a = ActionChallenge \<longrightarrow>
     1 \<le> ac_Stage a \<and> ac_Stage a \<le> 3 \<and>
     (if ac_Reason a \<in> set [''rate_limited'', ''bot_suspicious'', ''det_rate_limited'']
      then ac_Difficulty a \<in> {cm_PowDifficulty (pc_chall cfg), cm_PowDifficulty (pc_chall cfg) + 1}
      else ac_Difficulty a \<le> 6 \<and> \<not> hasValidProof cfg ou r)"
proof -
  have "outcome_ok (challenge_ok cfg ou r) (process cfg ou r ip fp p)"
    unfolding process_def by (intro lay_ok challenge_ok_layers challenge_ok_behavior challenge_ok_stage)
  then show ?thesis by (auto simp: outcome_ok_def challenge_ok_def split: if_splits)
qed


section \<open>Examples\<close>

text \<open>A site without the optional components, in mode \<open>auto\<close>, under a flood, and its pipeline.\<close>

definition sample_det :: det_config where
  "sample_det =
     \<lparr>dc_RateEnabled = True, dc_RequestsPerSecond = 10, dc_Burst = 5, dc_Adaptive = False, dc_BaselineEnabled = False,
      dc_LearningPeriod = 0, dc_Sensitivity = 1, dc_SessionEnabled = False, dc_SessionTTL = 0\<rparr>"

definition sample_pl_config :: pl_config where
  "sample_pl_config =
     \<lparr>pc_Mode = ''auto'', pc_AutoEnable = False, pc_RPSThreshold = 1000, pc_MaxPerIP = 100, pc_BanDuration = 10 * minute,
      pc_PowAdaptive = False, pc_JA3Enabled = True, pc_BotEnabled = False, pc_Domains = [''example.com''],
      pc_bans = plain_bans, pc_det = sample_det, pc_intel = sample_intel_config,
      pc_waf = \<lparr>wc_Enabled = False, wc_ParanoiaLevel = 1\<rparr>, pc_chall = sample_manager\<rparr>"

definition sample_outside :: outside where
  "sample_outside = \<lparr>ou_now = 0, ou_hour = 12, ou_log2 = (\<lambda>x. 0), ou_abuse = (\<lambda>ip. None), ou_hmac = toy_hmac\<rparr>"

definition bare_pipeline :: pipeline where
  "bare_pipeline =
     \<lparr>pp_tables = emptyTables, pp_intel = None, pp_det = None, pp_behavior = None, pp_botClass = None, pp_adaptive = None,
      pp_waf = None, pp_rate = None, pp_degrader = None, pp_validator = None, pp_underAttack = False, pp_CurrentRPS = 0\<rparr>"

definition forwarded_request :: request where
  "forwarded_request = get_request\<lparr>r_header := [(''X-Forwarded-For'', [''198.51.100.7,x''])]\<rparr>"

text \<open>An address at the limit of its tolerated rate limit hits, before a limiter without tokens.\<close>

definition offender :: pipeline where
  "offender = bare_pipeline
     \<lparr>pp_rate := Some (newIPRateLimiter 0 0),
      pp_tables := emptyTables\<lparr>it_ipStates := [(''10.0.0.1'', (new_state 0)\<lparr>is_RateLimitHits := 20\<rparr>)]\<rparr>\<rparr>"

definition challenge_site :: pl_config where
  "challenge_site = sample_pl_config\<lparr>pc_Mode := ''challenge''\<rparr>"

lemma offender_is_dropped:
  "fst (process sample_pl_config sample_outside get_request ''10.0.0.1'' None offender) = Some (act_of ActionDrop ''rate_limit_persistent'')"
  by code_simp

lemma newcomer_is_challenged:
  "map_option (\<lambda>a. (ac_Type a, ac_Reason a)) (fst (process challenge_site sample_outside get_request ''10.0.0.1'' None bare_pipeline)) =
   Some (ActionChallenge, ''stage_1'')"
  by code_simp

theorem dropped_is_banned_witness:
  "fst (process sample_pl_config sample_outside get_request ''10.0.0.1'' None offender) = Some (act_of ActionDrop ''rate_limit_persistent'') \<and>
   fst (isBanned 0 ''10.0.0.1'' (pp_tables (snd (process sample_pl_config sample_outside get_request ''10.0.0.1'' None offender))))"
  using dropped_is_banned [of sample_pl_config sample_outside get_request "''10.0.0.1''" None offender] offender_is_dropped
  by (simp add: act_of_def sample_pl_config_def sample_outside_def dur_defs)

theorem challenge_limits_witness:
  "case fst (process challenge_site sample_outside get_request ''10.0.0.1'' None bare_pipeline) of
     None \<Rightarrow> False | Some a \<Rightarrow> ac_Type a = ActionChallenge \<and> ac_Difficulty a \<le> 6 \<and> \<not> hasValidProof challenge_site sample_outside get_request"
  using challenge_limits [of challenge_site sample_outside get_request "''10.0.0.1''" None bare_pipeline] newcomer_is_challenged
  by (auto split: option.splits)


end
