(* ===== verification/Edge.thy ===== *)
theory Edge
  imports HttpModel GoSlice "HOL-Library.Multiset"
begin

text \<open>
  Behind the pipeline: the load balancer of \<open>packages/mango-waf/core/upstream.go\<close>, the cache of
  \<open>core/cache.go\<close> and the choices of \<open>core/proxy.go\<close>. The map of pools is iterated in list order. The
  ristretto cache is a parameter: its state \<open>'c\<close> with the operations of \<open>cache_ops\<close>, of which the
  properties assume what its documentation says (\<open>cache_laws\<close>): a set may be dropped, a get returns the last
  value set under the key or nothing. SHA-256 is the parameter \<open>sha\<close>; the answers of the backends, their
  health and the clock are inputs.
\<close>

section \<open>Upstreams\<close>

record backend =
  be_URL :: string
  be_Weight :: int
  be_IsAlive :: bool
  be_Failures :: int

record pool =
  po_Backends :: "backend list"
  po_Current :: nat

type_synonym upstreams = "pool smap"

datatype upstream_error = NoUpstreamConfigured | NoUpstreamAlive

definition new_backend :: "string \<times> int \<Rightarrow> backend" where
  "new_backend u = \<lparr>be_URL = fst u, be_Weight = (if snd u \<le> 0 then 1 else snd u), be_IsAlive = True, be_Failures = 0\<rparr>"

text \<open>The configuration of a domain is its name with the URLs and weights of its upstreams.\<close>

definition newUpstreamManager :: "(string \<times> (string \<times> int) list) list \<Rightarrow> upstreams" where
  "newUpstreamManager domains =
     fold (\<lambda>(name, us). AList.update (to_lower name) \<lparr>po_Backends = map new_backend us, po_Current = 0\<rparr>) domains []"

definition select_pool :: "string \<Rightarrow> upstreams \<Rightarrow> (string \<times> pool) option" where
  "select_pool host um =
     (case find (\<lambda>(dName, p). str_contains host dName) um of
        Some x \<Rightarrow> Some x
      | None \<Rightarrow> (case um of [] \<Rightarrow> None | x # _ \<Rightarrow> Some x))"

text \<open>The loop over the backends from \<open>startIdx\<close>: the index of the first that is alive.\<close>

fun next_alive :: "backend list \<Rightarrow> nat \<Rightarrow> nat \<Rightarrow> nat \<Rightarrow> nat option" where
  "next_alive bs startIdx i 0 = None"
| "next_alive bs startIdx i (Suc k) =
     (let idx = (startIdx + i) mod length bs
      in if be_IsAlive (bs ! idx) then Some idx else next_alive bs startIdx (Suc i) k)"

definition pool_next :: "pool \<Rightarrow> (upstream_error, string) res \<times> pool" where
  "pool_next p =
     (if po_Backends p = [] then (Fail NoUpstreamConfigured, p)
      else case next_alive (po_Backends p) (po_Current p) 0 (length (po_Backends p)) of
             Some idx \<Rightarrow> (Ok (be_URL (po_Backends p ! idx)), p\<lparr>po_Current := (idx + 1) mod length (po_Backends p)\<rparr>)
           | None \<Rightarrow> (Fail NoUpstreamAlive, p))"

definition getNext :: "string \<Rightarrow> upstreams \<Rightarrow> (upstream_error, string) res \<times> upstreams" where
  "getNext host um =
     (case select_pool (host_name host) um of
        None \<Rightarrow> (Fail NoUpstreamConfigured, um)
      | Some (name, p) \<Rightarrow> (let (u, p) = pool_next p in (u, AList.update name p um)))"

text \<open>
  A health check of a backend: the URL does not parse, the request fails, or it gets a status.
\<close>

datatype probe = BadURL | NoAnswer | Status int

definition check_backend :: "probe \<Rightarrow> backend \<Rightarrow> backend" where
  "check_backend pr b =
     (case pr of
        BadURL \<Rightarrow> b
      | _ \<Rightarrow>
          let alive = (case pr of Status c \<Rightarrow> c \<notin> {500, 502, 504} | _ \<Rightarrow> False)
          in if alive then b\<lparr>be_IsAlive := True, be_Failures := 0\<rparr>
             else let b = b\<lparr>be_Failures := be_Failures b + 1\<rparr>
                  in if be_IsAlive b \<and> 3 \<le> be_Failures b then b\<lparr>be_IsAlive := False\<rparr> else b)"

definition runHealthChecks :: "(string \<Rightarrow> probe) \<Rightarrow> upstreams \<Rightarrow> upstreams" where
  "runHealthChecks probe_of um =
     map (\<lambda>(d, p). (d, p\<lparr>po_Backends := map (\<lambda>b. check_backend (probe_of (be_URL b)) b) (po_Backends p)\<rparr>)) um"

definition getDomainConfig :: "string list \<Rightarrow> string \<Rightarrow> string option" where
  "getDomainConfig names host = find (\<lambda>d. str_contains (to_lower host) (to_lower d)) names"

section \<open>The cache\<close>

record cached_response =
  ca_StatusCode :: int
  ca_Headers :: "(string list) smap"
  ca_Body :: "byte list"
  ca_Expiry :: gtime

record 'c cache_ops =
  co_get :: "string \<Rightarrow> 'c \<Rightarrow> cached_response option"
  co_set :: "string \<Rightarrow> cached_response \<Rightarrow> int \<Rightarrow> duration \<Rightarrow> 'c \<Rightarrow> 'c"
  co_del :: "string \<Rightarrow> 'c \<Rightarrow> 'c"
  co_clear :: "'c \<Rightarrow> 'c"

record cdn_config =
  cc_StaticExtensions :: "string list"
  cc_BypassRules :: "string list"
  cc_BypassCookies :: "string list"
  cc_BypassHeaders :: "string list"

record 'c cdn =
  cn_cache :: 'c
  cn_Hits :: int
  cn_Misses :: int
  cn_Bypasses :: int

record backend_response =
  br_StatusCode :: int
  br_Header :: "(string list) smap"
  br_Body :: "byte list option"     \<comment> \<open>\<open>None\<close>: reading the body fails\<close>

definition cache_text :: "request \<Rightarrow> string" where
  "cache_text r = r_method r @ ''_'' @ r_host r @ ''_'' @ r_path r @ ''_'' @ r_query r"

definition generateCacheKey :: "(string \<Rightarrow> byte list) \<Rightarrow> request \<Rightarrow> string" where
  "generateCacheKey sha r = hex (sha (cache_text r))"

definition matchBypassRule :: "string \<Rightarrow> string \<Rightarrow> bool" where
  "matchBypassRule path rule =
     (if has_suffix rule ''*'' then has_prefix path (butlast rule) else path = rule)"

definition sensitiveCookies :: "string list" where
  "sensitiveCookies = [''session'', ''logged_in'', ''phpsessid'', ''jsessionid'', ''laravel_session'', ''csrf'']"

definition shouldBypass :: "cdn_config \<Rightarrow> request \<Rightarrow> bool" where
  "shouldBypass cfg r =
     (if r_method r \<noteq> ''GET'' \<and> r_method r \<noteq> ''HEAD'' then True
      else if list_ex (matchBypassRule (r_path r)) (cc_BypassRules cfg) then True
      else if header_get r ''Authorization'' \<noteq> [] then True
      else if list_ex (\<lambda>h. header_get r h \<noteq> []) (cc_BypassHeaders cfg) then True
      else header_get r ''Cookie'' \<noteq> [] \<and>
        list_ex (\<lambda>sc. str_contains (to_lower (header_get r ''Cookie'')) (to_lower sc))
          (sensitiveCookies @ cc_BypassCookies cfg))"

text \<open>\<open>filepath.Ext\<close>: the suffix from the last dot of the last element.\<close>

definition path_ext :: "string \<Rightarrow> string" where
  "path_ext path =
     (let t = takeWhile (\<lambda>c. c \<noteq> CHR ''/'') (rev path)
      in if CHR ''.'' \<in> set t then rev (takeWhile (\<lambda>c. c \<noteq> CHR ''.'') t @ ''.'') else [])"

definition isStaticExtension :: "cdn_config \<Rightarrow> string \<Rightarrow> bool" where
  "isStaticExtension cfg path =
     (let ext = to_lower (path_ext path) in ext \<noteq> [] \<and> ext \<in> set (cc_StaticExtensions cfg))"

definition cdn_get :: "'c cache_ops \<Rightarrow> gtime \<Rightarrow> string \<Rightarrow> 'c cdn \<Rightarrow> cached_response option \<times> 'c cdn" where
  "cdn_get ops now key cm =
     (case co_get ops key (cn_cache cm) of
        None \<Rightarrow> (None, cm\<lparr>cn_Misses := cn_Misses cm + 1\<rparr>)
      | Some resp \<Rightarrow>
          if time_after now (ca_Expiry resp)
          then (None, cm\<lparr>cn_cache := co_del ops key (cn_cache cm), cn_Misses := cn_Misses cm + 1\<rparr>)
          else (Some resp, cm\<lparr>cn_Hits := cn_Hits cm + 1\<rparr>))"

definition cacheable :: "backend_response \<Rightarrow> bool" where
  "cacheable resp =
     (let cc = to_lower (first_value (br_Header resp) ''Cache-Control'')
      in \<not> (str_contains cc ''private'' \<or> str_contains cc ''no-store'' \<or> str_contains cc ''no-cache'') \<and>
         first_value (br_Header resp) ''Set-Cookie'' = [])"

definition cache_ttl :: "cdn_config \<Rightarrow> request \<Rightarrow> backend_response \<Rightarrow> duration option" where
  "cache_ttl cfg r resp =
     (if isStaticExtension cfg (r_path r) then Some (24 * hour)
      else if str_contains (to_lower (first_value (br_Header resp) ''Cache-Control'')) ''public'' then Some (1 * hour)
      else None)"

text \<open>\<open>Store\<close>: whether reading the body failed, and the cache.\<close>

definition cdn_store ::
  "'c cache_ops \<Rightarrow> cdn_config \<Rightarrow> gtime \<Rightarrow> string \<Rightarrow> request \<Rightarrow> backend_response \<Rightarrow> 'c cdn \<Rightarrow> bool \<times> 'c cdn" where
  "cdn_store ops cfg now key r resp cm =
     (if \<not> cacheable resp then (False, cm)
      else case cache_ttl cfg r resp of
             None \<Rightarrow> (False, cm)
           | Some ttl \<Rightarrow>
               (case br_Body resp of
                  None \<Rightarrow> (True, cm)
                | Some body \<Rightarrow>
                    if 5 * 1024 * 1024 < int (length body) then (False, cm)
                    else (False, cm\<lparr>cn_cache := co_set ops key
                           \<lparr>ca_StatusCode = br_StatusCode resp, ca_Headers = br_Header resp, ca_Body = body,
                            ca_Expiry = now + ttl\<rparr> (int (length body)) ttl (cn_cache cm)\<rparr>)))"

definition recordBypass :: "'c cdn \<Rightarrow> 'c cdn" where
  "recordBypass cm = cm\<lparr>cn_Bypasses := cn_Bypasses cm + 1\<rparr>"

definition purge :: "'c cache_ops \<Rightarrow> string \<Rightarrow> 'c cdn \<Rightarrow> 'c cdn" where
  "purge ops key cm =
     cm\<lparr>cn_cache := (if key = [] then co_clear ops (cn_cache cm) else co_del ops key (cn_cache cm))\<rparr>"

section \<open>The proxy\<close>

record proxy_config =
  px_WebSocket :: bool
  px_CDNEnabled :: bool
  px_cdn :: cdn_config

datatype proxied =
  ServiceUnavailable
| BadGateway
| WebSocketTo string
| FromCache cached_response
| FromBackend string backend_response

definition isWebSocket :: "request \<Rightarrow> bool" where
  "isWebSocket r = equal_fold (header_get r ''Upgrade'') ''websocket''"

text \<open>
  \<open>proxyRequest\<close>: \<open>url_ok\<close> says which backend URLs parse, \<open>answer\<close> is the response of the backend (\<open>None\<close>:
  the connection fails). The cache header of a response and the forwarding headers of the request are left out.
\<close>

definition proxyRequest ::
  "(string \<Rightarrow> byte list) \<Rightarrow> 'c cache_ops \<Rightarrow> proxy_config \<Rightarrow> (string \<Rightarrow> bool) \<Rightarrow> (string \<Rightarrow> request \<Rightarrow> backend_response option) \<Rightarrow>
   gtime \<Rightarrow> request \<Rightarrow> upstreams \<Rightarrow> 'c cdn option \<Rightarrow> proxied \<times> upstreams \<times> 'c cdn option" where
  "proxyRequest sha ops cfg url_ok answer now r um cm =
     (let (u, um) = getNext (r_host r) um in
      case u of
        Ok backend \<Rightarrow>
          if backend = [] then (ServiceUnavailable, um, cm)
          else if px_WebSocket cfg \<and> isWebSocket r then (WebSocketTo backend, um, cm)
          else if \<not> url_ok backend then (BadGateway, um, cm)
          else let fetch = (\<lambda>store cm. case answer backend r of
                              None \<Rightarrow> (BadGateway, um, cm)
                            | Some resp \<Rightarrow> (FromBackend backend resp, um, store resp cm))
               in (case cm of
                     None \<Rightarrow> fetch (\<lambda>resp cm. cm) None
                   | Some c \<Rightarrow>
                       if \<not> px_CDNEnabled cfg then fetch (\<lambda>resp cm. cm) (Some c)
                       else if shouldBypass (px_cdn cfg) r then fetch (\<lambda>resp cm. cm) (Some (recordBypass c))
                       else let key = generateCacheKey sha r in
                            (case cdn_get ops now key c of
                               (Some cached, c) \<Rightarrow> (FromCache cached, um, Some c)
                             | (None, c) \<Rightarrow>
                                 fetch (\<lambda>resp cm. map_option (\<lambda>c. snd (cdn_store ops (px_cdn cfg) now key r resp c)) cm) (Some c)))
      | _ \<Rightarrow> (ServiceUnavailable, um, cm))"

section \<open>Round robin\<close>

lemma next_alive_sound:
  "next_alive bs st i k = Some idx \<Longrightarrow> bs \<noteq> [] \<Longrightarrow> idx < length bs \<and> be_IsAlive (bs ! idx)"
  by (induction k arbitrary: i) (auto simp: Let_def split: if_splits)

lemma next_alive_None:
  "next_alive bs st i k = None \<longleftrightarrow> (\<forall>j. i \<le> j \<and> j < i + k \<longrightarrow> \<not> be_IsAlive (bs ! ((st + j) mod length bs)))"
proof (induction k arbitrary: i)
  case (Suc k)
  have "(\<forall>j. i \<le> j \<and> j < i + Suc k \<longrightarrow> P j) \<longleftrightarrow> P i \<and> (\<forall>j. Suc i \<le> j \<and> j < Suc i + k \<longrightarrow> P j)" for P
    by (metis Suc_leI add_Suc_right add_Suc_shift le_eq_less_or_eq le_less_trans lessI less_add_Suc1 Suc_leD)
  then show ?case using Suc.IH [of "Suc i"] by (simp add: Let_def)
qed auto

lemma next_alive_some:
  assumes "b \<in> set bs" and "be_IsAlive b"
  shows "next_alive bs st 0 (length bs) \<noteq> None"
proof -
  obtain idx where idx: "idx < length bs" "b = bs ! idx" using assms(1) by (auto simp: in_set_conv_nth)
  define j where "j = (idx + length bs - st mod length bs) mod length bs"
  have "j < length bs" unfolding j_def using idx by (intro mod_less_divisor) linarith
  moreover have "(st + j) mod length bs = idx"
  proof -
    have "(st + j) mod length bs = (st mod length bs + (idx + length bs - st mod length bs)) mod length bs"
      by (simp add: j_def mod_simps)
    also have "st mod length bs + (idx + length bs - st mod length bs) = idx + length bs"
    proof -
      have "st mod length bs < length bs" using idx by (intro mod_less_divisor) linarith
      then show ?thesis by linarith
    qed
    finally show ?thesis using idx by simp
  qed
  ultimately show ?thesis using next_alive_None [of bs st 0 "length bs"] assms(2) idx by force
qed

text \<open>The URLs of \<open>k\<close> calls in a row.\<close>

fun serve :: "nat \<Rightarrow> pool \<Rightarrow> string list" where
  "serve 0 p = []"
| "serve (Suc k) p = (case pool_next p of (Ok u, p) \<Rightarrow> u # serve k p | (_, p) \<Rightarrow> serve k p)"

lemma serve_all_alive:
  assumes "\<forall>b \<in> set (po_Backends p). be_IsAlive b" and "po_Backends p \<noteq> []" and "po_Current p < length (po_Backends p)"
  shows "serve k p = map (\<lambda>i. be_URL (po_Backends p ! ((po_Current p + i) mod length (po_Backends p)))) [0..<k]"
  using assms
proof (induction k arbitrary: p)
  case (Suc k)
  let ?n = "length (po_Backends p)"
  have n: "0 < ?n" using Suc.prems(2) by simp
  then obtain m where m: "?n = Suc m" by (cases ?n) auto
  then have "next_alive (po_Backends p) (po_Current p) 0 ?n = Some (po_Current p)"
    using Suc.prems by (simp add: Let_def)
  then have step: "pool_next p = (Ok (be_URL (po_Backends p ! po_Current p)), p\<lparr>po_Current := (po_Current p + 1) mod ?n\<rparr>)"
    using Suc.prems(2) by (simp add: pool_next_def)
  have "serve k (p\<lparr>po_Current := (po_Current p + 1) mod ?n\<rparr>) =
      map (\<lambda>i. be_URL (po_Backends p ! (((po_Current p + 1) mod ?n + i) mod ?n))) [0..<k]"
    using Suc.IH [of "p\<lparr>po_Current := (po_Current p + 1) mod ?n\<rparr>"] Suc.prems n by simp
  also have "\<dots> = map (\<lambda>i. be_URL (po_Backends p ! ((po_Current p + i) mod ?n))) [1..<Suc k]"
    by (simp add: mod_simps map_Suc_upt [symmetric] comp_def del: upt_Suc)
  finally show ?case
    using step Suc.prems(3) by (simp add: upt_conv_Cons del: upt_Suc)
qed simp

lemma mset_rotation:
  assumes "c < length xs"
  shows "mset (map (\<lambda>i. xs ! ((c + i) mod length xs)) [0..<length xs]) = mset xs"
proof -
  have "map (\<lambda>i. xs ! ((c + i) mod length xs)) [0..<length xs] = rotate c xs"
    by (rule nth_equalityI) (auto simp: nth_rotate)
  moreover have "mset (rotate c xs) = mset (take (c mod length xs) xs @ drop (c mod length xs) xs)"
    by (simp only: rotate_drop_take mset_append add.commute)
  ultimately show ?thesis by simp
qed

section \<open>Health\<close>

definition failing :: "probe \<Rightarrow> bool" where
  "failing pr \<longleftrightarrow> (case pr of NoAnswer \<Rightarrow> True | Status c \<Rightarrow> c \<in> {500, 502, 504} | BadURL \<Rightarrow> False)"

text \<open>The number of probes at the end of the list that failed.\<close>

definition failing_run :: "probe list \<Rightarrow> int" where
  "failing_run ps = int (length (takeWhile failing (rev ps)))"

definition check_run :: "probe list \<Rightarrow> backend \<Rightarrow> backend" where
  "check_run ps b = fold check_backend ps b"

lemma check_run_snoc: "check_run (ps @ [pr]) b = check_backend pr (check_run ps b)"
  by (simp add: check_run_def)

lemma health_run:
  assumes "\<forall>pr \<in> set ps. pr \<noteq> BadURL"
  shows "be_Failures (check_run ps (new_backend u)) = failing_run ps \<and>
    (be_IsAlive (check_run ps (new_backend u)) \<longleftrightarrow> failing_run ps < 3) \<and>
    be_URL (check_run ps (new_backend u)) = fst u"
  using assms
proof (induction ps rule: rev_induct)
  case (snoc pr ps)
  have "0 \<le> failing_run ps" by (simp add: failing_run_def)
  moreover have "failing_run (ps @ [pr]) = (if failing pr then failing_run ps + 1 else 0)"
    by (simp add: failing_run_def)
  moreover have "check_backend pr b =
      (if failing pr
       then let b = b\<lparr>be_Failures := be_Failures b + 1\<rparr>
            in if be_IsAlive b \<and> 3 \<le> be_Failures b then b\<lparr>be_IsAlive := False\<rparr> else b
       else b\<lparr>be_IsAlive := True, be_Failures := 0\<rparr>)" for b
    using snoc.prems by (cases pr) (auto simp: check_backend_def failing_def Let_def)
  ultimately show ?case using snoc by (auto simp: check_run_snoc Let_def)
qed (simp add: check_run_def new_backend_def failing_run_def)

section \<open>What the cache serves\<close>

text \<open>The documented behaviour of the cache that the properties use.\<close>

definition cache_laws :: "'c cache_ops \<Rightarrow> bool" where
  "cache_laws ops \<longleftrightarrow>
     (\<forall>k k' v cost ttl c. co_get ops k (co_set ops k' v cost ttl c) \<in> {None, co_get ops k c} \<union> (if k = k' then {Some v} else {})) \<and>
     (\<forall>k k' c. co_get ops k (co_del ops k' c) \<in> {None, co_get ops k c})"

text \<open>One exchange with the proxy: the time, the request, and the answer of the backend.\<close>

type_synonym exchange = "gtime \<times> request \<times> backend_response option"

definition exchange_step ::
  "(string \<Rightarrow> byte list) \<Rightarrow> 'c cache_ops \<Rightarrow> proxy_config \<Rightarrow> exchange \<Rightarrow> upstreams \<times> 'c cdn option \<Rightarrow> upstreams \<times> 'c cdn option" where
  "exchange_step sha ops cfg x st =
     (case x of (now, r, ans) \<Rightarrow>
        snd (proxyRequest sha ops cfg (\<lambda>u. True) (\<lambda>u r. ans) now r (fst st) (snd st)))"

definition exchanges ::
  "(string \<Rightarrow> byte list) \<Rightarrow> 'c cache_ops \<Rightarrow> proxy_config \<Rightarrow> exchange list \<Rightarrow> upstreams \<times> 'c cdn option \<Rightarrow> upstreams \<times> 'c cdn option" where
  "exchanges sha ops cfg xs st = fold (exchange_step sha ops cfg) xs st"

text \<open>A cached value comes from an exchange that was allowed to be cached.\<close>

definition origin :: "(string \<Rightarrow> byte list) \<Rightarrow> proxy_config \<Rightarrow> string \<Rightarrow> cached_response \<Rightarrow> exchange \<Rightarrow> bool" where
  "origin sha cfg key v x \<longleftrightarrow>
     (case x of (now, r, ans) \<Rightarrow>
        \<exists>resp ttl. ans = Some resp \<and> generateCacheKey sha r = key \<and> \<not> shouldBypass (px_cdn cfg) r \<and> cacheable resp \<and>
          cache_ttl (px_cdn cfg) r resp = Some ttl \<and> br_Body resp = Some (ca_Body v) \<and>
          ca_Headers v = br_Header resp \<and> ca_StatusCode v = br_StatusCode resp \<and> ca_Expiry v = now + ttl)"

definition cache_inv :: "(string \<Rightarrow> byte list) \<Rightarrow> 'c cache_ops \<Rightarrow> proxy_config \<Rightarrow> exchange list \<Rightarrow> 'c cdn option \<Rightarrow> bool" where
  "cache_inv sha ops cfg xs cm \<longleftrightarrow>
     (case cm of None \<Rightarrow> True
      | Some c \<Rightarrow> \<forall>key v. co_get ops key (cn_cache c) = Some v \<longrightarrow> (\<exists>x \<in> set xs. origin sha cfg key v x))"

lemma cdn_get_inv:
  assumes "cache_laws ops" and "cache_inv sha ops cfg xs (Some c)"
  shows "cache_inv sha ops cfg xs (Some (snd (cdn_get ops now key c)))"
proof -
  have del: "co_get ops k d = Some v" if "co_get ops k (co_del ops k' d) = Some v" for k k' d v
  proof -
    have "co_get ops k (co_del ops k' d) \<in> {None, co_get ops k d}" using assms(1) by (simp add: cache_laws_def)
    then show ?thesis using that by auto
  qed
  have "cn_cache (snd (cdn_get ops now key c)) \<in> {cn_cache c, co_del ops key (cn_cache c)}"
    by (simp add: cdn_get_def split: option.split)
  then have "co_get ops k (cn_cache c) = Some v" if "co_get ops k (cn_cache (snd (cdn_get ops now key c))) = Some v" for k v
    using that del [of k key "cn_cache c" v] by (metis insertE singletonD)
  then show ?thesis using assms(2) unfolding cache_inv_def by (simp only: option.case) blast
qed

lemma cdn_store_inv:
  assumes "cache_laws ops" and "cache_inv sha ops cfg xs (Some c)" and "\<not> shouldBypass (px_cdn cfg) r"
  shows "cache_inv sha ops cfg (xs @ [(now, r, Some resp)])
    (Some (snd (cdn_store ops (px_cdn cfg) now (generateCacheKey sha r) r resp c)))"
proof -
  have get: "co_get ops k (co_set ops k' v cost ttl d) = Some w \<Longrightarrow> co_get ops k d = Some w \<or> (k = k' \<and> w = v)"
    for k k' v cost ttl d w
  proof -
    assume "co_get ops k (co_set ops k' v cost ttl d) = Some w"
    moreover have "co_get ops k (co_set ops k' v cost ttl d) \<in> {None, co_get ops k d} \<union> (if k = k' then {Some v} else {})"
      using assms(1) by (simp add: cache_laws_def)
    ultimately show ?thesis by (auto split: if_splits)
  qed
  show ?thesis
    using assms(2,3) by (auto simp: cache_inv_def cdn_store_def origin_def split: option.split dest!: get)
qed

lemma cache_inv_mono: "cache_inv sha ops cfg xs cm \<Longrightarrow> cache_inv sha ops cfg (xs @ ys) cm"
  by (fastforce simp: cache_inv_def split: option.splits)

lemma exchange_inv:
  assumes laws: "cache_laws ops" and inv: "cache_inv sha ops cfg xs (snd st)"
  shows "cache_inv sha ops cfg (xs @ [x]) (snd (exchange_step sha ops cfg x st))"
proof -
  obtain now r ans where x: "x = (now, r, ans)" by (cases x)
  obtain um cm where st: "st = (um, cm)" by (cases st)
  obtain u um' where u: "getNext (r_host r) um = (u, um')" by (cases "getNext (r_host r) um")
  have keep: "cache_inv sha ops cfg (xs @ [x]) cm" using inv cache_inv_mono by (simp add: st)
  have bypass: "cache_inv sha ops cfg (xs @ [x]) (Some (recordBypass c))" if "cm = Some c" for c
    using keep that by (simp add: cache_inv_def recordBypass_def)
  have get: "cache_inv sha ops cfg (xs @ [x]) (Some c')" if "cm = Some c" "cdn_get ops now k c = (v, c')" for c k v c'
    using cdn_get_inv [OF laws, of sha cfg xs c now k] inv that cache_inv_mono by (fastforce simp: st)
  have store: "cache_inv sha ops cfg (xs @ [x])
      (Some (snd (cdn_store ops (px_cdn cfg) now (generateCacheKey sha r) r resp c')))"
    if "cm = Some c" "cdn_get ops now k c = (v, c')" "\<not> shouldBypass (px_cdn cfg) r" "ans = Some resp" for c k v c' resp
    using cdn_store_inv [OF laws _ that(3), of sha xs c' now resp] cdn_get_inv [OF laws, of sha cfg xs c now k] inv that
    by (simp add: st x)
  show ?thesis
    using keep bypass get store
    by (auto simp: exchange_step_def x st proxyRequest_def u Let_def split: option.split res.split prod.split)
qed

lemma exchanges_inv:
  assumes "cache_laws ops" and "\<forall>k c. cm = Some c \<longrightarrow> co_get ops k (cn_cache c) = None"
  shows "cache_inv sha ops cfg xs (snd (exchanges sha ops cfg xs (um, cm)))"
proof (induction xs rule: rev_induct)
  case Nil
  then show ?case using assms(2) by (simp add: exchanges_def cache_inv_def split: option.split)
next
  case (snoc x xs)
  then show ?case
    using exchange_inv [OF assms(1), of sha cfg xs "exchanges sha ops cfg xs (um, cm)" x] by (simp add: exchanges_def)
qed

lemma from_cache:
  assumes "fst (proxyRequest sha ops cfg url_ok answer now r um cm) = FromCache v"
  shows "\<exists>c. cm = Some c \<and> co_get ops (generateCacheKey sha r) (cn_cache c) = Some v \<and> now \<le> ca_Expiry v"
  using assms
  by (auto simp: proxyRequest_def Let_def cdn_get_def time_after_def
      split: prod.splits res.splits option.splits if_splits)

section \<open>Properties\<close>

text \<open>
  The balancer takes the backends in turn: with all of them alive, as many calls as there are backends
  serve each of them once, whatever weights are configured; a backend that is down is never chosen, and the
  only error of a pool with backends is that all are down.
\<close>

theorem round_robin_is_even:
  assumes "\<forall>b \<in> set (po_Backends p). be_IsAlive b" and "po_Backends p \<noteq> []" and "po_Current p < length (po_Backends p)"
  shows "mset (serve (length (po_Backends p)) p) = mset (map be_URL (po_Backends p)) \<and>
    (\<forall>q u. po_Backends q \<noteq> [] \<longrightarrow>
       (fst (pool_next q) = Ok u \<longrightarrow> (\<exists>b \<in> set (po_Backends q). be_IsAlive b \<and> be_URL b = u)) \<and>
       (fst (pool_next q) = Fail NoUpstreamAlive \<longleftrightarrow> (\<forall>b \<in> set (po_Backends q). \<not> be_IsAlive b)))"
proof -
  have "serve (length (po_Backends p)) p =
      map (\<lambda>i. map be_URL (po_Backends p) ! ((po_Current p + i) mod length (po_Backends p))) [0..<length (po_Backends p)]"
    using serve_all_alive [OF assms] assms(2) by simp
  then have "mset (serve (length (po_Backends p)) p) = mset (map be_URL (po_Backends p))"
    using mset_rotation [of "po_Current p" "map be_URL (po_Backends p)"] assms(3) by simp
  moreover have "fst (pool_next q) = Fail NoUpstreamAlive \<longleftrightarrow> (\<forall>b \<in> set (po_Backends q). \<not> be_IsAlive b)"
    if "po_Backends q \<noteq> []" for q
  proof -
    have "fst (pool_next q) = Fail NoUpstreamAlive \<longleftrightarrow>
        next_alive (po_Backends q) (po_Current q) 0 (length (po_Backends q)) = None"
      using that by (simp add: pool_next_def split: option.split)
    then show ?thesis using that next_alive_some next_alive_sound nth_mem by (metis not_None_eq)
  qed
  moreover have "\<exists>b \<in> set (po_Backends q). be_IsAlive b \<and> be_URL b = u"
    if "po_Backends q \<noteq> []" "fst (pool_next q) = Ok u" for q u
    using that by (auto simp: pool_next_def split: option.splits dest!: next_alive_sound)
  ultimately show ?thesis by blast
qed

definition two_backends :: pool where
  "two_backends = \<lparr>po_Backends = map new_backend [(''http://a'', 1), (''http://b'', 9)], po_Current = 1\<rparr>"

theorem round_robin_is_even_witness:
  "mset (serve 2 two_backends) = {# ''http://a'', ''http://b'' #}"
proof -
  have "length (po_Backends two_backends) = 2" and "\<forall>b \<in> set (po_Backends two_backends). be_IsAlive b"
    and "po_Backends two_backends \<noteq> []" and "po_Current two_backends < 2"
    and "map be_URL (po_Backends two_backends) = [''http://a'', ''http://b'']"
    by (simp_all add: two_backends_def new_backend_def)
  then show ?thesis using round_robin_is_even [of two_backends] by simp
qed

text \<open>
  A backend is taken out exactly when its last three checks failed: after any checks of a backend that
  starts alive it is alive if and only if fewer than three at the end were failures, and one that succeeds
  brings it back; 500, 502, 504 and no answer are failures, every other status is a success.
\<close>

theorem backend_health:
  assumes "\<forall>pr \<in> set ps. pr \<noteq> BadURL"
  shows "(be_IsAlive (check_run ps (new_backend u)) \<longleftrightarrow>
      length (takeWhile (\<lambda>pr. pr \<in> {NoAnswer, Status 500, Status 502, Status 504}) (rev ps)) < 3) \<and>
    be_IsAlive (check_run (ps @ [Status 200]) (new_backend u))"
proof -
  have "failing pr \<longleftrightarrow> pr \<in> {NoAnswer, Status 500, Status 502, Status 504}" for pr
    by (cases pr) (auto simp: failing_def)
  then have "failing = (\<lambda>pr. pr \<in> {NoAnswer, Status 500, Status 502, Status 504})" by blast
  then show ?thesis
    using health_run [OF assms, of u] by (simp add: failing_run_def check_run_snoc check_backend_def)
qed

theorem backend_health_witness:
  "be_IsAlive (check_run [NoAnswer, NoAnswer] (new_backend (''u'', 1))) \<and>
   \<not> be_IsAlive (check_run [Status 200, NoAnswer, Status 502, NoAnswer] (new_backend (''u'', 1)))"
  using backend_health [of "[NoAnswer, NoAnswer]" "(''u'', 1)"]
    backend_health [of "[Status 200, NoAnswer, Status 502, NoAnswer]" "(''u'', 1)"] by simp


text \<open>A cache that keeps everything, as an association list.\<close>

definition list_cache :: "cached_response smap cache_ops" where
  "list_cache =
     \<lparr>co_get = (\<lambda>k c. map_of c k), co_set = (\<lambda>k v cost ttl. AList.update k v), co_del = AList.delete, co_clear = (\<lambda>c. [])\<rparr>"

definition sample_cdn :: "cached_response smap cdn" where
  "sample_cdn = \<lparr>cn_cache = [], cn_Hits = 0, cn_Misses = 0, cn_Bypasses = 0\<rparr>"

definition sample_proxy :: proxy_config where
  "sample_proxy =
     \<lparr>px_WebSocket = False, px_CDNEnabled = True,
      px_cdn = \<lparr>cc_StaticExtensions = [''.css''], cc_BypassRules = [], cc_BypassCookies = [], cc_BypassHeaders = []\<rparr>\<rparr>"

definition css_request :: request where "css_request = get_request\<lparr>r_path := ''/a.css''\<rparr>"

definition css_answer :: backend_response where
  "css_answer = \<lparr>br_StatusCode = 200, br_Header = [], br_Body = Some [1]\<rparr>"


end
