(* ===== verification/Shield.thy ===== *)
theory Shield
  imports Pipeline Attack
begin

text \<open>
  The server of \<open>packages/mango-waf/core/server.go\<close>: its request handler around the pipeline, the hook on the
  state of connections, and the bodies of its four workers, one tick at a time. Requests, connection events
  and ticks come in any order; each is one step on the state. What an allowed request gets is the concern
  of theory Edge; here it is the answer \<open>Proxied\<close>.
\<close>

section \<open>State\<close>

record shield =
  sh_pipeline :: pipeline
  sh_fpStore :: "fp_store option"
  sh_TotalRequests :: int
  sh_BlockedRequests :: int
  sh_ChallengedReqs :: int
  sh_PassedRequests :: int
  sh_ActiveConns :: int
  sh_PeakRPS :: int
  sh_AttacksDetected :: int
  sh_AttackStartTime :: gtime
  sh_lastTotal :: int         \<comment> \<open>local to \<open>rpsCounter\<close>\<close>
  sh_normalCount :: int       \<comment> \<open>local to \<open>attackDetector\<close>\<close>

datatype reply =
  RedirectBack string "set_cookie option"
| Proxied
| Page page int
| Forbidden
| Closed

record handler_env =
  he_outside :: outside
  he_sha :: digest_fun
  he_random :: "byte list"

section \<open>The request handler\<close>

definition count_reply :: "pl_action \<Rightarrow> shield \<Rightarrow> shield" where
  "count_reply a s =
     (case ac_Type a of
        ActionAllow \<Rightarrow> s\<lparr>sh_PassedRequests := sh_PassedRequests s + 1\<rparr>
      | ActionChallenge \<Rightarrow> s\<lparr>sh_ChallengedReqs := sh_ChallengedReqs s + 1\<rparr>
      | _ \<Rightarrow> s\<lparr>sh_BlockedRequests := sh_BlockedRequests s + 1\<rparr>)"

definition reply_of :: "pl_config \<Rightarrow> handler_env \<Rightarrow> request \<Rightarrow> pl_action \<Rightarrow> reply" where
  "reply_of cfg he r a =
     (case ac_Type a of
        ActionAllow \<Rightarrow> Proxied
      | ActionChallenge \<Rightarrow>
          (let (pg, status) = serveChallenge (ou_hmac (he_outside he)) (pc_chall cfg) (ou_now (he_outside he)) (he_random he) r
                 (ac_Stage a) (ac_Difficulty a)
           in Page pg status)
      | ActionBlock \<Rightarrow> Forbidden
      | ActionDrop \<Rightarrow> Closed)"

text \<open>The part of the handler after the verification of a challenge.\<close>

definition inspect_request :: "pl_config \<Rightarrow> handler_env \<Rightarrow> request \<Rightarrow> string \<Rightarrow> shield \<Rightarrow> reply \<times> shield" where
  "inspect_request cfg he r ip s =
     (let (fp, store) = (case sh_fpStore s of
                           None \<Rightarrow> (None, None)
                         | Some fs \<Rightarrow> (let (fp, fs) = getCompositeForRequest (r_remoteAddr r) (user_agent r) fs in (fp, Some fs)));
          (a, p) = process cfg (he_outside he) r ip fp (sh_pipeline s);
          s = s\<lparr>sh_fpStore := store, sh_pipeline := p\<rparr>
      in case a of
           Some a \<Rightarrow> (reply_of cfg he r a, count_reply a s)
         | None \<Rightarrow> (Proxied, s))"

text \<open>\<open>handleRequest\<close>; a panic in the verification of a challenge ends the connection.\<close>

definition handleRequest :: "pl_config \<Rightarrow> handler_env \<Rightarrow> request \<Rightarrow> shield \<Rightarrow> (unit, reply) res \<times> shield" where
  "handleRequest cfg he r s =
     (let s = s\<lparr>sh_TotalRequests := sh_TotalRequests s + 1\<rparr>; ip = extractIP r;
          go_on = (let (rep, s) = inspect_request cfg he r ip s in (Ok rep, s))
      in if r_method r = ''POST'' \<and> form_value r ''challenge_type'' \<noteq> []
         then case handleVerification (he_sha he) (ou_hmac (he_outside he)) (pc_chall cfg) (ou_now (he_outside he)) r ip of
                Panic \<Rightarrow> (Panic, s)
              | Ok (ok, c) \<Rightarrow> if ok then (Ok (RedirectBack (r_url r) c), s) else go_on
              | Fail _ \<Rightarrow> go_on
         else go_on)"

section \<open>Connections\<close>

definition on_ip_tables :: "(ip_tables \<Rightarrow> ip_tables) \<Rightarrow> shield \<Rightarrow> shield" where
  "on_ip_tables f s = s\<lparr>sh_pipeline := on_tables f (sh_pipeline s)\<rparr>"

text \<open>\<open>ConnState\<close> for a new connection: whether it is kept open.\<close>

definition conn_new :: "pl_config \<Rightarrow> gtime \<Rightarrow> string \<Rightarrow> shield \<Rightarrow> bool \<times> shield" where
  "conn_new cfg now ip s =
     (let s = s\<lparr>sh_ActiveConns := sh_ActiveConns s + 1\<rparr>;
          (rate_ok, tables) = checkConnRate now ip (pp_tables (sh_pipeline s));
          s = on_ip_tables (\<lambda>_. tables) s
      in if \<not> rate_ok then (False, on_ip_tables (banIP (pc_bans cfg) now ip (pc_BanDuration cfg)) s)
         else let (n, tables) = incrementConnCount ip (pp_tables (sh_pipeline s));
                  s = on_ip_tables (\<lambda>_. tables) s
              in if pc_MaxPerIP cfg < n
                 then (False, on_ip_tables (banIP (pc_bans cfg) now ip (pc_BanDuration cfg)) s)
                 else (True, s))"

text \<open>\<open>ConnState\<close> for a connection that is closed or hijacked.\<close>

definition conn_closed :: "string \<Rightarrow> shield \<Rightarrow> shield" where
  "conn_closed ip s =
     on_ip_tables (\<lambda>t. snd (decrementConnCount ip t)) (s\<lparr>sh_ActiveConns := sh_ActiveConns s - 1\<rparr>)"

section \<open>Workers\<close>

definition rps_tick :: "shield \<Rightarrow> shield" where
  "rps_tick s =
     (let rps = sh_TotalRequests s - sh_lastTotal s;
          s = s\<lparr>sh_lastTotal := sh_TotalRequests s, sh_pipeline := (sh_pipeline s)\<lparr>pp_CurrentRPS := rps\<rparr>\<rparr>
      in if sh_PeakRPS s < rps then s\<lparr>sh_PeakRPS := rps\<rparr> else s)"

datatype alert_sent = AttackStarted int | AttackEnded duration int

definition attack_tick :: "pl_config \<Rightarrow> gtime \<Rightarrow> shield \<Rightarrow> alert_sent option \<times> shield" where
  "attack_tick cfg now s =
     (let p = sh_pipeline s; rps = pp_CurrentRPS p in
      if pc_RPSThreshold cfg < rps
      then let s = s\<lparr>sh_normalCount := 0\<rparr>
           in if \<not> pp_underAttack p
              then (Some (AttackStarted rps),
                    s\<lparr>sh_pipeline := p\<lparr>pp_underAttack := True\<rparr>, sh_AttackStartTime := now,
                      sh_AttacksDetected := sh_AttacksDetected s + 1\<rparr>)
              else (None, s)
      else if pp_underAttack p
      then let s = s\<lparr>sh_normalCount := sh_normalCount s + 1\<rparr>
           in if 10 \<le> sh_normalCount s
              then (Some (AttackEnded (time_sub now (sh_AttackStartTime s)) (sh_BlockedRequests s)),
                    s\<lparr>sh_pipeline := p\<lparr>pp_underAttack := False\<rparr>, sh_normalCount := 0\<rparr>)
              else (None, s)
      else (None, s))"

definition cleanup_tick :: "pl_config \<Rightarrow> gtime \<Rightarrow> shield \<Rightarrow> shield" where
  "cleanup_tick cfg now s =
     (let p = sh_pipeline s;
          p = p\<lparr>pp_tables := it_cleanup (pc_bans cfg) now (pp_tables p),
                pp_det := map_option (cleanupSessions (pc_det cfg) now) (pp_det p),
                pp_behavior := map_option (behavior_cleanup now (10 * minute)) (pp_behavior p),
                pp_botClass := map_option (classifier_cleanup now) (pp_botClass p)\<rparr>
      in s\<lparr>sh_pipeline := p\<rparr>)"

definition sampler_tick :: "gtime \<Rightarrow> nat \<Rightarrow> shield \<Rightarrow> shield" where
  "sampler_tick now hr s =
     (let p = sh_pipeline s; rps = f_of_int (pp_CurrentRPS p); conns = f_of_int (sh_ActiveConns s);
          p = p\<lparr>pp_det := map_option (\<lambda>e. setGlobalRPS (f_to_int rps) (recordRPSSample now rps e)) (pp_det p),
                pp_adaptive := map_option (recordSample now hr rps conns 0) (pp_adaptive p)\<rparr>
      in s\<lparr>sh_pipeline := p\<rparr>)"

section \<open>Runs of the server\<close>

datatype event =
  Request handler_env request
| ConnNew gtime string
| ConnClosed string
| RpsTick
| AttackTick gtime
| CleanupTick gtime
| SamplerTick gtime nat

fun shield_step :: "pl_config \<Rightarrow> event \<Rightarrow> shield \<Rightarrow> (unit, reply) res option \<times> shield" where
  "shield_step cfg (Request he r) s = (let (rep, s) = handleRequest cfg he r s in (Some rep, s))"
| "shield_step cfg (ConnNew now ip) s = (None, snd (conn_new cfg now ip s))"
| "shield_step cfg (ConnClosed ip) s = (None, conn_closed ip s)"
| "shield_step cfg RpsTick s = (None, rps_tick s)"
| "shield_step cfg (AttackTick now) s = (None, snd (attack_tick cfg now s))"
| "shield_step cfg (CleanupTick now) s = (None, cleanup_tick cfg now s)"
| "shield_step cfg (SamplerTick now hr) s = (None, sampler_tick now hr s)"

text \<open>The replies of a run, in order, and the state after it.\<close>

fun shield_run :: "pl_config \<Rightarrow> event list \<Rightarrow> shield \<Rightarrow> (unit, reply) res list \<times> shield" where
  "shield_run cfg [] s = ([], s)"
| "shield_run cfg (e # es) s =
     (let (rep, s) = shield_step cfg e s; (reps, s) = shield_run cfg es s
      in (case rep of None \<Rightarrow> reps | Some x \<Rightarrow> x # reps, s))"

definition newShield :: "pipeline \<Rightarrow> fp_store option \<Rightarrow> shield" where
  "newShield p fs =
     \<lparr>sh_pipeline = p, sh_fpStore = fs, sh_TotalRequests = 0, sh_BlockedRequests = 0, sh_ChallengedReqs = 0,
      sh_PassedRequests = 0, sh_ActiveConns = 0, sh_PeakRPS = 0, sh_AttacksDetected = 0,
      sh_AttackStartTime = zero_time, sh_lastTotal = 0, sh_normalCount = 0\<rparr>"

section \<open>Accounting of requests\<close>

definition unaccounted :: "(unit, reply) res \<Rightarrow> bool" where
  "unaccounted rep \<longleftrightarrow> (case rep of Ok (RedirectBack _ _) \<Rightarrow> True | Panic \<Rightarrow> True | _ \<Rightarrow> False)"

definition decided :: "shield \<Rightarrow> int" where
  "decided s = sh_PassedRequests s + sh_ChallengedReqs s + sh_BlockedRequests s"

lemma inspect_request_counts:
  "decided (snd (inspect_request cfg he r ip s)) = decided s + 1 \<and>
   sh_TotalRequests (snd (inspect_request cfg he r ip s)) = sh_TotalRequests s \<and>
   \<not> unaccounted (Ok (fst (inspect_request cfg he r ip s)))"
proof -
  define f where "f = (case sh_fpStore s of None \<Rightarrow> (None, None)
      | Some fs \<Rightarrow> (let (fp, fs) = getCompositeForRequest (r_remoteAddr r) (user_agent r) fs in (fp, Some fs)))"
  obtain a q where a: "process cfg (he_outside he) r ip (fst f) (sh_pipeline s) = (Some a, q)"
    using process_decides [of cfg "he_outside he" r ip "fst f" "sh_pipeline s"] by (metis eq_fst_iff not_None_eq)
  have "inspect_request cfg he r ip s =
      (reply_of cfg he r a, count_reply a (s\<lparr>sh_fpStore := snd f, sh_pipeline := q\<rparr>))"
    by (simp add: inspect_request_def Let_def split_beta a flip: f_def)
  then show ?thesis
    by (auto simp: count_reply_def reply_of_def decided_def unaccounted_def Let_def split: action_type.split prod.split)
qed

lemma handleRequest_counts:
  "sh_TotalRequests (snd (handleRequest cfg he r s)) = sh_TotalRequests s + 1 \<and>
   decided (snd (handleRequest cfg he r s)) =
     decided s + (if unaccounted (fst (handleRequest cfg he r s)) then 0 else 1)"
proof -
  let ?s = "s\<lparr>sh_TotalRequests := sh_TotalRequests s + 1\<rparr>"
  have "decided ?s = decided s" by (simp add: decided_def)
  then show ?thesis
    using inspect_request_counts [of cfg he r "extractIP r" ?s]
    by (auto simp: handleRequest_def Let_def split_beta unaccounted_def split: res.split)
qed

lemma other_steps_count:
  "decided (snd (conn_new cfg now ip s)) = decided s \<and> sh_TotalRequests (snd (conn_new cfg now ip s)) = sh_TotalRequests s"
  "decided (conn_closed ip s) = decided s \<and> sh_TotalRequests (conn_closed ip s) = sh_TotalRequests s"
  "decided (rps_tick s) = decided s \<and> sh_TotalRequests (rps_tick s) = sh_TotalRequests s"
  "decided (snd (attack_tick cfg now s)) = decided s \<and> sh_TotalRequests (snd (attack_tick cfg now s)) = sh_TotalRequests s"
  "decided (cleanup_tick cfg now s) = decided s \<and> sh_TotalRequests (cleanup_tick cfg now s) = sh_TotalRequests s"
  "decided (sampler_tick now hr s) = decided s \<and> sh_TotalRequests (sampler_tick now hr s) = sh_TotalRequests s"
  by (simp_all add: decided_def conn_new_def conn_closed_def rps_tick_def attack_tick_def cleanup_tick_def
      sampler_tick_def on_ip_tables_def Let_def split_beta)

lemma shield_step_counts:
  "sh_TotalRequests (snd (shield_step cfg e s)) = sh_TotalRequests s + (if fst (shield_step cfg e s) = None then 0 else 1) \<and>
   decided (snd (shield_step cfg e s)) = decided s +
     (case fst (shield_step cfg e s) of None \<Rightarrow> 0 | Some rep \<Rightarrow> if unaccounted rep then 0 else 1)"
  using handleRequest_counts by (cases e) (simp_all add: other_steps_count split_beta Let_def)

lemma shield_run_counts:
  "sh_TotalRequests (snd (shield_run cfg es s)) = sh_TotalRequests s + int (length (fst (shield_run cfg es s))) \<and>
   decided (snd (shield_run cfg es s)) =
     decided s + int (length (filter (\<lambda>rep. \<not> unaccounted rep) (fst (shield_run cfg es s))))"
proof (induction es arbitrary: s)
  case (Cons e es)
  then show ?case
    using shield_step_counts [of cfg e s] Cons.IH [of "snd (shield_step cfg e s)"]
    by (simp add: split_beta Let_def split: option.split)
qed simp

section \<open>Accounting of connections\<close>

lemma with_state_connCount [simp]: "it_connCount (pp_tables (snd (with_state ou ip f p))) = it_connCount (pp_tables p)"
  by (simp add: with_state_def getState_def put_state_def Let_def)

lemma ban_for_connCount [simp]: "it_connCount (pp_tables (ban_for cfg ou ip d p)) = it_connCount (pp_tables p)"
  by (simp add: ban_for_def on_tables_def)

lemma isBanned_connCount [simp]: "it_connCount (snd (isBanned now ip t)) = it_connCount t"
  by (simp add: isBanned_def split: option.split)

lemma whitelisted_connCount [simp]: "it_connCount (pp_tables (snd (whitelisted cfg ou ip p))) = it_connCount (pp_tables p)"
  by (simp add: whitelisted_def pl_isWhitelisted_def dynamic_whitelisted_def Let_def split_beta split: option.split)

definition keeps_conns :: "pipeline \<Rightarrow> outcome \<Rightarrow> bool" where
  "keeps_conns p o' \<longleftrightarrow> it_connCount (pp_tables (snd o')) = it_connCount (pp_tables p)"

lemma lay_keeps: "keeps_conns p o' \<Longrightarrow> (\<And>q. keeps_conns q (k q)) \<Longrightarrow> keeps_conns p (lay o' k)"
  by (cases o'; cases "fst o'") (auto simp: keeps_conns_def)

lemma layers_keep:
  "keeps_conns p (l_banned ou ip p)" "keeps_conns p (l_emergency cfg ou ip p)" "keeps_conns p (l_connlimit cfg ou ip p)"
  "keeps_conns p (l_validate cfg ou r ip p)" "keeps_conns p (l_basic cfg r p)"
  "keeps_conns p (l_fingerprint cfg ou fp ip p)" "keeps_conns p (l_intel cfg ou ip p)" "keeps_conns p (l_rate cfg ou ip p)"
  "keeps_conns p (l_whitelist cfg ou ip p)" "keeps_conns p (l_waf cfg ou r ip p)" "keeps_conns p (l_bot cfg ou r fp v ip p)"
  "keeps_conns p (l_session cfg ou r ip p)" "keeps_conns p (l_detrate cfg ou ip p)" "keeps_conns p (l_stage cfg ou r fp ip p)"
  by (simp_all add: keeps_conns_def l_banned_def l_emergency_def l_connlimit_def l_validate_def l_basic_def l_fingerprint_def
      l_intel_def l_rate_def l_whitelist_def l_waf_def l_bot_def l_session_def l_detrate_def l_stage_def
      on_tables_def Let_def split_beta split: option.split)

lemma behavior_keeps: "keeps_conns p (l_behavior cfg ou r fp ip p)"
proof -
  have "it_connCount (pp_tables (snd (analyze_behavior ou r ip p))) = it_connCount (pp_tables p)"
    by (simp add: analyze_behavior_def split_beta split: option.split)
  then show ?thesis
    using layers_keep(11) by (simp add: keeps_conns_def l_behavior_def split_beta Let_def split: option.split)
qed

lemma process_keeps: "keeps_conns p (process cfg ou r ip fp p)"
  unfolding process_def by (intro lay_keeps layers_keep behavior_keeps)

definition conns :: "string \<Rightarrow> shield \<Rightarrow> int" where
  "conns ip s = getConnCount ip (pp_tables (sh_pipeline s))"

lemma conns_handleRequest [simp]: "conns ip (snd (handleRequest cfg he r s)) = conns ip s"
proof -
  have "conns ip (snd (inspect_request cfg he r i s)) = conns ip s" for i s
    using process_keeps by (auto simp: inspect_request_def conns_def getConnCount_def keeps_conns_def count_reply_def
        Let_def split_beta split: option.split action_type.split)
  then show ?thesis
    by (auto simp: handleRequest_def Let_def split_beta conns_def split: res.split)
qed

lemma checkConnRate_connCount [simp]: "it_connCount (snd (checkConnRate now ip t)) = it_connCount t"
  by (simp add: checkConnRate_def getState_def put_state_def Let_def split_beta)

lemma conns_new:
  "conns ip' (snd (conn_new cfg now ip s)) =
     (if ip' = ip \<and> fst (checkConnRate now ip (pp_tables (sh_pipeline s))) then conns ip' s + 1 else conns ip' s)"
  by (auto simp: conn_new_def conns_def getConnCount_def incrementConnCount_def on_ip_tables_def on_tables_def Let_def split_beta)

lemma conns_closed: "conns ip' (conn_closed ip s) = (if ip' = ip \<and> conns ip s \<noteq> 0 then max 0 (conns ip s - 1) else conns ip' s)"
  by (auto simp: conn_closed_def conns_def getConnCount_def decrementConnCount_def on_ip_tables_def on_tables_def Let_def
      split: option.splits)

lemma conns_ticks [simp]:
  "conns ip (rps_tick s) = conns ip s" "conns ip (snd (attack_tick cfg now s)) = conns ip s"
  "conns ip (cleanup_tick cfg now s) = conns ip s" "conns ip (sampler_tick now hr s) = conns ip s"
  by (simp_all add: conns_def getConnCount_def rps_tick_def attack_tick_def cleanup_tick_def sampler_tick_def cleanup_fields(5) Let_def)

text \<open>
  The states that events can reach, with the number of connections of each address that are open at the
  operating system: a connection closes once, after it was new.
\<close>

inductive conn_reach :: "pl_config \<Rightarrow> shield \<Rightarrow> (string \<Rightarrow> nat) \<Rightarrow> bool" for cfg :: pl_config where
  start: "it_connCount (pp_tables p) = [] \<Longrightarrow> conn_reach cfg (newShield p fs) (\<lambda>_. 0)"
| opened: "conn_reach cfg s n \<Longrightarrow> conn_reach cfg (snd (conn_new cfg now ip s)) (n(ip := n ip + 1))"
| closed: "conn_reach cfg s n \<Longrightarrow> 0 < n ip \<Longrightarrow> conn_reach cfg (conn_closed ip s) (n(ip := n ip - 1))"
| request: "conn_reach cfg s n \<Longrightarrow> conn_reach cfg (snd (handleRequest cfg he r s)) n"
| rps: "conn_reach cfg s n \<Longrightarrow> conn_reach cfg (rps_tick s) n"
| attack: "conn_reach cfg s n \<Longrightarrow> conn_reach cfg (snd (attack_tick cfg now s)) n"
| cleanup: "conn_reach cfg s n \<Longrightarrow> conn_reach cfg (cleanup_tick cfg now s) n"
| sampler: "conn_reach cfg s n \<Longrightarrow> conn_reach cfg (sampler_tick now hr s) n"

lemma conn_reach_bound: "conn_reach cfg s n \<Longrightarrow> 0 \<le> conns ip s \<and> conns ip s \<le> int (n ip)"
proof (induction rule: conn_reach.induct)
  case (start p fs)
  then show ?case by (simp add: conns_def getConnCount_def newShield_def)
next
  case (closed s n ip')
  then show ?case by (cases "n ip'") (auto simp: conns_closed)
qed (auto simp: conns_new)

section \<open>The attack flag\<close>

text \<open>A second of the server as the detector sees it: the measured rate, then its tick.\<close>

definition second_tick :: "pl_config \<Rightarrow> gtime \<times> int \<Rightarrow> shield \<Rightarrow> shield" where
  "second_tick cfg x s =
     snd (attack_tick cfg (fst x) (s\<lparr>sh_pipeline := (sh_pipeline s)\<lparr>pp_CurrentRPS := snd x\<rparr>\<rparr>))"

definition calm_run :: "int \<Rightarrow> (gtime \<times> int) list \<Rightarrow> nat" where
  "calm_run threshold xs = length (takeWhile (\<lambda>x. snd x \<le> threshold) (rev xs))"

definition attacked :: "int \<Rightarrow> (gtime \<times> int) list \<Rightarrow> bool" where
  "attacked threshold xs \<longleftrightarrow> (\<exists>x \<in> set xs. threshold < snd x) \<and> calm_run threshold xs < 10"

lemma calm_run_snoc: "calm_run t (xs @ [x]) = (if snd x \<le> t then calm_run t xs + 1 else 0)"
  by (simp add: calm_run_def)

lemma attack_flag:
  assumes "\<not> pp_underAttack (sh_pipeline s)" and "sh_normalCount s = 0"
  shows "pp_underAttack (sh_pipeline (fold (second_tick cfg) xs s)) = attacked (pc_RPSThreshold cfg) xs \<and>
    sh_normalCount (fold (second_tick cfg) xs s) =
      (if attacked (pc_RPSThreshold cfg) xs then int (calm_run (pc_RPSThreshold cfg) xs) else 0)"
proof (induction xs rule: rev_induct)
  case Nil
  then show ?case using assms by (simp add: attacked_def)
next
  case (snoc x xs)
  let ?t = "pc_RPSThreshold cfg" and ?s = "fold (second_tick cfg) xs s"
  have step: "pp_underAttack (sh_pipeline (second_tick cfg x ?s)) =
      (if ?t < snd x then True else pp_underAttack (sh_pipeline ?s) \<and> sh_normalCount ?s + 1 < 10)"
    "sh_normalCount (second_tick cfg x ?s) =
      (if ?t < snd x then 0 else if pp_underAttack (sh_pipeline ?s) \<and> sh_normalCount ?s + 1 < 10
       then sh_normalCount ?s + 1 else if pp_underAttack (sh_pipeline ?s) then 0 else sh_normalCount ?s)"
    by (auto simp: second_tick_def attack_tick_def Let_def)
  have "attacked ?t (xs @ [x]) = (?t < snd x \<or> (attacked ?t xs \<and> calm_run ?t xs + 1 < 10))"
    by (auto simp: attacked_def calm_run_snoc)
  then show ?case using snoc.IH step by (auto simp: calm_run_snoc split: if_splits)
qed

section \<open>Properties\<close>

text \<open>
  C14: Every request is accounted for once: in any run of the server from its start, with connections, ticks
  and requests in any order, the total is the number of requests, and all but those that passed a challenge
  form or crashed its verification are counted as passed, challenged or blocked.
\<close>

theorem requests_are_accounted:
  assumes "shield_run cfg es (newShield p fs) = (replies, s)"
  shows "sh_TotalRequests s = int (length replies) \<and>
    sh_PassedRequests s + sh_ChallengedReqs s + sh_BlockedRequests s =
      sh_TotalRequests s - int (length (filter unaccounted replies))"
proof -
  have "int (length replies) = int (length (filter unaccounted replies)) + int (length (filter (\<lambda>r. \<not> unaccounted r) replies))"
    using sum_length_filter_compl [of unaccounted replies] by linarith
  then show ?thesis
    using shield_run_counts [of cfg es "newShield p fs"] assms by (simp add: newShield_def decided_def)
qed

definition sample_env :: handler_env where
  "sample_env = \<lparr>he_outside = sample_outside, he_sha = (\<lambda>s. replicate 32 0), he_random = []\<rparr>"

theorem requests_are_accounted_witness:
  "sh_TotalRequests (snd (shield_run sample_pl_config [Request sample_env get_request, RpsTick] (newShield bare_pipeline None))) =
   int (length (fst (shield_run sample_pl_config [Request sample_env get_request, RpsTick] (newShield bare_pipeline None))))"
  using requests_are_accounted [of sample_pl_config "[Request sample_env get_request, RpsTick]" bare_pipeline None]
  by (metis prod.collapse)

text \<open>
  The connection count of an address never exceeds its open connections, in any order of events, so the
  limit refuses no one early. But a connection that is refused for the rate of its address is not counted when
  it opens and still counted off when it closes, so each of them makes room for one more.
\<close>

theorem connections_are_undercounted:
  assumes "conn_reach cfg s n"
  shows "0 \<le> conns ip s \<and> conns ip s \<le> int (n ip) \<and>
    (\<not> fst (checkConnRate now ip (pp_tables (sh_pipeline s))) \<and> 0 < conns ip s \<longrightarrow>
       conns ip (conn_closed ip (snd (conn_new cfg now ip s))) = conns ip s - 1)"
  using conn_reach_bound [OF assms, of ip] by (simp add: conns_closed conns_new)

theorem connections_are_undercounted_witness:
  "conns ''a'' (snd (conn_new sample_pl_config 0 ''a'' (newShield bare_pipeline None))) \<le> 1"
proof -
  have "conn_reach sample_pl_config (newShield bare_pipeline None) (\<lambda>_. 0)"
    by (rule conn_reach.start) (simp add: bare_pipeline_def emptyTables_def)
  then show ?thesis
    using connections_are_undercounted [OF conn_reach.opened, of sample_pl_config "newShield bare_pipeline None" "\<lambda>_. 0" "''a''" 0 "''a''"]
    by simp
qed

text \<open>
  Attack mode is entered in the second the rate exceeds the threshold and left after ten seconds in a row
  at or below it: after any seconds from a calm state the flag is set exactly when some second exceeded the
  threshold and fewer than ten have passed since the last that did. So it always ends once the flood does.
\<close>

theorem attack_mode_window:
  assumes "\<not> pp_underAttack (sh_pipeline s)" and "sh_normalCount s = 0"
  shows "pp_underAttack (sh_pipeline (fold (second_tick cfg) xs s)) \<longleftrightarrow>
    (\<exists>x \<in> set xs. pc_RPSThreshold cfg < snd x) \<and>
    length (takeWhile (\<lambda>x. snd x \<le> pc_RPSThreshold cfg) (rev xs)) < 10"
  using attack_flag [OF assms, of cfg xs] by (simp add: attacked_def calm_run_def)

theorem attack_mode_window_witness:
  "pp_underAttack (sh_pipeline (fold (second_tick sample_pl_config) [(0, 5000), (1, 3)] (newShield bare_pipeline None)))"
  using attack_mode_window [of "newShield bare_pipeline None" sample_pl_config "[(0, 5000), (1, 3)]"]
  by (simp add: newShield_def bare_pipeline_def sample_pl_config_def)

end
