(* ===== verification/TunnelProto.thy ===== *)
theory TunnelProto
  imports GoSlice
begin

text \<open>
  What the tunnel server and the tunnel client of \<open>packages/proxvn-tunnel\<close> say to each other: the control
  messages (\<open>internal/tunnel/messages.go\<close>), the encryption of UDP payloads (\<open>crypto.go\<close>) and the UDP frames,
  which both programs build and parse with the same two functions.
  A control message goes over the wire as JSON; the model hands the record over, which is what decoding an
  encoded message returns. AES-GCM and the random source are parameters.
\<close>

section \<open>Control messages\<close>

record message =
  mg_Type :: string
  mg_Key :: string
  mg_ClientID :: string
  mg_RemotePort :: int
  mg_RequestedPort :: int
  mg_Target :: string
  mg_ID :: string
  mg_Error :: string
  mg_Version :: string
  mg_Protocol :: string
  mg_RemoteAddr :: string
  mg_Payload :: string
  mg_Subdomain :: string
  mg_Method :: string
  mg_Path :: string
  mg_Headers :: "string smap"
  mg_Body :: "byte list"
  mg_StatusCode :: int
  mg_UDPSecret :: "byte list"   \<comment> \<open>before base64\<close>
  mg_BaseDomain :: string

definition message_of :: "string \<Rightarrow> message" where
  "message_of t =
     \<lparr>mg_Type = t, mg_Key = [], mg_ClientID = [], mg_RemotePort = 0, mg_RequestedPort = 0, mg_Target = [], mg_ID = [],
      mg_Error = [], mg_Version = [], mg_Protocol = [], mg_RemoteAddr = [], mg_Payload = [], mg_Subdomain = [],
      mg_Method = [], mg_Path = [], mg_Headers = [], mg_Body = [], mg_StatusCode = 0, mg_UDPSecret = [],
      mg_BaseDomain = []\<rparr>"

text \<open>\<open>GenerateID\<close> on the sixteen random bytes it reads.\<close>

definition generateID :: "byte list \<Rightarrow> string" where
  "generateID rnd = hex (take 16 rnd)"

section \<open>Encryption of UDP payloads\<close>

text \<open>AES-GCM: sealing and opening under a key and a nonce, without additional data.\<close>

record aead =
  ae_seal :: "byte list \<Rightarrow> byte list \<Rightarrow> byte list \<Rightarrow> byte list"
  ae_open :: "byte list \<Rightarrow> byte list \<Rightarrow> byte list \<Rightarrow> byte list option"

definition aead_ok :: "aead \<Rightarrow> bool" where
  "aead_ok ae \<longleftrightarrow> (\<forall>key nonce p. ae_open ae key nonce (ae_seal ae key nonce p) = Some p)"

datatype crypto_error = InvalidKeySize | CiphertextTooShort | AuthenticationFailed

definition aes_key_size :: "byte list \<Rightarrow> bool" where
  "aes_key_size key \<longleftrightarrow> length key \<in> {16, 24, 32}"

text \<open>\<open>GenerateKey\<close> and \<open>EncryptUDP\<close> on the random bytes they read, 32 and 12.\<close>

definition generateKey :: "byte list \<Rightarrow> byte list" where
  "generateKey rnd = take 32 rnd"

definition encryptUDP :: "aead \<Rightarrow> byte list \<Rightarrow> byte list \<Rightarrow> byte list \<Rightarrow> (crypto_error, byte list) res" where
  "encryptUDP ae nonce key plaintext =
     (if \<not> aes_key_size key then Fail InvalidKeySize else Ok (nonce @ ae_seal ae key nonce plaintext))"

definition decryptUDP :: "aead \<Rightarrow> byte list \<Rightarrow> byte list \<Rightarrow> (crypto_error, byte list) res" where
  "decryptUDP ae key ciphertext =
     (if \<not> aes_key_size key then Fail InvalidKeySize
      else if length ciphertext < 12 then Fail CiphertextTooShort
      else case ae_open ae key (take 12 ciphertext) (drop 12 ciphertext) of
             None \<Rightarrow> Fail AuthenticationFailed
           | Some p \<Rightarrow> Ok p)"

lemma decrypt_encrypt:
  "aead_ok ae \<Longrightarrow> aes_key_size key \<Longrightarrow> length nonce = 12 \<Longrightarrow>
   rbind (encryptUDP ae nonce key p) (decryptUDP ae key) = Ok p"
  by (simp add: encryptUDP_def decryptUDP_def aead_ok_def)

section \<open>UDP frames\<close>

definition udpMsgHandshake :: byte where "udpMsgHandshake = 1"
definition udpMsgData :: byte where "udpMsgData = 2"
definition udpMsgClose :: byte where "udpMsgClose = 3"
definition udpMsgPing :: byte where "udpMsgPing = 4"
definition udpMsgPong :: byte where "udpMsgPong = 5"

lemmas udp_types = udpMsgHandshake_def udpMsgData_def udpMsgClose_def udpMsgPing_def udpMsgPong_def

definition str_bytes :: "string \<Rightarrow> byte list" where
  "str_bytes s = map (\<lambda>c. of_nat (of_char c)) s"

lemma bytes_str_bytes [simp]: "bytes_str (str_bytes s) = s"
proof -
  have "char_of (unat (of_nat (of_char c) :: byte)) = c" for c :: char
  proof -
    have "(of_char c :: nat) < 256" by simp
    then show ?thesis by (simp only: unat_enc_len8) simp
  qed
  then show ?thesis by (auto simp: bytes_str_def str_bytes_def intro!: map_idI)
qed

lemma length_str_bytes [simp]: "length (str_bytes s) = length s"
  by (simp add: str_bytes_def)

text \<open>A length-prefixed field: its text, the offset after it, and whether it is there.\<close>

definition decodeUDPField :: "byte list \<Rightarrow> nat \<Rightarrow> string \<times> nat \<times> bool" where
  "decodeUDPField packet offset =
     (if length packet < offset + 2 then ([], offset, False)
      else let l = unat (be16 (packet ! offset) (packet ! (offset + 1))); offset = offset + 2
           in if length packet < offset + l then ([], offset, False)
              else (bytes_str (take l (drop offset packet)), offset + l, True))"

text \<open>\<open>copy(buf[i:], src)\<close> and \<open>binary.BigEndian.PutUint16(buf[i:], v)\<close>.\<close>

definition copy_at :: "byte list \<Rightarrow> nat \<Rightarrow> byte list \<Rightarrow> byte list" where
  "copy_at buf i src = take i buf @ take (length buf - i) src @ drop (i + length src) buf"

definition put_u16 :: "byte list \<Rightarrow> nat \<Rightarrow> u16 \<Rightarrow> byte list" where
  "put_u16 buf i v = copy_at buf i (enc16 v)"

definition buildUDPMessage :: "byte \<Rightarrow> string \<Rightarrow> string \<Rightarrow> byte list \<Rightarrow> byte list" where
  "buildUDPMessage msgType key sid payload =
     (let keyLen = length key; idLen = length sid;
          total = 1 + 2 + keyLen;
          total = (if msgType \<noteq> udpMsgHandshake then total + (2 + idLen) else total);
          total = total + length payload;
          buf = replicate total 0;
          buf = buf[0 := msgType];
          buf = put_u16 buf 1 (of_nat keyLen);
          buf = copy_at buf 3 (str_bytes key);
          offset = 3 + keyLen;
          (buf, offset) = (if msgType \<noteq> udpMsgHandshake
             then let buf = put_u16 buf offset (of_nat idLen); offset = offset + 2;
                      buf = copy_at buf offset (str_bytes sid)
                  in (buf, offset + idLen)
             else (buf, offset))
      in copy_at buf offset payload)"

lemma copy_at_fill:
  "length pre = i \<Longrightarrow> length src \<le> n \<Longrightarrow> copy_at (pre @ replicate n 0) i src = (pre @ src) @ replicate (n - length src) 0"
  by (simp add: copy_at_def)

text \<open>The frame: the type, the key with its length, the identifier with its length but in a handshake, the payload.\<close>

lemma build_eq:
  "buildUDPMessage t key sid payload =
     [t] @ enc16 (of_nat (length key)) @ str_bytes key @
     (if t = udpMsgHandshake then [] else enc16 (of_nat (length sid)) @ str_bytes sid) @ payload"
proof (cases "t = udpMsgHandshake")
  case True
  have "(replicate (1 + 2 + length key + length payload) 0)[0 := t] =
      [t] @ replicate (2 + length key + length payload) 0"
    by simp
  then show ?thesis
    using True unfolding buildUDPMessage_def put_u16_def Let_def
    by (simp add: copy_at_fill append_assoc [symmetric] del: append_assoc replicate.simps append.simps)
next
  case False
  have "(replicate (1 + 2 + length key + (2 + length sid) + length payload) 0)[0 := t] =
      [t] @ replicate (2 + length key + (2 + length sid) + length payload) 0"
    by simp
  then show ?thesis
    using False unfolding buildUDPMessage_def put_u16_def Let_def
    by (simp add: copy_at_fill append_assoc [symmetric] del: append_assoc replicate.simps append.simps)
qed

text \<open>A field is read back where it was written, when its length fits into sixteen bits.\<close>

lemma decode_field:
  assumes "length s < 65536" and "length pre = i"
  shows "decodeUDPField (pre @ enc16 (of_nat (length s)) @ str_bytes s @ rest) i = (s, i + 2 + length s, True)"
proof -
  let ?v = "of_nat (length s) :: u16"
  have "be16 ((pre @ enc16 ?v @ str_bytes s @ rest) ! i) ((pre @ enc16 ?v @ str_bytes s @ rest) ! (i + 1)) = ?v"
    using assms(2) by (simp add: nth_append enc16_def)
  moreover have "unat ?v = length s"
    using unat_enc_len16 [OF assms(1)] .
  ultimately show ?thesis
    using assms(2) by (simp add: decodeUDPField_def Let_def)
qed

text \<open>The two fields of a frame, as both programs read them.\<close>

lemma build_key:
  assumes "length key < 65536"
  shows "decodeUDPField (buildUDPMessage t key sid payload) 1 = (key, 3 + length key, True)"
    and "buildUDPMessage t key sid payload ! 0 = t" and "\<not> length (buildUDPMessage t key sid payload) < 3"
  using decode_field [OF assms, of "[t]" 1] by (simp_all add: build_eq)

lemma build_id:
  assumes "length sid < 65536" and "t \<noteq> udpMsgHandshake"
  shows "decodeUDPField (buildUDPMessage t key sid payload) (3 + length key) = (sid, 5 + length key + length sid, True)"
    and "drop (5 + length key + length sid) (buildUDPMessage t key sid payload) = payload"
proof -
  have "buildUDPMessage t key sid payload =
      ([t] @ enc16 (of_nat (length key)) @ str_bytes key) @ enc16 (of_nat (length sid)) @ str_bytes sid @ payload"
    using assms(2) by (simp add: build_eq)
  then show "decodeUDPField (buildUDPMessage t key sid payload) (3 + length key) = (sid, 5 + length key + length sid, True)"
    and "drop (5 + length key + length sid) (buildUDPMessage t key sid payload) = payload"
    using decode_field [OF assms(1), of "[t] @ enc16 (of_nat (length key)) @ str_bytes key"]
    by (simp_all add: eval_nat_numeral)
qed

lemma build_rest:
  assumes "t \<noteq> udpMsgHandshake"
  shows "drop (3 + length key) (buildUDPMessage t key sid payload) = enc16 (of_nat (length sid)) @ str_bytes sid @ payload"
  using assms by (simp add: build_eq eval_nat_numeral)

end
