(* ===== verification/TunnelUdp.thy ===== *)
theory TunnelUdp
  imports TunnelProto NetAddr
begin

text \<open>
  The UDP side of the tunnel server, from \<open>cmd/server/main.go\<close>: sessions between a tunnel client and a remote
  address, the frames of the clients and the datagrams of the remotes. An operation returns what it sends and
  closes, in order, and the sessions after it. The reads from the sockets are the steps that call the
  operations; the outcomes of the calls into the network are in the environment.
\<close>

section \<open>Sessions and the environment\<close>

record udp_session =
  us_id :: string
  us_clientKey :: string
  us_udpSecret :: "byte list option"
  us_remoteAddr :: string
  us_clientAddr :: "string option"

type_synonym udp_sessions = "udp_session smap"

datatype udp_out =
    ToClient string "byte list"   \<comment> \<open>a frame to a client's address\<close>
  | ToRemote string "byte list"   \<comment> \<open>a datagram to the remote of a session\<close>
  | RemoteClosed string

record udp_env =
  ue_aead :: aead
  ue_nonce :: "byte list"
  ue_write :: bool                           \<comment> \<open>whether a write to the control socket succeeds\<close>
  ue_remote_write :: bool
  ue_resolve :: "string \<Rightarrow> byte list option"  \<comment> \<open>the IP of \<open>net.ResolveUDPAddr\<close>, empty without a host\<close>
  ue_dial :: bool
  ue_admit :: bool                           \<comment> \<open>the rate limiter of the client's address\<close>

section \<open>Addresses a session may not have\<close>

definition isLoopback :: "byte list \<Rightarrow> bool" where
  "isLoopback ip = (case to4 ip of Some a \<Rightarrow> a ! 0 = 127 | None \<Rightarrow> ip = replicate 15 0 @ [1])"

definition isPrivate :: "byte list \<Rightarrow> bool" where
  "isPrivate ip =
     (case to4 ip of
        Some a \<Rightarrow> a ! 0 = 10 \<or> a ! 0 = 172 \<and> a ! 1 AND 0xF0 = 16 \<or> a ! 0 = 192 \<and> a ! 1 = 168
      | None \<Rightarrow> length ip = 16 \<and> ip ! 0 AND 0xFE = 0xFC)"

definition isMulticast :: "byte list \<Rightarrow> bool" where
  "isMulticast ip =
     (case to4 ip of Some a \<Rightarrow> a ! 0 AND 0xF0 = 0xE0 | None \<Rightarrow> length ip = 16 \<and> ip ! 0 = 0xFF)"

section \<open>Operations\<close>

definition handleUDPClose :: "string \<Rightarrow> udp_sessions \<Rightarrow> udp_out list \<times> udp_sessions" where
  "handleUDPClose sid st =
     (case map_of st sid of
        None \<Rightarrow> ([], st)
      | Some s \<Rightarrow> ([RemoteClosed (us_remoteAddr s)], AList.delete sid st))"

text \<open>\<open>handleUDPOpen\<close> for a client with this key, protocol and secret.\<close>

definition handleUDPOpen ::
  "udp_env \<Rightarrow> string \<Rightarrow> string \<Rightarrow> byte list option \<Rightarrow> message \<Rightarrow> udp_sessions \<Rightarrow> udp_sessions" where
  "handleUDPOpen env key protocol secret msg st =
     (if protocol \<noteq> ''udp'' then st
      else if \<not> ue_admit env then st
      else let remoteAddr = trim_space (mg_RemoteAddr msg) in
        if remoteAddr = [] then st
        else case ue_resolve env remoteAddr of
          None \<Rightarrow> st
        | Some ip \<Rightarrow>
            if isLoopback ip \<or> isPrivate ip \<or> isMulticast ip then st
            else if \<not> ue_dial env then st
            else AList.update (mg_ID msg)
                   \<lparr>us_id = mg_ID msg, us_clientKey = key, us_udpSecret = secret, us_remoteAddr = remoteAddr,
                    us_clientAddr = None\<rparr> st)"

text \<open>\<open>writeUDP\<close>: whether it succeeded, and the frame.\<close>

definition writeUDP :: "udp_env \<Rightarrow> byte \<Rightarrow> string \<Rightarrow> string \<Rightarrow> byte list \<Rightarrow> string \<Rightarrow> bool \<times> udp_out list" where
  "writeUDP env t key sid payload addr =
     (if ue_write env then (True, [ToClient addr (buildUDPMessage t key sid payload)]) else (False, []))"

definition open_payload :: "udp_env \<Rightarrow> byte list option \<Rightarrow> byte list \<Rightarrow> (crypto_error, byte list) res" where
  "open_payload env secret payload =
     (case secret of None \<Rightarrow> Ok payload | Some k \<Rightarrow> decryptUDP (ue_aead env) k payload)"

definition seal_payload :: "udp_env \<Rightarrow> byte list option \<Rightarrow> byte list \<Rightarrow> (crypto_error, byte list) res" where
  "seal_payload env secret payload =
     (case secret of None \<Rightarrow> Ok payload | Some k \<Rightarrow> encryptUDP (ue_aead env) (ue_nonce env) k payload)"

definition handleUDPDataFromClient ::
  "udp_env \<Rightarrow> string \<Rightarrow> string \<Rightarrow> byte list \<Rightarrow> string \<Rightarrow> udp_sessions \<Rightarrow> udp_out list \<times> udp_sessions" where
  "handleUDPDataFromClient env clientKey sid payload addr st =
     (case map_of st sid of
        None \<Rightarrow> ([], st)
      | Some s \<Rightarrow>
          if us_clientKey s \<noteq> clientKey then ([], st)
          else let s = (if us_clientAddr s \<noteq> Some addr then s\<lparr>us_clientAddr := Some addr\<rparr> else s);
                   st = AList.update sid s st
               in case open_payload env (us_udpSecret s) payload of
                    Ok p \<Rightarrow> if ue_remote_write env then ([ToRemote (us_remoteAddr s) p], st) else handleUDPClose sid st
                  | _ \<Rightarrow> ([], st))"

definition sendUDPData ::
  "udp_env \<Rightarrow> string \<Rightarrow> string \<Rightarrow> byte list \<Rightarrow> udp_sessions \<Rightarrow> bool \<times> udp_out list" where
  "sendUDPData env clientKey sid payload st =
     (case map_of st sid of
        None \<Rightarrow> (False, [])
      | Some s \<Rightarrow>
          (case seal_payload env (us_udpSecret s) payload of
             Ok p \<Rightarrow> (case us_clientAddr s of
                        None \<Rightarrow> (True, [])
                      | Some addr \<Rightarrow> writeUDP env udpMsgData clientKey sid p addr)
           | _ \<Rightarrow> (False, [])))"

text \<open>One turn of \<open>readFromUDPRemote\<close> for a session with this key and identifier: the datagram read, or a read error.\<close>

definition udp_remote_read ::
  "udp_env \<Rightarrow> string \<Rightarrow> string \<Rightarrow> byte list option \<Rightarrow> udp_sessions \<Rightarrow> udp_out list \<times> udp_sessions" where
  "udp_remote_read env clientKey sid data st =
     (case data of
        None \<Rightarrow> handleUDPClose sid st
      | Some payload \<Rightarrow>
          if payload = [] then ([], st)
          else let (ok, out) = sendUDPData env clientKey sid payload st
               in if ok then (out, st) else let (closed, st) = handleUDPClose sid st in (out @ closed, st))"

definition handleUDPControlPacket ::
  "udp_env \<Rightarrow> byte list \<Rightarrow> string \<Rightarrow> udp_sessions \<Rightarrow> udp_out list \<times> udp_sessions" where
  "handleUDPControlPacket env packet addr st =
     (if length packet < 3 then ([], st)
      else let msgType = packet ! 0; (key, idx, ok) = decodeUDPField packet 1 in
        if \<not> ok \<or> key = [] then ([], st)
        else if msgType = udpMsgHandshake then (snd (writeUDP env udpMsgHandshake key [] [] addr), st)
        else if msgType = udpMsgData
        then let (sid, next, ok) = decodeUDPField packet idx in
             if \<not> ok \<or> sid = [] then ([], st)
             else handleUDPDataFromClient env key sid (drop next packet) addr st
        else if msgType = udpMsgClose
        then let (sid, _, ok) = decodeUDPField packet idx in
             if \<not> ok \<or> sid = [] then ([], st) else handleUDPClose sid st
        else if msgType = udpMsgPing then (snd (writeUDP env udpMsgPong key [] (drop idx packet) addr), st)
        else ([], st))"

section \<open>Facts\<close>

lemma learn_address:
  "(if us_clientAddr s \<noteq> Some a then s\<lparr>us_clientAddr := Some a\<rparr> else s) = s\<lparr>us_clientAddr := Some a\<rparr>"
  by simp

lemma data_eq:
  "map_of st sid = Some s \<Longrightarrow> us_clientKey s = key \<Longrightarrow>
   handleUDPDataFromClient env key sid payload addr st =
     (let st = AList.update sid (s\<lparr>us_clientAddr := Some addr\<rparr>) st
      in case open_payload env (us_udpSecret s) payload of
           Ok p \<Rightarrow> if ue_remote_write env then ([ToRemote (us_remoteAddr s) p], st) else handleUDPClose sid st
         | _ \<Rightarrow> ([], st))"
  unfolding handleUDPDataFromClient_def learn_address by (simp add: Let_def split: res.split)

lemma open_seal:
  "aead_ok (ue_aead env) \<Longrightarrow> length (ue_nonce env) = 12 \<Longrightarrow> (\<And>k. secret = Some k \<Longrightarrow> aes_key_size k) \<Longrightarrow>
   ue_aead env' = ue_aead env \<Longrightarrow> \<exists>c. seal_payload env secret p = Ok c \<and> open_payload env' secret c = Ok p"
  using decrypt_encrypt [of "ue_aead env" _ "ue_nonce env" p]
  by (auto simp: seal_payload_def open_payload_def encryptUDP_def split: option.split)

text \<open>The frames the two programs build are dispatched to the operation they name.\<close>

lemma frame_dispatch:
  assumes "key \<noteq> []" and "length key < 65536" and "length sid < 65536"
  shows "sid \<noteq> [] \<Longrightarrow> handleUDPControlPacket env (buildUDPMessage udpMsgData key sid p) addr st =
      handleUDPDataFromClient env key sid p addr st"
    and "sid \<noteq> [] \<Longrightarrow> handleUDPControlPacket env (buildUDPMessage udpMsgClose key sid p) addr st = handleUDPClose sid st"
    and "handleUDPControlPacket env (buildUDPMessage udpMsgHandshake key sid p) addr st =
      (snd (writeUDP env udpMsgHandshake key [] [] addr), st)"
    and "handleUDPControlPacket env (buildUDPMessage udpMsgPing key sid p) addr st =
      (snd (writeUDP env udpMsgPong key [] (enc16 (of_nat (length sid)) @ str_bytes sid @ p) addr), st)"
  using assms build_key [of key] build_id [of sid _ key p] build_rest [of udpMsgPing key sid p]
  by (simp_all add: handleUDPControlPacket_def udp_types Let_def)

lemma unknown_session:
  "map_of st sid = None \<Longrightarrow> handleUDPDataFromClient env key sid p addr st = ([], st)"
  "map_of st sid = None \<Longrightarrow> handleUDPClose sid st = ([], st)"
  "map_of st sid = None \<Longrightarrow> sendUDPData env key sid p st = (False, [])"
  by (simp_all add: handleUDPDataFromClient_def handleUDPClose_def sendUDPData_def)

lemma data_keeps_others:
  "sid' \<noteq> sid \<Longrightarrow> map_of (snd (handleUDPDataFromClient env key sid p addr st)) sid' = map_of st sid'"
  by (auto simp: handleUDPDataFromClient_def handleUDPClose_def Let_def split: option.split res.split)

section \<open>Properties\<close>

text \<open>
  A session is opened for a UDP client whose remote address resolves to anything but a loopback, private or
  multicast address. The guard is not the whole of the addresses a server should not be sent to: an address
  without a host, the unspecified address and the link-local addresses, with the metadata service of the cloud
  providers among them, pass it.
\<close>

theorem udp_open_guard:
  assumes "protocol = ''udp''" and "ue_admit env" and "ue_dial env" and "trim_space (mg_RemoteAddr msg) = r" and "r \<noteq> []"
    and "ue_resolve env r = Some ip"
  shows "(map_of (handleUDPOpen env key protocol secret msg st) (mg_ID msg) =
      (if isLoopback ip \<or> isPrivate ip \<or> isMulticast ip then map_of st (mg_ID msg)
       else Some \<lparr>us_id = mg_ID msg, us_clientKey = key, us_udpSecret = secret, us_remoteAddr = r, us_clientAddr = None\<rparr>)) \<and>
    (ip \<in> {[], [0, 0, 0, 0], [169, 254, 169, 254]} \<longrightarrow>
       map_of (handleUDPOpen env key protocol secret msg st) (mg_ID msg) \<noteq> None)"
  using assms
  by (auto simp: handleUDPOpen_def Let_def isLoopback_def isPrivate_def isMulticast_def to4_def)

text \<open>
  The return path of a session follows its last data frame whether or not the frame is authentic: a frame with
  the session's key and identifier, which every frame carries in the clear, redirects the answers of the
  remote to the address it came from, even when its payload does not decrypt and nothing is delivered.
\<close>

theorem unauthentic_frame_redirects:
  assumes "map_of st sid = Some s" and "us_clientKey s = key" and "us_udpSecret s = Some k"
    and "\<And>p. decryptUDP (ue_aead env) k junk \<noteq> Ok p"
    and "key \<noteq> []" and "length key < 65536" and "sid \<noteq> []" and "length sid < 65536"
    and "ue_write env'" and "seal_payload env' (Some k) answer = Ok c" and "answer \<noteq> []"
  shows "let (out, st') = handleUDPControlPacket env (buildUDPMessage udpMsgData key sid junk) attacker st
    in out = [] \<and> udp_remote_read env' key sid (Some answer) st' =
         ([ToClient attacker (buildUDPMessage udpMsgData key sid c)], st')"
proof -
  have "handleUDPControlPacket env (buildUDPMessage udpMsgData key sid junk) attacker st =
      ([], AList.update sid (s\<lparr>us_clientAddr := Some attacker\<rparr>) st)"
    using assms(3,4) frame_dispatch(1) [OF assms(5,6,8,7)] data_eq [OF assms(1,2)]
    by (cases "decryptUDP (ue_aead env) k junk") (auto simp: open_payload_def Let_def)
  then show ?thesis
    using assms by (simp add: udp_remote_read_def sendUDPData_def writeUDP_def)
qed

section \<open>Examples\<close>

text \<open>A stand-in for AES-GCM that tags the plaintext with the first byte of the key.\<close>

definition toy_aead :: aead where
  "toy_aead = \<lparr>ae_seal = (\<lambda>k n p. hd k # p),
     ae_open = (\<lambda>k n c. case c of [] \<Rightarrow> None | t # p \<Rightarrow> if t = hd k then Some p else None)\<rparr>"

definition sample_env :: udp_env where
  "sample_env = \<lparr>ue_aead = toy_aead, ue_nonce = replicate 12 7, ue_write = True, ue_remote_write = True,
     ue_resolve = (\<lambda>a. if a = ''169.254.169.254:80'' then Some [169, 254, 169, 254] else None), ue_dial = True, ue_admit = True\<rparr>"

definition open_request :: message where
  "open_request = (message_of ''udp_open'')\<lparr>mg_ID := ''u1'', mg_RemoteAddr := ''169.254.169.254:80''\<rparr>"

lemma toy_aead_ok: "aead_ok toy_aead"
  by (simp add: aead_ok_def toy_aead_def)

definition sample_sessions :: udp_sessions where
  "sample_sessions = handleUDPOpen sample_env ''k'' ''udp'' (Some (replicate 32 1)) open_request []"

theorem udp_open_guard_witness:
  "map_of (handleUDPOpen sample_env ''k'' ''udp'' None open_request []) ''u1'' \<noteq> None"
proof -
  have "trim_space (mg_RemoteAddr open_request) = ''169.254.169.254:80''" and "mg_ID open_request = ''u1''"
    by code_simp+
  moreover have "ue_admit sample_env" "ue_dial sample_env" "ue_resolve sample_env ''169.254.169.254:80'' = Some [169, 254, 169, 254]"
    by (simp_all add: sample_env_def)
  ultimately show ?thesis
    using udp_open_guard [THEN conjunct2, of "''udp''" sample_env open_request "''169.254.169.254:80''" "[169, 254, 169, 254]" "''k''" None "[]"]
    by simp
qed

theorem unauthentic_frame_redirects_witness:
  "fst (udp_remote_read sample_env ''k'' ''u1'' (Some [42])
     (snd (handleUDPControlPacket sample_env (buildUDPMessage udpMsgData ''k'' ''u1'' [9]) ''6.6.6.6:1'' sample_sessions))) =
   [ToClient ''6.6.6.6:1'' (buildUDPMessage udpMsgData ''k'' ''u1'' (replicate 12 7 @ [1, 42]))]"
proof -
  have m: "map_of sample_sessions ''u1'' = Some \<lparr>us_id = ''u1'', us_clientKey = ''k'', us_udpSecret = Some (replicate 32 1),
      us_remoteAddr = ''169.254.169.254:80'', us_clientAddr = None\<rparr>"
    by code_simp
  have "seal_payload sample_env (Some (replicate 32 1)) [42] = Ok (replicate 12 7 @ [1, 42])"
    by (simp add: seal_payload_def encryptUDP_def sample_env_def aes_key_size_def toy_aead_def)
  moreover have "decryptUDP (ue_aead sample_env) (replicate 32 1) [9] \<noteq> Ok p" for p
    by (simp add: decryptUDP_def aes_key_size_def)
  moreover have "ue_write sample_env" by (simp add: sample_env_def)
  ultimately have "let (out, st') = handleUDPControlPacket sample_env (buildUDPMessage udpMsgData ''k'' ''u1'' [9]) ''6.6.6.6:1'' sample_sessions
    in out = [] \<and> udp_remote_read sample_env ''k'' ''u1'' (Some [42]) st' =
         ([ToClient ''6.6.6.6:1'' (buildUDPMessage udpMsgData ''k'' ''u1'' (replicate 12 7 @ [1, 42]))], st')"
    by (intro unauthentic_frame_redirects [OF m]) simp_all
  then show ?thesis by (auto simp: Let_def split: prod.splits)
qed

end
