(* ===== verification/TunnelUdpClient.thy ===== *)
theory TunnelUdpClient
  imports TunnelUdp
begin

text \<open>
  The UDP side of the tunnel client, from \<open>cmd/client/main.go\<close>: the sessions with the local backend, their
  idle timers, the control channel with its handshake and its pings. The composition with the server's side
  (\<open>TunnelUdp\<close>) gives the properties of a datagram on its way through the tunnel and of a ping.
\<close>

section \<open>State\<close>

record client_udp_session =
  cu_remoteAddr :: string
  cu_idleCount :: int
  cu_timer :: bool           \<comment> \<open>whether the idle timer runs\<close>

datatype udp_status = UdpOffline | UdpNotApplicable | UdpHandshake | UdpPinging | UdpTimeout | UdpOk int

record udp_client =
  uc_key :: string
  uc_protocol :: string
  uc_udpSecret :: "byte list option"
  uc_udpSessions :: "client_udp_session smap"
  uc_udpConn :: bool         \<comment> \<open>whether \<open>udpConn\<close> is set\<close>
  uc_enc :: bool             \<comment> \<open>whether the control connection is there\<close>
  uc_udpReady :: bool
  uc_pinging :: bool         \<comment> \<open>whether the ping ticker runs\<close>
  uc_lastPing :: gtime
  uc_lastPong :: gtime
  uc_warned :: bool
  uc_status :: udp_status
  uc_totalUDPSessions :: nat
  uc_bytesUp :: nat
  uc_bytesDown :: nat

text \<open>What the client sends: a frame, a control message, a datagram to its backend.\<close>

datatype client_out =
    Frame "byte list"
  | Control message
  | ToBackend string "byte list"
  | BackendClosed string

record client_env =
  ce_aead :: aead
  ce_nonce :: "byte list"
  ce_now :: gtime
  ce_write :: bool           \<comment> \<open>whether a write to the control socket succeeds\<close>
  ce_backend :: bool         \<comment> \<open>whether the backend resolves and dials\<close>
  ce_backend_write :: bool

section \<open>Frames\<close>

definition uc_control :: "string \<Rightarrow> string \<Rightarrow> udp_client \<Rightarrow> client_out list" where
  "uc_control t sid c =
     (if uc_enc c then [Control ((message_of t)\<lparr>mg_ID := sid, mg_Protocol := ''udp''\<rparr>)] else [])"

definition uc_writeUDP :: "client_env \<Rightarrow> byte \<Rightarrow> string \<Rightarrow> byte list \<Rightarrow> udp_client \<Rightarrow> bool \<times> client_out list" where
  "uc_writeUDP env t sid payload c =
     (if \<not> uc_udpConn c then (False, [])
      else if ce_write env then (True, [Frame (buildUDPMessage t (uc_key c) sid payload)]) else (False, []))"

definition uc_sendUDPData :: "client_env \<Rightarrow> string \<Rightarrow> byte list \<Rightarrow> udp_client \<Rightarrow> client_out list \<times> udp_client" where
  "uc_sendUDPData env sid payload c =
     (if payload = [] then ([], c)
      else case (case uc_udpSecret c of None \<Rightarrow> Ok payload | Some k \<Rightarrow> encryptUDP (ce_aead env) (ce_nonce env) k payload) of
             Ok p \<Rightarrow>
               (let (ok, out) = uc_writeUDP env udpMsgData sid p c
                in if ok then (out, c\<lparr>uc_bytesUp := uc_bytesUp c + length p\<rparr>) else (out, c))
           | _ \<Rightarrow> ([], c))"

definition uc_sendUDPClose :: "client_env \<Rightarrow> string \<Rightarrow> udp_client \<Rightarrow> client_out list" where
  "uc_sendUDPClose env sid c =
     snd (uc_writeUDP env udpMsgClose sid [] c) @ uc_control ''udp_close'' sid c"

definition uc_sendUDPHandshake :: "client_env \<Rightarrow> udp_client \<Rightarrow> client_out list" where
  "uc_sendUDPHandshake env c = snd (uc_writeUDP env udpMsgHandshake [] [] c)"

section \<open>Sessions and their idle timers\<close>

definition uc_removeUDPSession :: "client_env \<Rightarrow> string \<Rightarrow> bool \<Rightarrow> udp_client \<Rightarrow> client_out list \<times> udp_client" where
  "uc_removeUDPSession env sid notify c =
     (case map_of (uc_udpSessions c) sid of
        None \<Rightarrow> ([], c)
      | Some s \<Rightarrow>
          let c = c\<lparr>uc_udpSessions := AList.delete sid (uc_udpSessions c)\<rparr>
          in (BackendClosed sid # (if notify then uc_sendUDPClose env sid c else []), c))"

definition uc_handleUDPOpen :: "client_env \<Rightarrow> message \<Rightarrow> udp_client \<Rightarrow> client_out list \<times> udp_client" where
  "uc_handleUDPOpen env msg c =
     (if uc_protocol c \<noteq> ''udp'' then ([], c)
      else if trim_space (mg_ID msg) = [] then ([], c)
      else if mg_Protocol msg \<noteq> [] \<and> to_lower (mg_Protocol msg) \<noteq> ''udp'' then ([], c)
      else if \<not> ce_backend env then (uc_sendUDPClose env (mg_ID msg) c, c)
      else let s = \<lparr>cu_remoteAddr = trim_space (mg_RemoteAddr msg), cu_idleCount = 0, cu_timer = False\<rparr>;
               closed = (case map_of (uc_udpSessions c) (mg_ID msg) of None \<Rightarrow> [] | Some _ \<Rightarrow> [BackendClosed (mg_ID msg)])
           in (closed, c\<lparr>uc_udpSessions := AList.update (mg_ID msg) s (uc_udpSessions c),
                         uc_totalUDPSessions := uc_totalUDPSessions c + 1\<rparr>))"

definition uc_handleUDPClose :: "client_env \<Rightarrow> string \<Rightarrow> udp_client \<Rightarrow> client_out list \<times> udp_client" where
  "uc_handleUDPClose env sid c = (if trim_space sid = [] then ([], c) else uc_removeUDPSession env sid False c)"

definition uc_map_session :: "string \<Rightarrow> (client_udp_session \<Rightarrow> client_udp_session) \<Rightarrow> udp_client \<Rightarrow> udp_client" where
  "uc_map_session sid f c =
     (case map_of (uc_udpSessions c) sid of
        None \<Rightarrow> c
      | Some s \<Rightarrow> c\<lparr>uc_udpSessions := AList.update sid (f s) (uc_udpSessions c)\<rparr>)"

definition startBackendWait :: "string \<Rightarrow> udp_client \<Rightarrow> udp_client" where
  "startBackendWait sid c = uc_map_session sid (\<lambda>s. s\<lparr>cu_idleCount := 0, cu_timer := True\<rparr>) c"

definition cancelBackendWait :: "string \<Rightarrow> udp_client \<Rightarrow> udp_client" where
  "cancelBackendWait sid c =
     uc_map_session sid (\<lambda>s. if cu_timer s then s\<lparr>cu_timer := False, cu_idleCount := 0\<rparr> else s) c"

definition backendIdleRetries :: int where "backendIdleRetries = 3"

text \<open>The timer of a session fires.\<close>

definition handleBackendTimeout :: "client_env \<Rightarrow> string \<Rightarrow> udp_client \<Rightarrow> client_out list \<times> udp_client" where
  "handleBackendTimeout env sid c =
     (let c = uc_map_session sid (\<lambda>s. s\<lparr>cu_idleCount := cu_idleCount s + 1\<rparr>) c;
          again = (case map_of (uc_udpSessions c) sid of None \<Rightarrow> False | Some s \<Rightarrow> cu_idleCount s < backendIdleRetries)
      in if again then ([], startBackendWait sid c)
         else let idle = uc_control ''udp_idle'' sid c; (out, c) = uc_removeUDPSession env sid True c
              in (idle @ out, c))"

definition closeAllUDPSessions :: "udp_client \<Rightarrow> client_out list \<times> udp_client" where
  "closeAllUDPSessions c = (map (\<lambda>(sid, _). BackendClosed sid) (uc_udpSessions c), c\<lparr>uc_udpSessions := []\<rparr>)"

section \<open>Data\<close>

definition uc_handleUDPDataPacket :: "client_env \<Rightarrow> string \<Rightarrow> byte list \<Rightarrow> udp_client \<Rightarrow> client_out list \<times> udp_client" where
  "uc_handleUDPDataPacket env sid payload c =
     (if payload = [] then ([], c)
      else case (case uc_udpSecret c of None \<Rightarrow> Ok payload | Some k \<Rightarrow> decryptUDP (ce_aead env) k payload) of
             Ok p \<Rightarrow>
               (case map_of (uc_udpSessions c) sid of
                  None \<Rightarrow> ([], c)
                | Some s \<Rightarrow>
                    if \<not> ce_backend_write env then uc_removeUDPSession env sid True c
                    else ([ToBackend sid p],
                          (startBackendWait sid c)\<lparr>uc_bytesDown := uc_bytesDown c + length p\<rparr>))
           | _ \<Rightarrow> ([], c))"

text \<open>One turn of \<open>readFromUDPLocal\<close>: the datagram of the backend, or a read error.\<close>

definition uc_local_read :: "client_env \<Rightarrow> string \<Rightarrow> byte list option \<Rightarrow> udp_client \<Rightarrow> client_out list \<times> udp_client" where
  "uc_local_read env sid data c =
     (case data of
        None \<Rightarrow> uc_removeUDPSession env sid True c
      | Some payload \<Rightarrow> if payload = [] then ([], c) else uc_sendUDPData env sid payload (cancelBackendWait sid c))"

section \<open>The control channel\<close>

definition startUDPPing :: "gtime \<Rightarrow> udp_client \<Rightarrow> udp_client" where
  "startUDPPing now c =
     (if uc_pinging c then c
      else c\<lparr>uc_pinging := True, uc_lastPong := now, uc_warned := False, uc_status := UdpPinging\<rparr>)"

definition stopUDPPing :: "udp_client \<Rightarrow> udp_client" where
  "stopUDPPing c = c\<lparr>uc_pinging := False, uc_warned := False\<rparr>"

definition udpControlTimeout :: duration where "udpControlTimeout = 6 * second"

definition checkUDPPingTimeout :: "gtime \<Rightarrow> udp_client \<Rightarrow> udp_client" where
  "checkUDPPingTimeout now c =
     (if udpControlTimeout < time_sub now (uc_lastPong c)
      then if \<not> uc_warned c then c\<lparr>uc_warned := True, uc_status := UdpTimeout\<rparr> else c
      else c\<lparr>uc_warned := False\<rparr>)"

text \<open>The eight bytes of \<open>binary.BigEndian.PutUint64\<close> and \<open>Uint64\<close>.\<close>

definition enc64 :: "64 word \<Rightarrow> byte list" where
  "enc64 v = map (\<lambda>i. ucast (drop_bit (8 * i) v)) [7, 6, 5, 4, 3, 2, 1, 0]"

definition be64 :: "byte list \<Rightarrow> 64 word" where
  "be64 bs = fold (\<lambda>b acc. push_bit 8 acc OR ucast b) (take 8 bs) 0"

definition ping_payload :: "gtime \<Rightarrow> byte list" where
  "ping_payload now = enc64 (of_int now)"

text \<open>A tick of \<open>udpPingLoop\<close>.\<close>

definition udp_ping_tick :: "client_env \<Rightarrow> udp_client \<Rightarrow> client_out list \<times> udp_client" where
  "udp_ping_tick env c =
     (let c = c\<lparr>uc_lastPing := ce_now env\<rparr>
      in (snd (uc_writeUDP env udpMsgPing [] (ping_payload (ce_now env)) c), checkUDPPingTimeout (ce_now env) c))"

text \<open>\<open>rtt.Milliseconds()\<close>; the difference of the two clock readings wraps at 64 bits.\<close>

definition rtt_ms :: "gtime \<Rightarrow> byte list \<Rightarrow> int" where
  "rtt_ms now payload =
     (let rtt = wrap64 (now - sint (be64 payload)) in (if 0 \<le> rtt then rtt div 1000000 else - (- rtt div 1000000)))"

definition handleUDPPong :: "client_env \<Rightarrow> byte list \<Rightarrow> udp_client \<Rightarrow> udp_client" where
  "handleUDPPong env payload c =
     (if length payload < 8 then c
      else c\<lparr>uc_lastPong := ce_now env, uc_warned := False, uc_status := UdpOk (rtt_ms (ce_now env) payload)\<rparr>)"

definition uc_handleUDPControlPacket :: "client_env \<Rightarrow> byte list \<Rightarrow> udp_client \<Rightarrow> client_out list \<times> udp_client" where
  "uc_handleUDPControlPacket env packet c =
     (if length packet < 3 then ([], c)
      else let msgType = packet ! 0; (key, idx, ok) = decodeUDPField packet 1 in
        if \<not> ok \<or> key = [] \<or> key \<noteq> uc_key c then ([], c)
        else if msgType = udpMsgData
        then let (sid, next, ok) = decodeUDPField packet idx in
             if \<not> ok \<or> sid = [] then ([], c) else uc_handleUDPDataPacket env sid (drop next packet) c
        else if msgType = udpMsgClose
        then let (sid, _, ok) = decodeUDPField packet idx in
             if \<not> ok \<or> sid = [] then ([], c) else uc_handleUDPClose env sid c
        else if msgType = udpMsgHandshake then ([], startUDPPing (ce_now env) (c\<lparr>uc_udpReady := True\<rparr>))
        else if msgType = udpMsgPong
        then let (_, next, ok) = decodeUDPField packet idx in
             if \<not> ok then ([], c) else ([], handleUDPPong env (drop next packet) c)
        else if msgType = udpMsgPing
        then let (_, next, ok) = decodeUDPField packet idx in
             if \<not> ok then ([], c) else (snd (uc_writeUDP env udpMsgPong [] (drop next packet) c), c)
        else ([], c))"

text \<open>\<open>setupUDPChannel\<close>: the new connection and the burst of three handshakes, or an error before it.\<close>

definition setupUDPChannel :: "client_env \<Rightarrow> bool \<Rightarrow> udp_client \<Rightarrow> client_out list \<times> udp_client" where
  "setupUDPChannel env dialled c =
     (if \<not> dialled then ([], c)
      else let c = (stopUDPPing (c\<lparr>uc_udpConn := True, uc_udpReady := False\<rparr>))\<lparr>uc_status := UdpHandshake\<rparr>
           in (concat (replicate 3 (uc_sendUDPHandshake env c)), c))"

text \<open>
  \<open>udpHandshakeRetry\<close>: one turn of its loop with the attempts so far, for a tick of the retry timer, the
  timeout, or the end of the control connection. \<open>Inl\<close> when the loop is over.
\<close>

datatype retry_event = RetryTick | RetryTimeout | RetryDone

definition handshake_failed :: "udp_client \<Rightarrow> udp_client" where
  "handshake_failed c = c\<lparr>uc_udpConn := False, uc_status := UdpOffline\<rparr>"

definition handshake_retry ::
  "client_env \<Rightarrow> retry_event \<Rightarrow> nat \<Rightarrow> udp_client \<Rightarrow> (client_out list \<times> udp_client) + (nat \<times> client_out list \<times> udp_client)" where
  "handshake_retry env ev attempts c =
     (if uc_udpReady c \<or> \<not> uc_udpConn c then Inl ([], c)
      else case ev of
        RetryTick \<Rightarrow>
          let attempts = attempts + 1
          in if 20 < attempts then Inl ([], handshake_failed c) else Inr (attempts, uc_sendUDPHandshake env c, c)
      | RetryTimeout \<Rightarrow> Inl ([], handshake_failed c)
      | RetryDone \<Rightarrow> Inl ([], c))"

text \<open>
  The loop over the events it sees, each with what the other goroutines did to the client before it: how many
  turns it took, and the client at its end when it ended.
\<close>

fun retry_loop ::
  "client_env \<Rightarrow> (retry_event \<times> (udp_client \<Rightarrow> udp_client)) list \<Rightarrow> nat \<Rightarrow> udp_client \<Rightarrow> nat \<times> udp_client option" where
  "retry_loop env [] attempts c = (0, None)"
| "retry_loop env ((ev, other) # evs) attempts c =
     (case handshake_retry env ev attempts (other c) of
        Inl (_, c) \<Rightarrow> (1, Some c)
      | Inr (n, _, c) \<Rightarrow> (case retry_loop env evs n c of (k, r) \<Rightarrow> (k + 1, r)))"

section \<open>The client as a state machine\<close>

datatype udp_event =
    OpenMsg message
  | CloseMsg string
  | Packet "byte list"
  | LocalRead string "byte list option"
  | BackendTimeout string
  | PingTick
  | Setup bool
  | StopAll

fun udp_client_step :: "client_env \<times> udp_event \<Rightarrow> udp_client \<Rightarrow> udp_client" where
  "udp_client_step (env, OpenMsg m) c = snd (uc_handleUDPOpen env m c)"
| "udp_client_step (env, CloseMsg sid) c = snd (uc_handleUDPClose env sid c)"
| "udp_client_step (env, Packet p) c = snd (uc_handleUDPControlPacket env p c)"
| "udp_client_step (env, LocalRead sid d) c = snd (uc_local_read env sid d c)"
| "udp_client_step (env, BackendTimeout sid) c = snd (handleBackendTimeout env sid c)"
| "udp_client_step (env, PingTick) c = snd (udp_ping_tick env c)"
| "udp_client_step (env, Setup ok) c = snd (setupUDPChannel env ok c)"
| "udp_client_step (env, StopAll) c = snd (closeAllUDPSessions (stopUDPPing c))"

definition newUdpClient :: "string \<Rightarrow> string \<Rightarrow> byte list option \<Rightarrow> udp_client" where
  "newUdpClient key protocol secret =
     \<lparr>uc_key = key, uc_protocol = protocol, uc_udpSecret = secret, uc_udpSessions = [], uc_udpConn = False, uc_enc = True,
      uc_udpReady = False, uc_pinging = False, uc_lastPing = zero_time, uc_lastPong = zero_time, uc_warned = False,
      uc_status = UdpOffline, uc_totalUDPSessions = 0, uc_bytesUp = 0, uc_bytesDown = 0\<rparr>"

section \<open>Facts\<close>

text \<open>No session has a count of idle periods between two operations.\<close>

definition idle_zero :: "udp_client \<Rightarrow> bool" where
  "idle_zero c \<longleftrightarrow> (\<forall>sid s. map_of (uc_udpSessions c) sid = Some s \<longrightarrow> cu_idleCount s = 0)"

named_theorems idle_keeps "operations leave the idle counts at zero"

lemma idle_zero_cong [idle_keeps]:
  "idle_zero c \<Longrightarrow> uc_udpSessions c' = uc_udpSessions c \<Longrightarrow> idle_zero c'"
  by (simp add: idle_zero_def)

lemma idle_Nil: "uc_udpSessions c = [] \<Longrightarrow> idle_zero c"
  by (simp add: idle_zero_def)

lemma idle_map_session [idle_keeps]:
  "idle_zero c \<Longrightarrow> (\<And>s. cu_idleCount s = 0 \<Longrightarrow> cu_idleCount (f s) = 0) \<Longrightarrow> idle_zero (uc_map_session sid f c)"
  by (auto simp: idle_zero_def uc_map_session_def split: option.split)

lemma idle_wait [idle_keeps]:
  "idle_zero c \<Longrightarrow> idle_zero (startBackendWait sid c)" "idle_zero c \<Longrightarrow> idle_zero (cancelBackendWait sid c)"
  by (simp_all add: startBackendWait_def cancelBackendWait_def idle_map_session)

lemma idle_remove [idle_keeps]: "idle_zero c \<Longrightarrow> idle_zero (snd (uc_removeUDPSession env sid b c))"
  by (auto simp: idle_zero_def uc_removeUDPSession_def Let_def split: option.split)

lemma map_session_lookup:
  "map_of (uc_udpSessions (uc_map_session sid f c)) sid = map_option f (map_of (uc_udpSessions c) sid)"
  by (auto simp: uc_map_session_def split: option.split)

lemma map_session_absent: "map_of (uc_udpSessions c) sid = None \<Longrightarrow> uc_map_session sid f c = c"
  by (simp add: uc_map_session_def)

lemma timeout_restarts:
  assumes "idle_zero c" and "map_of (uc_udpSessions c) sid = Some s"
  shows "handleBackendTimeout env sid c = ([], startBackendWait sid c)"
  using assms
  by (simp add: handleBackendTimeout_def startBackendWait_def uc_map_session_def backendIdleRetries_def Let_def
      idle_zero_def update_last)

lemma idle_timeout [idle_keeps]: "idle_zero c \<Longrightarrow> idle_zero (snd (handleBackendTimeout env sid c))"
proof (cases "map_of (uc_udpSessions c) sid")
  case None
  then show "idle_zero c \<Longrightarrow> ?thesis"
    by (simp add: handleBackendTimeout_def map_session_absent idle_remove uc_removeUDPSession_def Let_def)
next
  case (Some s)
  then show "idle_zero c \<Longrightarrow> ?thesis" by (simp add: timeout_restarts idle_wait)
qed

lemma idle_open [idle_keeps]: "idle_zero c \<Longrightarrow> idle_zero (snd (uc_handleUDPOpen env m c))"
  by (auto simp: idle_zero_def uc_handleUDPOpen_def Let_def)

lemma idle_close [idle_keeps]: "idle_zero c \<Longrightarrow> idle_zero (snd (uc_handleUDPClose env sid c))"
  by (simp add: uc_handleUDPClose_def idle_remove)

lemma idle_send [idle_keeps]: "idle_zero c \<Longrightarrow> idle_zero (snd (uc_sendUDPData env sid p c))"
  by (auto simp: uc_sendUDPData_def split: res.split prod.split elim: idle_zero_cong)

lemma idle_local [idle_keeps]: "idle_zero c \<Longrightarrow> idle_zero (snd (uc_local_read env sid d c))"
  by (auto simp: uc_local_read_def idle_remove idle_send idle_wait split: option.split)

lemma idle_data [idle_keeps]: "idle_zero c \<Longrightarrow> idle_zero (snd (uc_handleUDPDataPacket env sid p c))"
  using idle_wait(1) [of c sid]
  by (auto simp: uc_handleUDPDataPacket_def idle_remove split: res.split option.split elim: idle_zero_cong)

lemma idle_packet [idle_keeps]: "idle_zero c \<Longrightarrow> idle_zero (snd (uc_handleUDPControlPacket env p c))"
  by (auto simp: uc_handleUDPControlPacket_def idle_data idle_close handleUDPPong_def startUDPPing_def Let_def
      split: prod.split elim: idle_zero_cong)

lemma idle_step: "idle_zero c \<Longrightarrow> idle_zero (udp_client_step ev c)"
  by (cases "(ev, c)" rule: udp_client_step.cases)
    (auto simp: idle_open idle_close idle_packet idle_local idle_timeout udp_ping_tick_def checkUDPPingTimeout_def
      setupUDPChannel_def stopUDPPing_def closeAllUDPSessions_def Let_def intro: idle_Nil elim: idle_zero_cong)

lemma idle_run: "idle_zero (fold udp_client_step evs (newUdpClient key protocol secret))"
proof -
  have "idle_zero c \<Longrightarrow> idle_zero (fold udp_client_step evs c)" for c
    by (induction evs arbitrary: c) (simp_all add: idle_step)
  then show ?thesis by (simp add: newUdpClient_def idle_Nil)
qed

lemma length_enc64 [simp]: "length (enc64 v) = 8"
  by (simp add: enc64_def)

lemma be64_shifted: "be64 ([0, 0] @ enc64 v) = drop_bit 16 v"
proof (rule bit_word_eqI)
  fix n
  show "bit (be64 ([0, 0] @ enc64 v)) n \<longleftrightarrow> bit (drop_bit 16 v) n" if "n < LENGTH(64)"
    using that
    by (cases "n < 8"; cases "n < 16"; cases "n < 24"; cases "n < 32"; cases "n < 40"; cases "n < 48")
      (auto simp: be64_def enc64_def bit_simps dest: bit_imp_le_length)
qed

lemma sint_clock:
  assumes "0 \<le> t" and "t \<le> max_i64"
  shows "sint (drop_bit 16 (of_int t :: 64 word)) = t div 65536"
proof -
  have t: "take_bit 64 t = t" "t mod 18446744073709551616 = t"
    using assms by (simp_all add: max_i64_def take_bit_int_eq_self)
  have "t div 65536 < 2 ^ 63" and "0 \<le> t div 65536"
    using assms unfolding max_i64_def by simp_all
  moreover have "uint (drop_bit 16 (of_int t :: 64 word)) = t div 65536"
    by (subst unsigned_drop_bit_eq) (simp add: t drop_bit_eq_div uint_word_of_int)
  ultimately show ?thesis by (simp add: sint_uint signed_take_bit_int_eq_self)
qed

section \<open>Properties\<close>

text \<open>
  C16: The client never gives up an idle session: whatever happened before, when the idle timer of a session fires
  the session stays and its timer is started again. The count of idle periods that should close the session
  after three of them is set back to zero by the very call that starts the timer.
\<close>

theorem idle_sessions_never_close:
  assumes "c = fold udp_client_step evs (newUdpClient key protocol secret)" and "map_of (uc_udpSessions c) sid = Some s"
  shows "fst (handleBackendTimeout env sid c) = [] \<and>
    map_of (uc_udpSessions (snd (handleBackendTimeout env sid c))) sid = Some (s\<lparr>cu_idleCount := 0, cu_timer := True\<rparr>)"
  using assms timeout_restarts [OF idle_run [of evs key protocol secret]]
  by (simp add: startBackendWait_def map_session_lookup)

text \<open>
  A ping measures nothing: the client sends its clock in a ping with an empty identifier, the server answers
  with everything after the key, the length of that identifier included, and the client skips an identifier
  once more. What it takes for the time of sending is the clock shifted by two bytes, so the round trip it
  reports is nearly the time since 1970.
\<close>

theorem ping_answer_is_shifted:
  assumes "uc_udpConn c" and "uc_key c \<noteq> []" and "length (uc_key c) < 65536" and "ce_write env" and "ue_write senv"
    and "0 \<le> ce_now env" and "ce_now env \<le> t" and "t \<le> max_i64"
  shows "\<exists>ping c1 pong. udp_ping_tick env c = ([Frame ping], c1) \<and>
    handleUDPControlPacket senv ping addr st = ([ToClient addr pong], st) \<and>
    uc_status (snd (uc_handleUDPControlPacket (env\<lparr>ce_now := t\<rparr>) pong c1)) = UdpOk ((t - ce_now env div 65536) div 1000000)"
proof -
  let ?p = "ping_payload (ce_now env)"
  let ?pong = "buildUDPMessage udpMsgPong (uc_key c) [] (enc16 0 @ ?p)"
  define c1 where "c1 = snd (udp_ping_tick env c)"
  have key: "uc_key c1 = uc_key c"
    by (simp add: c1_def udp_ping_tick_def checkUDPPingTimeout_def Let_def)
  have "udp_ping_tick env c = ([Frame (buildUDPMessage udpMsgPing (uc_key c) [] ?p)], c1)"
    using assms(1,4) by (simp add: c1_def udp_ping_tick_def uc_writeUDP_def Let_def)
  moreover have "handleUDPControlPacket senv (buildUDPMessage udpMsgPing (uc_key c) [] ?p) addr st = ([ToClient addr ?pong], st)"
    using frame_dispatch(4) [OF assms(2,3), of "[]" senv ?p addr st] assms(5)
    by (simp add: writeUDP_def str_bytes_def)
  moreover have "uc_status (snd (uc_handleUDPControlPacket (env\<lparr>ce_now := t\<rparr>) ?pong c1)) = UdpOk (rtt_ms t (enc16 0 @ ?p))"
    using build_key [OF assms(3), of udpMsgPong "[]"] build_id [of "[]" udpMsgPong "uc_key c" "enc16 0 @ ?p"] assms(2)
    by (simp add: uc_handleUDPControlPacket_def handleUDPPong_def key udp_types ping_payload_def Let_def)
  moreover have "rtt_ms t (enc16 0 @ ?p) = (t - ce_now env div 65536) div 1000000"
  proof -
    have "enc16 0 = [0, 0]" by (simp add: enc16_def)
    moreover have "0 \<le> t - ce_now env div 65536" "t - ce_now env div 65536 \<le> max_i64"
      using assms(6-8) by (smt (verit) div_by_1 zdiv_mono2 pos_imp_zdiv_nonneg_iff)+
    ultimately show ?thesis
      using sint_clock [of "ce_now env"] assms(6-8)
      by (simp add: rtt_ms_def ping_payload_def be64_shifted [simplified] wrap64_id min_i64_def Let_def)
  qed
  ultimately show ?thesis by metis
qed

lemma sealed_payload:
  assumes "aead_ok ae" and "length nonce = 12" and "\<And>k. secret = Some k \<Longrightarrow> aes_key_size k" and "p \<noteq> []"
  obtains e where "(case secret of None \<Rightarrow> Ok p | Some k \<Rightarrow> encryptUDP ae nonce k p) = Ok e"
    "(case secret of None \<Rightarrow> Ok e | Some k \<Rightarrow> decryptUDP ae k e) = Ok p" "e \<noteq> []"
proof (cases secret)
  case (Some k)
  have "nonce \<noteq> []" using assms(2) by auto
  with Some show thesis
    using that [of "nonce @ ae_seal ae k nonce p"] assms(1-3) by (simp add: encryptUDP_def decryptUDP_def aead_ok_def)
qed (use that assms(4) in simp)

text \<open>
  C15: A datagram crosses the tunnel both ways. A client and a server that share the key and the secret of a session:
  what the client's backend sends is one frame, which makes the server send the same bytes to the session's
  remote and learn the client's address; what the remote answers is one frame to that address, which makes the
  client send the same bytes to its backend.
\<close>

theorem datagram_crosses_the_tunnel:
  assumes session: "map_of st sid = Some s" "us_clientKey s = uc_key c" "us_udpSecret s = uc_udpSecret c"
    and names: "uc_key c \<noteq> []" "length (uc_key c) < 65536" "sid \<noteq> []" "length sid < 65536"
    and client: "uc_udpConn c" "ce_write env" "ce_backend_write env" "map_of (uc_udpSessions c) sid = Some cs"
    and server: "ue_write senv" "ue_remote_write senv"
    and crypto: "ce_aead env = ue_aead senv" "aead_ok (ue_aead senv)" "length (ce_nonce env) = 12" "length (ue_nonce senv) = 12"
      "\<And>k. uc_udpSecret c = Some k \<Longrightarrow> aes_key_size k"
    and "p \<noteq> []" "q \<noteq> []"
  shows "\<exists>f c1 st1 g. uc_local_read env sid (Some p) c = ([Frame f], c1) \<and>
    handleUDPControlPacket senv f addr st = ([ToRemote (us_remoteAddr s) p], st1) \<and>
    udp_remote_read senv (uc_key c) sid (Some q) st1 = ([ToClient addr g], st1) \<and>
    fst (uc_handleUDPControlPacket env g c1) = [ToBackend sid q]"
proof -
  let ?c = "cancelBackendWait sid c"
  have c_eq: "uc_key ?c = uc_key c" "uc_udpSecret ?c = uc_udpSecret c" "uc_udpConn ?c = uc_udpConn c"
    by (auto simp: cancelBackendWait_def uc_map_session_def split: option.split)
  obtain cs' where cs': "map_of (uc_udpSessions ?c) sid = Some cs'"
    using client(4) by (simp add: cancelBackendWait_def map_session_lookup)
  obtain e where e: "(case uc_udpSecret c of None \<Rightarrow> Ok p | Some k \<Rightarrow> encryptUDP (ue_aead senv) (ce_nonce env) k p) = Ok e"
    "open_payload senv (uc_udpSecret c) e = Ok p"
    unfolding open_payload_def using sealed_payload [OF crypto(2,3,5) \<open>p \<noteq> []\<close>] by metis
  let ?f = "buildUDPMessage udpMsgData (uc_key c) sid e"
  define c1 where "c1 = ?c\<lparr>uc_bytesUp := uc_bytesUp ?c + length e\<rparr>"
  define st1 where "st1 = AList.update sid (s\<lparr>us_clientAddr := Some addr\<rparr>) st"
  have "uc_local_read env sid (Some p) c = ([Frame ?f], c1)"
    using e(1) [folded crypto(1)] client(1,2) \<open>p \<noteq> []\<close> by (simp add: uc_local_read_def uc_sendUDPData_def uc_writeUDP_def c_eq c1_def)
  moreover have "handleUDPControlPacket senv ?f addr st = ([ToRemote (us_remoteAddr s) p], st1)"
    using frame_dispatch(1) [OF names(1,2,4,3)] data_eq [OF session(1,2)] session(3) e(2) server(2)
    by (simp add: st1_def Let_def)
  moreover obtain d where d: "seal_payload senv (uc_udpSecret c) q = Ok d"
    "(case uc_udpSecret c of None \<Rightarrow> Ok d | Some k \<Rightarrow> decryptUDP (ue_aead senv) k d) = Ok q" "d \<noteq> []"
    unfolding seal_payload_def using sealed_payload [OF crypto(2,4,5) \<open>q \<noteq> []\<close>] by metis
  let ?g = "buildUDPMessage udpMsgData (uc_key c) sid d"
  have "udp_remote_read senv (uc_key c) sid (Some q) st1 = ([ToClient addr ?g], st1)"
    using d(1) session(3) server(1) \<open>q \<noteq> []\<close> by (simp add: udp_remote_read_def sendUDPData_def writeUDP_def st1_def)
  moreover have "fst (uc_handleUDPControlPacket env ?g c1) = [ToBackend sid q]"
    using build_key [OF names(2), of udpMsgData sid d] build_id [OF names(4), of udpMsgData "uc_key c" d] names d(2) [folded crypto(1)] d(3) client(3) cs'
    by (simp add: uc_handleUDPControlPacket_def uc_handleUDPDataPacket_def c1_def c_eq udp_types Let_def)
  ultimately show ?thesis by blast
qed

lemma retry_loop_ends:
  "n \<le> 20 \<Longrightarrow> retry_loop env evs n c = (k, r) \<Longrightarrow> k \<le> 21 - n \<and> (21 - n \<le> length evs \<longrightarrow> r \<noteq> None)"
proof (induction env evs n c arbitrary: k r rule: retry_loop.induct)
  case (2 env ev other evs n c)
  show ?case
  proof (cases "handshake_retry env ev n (other c)")
    case (Inl x)
    with "2.prems" show ?thesis by (cases x) auto
  next
    case (Inr x)
    then obtain m out d where x: "x = (m, out, d)" by (cases x) auto
    with Inr have m: "m = n + 1" "m \<le> 20"
      by (auto simp: handshake_retry_def Let_def split: if_splits retry_event.splits)
    obtain j r' where "retry_loop env evs m d = (j, r')" by fastforce
    with "2.IH" [OF Inr x [symmetric] refl m(2) this] "2.prems" Inr x m show ?thesis by auto
  qed
qed simp


section \<open>Examples\<close>

definition sample_client_env :: client_env where
  "sample_client_env = \<lparr>ce_aead = toy_aead, ce_nonce = replicate 12 9, ce_now = 1700000000000000000, ce_write = True,
     ce_backend = True, ce_backend_write = True\<rparr>"

definition udp_open_msg :: message where
  "udp_open_msg = (message_of ''udp_open'')\<lparr>mg_ID := ''u1''\<rparr>"

definition open_client :: udp_client where
  "open_client = fold udp_client_step [(sample_client_env, Setup True), (sample_client_env, OpenMsg udp_open_msg)]
     (newUdpClient ''k'' ''udp'' (Some (replicate 32 1)))"

lemma open_client_eq:
  "map_of (uc_udpSessions open_client) ''u1'' = Some \<lparr>cu_remoteAddr = [], cu_idleCount = 0, cu_timer = False\<rparr>"
  "uc_key open_client = ''k''" "uc_udpConn open_client" "uc_udpSecret open_client = Some (replicate 32 1)"
  by code_simp+

theorem idle_sessions_never_close_witness:
  "fst (handleBackendTimeout sample_client_env ''u1'' open_client) = []"
  using idle_sessions_never_close [OF open_client_def open_client_eq(1)] by simp

theorem ping_answer_is_shifted_witness:
  "\<exists>ping c1 pong. udp_ping_tick sample_client_env open_client = ([Frame ping], c1) \<and>
    handleUDPControlPacket sample_env ping ''9.9.9.9:9'' [] = ([ToClient ''9.9.9.9:9'' pong], []) \<and>
    uc_status (snd (uc_handleUDPControlPacket (sample_client_env\<lparr>ce_now := 1700000000020000000\<rparr>) pong c1)) = UdpOk 1699974060078"
proof -
  have "ce_now sample_client_env = 1700000000000000000" "ce_write sample_client_env" "ue_write sample_env"
    by (simp_all add: sample_client_env_def sample_env_def)
  then show ?thesis
    using ping_answer_is_shifted [of open_client sample_client_env sample_env "1700000000020000000" "''9.9.9.9:9''" "[]"]
    by (simp add: open_client_eq max_i64_def)
qed

theorem datagram_crosses_the_tunnel_witness:
  "\<exists>f c1. uc_local_read sample_client_env ''u1'' (Some [1, 2]) open_client = ([Frame f], c1) \<and>
     fst (handleUDPControlPacket sample_env f ''9.9.9.9:9'' sample_sessions) = [ToRemote ''169.254.169.254:80'' [1, 2]]"
proof -
  have m: "map_of sample_sessions ''u1'' = Some \<lparr>us_id = ''u1'', us_clientKey = ''k'', us_udpSecret = Some (replicate 32 1),
      us_remoteAddr = ''169.254.169.254:80'', us_clientAddr = None\<rparr>"
    by code_simp
  have "ce_write sample_client_env" "ce_backend_write sample_client_env" "ue_write sample_env" "ue_remote_write sample_env"
    "ce_aead sample_client_env = ue_aead sample_env" "ue_aead sample_env = toy_aead" "length (ce_nonce sample_client_env) = 12"
    "length (ue_nonce sample_env) = 12"
    by (simp_all add: sample_client_env_def sample_env_def)
  then have "\<exists>f c1 st1 g. uc_local_read sample_client_env ''u1'' (Some [1, 2]) open_client = ([Frame f], c1) \<and>
    handleUDPControlPacket sample_env f ''9.9.9.9:9'' sample_sessions = ([ToRemote ''169.254.169.254:80'' [1, 2]], st1) \<and>
    udp_remote_read sample_env ''k'' ''u1'' (Some [3]) st1 = ([ToClient ''9.9.9.9:9'' g], st1) \<and>
    fst (uc_handleUDPControlPacket sample_client_env g c1) = [ToBackend ''u1'' [3]]"
    using datagram_crosses_the_tunnel [OF m, of open_client sample_client_env _ sample_env "[1, 2]" "[3]" "''9.9.9.9:9''"]
      open_client_eq toy_aead_ok by (simp add: aes_key_size_def)
  then show ?thesis by force
qed


end
