(* ===== verification/TunnelServer.thy ===== *)
theory TunnelServer
  imports TunnelUdp
begin

text \<open>
  The tunnel server of \<open>cmd/server\<close>: the pool of public ports and its reservations, the client sessions from
  registration to removal, the control messages and the heartbeat. A session is an object that several
  goroutines share: the sessions are a store indexed by the order of their connections, and the table of clients
  holds indices into it. Each operation runs under the locks it takes, so it is one step; the network, the
  random source and the rate limiter answer through the environment.
\<close>

section \<open>State\<close>

record reservation =
  rv_port :: int
  rv_expiresAt :: gtime

record client_session =
  se_clientID :: string
  se_key :: string
  se_target :: string
  se_protocol :: string
  se_publicPort :: int
  se_subdomain :: string
  se_lastSeen :: gtime
  se_closed :: bool               \<comment> \<open>\<open>Close\<close> was called\<close>
  se_remoteIP :: string
  se_udpSecret :: "byte list option"

record http_proxy =
  hp_subdomains :: "nat smap"
  hp_baseDomain :: string

record tunnel_server =
  ts_sessions :: "client_session list"
  ts_clients :: "nat smap"
  ts_availablePorts :: "int list"
  ts_usedPorts :: "int set"
  ts_portReservations :: "reservation smap"
  ts_httpProxy :: "http_proxy option"
  ts_udpSessions :: udp_sessions
  ts_activeConnections :: int

definition publicPortStart :: int where "publicPortStart = 10000"
definition publicPortEnd :: int where "publicPortEnd = 20000"

lemmas port_range = publicPortStart_def publicPortEnd_def

definition newServer :: "http_proxy option \<Rightarrow> tunnel_server" where
  "newServer proxy =
     \<lparr>ts_sessions = [], ts_clients = [], ts_availablePorts = [publicPortStart..publicPortEnd], ts_usedPorts = {},
      ts_portReservations = [], ts_httpProxy = proxy, ts_udpSessions = [], ts_activeConnections = 0\<rparr>"

definition upd_session :: "nat \<Rightarrow> (client_session \<Rightarrow> client_session) \<Rightarrow> tunnel_server \<Rightarrow> tunnel_server" where
  "upd_session u f s = s\<lparr>ts_sessions := (ts_sessions s)[u := f (ts_sessions s ! u)]\<rparr>"

section \<open>The pool of public ports\<close>

definition reserved_for :: "gtime \<Rightarrow> string \<Rightarrow> int \<Rightarrow> tunnel_server \<Rightarrow> bool" where
  "reserved_for now key port s =
     (case map_of (ts_portReservations s) key of
        None \<Rightarrow> False
      | Some r \<Rightarrow> rv_port r = port \<and> now < rv_expiresAt r)"

definition getNextPublicPort :: "gtime \<Rightarrow> string \<Rightarrow> int \<Rightarrow> tunnel_server \<Rightarrow> int \<times> tunnel_server" where
  "getNextPublicPort now clientKey requestedPort s =
     (if 0 < requestedPort \<and> clientKey \<noteq> [] \<and> reserved_for now clientKey requestedPort s \<and> requestedPort \<notin> ts_usedPorts s
      then (requestedPort,
            s\<lparr>ts_availablePorts := remove1 requestedPort (ts_availablePorts s),
              ts_usedPorts := insert requestedPort (ts_usedPorts s),
              ts_portReservations := AList.delete clientKey (ts_portReservations s)\<rparr>)
      else case ts_availablePorts s of
             [] \<Rightarrow> (publicPortStart, s)
           | port # rest \<Rightarrow> (port, s\<lparr>ts_availablePorts := rest, ts_usedPorts := insert port (ts_usedPorts s)\<rparr>))"

definition releasePort :: "int \<Rightarrow> tunnel_server \<Rightarrow> tunnel_server" where
  "releasePort port s =
     (if port \<notin> ts_usedPorts s then s
      else s\<lparr>ts_usedPorts := ts_usedPorts s - {port}, ts_availablePorts := sort (ts_availablePorts s @ [port])\<rparr>)"

text \<open>A tick of \<open>cleanupPortReservations\<close>.\<close>

definition cleanup_reservations :: "gtime \<Rightarrow> tunnel_server \<Rightarrow> tunnel_server" where
  "cleanup_reservations now s =
     s\<lparr>ts_portReservations := m_keep (\<lambda>key r. \<not> time_after now (rv_expiresAt r)) (ts_portReservations s)\<rparr>"

section \<open>Clients\<close>

definition addClient :: "nat \<Rightarrow> tunnel_server \<Rightarrow> tunnel_server" where
  "addClient u s = s\<lparr>ts_clients := AList.update (se_clientID (ts_sessions s ! u)) u (ts_clients s)\<rparr>"

definition close_session :: "nat \<Rightarrow> tunnel_server \<Rightarrow> tunnel_server" where
  "close_session u s = upd_session u (\<lambda>c. c\<lparr>se_closed := True\<rparr>) s"

text \<open>\<open>UnregisterClient\<close> of the HTTP proxy.\<close>

definition UnregisterClient :: "string \<Rightarrow> http_proxy \<Rightarrow> http_proxy" where
  "UnregisterClient sub p = p\<lparr>hp_subdomains := AList.delete sub (hp_subdomains p)\<rparr>"

definition unregisterHTTPClient :: "nat \<Rightarrow> tunnel_server \<Rightarrow> tunnel_server" where
  "unregisterHTTPClient u s =
     (case ts_httpProxy s of
        None \<Rightarrow> s
      | Some p \<Rightarrow>
          let sub = se_subdomain (ts_sessions s ! u)
          in if sub = [] then s else s\<lparr>ts_httpProxy := Some (UnregisterClient sub p)\<rparr>)"

definition removeClient :: "gtime \<Rightarrow> nat \<Rightarrow> tunnel_server \<Rightarrow> tunnel_server" where
  "removeClient now u s =
     (let c = ts_sessions s ! u in
      if map_of (ts_clients s) (se_clientID c) = Some u
      then let s = s\<lparr>ts_clients := AList.delete (se_clientID c) (ts_clients s)\<rparr>;
               s = (if 0 < se_publicPort c \<and> se_key c \<noteq> []
                    then releasePort (se_publicPort c)
                      (s\<lparr>ts_portReservations :=
                           AList.update (se_key c) \<lparr>rv_port = se_publicPort c, rv_expiresAt = now + 5 * minute\<rparr>
                             (ts_portReservations s)\<rparr>)
                    else s)
           in close_session u (unregisterHTTPClient u s)
      else close_session u s)"

section \<open>Registration\<close>

record register_env =
  re_now :: gtime
  re_admit :: bool                    \<comment> \<open>the limiter of registrations\<close>
  re_random_key :: "byte list"        \<comment> \<open>the bytes \<open>GenerateID\<close> reads\<close>
  re_random_subdomain :: "byte list"  \<comment> \<open>the bytes \<open>GenerateSubdomain\<close> reads\<close>
  re_udp_key :: "byte list option"    \<comment> \<open>the result of \<open>GenerateKey\<close>\<close>
  re_send :: bool                     \<comment> \<open>whether the answer could be sent\<close>

datatype register_error = RateLimitExceeded | NotRegister | HttpUnavailable | SubdomainTaken | SendFailed

definition generateSubdomain :: "byte list \<Rightarrow> string" where
  "generateSubdomain rnd = take 6 (hex rnd)"

text \<open>\<open>RegisterClient\<close> of the HTTP proxy.\<close>

definition RegisterClient :: "string \<Rightarrow> nat \<Rightarrow> http_proxy \<Rightarrow> (register_error, http_proxy) res" where
  "RegisterClient sub u p =
     (if map_of (hp_subdomains p) sub \<noteq> None then Fail SubdomainTaken
      else Ok (p\<lparr>hp_subdomains := AList.update sub u (hp_subdomains p)\<rparr>))"

definition registerHTTPClient :: "register_env \<Rightarrow> nat \<Rightarrow> tunnel_server \<Rightarrow> (register_error, tunnel_server) res" where
  "registerHTTPClient env u s =
     (case ts_httpProxy s of
        None \<Rightarrow> Fail HttpUnavailable
      | Some p \<Rightarrow>
          let sub = generateSubdomain (re_random_subdomain env)
          in case RegisterClient sub u p of
               Fail e \<Rightarrow> Fail e
             | Panic \<Rightarrow> Panic
             | Ok p \<Rightarrow> Ok (upd_session u (\<lambda>c. c\<lparr>se_subdomain := sub\<rparr>) (s\<lparr>ts_httpProxy := Some p\<rparr>)))"

definition client_id :: "string \<Rightarrow> message \<Rightarrow> (register_error, string) res" where
  "client_id key msg =
     (let i = trim_space (mg_ClientID msg) in
      if i \<noteq> [] then Ok i else if length key < 8 then Panic else Ok (''client-'' @ take 8 key))"

definition tunnel_protocol :: "message \<Rightarrow> string" where
  "tunnel_protocol msg = (let p = to_lower (trim_space (mg_Protocol msg)) in if p = [] then ''tcp'' else p)"

definition registered_message :: "nat \<Rightarrow> tunnel_server \<Rightarrow> message" where
  "registered_message u s =
     (let c = ts_sessions s ! u in
      (message_of ''registered'')
        \<lparr>mg_Key := se_key c, mg_ClientID := se_clientID c, mg_RemotePort := se_publicPort c, mg_Protocol := se_protocol c,
         mg_Version := ''7.5'', mg_Subdomain := se_subdomain c,
         mg_BaseDomain := (if se_protocol c = ''http'' then case ts_httpProxy s of None \<Rightarrow> [] | Some p \<Rightarrow> hp_baseDomain p else []),
         mg_UDPSecret := (case se_udpSecret c of None \<Rightarrow> [] | Some k \<Rightarrow> k)\<rparr>)"

definition register_key :: "register_env \<Rightarrow> message \<Rightarrow> string" where
  "register_key env msg =
     (let key = trim_space (mg_Key msg) in if key = [] then generateID (re_random_key env) else key)"

text \<open>The registration up to the answer: the state is also that of a failed registration.\<close>

definition handleClient ::
  "register_env \<Rightarrow> nat \<Rightarrow> message \<Rightarrow> tunnel_server \<Rightarrow> (register_error, message) res \<times> tunnel_server" where
  "handleClient env u msg s =
     (if \<not> re_admit env then (Fail RateLimitExceeded, s)
      else if mg_Type msg \<noteq> ''register'' then (Fail NotRegister, s)
      else let key = register_key env msg;
               (publicPort, s) = getNextPublicPort (re_now env) key (mg_RequestedPort msg) s
      in case client_id key msg of
           Panic \<Rightarrow> (Panic, s)
         | Fail e \<Rightarrow> (Fail e, s)
         | Ok cid \<Rightarrow>
             let protocol = tunnel_protocol msg;
                 s = upd_session u (\<lambda>c. c\<lparr>se_clientID := cid, se_key := key, se_target := mg_Target msg,
                       se_protocol := protocol, se_publicPort := publicPort\<rparr>) s;
                 s = addClient u s
             in case (if protocol = ''http'' then registerHTTPClient env u s else Ok s) of
                  Fail e \<Rightarrow> (Fail e, s)
                | Panic \<Rightarrow> (Panic, s)
                | Ok s \<Rightarrow>
                    let s = (case re_udp_key env of None \<Rightarrow> s | Some k \<Rightarrow> upd_session u (\<lambda>c. c\<lparr>se_udpSecret := Some k\<rparr>) s)
                    in if re_send env then (Ok (registered_message u s), s) else (Fail SendFailed, s))"

text \<open>
  \<open>handleConnection\<close> for a first message that registers: the new session, its registration, and its removal
  when that fails. After a success the control loop runs.
\<close>

definition new_session :: "gtime \<Rightarrow> string \<Rightarrow> client_session" where
  "new_session now ip =
     \<lparr>se_clientID = [], se_key = [], se_target = [], se_protocol = [], se_publicPort = 0, se_subdomain = [], se_lastSeen = now,
      se_closed = False, se_remoteIP = ip, se_udpSecret = None\<rparr>"

definition accept_client ::
  "register_env \<Rightarrow> string \<Rightarrow> message \<Rightarrow> tunnel_server \<Rightarrow> (register_error, message) res \<times> tunnel_server" where
  "accept_client env ip msg s =
     (let u = length (ts_sessions s);
          s = s\<lparr>ts_sessions := ts_sessions s @ [new_session (re_now env) ip]\<rparr>;
          (r, s) = handleClient env u msg s
      in case r of
           Ok m \<Rightarrow> (Ok m, s\<lparr>ts_activeConnections := ts_activeConnections s + 1\<rparr>)
         | Fail e \<Rightarrow> (Fail e, removeClient (re_now env) u s)
         | Panic \<Rightarrow> (Panic, s))"

section \<open>The control loop and the heartbeat\<close>

text \<open>The end of the control loop of a session.\<close>

definition client_left :: "gtime \<Rightarrow> nat \<Rightarrow> tunnel_server \<Rightarrow> tunnel_server" where
  "client_left now u s = removeClient now u (s\<lparr>ts_activeConnections := ts_activeConnections s - 1\<rparr>)"

text \<open>What the loop does besides: an answer to the client, a datagram or a close on the UDP side, a message for the waiting requests.\<close>

datatype control_out =
    Reply message
  | Udp udp_out
  | ProxyError string
  | HttpAnswer message

definition control_message ::
  "udp_env \<Rightarrow> gtime \<Rightarrow> nat \<Rightarrow> message \<Rightarrow> tunnel_server \<Rightarrow> control_out list \<times> tunnel_server" where
  "control_message env now u msg s =
     (let s = upd_session u (\<lambda>c. c\<lparr>se_lastSeen := now\<rparr>) s; c = ts_sessions s ! u; t = mg_Type msg in
      if t = ''ping'' then ([Reply (message_of ''pong'')], s)
      else if t = ''udp_open''
      then ([], s\<lparr>ts_udpSessions := handleUDPOpen env (se_key c) (se_protocol c) (se_udpSecret c) msg (ts_udpSessions s)\<rparr>)
      else if t = ''udp_close'' \<or> t = ''udp_idle''
      then let (out, us) = handleUDPClose (mg_ID msg) (ts_udpSessions s) in (map Udp out, s\<lparr>ts_udpSessions := us\<rparr>)
      else if t = ''proxy_error'' then ([ProxyError (mg_ID msg)], s)
      else if t = ''http_response'' then ([HttpAnswer msg], s)
      else ([], s))"

definition clientIdleTimeout :: duration where "clientIdleTimeout = 10 * second"

text \<open>A tick of \<open>heartbeatChecker\<close>.\<close>

definition heartbeat_tick :: "gtime \<Rightarrow> nat \<Rightarrow> tunnel_server \<Rightarrow> tunnel_server" where
  "heartbeat_tick now u s =
     (let c = ts_sessions s ! u in
      if se_closed c then s
      else if clientIdleTimeout < time_sub now (se_lastSeen c) then close_session u s else s)"

section \<open>Reachable states\<close>

text \<open>
  The sessions whose control loop runs, and the number of registrations so far. A registration that panics ends
  the process, so it has no successor state.
\<close>

type_synonym srv_state = "tunnel_server \<times> nat set \<times> nat"

inductive srv_step :: "srv_state \<Rightarrow> srv_state \<Rightarrow> bool" where
  registered: "accept_client env ip msg s = (Ok m, s') \<Longrightarrow> srv_step (s, L, n) (s', insert (length (ts_sessions s)) L, Suc n)"
| refused: "accept_client env ip msg s = (Fail e, s') \<Longrightarrow> srv_step (s, L, n) (s', L, Suc n)"
| left: "u \<in> L \<Longrightarrow> srv_step (s, L, n) (client_left now u s, L - {u}, n)"
| control: "u \<in> L \<Longrightarrow> srv_step (s, L, n) (snd (control_message uenv now u msg s), L, n)"
| heartbeat: "u \<in> L \<Longrightarrow> srv_step (s, L, n) (heartbeat_tick now u s, L, n)"
| cleanup: "srv_step (s, L, n) (cleanup_reservations now s, L, n)"

inductive_cases srv_step_elim: "srv_step (s, L, n) t"

definition srv_reach :: "http_proxy option \<Rightarrow> srv_state \<Rightarrow> bool" where
  "srv_reach proxy t \<longleftrightarrow> srv_step\<^sup>*\<^sup>* (newServer proxy, {}, 0) t"

section \<open>Facts on the pool\<close>

definition pool_ok :: "tunnel_server \<Rightarrow> bool" where
  "pool_ok s \<longleftrightarrow> sorted (ts_availablePorts s) \<and> distinct (ts_availablePorts s) \<and>
     set (ts_availablePorts s) \<inter> ts_usedPorts s = {} \<and>
     set (ts_availablePorts s) \<union> ts_usedPorts s = {publicPortStart..publicPortEnd} \<and>
     m_ok (ts_portReservations s) \<and>
     (\<forall>key r. map_of (ts_portReservations s) key = Some r \<longrightarrow> rv_port r \<in> {publicPortStart..publicPortEnd})"

definition port_of :: "tunnel_server \<Rightarrow> nat \<Rightarrow> int" where
  "port_of s u = se_publicPort (ts_sessions s ! u)"

definition key_of :: "tunnel_server \<Rightarrow> nat \<Rightarrow> string" where
  "key_of s u = se_key (ts_sessions s ! u)"

definition id_of :: "tunnel_server \<Rightarrow> nat \<Rightarrow> string" where
  "id_of s u = se_clientID (ts_sessions s ! u)"

lemma pool_ok_cong:
  "pool_ok s \<Longrightarrow> ts_availablePorts s' = ts_availablePorts s \<Longrightarrow> ts_usedPorts s' = ts_usedPorts s \<Longrightarrow>
   ts_portReservations s' = ts_portReservations s \<Longrightarrow> pool_ok s'"
  by (simp add: pool_ok_def)

lemma pool_new: "pool_ok (newServer proxy)"
  by (simp add: pool_ok_def newServer_def)

lemma pool_used: "pool_ok s \<Longrightarrow> ts_usedPorts s \<subseteq> {publicPortStart..publicPortEnd}" and pool_finite: "pool_ok s \<Longrightarrow> finite (ts_usedPorts s)"
  by (auto simp: pool_ok_def intro: finite_subset [of _ "{publicPortStart..publicPortEnd}"])

text \<open>With fewer than 10001 ports in use one is left.\<close>

lemma pool_nonempty: "pool_ok s \<Longrightarrow> card (ts_usedPorts s) \<le> 10000 \<Longrightarrow> ts_availablePorts s \<noteq> []"
proof
  assume "pool_ok s" and "card (ts_usedPorts s) \<le> 10000" and "ts_availablePorts s = []"
  then have "card {publicPortStart..publicPortEnd} \<le> 10000"
    by (simp add: pool_ok_def)
  then show False by (simp add: port_range)
qed

lemma getNext_cases:
  assumes "getNextPublicPort now key req s = (p, s')"
  obtains (reserved) "reserved_for now key req s" "req \<notin> ts_usedPorts s" "p = req"
      "s' = s\<lparr>ts_availablePorts := remove1 req (ts_availablePorts s), ts_usedPorts := insert req (ts_usedPorts s),
              ts_portReservations := AList.delete key (ts_portReservations s)\<rparr>"
    | (empty) "ts_availablePorts s = []" "p = publicPortStart" "s' = s"
    | (head) rest where "ts_availablePorts s = p # rest"
      "s' = s\<lparr>ts_availablePorts := rest, ts_usedPorts := insert p (ts_usedPorts s)\<rparr>"
proof (cases "0 < req \<and> key \<noteq> [] \<and> reserved_for now key req s \<and> req \<notin> ts_usedPorts s")
  case True
  with assms show thesis by (intro reserved) (auto simp: getNextPublicPort_def)
next
  case False
  with assms have h: "(case ts_availablePorts s of [] \<Rightarrow> (publicPortStart, s)
      | port # rest \<Rightarrow> (port, s\<lparr>ts_availablePorts := rest, ts_usedPorts := insert port (ts_usedPorts s)\<rparr>)) = (p, s')"
    unfolding getNextPublicPort_def by (simp only: if_False)
  show thesis
  proof (cases "ts_availablePorts s")
    case Nil
    with h show thesis by (intro empty) simp_all
  next
    case (Cons port rest)
    with h show thesis by (intro head) auto
  qed
qed

lemma getNext_frame:
  assumes "getNextPublicPort now key req s = (p, s')"
  shows "ts_sessions s' = ts_sessions s" "ts_clients s' = ts_clients s" "ts_httpProxy s' = ts_httpProxy s"
  using assms by (cases rule: getNext_cases; simp)+

lemma getNext_pool:
  assumes "pool_ok s" and "getNextPublicPort now key req s = (p, s')"
  shows "pool_ok s' \<and> p \<in> {publicPortStart..publicPortEnd} \<and>
    (ts_usedPorts s' = insert p (ts_usedPorts s) \<and> p \<notin> ts_usedPorts s \<or>
      ts_availablePorts s = [] \<and> s' = s \<and> p = publicPortStart)"
  using assms(2)
proof (cases rule: getNext_cases)
  case reserved
  then have "req \<in> {publicPortStart..publicPortEnd}"
    using assms(1) by (auto simp: reserved_for_def pool_ok_def split: option.splits)
  then show ?thesis
    using reserved assms(1) by (auto simp: pool_ok_def sorted_remove1)
next
  case head
  then show ?thesis using assms(1) by (auto simp: pool_ok_def)
next
  case empty
  then show ?thesis using assms(1) by (auto simp: port_range)
qed

lemma release_pool:
  "pool_ok s \<Longrightarrow> pool_ok (releasePort p s)" "ts_usedPorts (releasePort p s) = ts_usedPorts s - {p}"
  "ts_sessions (releasePort p s) = ts_sessions s" "ts_clients (releasePort p s) = ts_clients s"
  "ts_httpProxy (releasePort p s) = ts_httpProxy s" "ts_portReservations (releasePort p s) = ts_portReservations s"
  by (auto simp: pool_ok_def releasePort_def)

section \<open>Facts on sessions\<close>

lemma upd_session_frame [simp]:
  "ts_clients (upd_session u f s) = ts_clients s" "ts_usedPorts (upd_session u f s) = ts_usedPorts s"
  "ts_availablePorts (upd_session u f s) = ts_availablePorts s" "ts_httpProxy (upd_session u f s) = ts_httpProxy s"
  "ts_portReservations (upd_session u f s) = ts_portReservations s" "length (ts_sessions (upd_session u f s)) = length (ts_sessions s)"
  by (simp_all add: upd_session_def)

lemma upd_session_nth:
  "ts_sessions (upd_session u f s) ! v = (if v = u \<and> u < length (ts_sessions s) then f (ts_sessions s ! u) else ts_sessions s ! v)"
  by (cases "u < length (ts_sessions s)") (auto simp: upd_session_def nth_list_update list_update_beyond)

lemma pool_upd [simp]: "pool_ok (upd_session u f s) = pool_ok s"
  by (simp add: pool_ok_def)

text \<open>What the operations on a session leave alone: the identifier, the key and the port of every session.\<close>

definition same_sessions :: "tunnel_server \<Rightarrow> tunnel_server \<Rightarrow> bool" where
  "same_sessions s s' \<longleftrightarrow> length (ts_sessions s') = length (ts_sessions s) \<and>
     (\<forall>v. port_of s' v = port_of s v \<and> id_of s' v = id_of s v \<and> key_of s' v = key_of s v)"

lemma same_refl [simp]: "same_sessions s s"
  by (simp add: same_sessions_def)

lemma same_cong: "ts_sessions s' = ts_sessions s \<Longrightarrow> same_sessions s s'"
  by (simp add: same_sessions_def port_of_def id_of_def key_of_def)

lemma same_upd:
  "(\<And>c. se_publicPort (f c) = se_publicPort c) \<Longrightarrow> (\<And>c. se_clientID (f c) = se_clientID c) \<Longrightarrow>
   (\<And>c. se_key (f c) = se_key c) \<Longrightarrow>
   same_sessions s (upd_session u f s)"
  by (simp add: same_sessions_def port_of_def id_of_def key_of_def upd_session_nth)

lemma same_trans: "same_sessions s t \<Longrightarrow> same_sessions t u \<Longrightarrow> same_sessions s u"
  by (simp add: same_sessions_def)

lemma same_close [simp]: "same_sessions t (close_session u s) \<longleftrightarrow> same_sessions t s"
  by (auto simp: same_sessions_def close_session_def port_of_def id_of_def key_of_def upd_session_nth)

lemma unregister_frame [simp]:
  "ts_clients (unregisterHTTPClient u s) = ts_clients s" "ts_usedPorts (unregisterHTTPClient u s) = ts_usedPorts s"
  "ts_availablePorts (unregisterHTTPClient u s) = ts_availablePorts s" "ts_sessions (unregisterHTTPClient u s) = ts_sessions s"
  "ts_portReservations (unregisterHTTPClient u s) = ts_portReservations s"
  by (auto simp: unregisterHTTPClient_def Let_def split: option.split)

lemma close_frame [simp]:
  "ts_clients (close_session u s) = ts_clients s" "ts_usedPorts (close_session u s) = ts_usedPorts s"
  "ts_availablePorts (close_session u s) = ts_availablePorts s" "ts_httpProxy (close_session u s) = ts_httpProxy s"
  "ts_portReservations (close_session u s) = ts_portReservations s"
  by (simp_all add: close_session_def)

lemma pool_close [simp]: "pool_ok (close_session u s) = pool_ok s" "pool_ok (unregisterHTTPClient u s) = pool_ok s"
  by (simp_all add: pool_ok_def)

lemma remove_frame:
  assumes "pool_ok s" and "0 < port_of s u \<longrightarrow> port_of s u \<in> {publicPortStart..publicPortEnd}"
  shows "pool_ok (removeClient now u s)" and "same_sessions s (removeClient now u s)"
    and "ts_clients (removeClient now u s) =
      (if map_of (ts_clients s) (id_of s u) = Some u then AList.delete (id_of s u) (ts_clients s) else ts_clients s)"
    and "ts_usedPorts (removeClient now u s) =
      (if map_of (ts_clients s) (id_of s u) = Some u \<and> 0 < port_of s u \<and> se_key (ts_sessions s ! u) \<noteq> []
       then ts_usedPorts s - {port_of s u} else ts_usedPorts s)"
proof -
  let ?c = "ts_sessions s ! u"
  let ?s = "s\<lparr>ts_clients := AList.delete (se_clientID ?c) (ts_clients s)\<rparr>"
  let ?t = "?s\<lparr>ts_portReservations :=
    AList.update (se_key ?c) \<lparr>rv_port = se_publicPort ?c, rv_expiresAt = now + 5 * minute\<rparr> (ts_portReservations ?s)\<rparr>"
  have t: "pool_ok ?t" if "0 < se_publicPort ?c"
    using assms that by (auto simp: pool_ok_def port_of_def)
  have s: "pool_ok ?s" using assms(1) by (simp add: pool_ok_def)
  show "pool_ok (removeClient now u s)"
    using release_pool(1) [OF t] s assms(1)
    by (auto simp: removeClient_def Let_def intro: pool_ok_cong)
  show "same_sessions s (removeClient now u s)"
    by (auto simp: removeClient_def Let_def release_pool intro!: same_cong)
  show "ts_clients (removeClient now u s) =
      (if map_of (ts_clients s) (id_of s u) = Some u then AList.delete (id_of s u) (ts_clients s) else ts_clients s)"
    and "ts_usedPorts (removeClient now u s) =
      (if map_of (ts_clients s) (id_of s u) = Some u \<and> 0 < port_of s u \<and> se_key (ts_sessions s ! u) \<noteq> []
       then ts_usedPorts s - {port_of s u} else ts_usedPorts s)"
    by (simp_all add: removeClient_def Let_def release_pool id_of_def port_of_def)
qed

text \<open>The parts of the state that a registration does not touch once the client is in the table.\<close>

definition same_tables :: "tunnel_server \<Rightarrow> tunnel_server \<Rightarrow> bool" where
  "same_tables s s' \<longleftrightarrow> same_sessions s s' \<and> ts_clients s' = ts_clients s \<and> ts_usedPorts s' = ts_usedPorts s \<and>
     ts_availablePorts s' = ts_availablePorts s \<and> ts_portReservations s' = ts_portReservations s"

lemma same_tables_refl [simp]: "same_tables s s"
  by (simp add: same_tables_def)

lemma same_tables_upd:
  "(\<And>c. se_publicPort (f c) = se_publicPort c) \<Longrightarrow> (\<And>c. se_clientID (f c) = se_clientID c) \<Longrightarrow>
   (\<And>c. se_key (f c) = se_key c) \<Longrightarrow>
   same_tables s t \<Longrightarrow> same_tables s (upd_session u f t)"
  by (auto simp: same_tables_def intro: same_trans [OF _ same_upd])

lemma same_tables_proxy: "same_tables s (s\<lparr>ts_httpProxy := p\<rparr>)"
  by (simp add: same_tables_def same_cong)

lemma register_http_tables: "registerHTTPClient env u s = Ok s' \<Longrightarrow> same_tables s s'"
  by (auto simp: registerHTTPClient_def RegisterClient_def Let_def split: option.splits if_splits intro!: same_tables_upd same_tables_proxy)

lemma pool_same: "same_tables s s' \<Longrightarrow> pool_ok s \<Longrightarrow> pool_ok s'"
  by (auto simp: same_tables_def intro: pool_ok_cong)

text \<open>
  A registration that does not panic either stops at the limiter, or takes a port and enters the client in the
  table before anything can fail.
\<close>

definition entered :: "string \<Rightarrow> nat \<Rightarrow> int \<Rightarrow> tunnel_server \<Rightarrow> tunnel_server \<Rightarrow> tunnel_server \<Rightarrow> bool" where
  "entered key u p s s2 s' \<longleftrightarrow> port_of s' u = p \<and> key_of s' u = key \<and> ts_clients s' = AList.update (id_of s' u) u (ts_clients s) \<and>
     ts_usedPorts s' = ts_usedPorts s2 \<and> ts_availablePorts s' = ts_availablePorts s2 \<and>
     ts_portReservations s' = ts_portReservations s2 \<and> length (ts_sessions s') = length (ts_sessions s) \<and>
     (\<forall>v. v \<noteq> u \<longrightarrow> port_of s' v = port_of s v \<and> id_of s' v = id_of s v)"

lemma entered_tables: "entered key u p s s2 t \<Longrightarrow> same_tables t s' \<Longrightarrow> entered key u p s s2 s'"
  by (auto simp: entered_def same_tables_def same_sessions_def)

lemma entered_start:
  assumes "u < length (ts_sessions s)" and "getNextPublicPort now key req s = (p, s2)"
    and "\<And>c. se_publicPort (f c) = p" and "\<And>c. se_key (f c) = key"
  shows "entered key u p s s2 (addClient u (upd_session u f s2))"
  using assms(1,3,4) getNext_frame [OF assms(2)]
  by (simp add: entered_def addClient_def port_of_def id_of_def key_of_def upd_session_nth)

lemma handleClient_effect:
  assumes "u < length (ts_sessions s)" and "handleClient env u msg s = (r, s')" and "r \<noteq> Panic"
  shows "(\<exists>e. r = Fail e) \<and> s' = s \<or>
    (\<exists>p s2. getNextPublicPort (re_now env) (register_key env msg) (mg_RequestedPort msg) s = (p, s2) \<and>
       entered (register_key env msg) u p s s2 s' \<and> client_id (register_key env msg) msg = Ok (id_of s' u))"
proof (cases "re_admit env \<and> mg_Type msg = ''register''")
  case False
  with assms(2) show ?thesis by (auto simp: handleClient_def split: if_splits)
next
  case True
  define key where "key = register_key env msg"
  obtain p s2 where g: "getNextPublicPort (re_now env) key (mg_RequestedPort msg) s = (p, s2)"
    by fastforce
  have "client_id key msg \<noteq> Fail e" for e
    by (simp add: client_id_def Let_def)
  then obtain cid where cid: "client_id key msg = Ok cid"
    using True assms(2,3) g by (cases "client_id key msg") (auto simp: handleClient_def Let_def key_def)
  let ?f = "\<lambda>c. c\<lparr>se_clientID := cid, se_key := key, se_target := mg_Target msg,
      se_protocol := tunnel_protocol msg, se_publicPort := p\<rparr>"
  let ?t = "addClient u (upd_session u ?f s2)"
  have t: "entered key u p s s2 ?t" by (rule entered_start [OF assms(1) g]) simp_all
  have "id_of ?t u = cid"
    using assms(1) getNext_frame(1) [OF g] by (simp add: id_of_def addClient_def upd_session_nth)
  have eq: "handleClient env u msg s =
      (case (if tunnel_protocol msg = ''http'' then registerHTTPClient env u ?t else Ok ?t) of
         Fail e \<Rightarrow> (Fail e, ?t)
       | Panic \<Rightarrow> (Panic, ?t)
       | Ok s \<Rightarrow>
           let s = (case re_udp_key env of None \<Rightarrow> s | Some k \<Rightarrow> upd_session u (\<lambda>c. c\<lparr>se_udpSecret := Some k\<rparr>) s)
           in if re_send env then (Ok (registered_message u s), s) else (Fail SendFailed, s))"
    using True g cid by (simp add: handleClient_def Let_def key_def [symmetric])
  have "same_tables ?t s'"
    using assms(2) register_http_tables [of env u ?t] unfolding eq
    by (auto simp: Let_def split: res.splits if_splits option.splits intro!: same_tables_upd)
  moreover from this have "id_of s' u = cid"
    using \<open>id_of ?t u = cid\<close> by (simp add: same_tables_def same_sessions_def)
  ultimately show ?thesis using g cid entered_tables [OF t] unfolding key_def by blast
qed

text \<open>What a registration does to the pool, the sessions and the table, whether it succeeds or fails.\<close>

lemma accept_effect:
  assumes ok: "pool_ok s" and clients: "\<forall>c v. map_of (ts_clients s) c = Some v \<longrightarrow> v < length (ts_sessions s)"
    and acc: "accept_client env ip msg s = (r, s')" and r: "r \<noteq> Panic" and u: "u = length (ts_sessions s)"
  shows "pool_ok s' \<and> length (ts_sessions s') = Suc u \<and> (\<forall>v<u. port_of s' v = port_of s v \<and> id_of s' v = id_of s v) \<and>
    card (ts_usedPorts s') \<le> Suc (card (ts_usedPorts s)) \<and> (ts_availablePorts s \<noteq> [] \<longrightarrow> ts_usedPorts s \<subseteq> ts_usedPorts s') \<and>
    port_of s' u \<in> insert 0 {publicPortStart..publicPortEnd} \<and>
    (case r of
       Ok m \<Rightarrow> key_of s' u = register_key env msg \<and> client_id (register_key env msg) msg = Ok (id_of s' u) \<and>
         (ts_availablePorts s = [] \<longrightarrow> ts_usedPorts s' = ts_usedPorts s \<and> ts_availablePorts s' = [] \<and> port_of s' u = publicPortStart) \<and>
         ts_clients s' = AList.update (id_of s' u) u (ts_clients s) \<and>
         (ts_availablePorts s \<noteq> [] \<longrightarrow> port_of s' u \<in> ts_usedPorts s' \<and> port_of s' u \<notin> ts_usedPorts s)
     | _ \<Rightarrow> \<forall>c v. map_of (ts_clients s') c = Some v \<longrightarrow> map_of (ts_clients s) c = Some v)"
proof -
  define s0 where "s0 = s\<lparr>ts_sessions := ts_sessions s @ [new_session (re_now env) ip]\<rparr>"
  obtain r0 s1 where h: "handleClient env u msg s0 = (r0, s1)" by fastforce
  have res: "r = r0" "s' = (case r0 of Ok m \<Rightarrow> s1\<lparr>ts_activeConnections := ts_activeConnections s1 + 1\<rparr>
      | Fail e \<Rightarrow> removeClient (re_now env) u s1 | Panic \<Rightarrow> s1)"
    using acc h by (auto simp: accept_client_def s0_def u Let_def split: res.splits prod.splits)
  have s0: "pool_ok s0" "u < length (ts_sessions s0)" "length (ts_sessions s0) = Suc u" "ts_usedPorts s0 = ts_usedPorts s"
    "ts_availablePorts s0 = ts_availablePorts s" "ts_clients s0 = ts_clients s"
    "\<And>v. v < u \<Longrightarrow> port_of s0 v = port_of s v \<and> id_of s0 v = id_of s v" "port_of s0 u = 0" "id_of s0 u = []"
    using ok by (auto simp: s0_def u pool_ok_def port_of_def id_of_def nth_append new_session_def)
  have new: "map_of (ts_clients s) c \<noteq> Some u" for c
    using clients [rule_format, of c u] by (auto simp: u)
  from handleClient_effect [OF s0(2) h] r res(1)
  consider (stopped) e where "r = Fail e" "s1 = s0"
    | (entered) p s2 where "getNextPublicPort (re_now env) (register_key env msg) (mg_RequestedPort msg) s0 = (p, s2)"
        "entered (register_key env msg) u p s0 s2 s1" "client_id (register_key env msg) msg = Ok (id_of s1 u)"
    by blast
  then show ?thesis
  proof cases
    case stopped
    have "0 < port_of s0 u \<longrightarrow> port_of s0 u \<in> {publicPortStart..publicPortEnd}" using s0(8) by simp
    note f = remove_frame [OF s0(1) this, of "re_now env"]
    show ?thesis
      using f s0 new stopped res by (auto simp: same_sessions_def)
  next
    case entered
    note g = getNext_pool [OF s0(1) entered(1)]
    have e: "port_of s1 u = p" "key_of s1 u = register_key env msg" "ts_clients s1 = AList.update (id_of s1 u) u (ts_clients s)" "ts_usedPorts s1 = ts_usedPorts s2"
      "length (ts_sessions s1) = Suc u" "\<And>v. v < u \<Longrightarrow> port_of s1 v = port_of s v \<and> id_of s1 v = id_of s v"
      using entered(2) s0 by (auto simp: entered_def)
    have ok1: "pool_ok s1"
      using g entered(2) by (auto simp: entered_def intro: pool_ok_cong)
    have range: "p \<in> {publicPortStart..publicPortEnd}" using g by blast
    have used: "ts_usedPorts s1 = insert p (ts_usedPorts s) \<and> p \<notin> ts_usedPorts s \<or>
        ts_availablePorts s = [] \<and> ts_usedPorts s1 = ts_usedPorts s"
      using g e(4) s0(4,5) by auto
    have card: "card (ts_usedPorts s1) \<le> Suc (card (ts_usedPorts s))"
      using used pool_finite [OF ok] by (auto simp: card_insert_if)
    show ?thesis
    proof (cases r0)
      case (Ok m)
      with res have s': "s' = s1\<lparr>ts_activeConnections := ts_activeConnections s1 + 1\<rparr>" by simp
      have "pool_ok s'" "port_of s' = port_of s1" "id_of s' = id_of s1" "key_of s' = key_of s1"
        using ok1 by (auto simp: s' port_of_def id_of_def key_of_def intro: pool_ok_cong)
      moreover have "ts_availablePorts s1 = [] \<and> ts_usedPorts s1 = ts_usedPorts s \<and> p = publicPortStart" if av: "ts_availablePorts s = []"
      proof -
        have "p \<in> ts_usedPorts s0" using ok av range s0(4) by (auto simp: pool_ok_def)
        with g have "s2 = s0" "p = publicPortStart" by auto
        with entered(2) av s0(4,5) show ?thesis by (simp add: entered_def)
      qed
      ultimately show ?thesis using Ok res(1) e entered(3) used card range by (auto simp: s')
    next
      case (Fail err)
      with res have s': "s' = removeClient (re_now env) u s1" by simp
      have "0 < port_of s1 u \<longrightarrow> port_of s1 u \<in> {publicPortStart..publicPortEnd}" using e(1) range by simp
      note f = remove_frame [OF ok1 this, of "re_now env"]
      have "card (ts_usedPorts s') \<le> card (ts_usedPorts s1)"
        using f(4) e(1) range pool_finite [OF ok1] by (auto simp: s' intro: card_mono)
      moreover have "ts_availablePorts s \<noteq> [] \<longrightarrow> ts_usedPorts s \<subseteq> ts_usedPorts s'"
        using used f(4) e(1) range by (auto simp: s')
      moreover have "map_of (ts_clients s') c = Some v \<Longrightarrow> map_of (ts_clients s) c = Some v" for c v
        using f(3) e(1,3) range by (auto simp: s' split: if_splits)
      ultimately show ?thesis
        using f(1,2) e range card Fail res(1) by (auto simp: s' same_sessions_def)
    qed (use r res in simp)
  qed
qed

section \<open>The invariant of the reachable states\<close>

text \<open>
  The ports of the sessions whose loop runs differ and are in use as long as the pool has not been exhausted, which
  takes more than 10001 registrations.
\<close>

definition srv_inv :: "tunnel_server \<Rightarrow> nat set \<Rightarrow> nat \<Rightarrow> bool" where
  "srv_inv s L n \<longleftrightarrow> pool_ok s \<and> card (ts_usedPorts s) \<le> n \<and>
     (\<forall>v < length (ts_sessions s). port_of s v \<in> insert 0 {publicPortStart..publicPortEnd}) \<and>
     (\<forall>v \<in> L. v < length (ts_sessions s)) \<and>
     (\<forall>c v. map_of (ts_clients s) c = Some v \<longrightarrow> v \<in> L \<and> id_of s v = c) \<and>
     (n \<le> 10001 \<longrightarrow> inj_on (port_of s) L \<and> port_of s ` L \<subseteq> ts_usedPorts s)"

lemma inv_new: "srv_inv (newServer proxy) {} 0"
  using pool_new [of proxy] by (simp add: srv_inv_def newServer_def)

lemma inv_same:
  assumes "srv_inv s L n" and "same_sessions s s'" and "ts_clients s' = ts_clients s" and "ts_usedPorts s' = ts_usedPorts s"
    and "pool_ok s'"
  shows "srv_inv s' L n"
proof -
  have "port_of s' = port_of s" "id_of s' = id_of s" "length (ts_sessions s') = length (ts_sessions s)"
    using assms(2) by (auto simp: same_sessions_def)
  then show ?thesis using assms by (simp add: srv_inv_def)
qed

lemma inv_accept:
  assumes inv: "srv_inv s L n" and acc: "accept_client env ip msg s = (r, s')" and r: "r \<noteq> Panic"
  shows "srv_inv s' (case r of Ok m \<Rightarrow> insert (length (ts_sessions s)) L | _ \<Rightarrow> L) (Suc n)"
proof -
  let ?u = "length (ts_sessions s)"
  have i: "pool_ok s" "card (ts_usedPorts s) \<le> n" "\<forall>v < ?u. port_of s v \<in> insert 0 {publicPortStart..publicPortEnd}" "\<forall>v \<in> L. v < ?u"
    "\<forall>c v. map_of (ts_clients s) c = Some v \<longrightarrow> v \<in> L \<and> id_of s v = c"
    "n \<le> 10001 \<longrightarrow> inj_on (port_of s) L \<and> port_of s ` L \<subseteq> ts_usedPorts s"
    using inv by (simp_all add: srv_inv_def)
  have clients: "\<forall>c v. map_of (ts_clients s) c = Some v \<longrightarrow> v < ?u" using i(4,5) by simp
  note e = accept_effect [OF i(1) clients acc r refl]
  have "\<forall>v<?u. port_of s' v = port_of s v \<and> id_of s' v = id_of s v" using e by (elim conjE) assumption
  then have ports: "port_of s' v = port_of s v \<and> id_of s' v = id_of s v" if "v \<in> L" for v using i(4) that by simp
  have avail: "ts_availablePorts s \<noteq> []" if "Suc n \<le> 10001"
    using pool_nonempty [OF i(1)] i(2) that by simp
  have old: "inj_on (port_of s') L \<and> port_of s' ` L \<subseteq> ts_usedPorts s" if "Suc n \<le> 10001"
    using i(6) that ports by (auto simp: inj_on_def)
  have frame: "pool_ok s'" "length (ts_sessions s') = Suc ?u" "\<forall>v<?u. port_of s' v = port_of s v"
    "card (ts_usedPorts s') \<le> Suc n" "ts_availablePorts s \<noteq> [] \<Longrightarrow> ts_usedPorts s \<subseteq> ts_usedPorts s'"
    "port_of s' ?u \<in> insert 0 {publicPortStart..publicPortEnd}"
    using e i(2) by simp_all
  have all_ports: "\<forall>v < length (ts_sessions s'). port_of s' v \<in> insert 0 {publicPortStart..publicPortEnd}"
    using frame(2,3,6) i(3) by (auto simp: less_Suc_eq)
  show ?thesis
  proof (cases r)
    case (Ok m)
    have new: "ts_clients s' = AList.update (id_of s' ?u) ?u (ts_clients s)"
      "ts_availablePorts s \<noteq> [] \<Longrightarrow> port_of s' ?u \<in> ts_usedPorts s' \<and> port_of s' ?u \<notin> ts_usedPorts s"
      using e Ok by simp_all
    have "inj_on (port_of s') (insert ?u L) \<and> port_of s' ` insert ?u L \<subseteq> ts_usedPorts s'" if n: "Suc n \<le> 10001"
      using old [OF n] frame(5) [OF avail [OF n]] new(2) [OF avail [OF n]] by auto
    moreover have "\<forall>c v. map_of (ts_clients s') c = Some v \<longrightarrow> v \<in> insert ?u L \<and> id_of s' v = c"
      using new(1) i(5) ports by auto
    ultimately show ?thesis
      using frame(1,2,4) all_ports i(4) Ok by (auto simp: srv_inv_def)
  next
    case (Fail err)
    have "map_of (ts_clients s') c = Some v \<Longrightarrow> map_of (ts_clients s) c = Some v" for c v
      using e Fail by simp
    then have "\<forall>c v. map_of (ts_clients s') c = Some v \<longrightarrow> v \<in> L \<and> id_of s' v = c"
      using i(5) ports by blast
    moreover have "inj_on (port_of s') L \<and> port_of s' ` L \<subseteq> ts_usedPorts s'" if n: "Suc n \<le> 10001"
      using old [OF n] frame(5) [OF avail [OF n]] by blast
    ultimately show ?thesis
      using frame(1,2,4) all_ports i(4) Fail by (auto simp: srv_inv_def)
  qed (use r in simp)
qed

lemma inv_left:
  assumes inv: "srv_inv s L n" and u: "u \<in> L"
  shows "srv_inv (client_left now u s) (L - {u}) n"
proof -
  define s0 where "s0 = s\<lparr>ts_activeConnections := ts_activeConnections s - 1\<rparr>"
  have s0: "srv_inv s0 L n"
    by (rule inv_same [OF inv]) (use inv in \<open>auto simp: s0_def srv_inv_def same_cong intro: pool_ok_cong\<close>)
  then have i: "pool_ok s0" "\<forall>v < length (ts_sessions s0). port_of s0 v \<in> insert 0 {publicPortStart..publicPortEnd}"
    "\<forall>v \<in> L. v < length (ts_sessions s0)" "\<forall>c v. map_of (ts_clients s0) c = Some v \<longrightarrow> v \<in> L \<and> id_of s0 v = c"
    "n \<le> 10001 \<longrightarrow> inj_on (port_of s0) L \<and> port_of s0 ` L \<subseteq> ts_usedPorts s0" "card (ts_usedPorts s0) \<le> n"
    by (simp_all add: srv_inv_def)
  have "0 < port_of s0 u \<longrightarrow> port_of s0 u \<in> {publicPortStart..publicPortEnd}" using i(2,3) u by auto
  note f = remove_frame [OF i(1) this, of now]
  define s' where "s' = removeClient now u s0"
  have same: "port_of s' = port_of s0" "id_of s' = id_of s0" "length (ts_sessions s') = length (ts_sessions s0)"
    using f(2) by (auto simp: s'_def same_sessions_def)
  have "card (ts_usedPorts s') \<le> card (ts_usedPorts s0)"
    using f(4) pool_finite [OF i(1)] by (auto simp: s'_def intro: card_mono)
  moreover have "inj_on (port_of s0) (L - {u}) \<and> port_of s0 ` (L - {u}) \<subseteq> ts_usedPorts s'" if "n \<le> 10001"
    using i(5) that f(4) u by (auto simp: s'_def inj_on_def)
  moreover have "\<forall>c v. map_of (ts_clients s') c = Some v \<longrightarrow> v \<in> L - {u} \<and> id_of s0 v = c"
  proof (cases "map_of (ts_clients s0) (id_of s0 u) = Some u")
    case True
    then have "ts_clients s' = AList.delete (id_of s0 u) (ts_clients s0)" using f(3) by (simp add: s'_def)
    then show ?thesis using i(4) by auto
  next
    case False
    then have "ts_clients s' = ts_clients s0" using f(3) by (simp add: s'_def)
    then show ?thesis using i(4) False by auto
  qed
  ultimately have "srv_inv s' (L - {u}) n"
    using f(1) i same by (auto simp: srv_inv_def s'_def)
  then show ?thesis by (simp add: client_left_def s0_def s'_def)
qed

lemma control_tables:
  "same_sessions s (snd (control_message env now u msg s)) \<and>
   ts_clients (snd (control_message env now u msg s)) = ts_clients s \<and>
   ts_usedPorts (snd (control_message env now u msg s)) = ts_usedPorts s \<and>
   (pool_ok s \<longrightarrow> pool_ok (snd (control_message env now u msg s)))"
proof -
  let ?s = "upd_session u (\<lambda>c. c\<lparr>se_lastSeen := now\<rparr>) s"
  have "same_sessions s ?s" by (rule same_upd) simp_all
  then have "same_sessions s (?s\<lparr>ts_udpSessions := us\<rparr>)" for us
    by (rule same_trans) (simp add: same_cong)
  then show ?thesis
    using \<open>same_sessions s ?s\<close>
    by (auto simp: control_message_def Let_def split: prod.split intro: pool_ok_cong)
qed

lemma pool_cleanup: "pool_ok s \<Longrightarrow> pool_ok (cleanup_reservations now s)"
  by (auto simp: cleanup_reservations_def pool_ok_def map_of_m_keep split: option.splits if_splits)

lemma srv_step_inv:
  assumes "srv_step (s, L, n) (s', L', n')" and inv: "srv_inv s L n"
  shows "srv_inv s' L' n'"
  using assms(1)
proof (cases rule: srv_step.cases)
  case (registered env ip msg m)
  then show ?thesis using inv_accept [OF inv registered(3)] by simp
next
  case (refused env ip msg e)
  then show ?thesis using inv_accept [OF inv refused(3)] by simp
next
  case (left u now)
  then show ?thesis using inv_left [OF inv] by simp
next
  case (control u uenv now msg)
  then show ?thesis
    using inv_same [OF inv] control_tables [of s uenv now u msg] inv by (auto simp: srv_inv_def)
next
  case (heartbeat u now)
  have "srv_inv (close_session u s) L n"
    using inv by (intro inv_same [OF inv]) (auto simp: srv_inv_def)
  with heartbeat show ?thesis using inv by (simp add: heartbeat_tick_def Let_def)
next
  case (cleanup now)
  have "pool_ok s" using inv by (simp add: srv_inv_def)
  with cleanup show ?thesis
    using inv_same [OF inv _ _ _ pool_cleanup [of s now]] by (simp add: cleanup_reservations_def same_cong)
qed

lemma srv_reach_inv: "srv_reach proxy (s, L, n) \<Longrightarrow> srv_inv s L n"
proof -
  have "srv_step\<^sup>*\<^sup>* (newServer proxy, {}, 0) t \<Longrightarrow> case t of (s, L, n) \<Rightarrow> srv_inv s L n" for t
    by (induction rule: rtranclp_induct) (auto simp: inv_new intro: srv_step_inv)
  then show "srv_reach proxy (s, L, n) \<Longrightarrow> srv_inv s L n" by (force simp: srv_reach_def)
qed

section \<open>Facts on runs\<close>

text \<open>A port in use that no session of the run has is never freed and never assigned again.\<close>

definition stranded :: "int \<Rightarrow> srv_state \<Rightarrow> bool" where
  "stranded p t = (case t of (s, L, n) \<Rightarrow> p \<in> ts_usedPorts s \<and> (\<forall>v \<in> L. port_of s v \<noteq> p))"

lemma stranded_same:
  "stranded p (s, L, n) \<Longrightarrow> same_sessions s s' \<Longrightarrow> ts_usedPorts s' = ts_usedPorts s \<Longrightarrow> stranded p (s', L, n)"
  by (simp add: stranded_def same_sessions_def)

lemma inv_accept_effect:
  assumes "srv_inv s L n" and "n \<le> 10000" and "accept_client env ip msg s = (r, s')" and "r \<noteq> Panic"
  shows "ts_usedPorts s \<subseteq> ts_usedPorts s' \<and> (\<forall>v \<in> L. port_of s' v = port_of s v \<and> id_of s' v = id_of s v) \<and>
    (\<forall>m. r = Ok m \<longrightarrow> port_of s' (length (ts_sessions s)) \<notin> ts_usedPorts s)"
proof -
  have i: "pool_ok s" "\<forall>c v. map_of (ts_clients s) c = Some v \<longrightarrow> v < length (ts_sessions s)" "\<forall>v \<in> L. v < length (ts_sessions s)"
    "card (ts_usedPorts s) \<le> 10000"
    using assms(1,2) by (auto simp: srv_inv_def)
  show ?thesis
    using accept_effect [OF i(1,2) assms(3,4) refl] pool_nonempty [OF i(1,4)] i(3) by (auto split: res.splits)
qed

lemma left_effect:
  assumes "srv_inv s L n" and "u \<in> L"
  shows "same_sessions s (client_left now u s)"
    and "ts_usedPorts (client_left now u s) =
      (if map_of (ts_clients s) (id_of s u) = Some u \<and> 0 < port_of s u \<and> key_of s u \<noteq> []
       then ts_usedPorts s - {port_of s u} else ts_usedPorts s)"
    and "ts_clients (client_left now u s) =
      (if map_of (ts_clients s) (id_of s u) = Some u then AList.delete (id_of s u) (ts_clients s) else ts_clients s)"
    and "pool_ok (client_left now u s)"
proof -
  define s0 where "s0 = s\<lparr>ts_activeConnections := ts_activeConnections s - 1\<rparr>"
  have s0: "pool_ok s0" "port_of s0 = port_of s" "id_of s0 = id_of s" "ts_clients s0 = ts_clients s" "ts_usedPorts s0 = ts_usedPorts s"
    "ts_sessions s0 = ts_sessions s"
    using assms(1) by (auto simp: s0_def srv_inv_def port_of_def id_of_def intro: pool_ok_cong)
  have "0 < port_of s0 u \<longrightarrow> port_of s0 u \<in> {publicPortStart..publicPortEnd}"
    using assms s0(2) by (auto simp: srv_inv_def)
  note f = remove_frame [OF s0(1) this, of now]
  show "same_sessions s (client_left now u s)"
    using same_trans [OF same_cong [OF s0(6)] f(2)] by (simp add: client_left_def s0_def)
  show "ts_usedPorts (client_left now u s) = (if map_of (ts_clients s) (id_of s u) = Some u \<and> 0 < port_of s u \<and> key_of s u \<noteq> []
       then ts_usedPorts s - {port_of s u} else ts_usedPorts s)"
    and "ts_clients (client_left now u s) =
      (if map_of (ts_clients s) (id_of s u) = Some u then AList.delete (id_of s u) (ts_clients s) else ts_clients s)"
    and "pool_ok (client_left now u s)"
    using f(1,3,4) s0 by (simp_all add: client_left_def s0_def [symmetric] key_of_def)
qed

lemma step_count: "srv_step (s, L, n) (s', L', n') \<Longrightarrow> n \<le> n'"
  by (erule srv_step_elim) auto

lemma step_stranded:
  assumes "srv_step (s, L, n) (s', L', n')" and inv: "srv_inv s L n" and n: "n' \<le> 10001" and p: "stranded p (s, L, n)"
  shows "stranded p (s', L', n')"
  using assms(1)
proof (cases rule: srv_step.cases)
  case (registered env ip msg m)
  then show ?thesis
    using inv_accept_effect [OF inv _ registered(3)] n p by (auto simp: stranded_def)
next
  case (refused env ip msg e)
  then show ?thesis
    using inv_accept_effect [OF inv _ refused(3)] n p by (auto simp: stranded_def)
next
  case (left u now)
  then show ?thesis
    using left_effect(1,2) [OF inv, of u now] p by (auto simp: stranded_def same_sessions_def)
next
  case (control u uenv now msg)
  then show ?thesis
    using stranded_same [OF p] control_tables [of s uenv now u msg] by auto
next
  case (heartbeat u now)
  then show ?thesis
    using stranded_same [OF p, of "close_session u s"] p by (simp add: heartbeat_tick_def Let_def)
next
  case (cleanup now)
  then show ?thesis using stranded_same [OF p] by (simp add: cleanup_reservations_def same_cong)
qed

lemma run_stranded:
  assumes "srv_step\<^sup>*\<^sup>* (s, L, n) (t, L', n')" and "srv_inv s L n" and "n' \<le> 10001" and "stranded p (s, L, n)"
  shows "stranded p (t, L', n')"
proof -
  have "srv_step\<^sup>*\<^sup>* x y \<Longrightarrow>
      (case x of (s, L, n) \<Rightarrow> srv_inv s L n) \<Longrightarrow> stranded p x \<Longrightarrow>
      (case y of (t, L', n') \<Rightarrow> srv_inv t L' n' \<and> (n' \<le> 10001 \<longrightarrow> stranded p y))" for x y
  proof (induction rule: rtranclp_induct)
    case (step y z)
    obtain s L n s' L' n' where yz: "y = (s, L, n)" "z = (s', L', n')" by (metis prod_cases3)
    with step step_count [of s L n s' L' n'] show ?case
      using srv_step_inv [of s L n s' L' n'] step_stranded [of s L n s' L' n' p] by auto
  qed auto
  from this [OF assms(1)] show ?thesis using assms(2-4) by simp
qed

lemma entry_live: "srv_inv s L n \<Longrightarrow> map_of (ts_clients s) c = Some u \<Longrightarrow> u \<in> L \<and> id_of s u = c"
  by (simp add: srv_inv_def)

section \<open>A sample run\<close>

text \<open>One client that registers again and again, every connection kept open.\<close>

definition sample_register :: register_env where
  "sample_register = \<lparr>re_now = 0, re_admit = True, re_random_key = replicate 16 0, re_random_subdomain = [1, 2, 3],
     re_udp_key = None, re_send = True\<rparr>"

definition sample_hello :: message where
  "sample_hello = (message_of ''register'')\<lparr>mg_Key := ''alpha-key'', mg_ClientID := ''c1''\<rparr>"

definition sample_accept :: "tunnel_server \<Rightarrow> tunnel_server" where
  "sample_accept s = snd (accept_client sample_register ''192.0.2.1'' sample_hello s)"

definition sample_run :: "nat \<Rightarrow> tunnel_server" where
  "sample_run k = (sample_accept ^^ k) (newServer None)"

lemma sample_values:
  "register_key sample_register sample_hello = ''alpha-key''" "client_id ''alpha-key'' sample_hello = Ok ''c1''"
  "tunnel_protocol sample_hello = ''tcp''" "re_admit sample_register" "re_send sample_register" "re_udp_key sample_register = None"
  "mg_Type sample_hello = ''register''" "mg_RequestedPort sample_hello = 0" "trim_space (mg_ClientID sample_hello) = ''c1''"
  by code_simp+

lemma sample_step:
  assumes "ts_availablePorts s = p # rest"
  shows "\<exists>m. accept_client sample_register ''192.0.2.1'' sample_hello s = (Ok m, sample_accept s)"
    and "ts_availablePorts (sample_accept s) = rest" and "length (ts_sessions (sample_accept s)) = Suc (length (ts_sessions s))"
    and "v < length (ts_sessions s) \<Longrightarrow> port_of (sample_accept s) v = port_of s v"
    and "port_of (sample_accept s) (length (ts_sessions s)) = p" and "id_of (sample_accept s) (length (ts_sessions s)) = ''c1''"
    and "key_of (sample_accept s) (length (ts_sessions s)) = ''alpha-key''"
    and "map_of (ts_clients (sample_accept s)) ''c1'' = Some (length (ts_sessions s))"
  using assms
  by (simp_all add: sample_accept_def accept_client_def handleClient_def sample_values getNextPublicPort_def addClient_def
      upd_session_def Let_def port_of_def id_of_def key_of_def update_conv' nth_append)

lemma sample_accept_empty:
  assumes "ts_availablePorts s = []"
  shows "\<exists>m. accept_client sample_register ''192.0.2.1'' sample_hello s = (Ok m, sample_accept s)"
  using assms
  by (simp add: sample_accept_def accept_client_def handleClient_def sample_values getNextPublicPort_def Let_def)

lemma sample_run_reach:
  "k \<le> 10001 \<Longrightarrow> srv_reach None (sample_run k, {0..<k}, k) \<and> ts_availablePorts (sample_run k) = [publicPortStart + int k..publicPortEnd] \<and>
     length (ts_sessions (sample_run k)) = k \<and> (\<forall>v < k. port_of (sample_run k) v = publicPortStart + int v)"
proof (induction k)
  case 0
  then show ?case by (simp add: sample_run_def srv_reach_def newServer_def)
next
  case (Suc k)
  let ?s = "sample_run k"
  have ih: "srv_reach None (?s, {0..<k}, k)" "ts_availablePorts ?s = [publicPortStart + int k..publicPortEnd]"
    "length (ts_sessions ?s) = k" "\<forall>v < k. port_of ?s v = publicPortStart + int v"
    using Suc by simp_all
  have "publicPortStart + int k \<le> publicPortEnd" using Suc.prems by (simp add: port_range)
  then have av: "ts_availablePorts ?s = (publicPortStart + int k) # [publicPortStart + int (Suc k)..publicPortEnd]"
    using ih(2) by (simp add: upto_rec1 ac_simps)
  have run: "sample_run (Suc k) = sample_accept ?s" by (simp add: sample_run_def)
  obtain m where "accept_client sample_register ''192.0.2.1'' sample_hello ?s = (Ok m, sample_accept ?s)"
    using sample_step(1) [OF av] by blast
  then have "srv_step (?s, {0..<k}, k) (sample_run (Suc k), insert k {0..<k}, Suc k)"
    using srv_step.registered [of sample_register _ _ ?s] ih(3) by (simp add: run)
  then have "srv_reach None (sample_run (Suc k), {0..<Suc k}, Suc k)"
    using ih(1) unfolding srv_reach_def by (metis rtranclp.rtrancl_into_rtrancl atLeast0_lessThan_Suc)
  then show ?case
    using sample_step(2-5) [OF av] ih(3,4) by (auto simp: run less_Suc_eq)
qed

lemma sample_one: "id_of (sample_run 1) 0 = ''c1''" "key_of (sample_run 1) 0 = ''alpha-key''"
  "map_of (ts_clients (sample_run 1)) ''c1'' = Some 0" "port_of (sample_run 1) 0 = 10000"
  "\<exists>m. accept_client sample_register ''192.0.2.1'' sample_hello (sample_run 1) = (Ok m, sample_run 2)"
proof -
  have av: "ts_availablePorts (newServer None) = publicPortStart # [publicPortStart + 1..publicPortEnd]"
    unfolding newServer_def tunnel_server.simps by (rule upto_rec1) (simp add: port_range)
  have run: "sample_run 1 = sample_accept (newServer None)" by (simp add: sample_run_def)
  have l: "length (ts_sessions (newServer None)) = 0" by (simp add: newServer_def)
  show "id_of (sample_run 1) 0 = ''c1''" "key_of (sample_run 1) 0 = ''alpha-key''"
    "map_of (ts_clients (sample_run 1)) ''c1'' = Some 0" "port_of (sample_run 1) 0 = 10000"
    using sample_step(5-8) [OF av] l by (simp_all add: run [simplified] publicPortStart_def)
  have "sample_run 2 = sample_accept (sample_run 1)" by (simp add: sample_run_def numeral_2_eq_2)
  moreover have "ts_availablePorts (sample_run 1) = (publicPortStart + 1) # [publicPortStart + 1 + 1..publicPortEnd]"
    using sample_run_reach [of 1] upto_rec1 [of "publicPortStart + 1" publicPortEnd] by (simp add: port_range del: upto_rec_numeral)
  ultimately show "\<exists>m. accept_client sample_register ''192.0.2.1'' sample_hello (sample_run 1) = (Ok m, sample_run 2)"
    using sample_step(1) by simp
qed

section \<open>Properties\<close>

text \<open>
  C20: The tables of the server stay well formed whatever clients register, leave, time out and send: the free ports are
  sorted, distinct and disjoint from the ports in use, and both together are the public range; every entry of the
  table of clients names a session whose control loop runs and that has the entry's identifier; every reservation is
  of a port of the range.
\<close>

theorem server_tables_well_formed:
  assumes "srv_reach proxy (s, L, n)"
  shows "sorted (ts_availablePorts s) \<and> distinct (ts_availablePorts s) \<and> set (ts_availablePorts s) \<inter> ts_usedPorts s = {} \<and>
    set (ts_availablePorts s) \<union> ts_usedPorts s = {publicPortStart..publicPortEnd} \<and>
    (map_of (ts_clients s) c = Some u \<longrightarrow> u \<in> L \<and> u < length (ts_sessions s) \<and> se_clientID (ts_sessions s ! u) = c) \<and>
    (map_of (ts_portReservations s) k = Some r \<longrightarrow> rv_port r \<in> {publicPortStart..publicPortEnd})"
proof -
  note inv = srv_reach_inv [OF assms]
  then have "pool_ok s" "\<forall>v \<in> L. v < length (ts_sessions s)" "\<forall>c v. map_of (ts_clients s) c = Some v \<longrightarrow> v \<in> L \<and> id_of s v = c"
    by (simp_all add: srv_inv_def)
  then show ?thesis unfolding pool_ok_def id_of_def by blast
qed

theorem server_tables_well_formed_witness:
  "set (ts_availablePorts (sample_run 2)) \<inter> ts_usedPorts (sample_run 2) = {}"
  using server_tables_well_formed [of None "sample_run 2" "{0..<2}" 2] sample_run_reach [of 2] by simp

text \<open>
  C18: The public ports of the connected clients are theirs alone: in every state the server reaches with at most
  10001 registrations, two sessions whose control loops run have different ports, which are in use and lie in
  the public range, whatever registrations failed, which clients left or were cut off, and in what order.
\<close>

theorem public_ports_are_unique:
  assumes "srv_reach proxy (s, L, n)" and "n \<le> 10001" and "u \<in> L" and "v \<in> L" and "u \<noteq> v"
  shows "port_of s u \<noteq> port_of s v \<and> port_of s u \<in> ts_usedPorts s \<and>
    publicPortStart \<le> port_of s u \<and> port_of s u \<le> publicPortEnd"
proof -
  have inv: "srv_inv s L n" using srv_reach_inv [OF assms(1)] .
  then have "inj_on (port_of s) L" "port_of s u \<in> ts_usedPorts s" "ts_usedPorts s \<subseteq> {publicPortStart..publicPortEnd}"
    using assms(2,3) pool_used by (auto simp: srv_inv_def)
  then show ?thesis using assms(3-5) by (auto simp: inj_on_def)
qed

theorem public_ports_are_unique_witness:
  "port_of (sample_run 2) 0 \<noteq> port_of (sample_run 2) 1 \<and> port_of (sample_run 2) 0 \<in> ts_usedPorts (sample_run 2) \<and>
    publicPortStart \<le> port_of (sample_run 2) 0 \<and> port_of (sample_run 2) 0 \<le> publicPortEnd"
  using public_ports_are_unique [of None "sample_run 2" "{0..<2}" 2 0 1] sample_run_reach [of 2] by simp

text \<open>
  A client that registers again before the server has noticed the end of its old connection costs a port for ever:
  the new session takes the identifier in the table, the old one is not found there when it ends, and its port
  stays in use although no session has it, in every later state of the server.
\<close>

theorem reregistration_strands_a_port:
  assumes reach: "srv_reach proxy (s, L, n)" and u: "map_of (ts_clients s) (id_of s u) = Some u"
    and again: "accept_client env ip msg s = (Ok m, s2)" "trim_space (mg_ClientID msg) = id_of s u" "id_of s u \<noteq> []"
    and later: "srv_step\<^sup>*\<^sup>* (client_left now u s2, insert (length (ts_sessions s)) L - {u}, Suc n) (t, L', n')" "n' \<le> 10001"
  shows "port_of s u \<in> ts_usedPorts t \<and> (\<forall>v \<in> L'. port_of t v \<noteq> port_of s u)"
proof -
  let ?w = "length (ts_sessions s)"
  have inv: "srv_inv s L n" using srv_reach_inv [OF reach] .
  have L: "u \<in> L" "u < ?w" using entry_live [OF inv u] inv by (auto simp: srv_inv_def)
  have n: "Suc n \<le> n'"
  proof -
    have "srv_step\<^sup>*\<^sup>* x y \<Longrightarrow> snd (snd x) \<le> snd (snd y)" for x y
      by (induction rule: rtranclp_induct) (auto dest: step_count elim!: le_trans simp: split_paired_all)
    from this [OF later(1)] show ?thesis by simp
  qed
  have inv2: "srv_inv s2 (insert ?w L) (Suc n)" using inv_accept [OF inv again(1)] by simp
  have clients: "\<forall>c v. map_of (ts_clients s) c = Some v \<longrightarrow> v < ?w" and ok: "pool_ok s"
    using inv by (auto simp: srv_inv_def)
  note e = accept_effect [OF ok clients again(1) _ refl]
  have id: "id_of s2 ?w = id_of s u"
    using e again(2,3) by (simp add: client_id_def Let_def)
  have "map_of (ts_clients s2) (id_of s2 u) \<noteq> Some u"
    using e id L(2) by simp
  then have used: "ts_usedPorts (client_left now u s2) = ts_usedPorts s2"
    using left_effect(2) [OF inv2, of u now] L(1) by simp
  have p: "port_of s2 u = port_of s u" "port_of s u \<in> ts_usedPorts s2" "inj_on (port_of s2) (insert ?w L)"
    using inv_accept_effect [OF inv _ again(1)] inv inv2 later(2) n L(1) by (auto simp: srv_inv_def)
  have "stranded (port_of s u) (client_left now u s2, insert ?w L - {u}, Suc n)"
    using used p L left_effect(1) [OF inv2, of u now] by (auto simp: stranded_def same_sessions_def inj_on_def)
  moreover have "srv_inv (client_left now u s2) (insert ?w L - {u}) (Suc n)"
    using inv_left [OF inv2, of u now] L(1) by simp
  ultimately show ?thesis
    using run_stranded [OF later(1) _ later(2)] by (simp add: stranded_def)
qed

theorem reregistration_strands_a_port_witness:
  "port_of (sample_run 1) 0 \<in> ts_usedPorts (client_left 5 0 (sample_run 2))"
proof -
  obtain m where m: "accept_client sample_register ''192.0.2.1'' sample_hello (sample_run 1) = (Ok m, sample_run 2)"
    using sample_one(5) by blast
  have r: "srv_reach None (sample_run 1, {0..<1}, 1)" using sample_run_reach [of 1] by simp
  have u: "map_of (ts_clients (sample_run 1)) (id_of (sample_run 1) 0) = Some 0" using sample_one by simp
  have i: "trim_space (mg_ClientID sample_hello) = id_of (sample_run 1) 0" "id_of (sample_run 1) 0 \<noteq> []"
    using sample_one sample_values by simp_all
  show ?thesis
    using reregistration_strands_a_port [OF r u m i rtranclp.rtrancl_refl] by simp
qed

text \<open>
  When no port is left the next client is given the first port of the range although another client has it, and
  when it leaves that port goes back into the pool under the other client.
\<close>

theorem exhausted_pool_shares_a_port:
  assumes reach: "srv_reach proxy (s, L, n)" and empty: "ts_availablePorts s = []"
    and acc: "accept_client env ip msg s = (Ok m, s2)" and key: "register_key env msg \<noteq> []"
    and u: "u \<in> L" "port_of s u = publicPortStart"
  shows "port_of s2 (length (ts_sessions s)) = publicPortStart \<and> port_of s2 u = publicPortStart \<and>
    (let s3 = client_left now (length (ts_sessions s)) s2
     in port_of s3 u = publicPortStart \<and> publicPortStart \<in> set (ts_availablePorts s3))"
proof -
  let ?w = "length (ts_sessions s)"
  have inv: "srv_inv s L n" using srv_reach_inv [OF reach] .
  have inv2: "srv_inv s2 (insert ?w L) (Suc n)" using inv_accept [OF inv acc] by simp
  have clients: "\<forall>c v. map_of (ts_clients s) c = Some v \<longrightarrow> v < ?w" and ok: "pool_ok s" and L: "u < ?w"
    using inv u by (auto simp: srv_inv_def)
  note e = accept_effect [OF ok clients acc _ refl]
  have w: "port_of s2 ?w = publicPortStart" "map_of (ts_clients s2) (id_of s2 ?w) = Some ?w" "key_of s2 ?w \<noteq> []"
    "port_of s2 u = publicPortStart"
    using e empty key u L by simp_all
  have l: "ts_usedPorts (client_left now ?w s2) = ts_usedPorts s2 - {publicPortStart}"
    "same_sessions s2 (client_left now ?w s2)" "pool_ok (client_left now ?w s2)"
    using left_effect [OF inv2, of ?w now] w by (simp_all add: port_range)
  then have "publicPortStart \<in> set (ts_availablePorts (client_left now ?w s2))"
    by (auto simp: pool_ok_def port_range)
  then show ?thesis using w l(2) by (simp add: same_sessions_def Let_def)
qed

theorem exhausted_pool_shares_a_port_witness:
  "port_of (sample_accept (sample_run 10001)) 10001 = 10000 \<and> port_of (sample_accept (sample_run 10001)) 0 = 10000"
proof -
  have r: "srv_reach None (sample_run 10001, {0..<10001}, 10001)" "length (ts_sessions (sample_run 10001)) = 10001"
    "port_of (sample_run 10001) 0 = publicPortStart"
    using sample_run_reach [of 10001] by simp_all
  have e: "ts_availablePorts (sample_run 10001) = []"
    using sample_run_reach [of 10001] by (simp add: port_range)
  obtain m where m: "accept_client sample_register ''192.0.2.1'' sample_hello (sample_run 10001) = (Ok m, sample_accept (sample_run 10001))"
    using sample_accept_empty [OF e] by blast
  show ?thesis
    using exhausted_pool_shares_a_port [OF r(1) e m _ _ r(3), of 0] r(2) sample_values(1) by (simp add: publicPortStart_def)
qed

lemma pool_head_min: "pool_ok s \<Longrightarrow> ts_availablePorts s = q # rest \<Longrightarrow> Min (set (ts_availablePorts s)) = q"
  by (auto simp: pool_ok_def intro!: Min_eqI)

lemma pool_next: "ts_availablePorts s = q # rest \<Longrightarrow>
   getNextPublicPort t other 0 s = (q, s\<lparr>ts_availablePorts := rest, ts_usedPorts := insert q (ts_usedPorts s)\<rparr>)"
  by (simp add: getNextPublicPort_def)

lemma taken_not_again:
  assumes "pool_ok s" and "ts_availablePorts s = q # rest" and "rest \<noteq> []"
  shows "fst (getNextPublicPort t key q (s\<lparr>ts_availablePorts := rest, ts_usedPorts := insert q (ts_usedPorts s)\<rparr>)) \<noteq> q"
  using assms by (cases rest) (auto simp: getNextPublicPort_def pool_ok_def)

lemma left_reservation:
  assumes inv: "srv_inv s L n" "n \<le> 10001" and u: "map_of (ts_clients s) (id_of s u) = Some u" "key_of s u \<noteq> []"
  shows "0 < port_of s u" and "port_of s u \<notin> ts_usedPorts (client_left now u s)"
    and "port_of s u \<in> set (ts_availablePorts (client_left now u s))" and "pool_ok (client_left now u s)"
    and "map_of (ts_portReservations (client_left now u s)) (key_of s u) =
      Some \<lparr>rv_port = port_of s u, rv_expiresAt = now + 5 * minute\<rparr>"
proof -
  have ok: "pool_ok s" and L: "u \<in> L" using entry_live [OF inv(1) u(1)] inv by (simp_all add: srv_inv_def)
  then have "port_of s u \<in> ts_usedPorts s" using inv by (auto simp: srv_inv_def)
  then have range: "port_of s u \<in> {publicPortStart..publicPortEnd}" using pool_used [OF ok] by blast
  then show pos: "0 < port_of s u" by (simp add: port_range)
  have used: "ts_usedPorts (client_left now u s) = ts_usedPorts s - {port_of s u}" and ok': "pool_ok (client_left now u s)"
    using left_effect [OF inv(1) L, of now] u pos by simp_all
  show "pool_ok (client_left now u s)" by (fact ok')
  show "port_of s u \<notin> ts_usedPorts (client_left now u s)" using used by simp
  have "set (ts_availablePorts (client_left now u s)) \<union> ts_usedPorts (client_left now u s) = {publicPortStart..publicPortEnd}"
    using ok' by (simp add: pool_ok_def)
  then show "port_of s u \<in> set (ts_availablePorts (client_left now u s))" using range used by blast
  show "map_of (ts_portReservations (client_left now u s)) (key_of s u) =
      Some \<lparr>rv_port = port_of s u, rv_expiresAt = now + 5 * minute\<rparr>"
    using u pos by (simp add: client_left_def removeClient_def Let_def release_pool key_of_def port_of_def id_of_def)
qed

text \<open>
  The reservation of a port for a client that left is not kept from others: the port goes back to the pool with it,
  and the next client without a reservation takes the lowest free port, reserved or not. The client gets its port
  back within five minutes only if nobody took it.
\<close>

theorem reservation_is_not_held:
  assumes reach: "srv_reach proxy (s, L, n)" "n \<le> 10001" and u: "map_of (ts_clients s) (id_of s u) = Some u" "key_of s u \<noteq> []"
    and t: "t < now + 5 * minute" and s1: "s1 = client_left now u s"
  shows "fst (getNextPublicPort t (key_of s u) (port_of s u) s1) = port_of s u \<and>
    fst (getNextPublicPort t other 0 s1) = Min (set (ts_availablePorts s1)) \<and>
    (port_of s u = Min (set (ts_availablePorts s1)) \<and> ts_availablePorts s1 \<noteq> [port_of s u] \<longrightarrow>
       fst (getNextPublicPort t (key_of s u) (port_of s u) (snd (getNextPublicPort t other 0 s1))) \<noteq> port_of s u)"
proof -
  note pos = left_reservation(1) [OF srv_reach_inv [OF reach(1)] reach(2) u]
  note l = pos left_reservation(2-5) [OF srv_reach_inv [OF reach(1)] reach(2) u, of now, folded s1]
  have own: "fst (getNextPublicPort t (key_of s u) (port_of s u) s1) = port_of s u"
    using l t u(2) by (simp add: getNextPublicPort_def reserved_for_def)
  obtain q rest where q: "ts_availablePorts s1 = q # rest" using l(3) by (cases "ts_availablePorts s1") auto
  note min = pool_head_min [OF l(4) q]
  have "fst (getNextPublicPort t (key_of s u) q (snd (getNextPublicPort t other 0 s1))) \<noteq> q" if "rest \<noteq> []"
    using taken_not_again [OF l(4) q that] by (simp only: pool_next [OF q] snd_conv not_False_eq_True)
  then have "port_of s u = q \<and> ts_availablePorts s1 \<noteq> [port_of s u] \<longrightarrow>
       fst (getNextPublicPort t (key_of s u) (port_of s u) (snd (getNextPublicPort t other 0 s1))) \<noteq> port_of s u"
    using q by (metis (no_types))
  then show ?thesis using own by (simp only: min pool_next [OF q] fst_conv simp_thms)
qed

theorem reservation_is_not_held_witness:
  "fst (getNextPublicPort 100 ''alpha-key'' 10000 (client_left 0 0 (sample_run 1))) = 10000"
proof -
  have r: "srv_reach None (sample_run 1, {0..<1}, 1)" using sample_run_reach [of 1] by simp
  have u: "map_of (ts_clients (sample_run 1)) (id_of (sample_run 1) 0) = Some 0" "key_of (sample_run 1) 0 \<noteq> []"
    using sample_one by simp_all
  show ?thesis
    using reservation_is_not_held [OF r _ u _ refl, of 100 0 "''other''"] sample_one by (simp add: dur_defs)
qed

text \<open>
  C19: A registration takes the server down exactly when it passes the limiter, brings no client identifier and brings a
  key of fewer than eight bytes: the identifier made from the key slices its first eight bytes, and nothing recovers
  from the panic.
\<close>

theorem registration_panics_iff:
  assumes "length (re_random_key env) = 16"
  shows "fst (accept_client env ip msg s) = Panic \<longleftrightarrow>
    re_admit env \<and> mg_Type msg = ''register'' \<and> trim_space (mg_ClientID msg) = [] \<and>
    trim_space (mg_Key msg) \<noteq> [] \<and> length (trim_space (mg_Key msg)) < 8"
proof -
  have http: "registerHTTPClient env u s' \<noteq> Panic" for u s'
    by (auto simp: registerHTTPClient_def RegisterClient_def Let_def split: option.split)
  have key: "client_id (register_key env msg) msg = Panic \<longleftrightarrow>
      trim_space (mg_ClientID msg) = [] \<and> trim_space (mg_Key msg) \<noteq> [] \<and> length (trim_space (mg_Key msg)) < 8"
    using assms by (auto simp: client_id_def register_key_def generateID_def Let_def)
  have "fst (handleClient env u msg s') = Panic \<longleftrightarrow>
      re_admit env \<and> mg_Type msg = ''register'' \<and> client_id (register_key env msg) msg = Panic" for u s'
    using http by (auto simp: handleClient_def Let_def split: prod.splits res.splits if_splits)
  moreover have "fst (accept_client env ip msg s) = Panic \<longleftrightarrow>
      fst (handleClient env (length (ts_sessions s)) msg (s\<lparr>ts_sessions := ts_sessions s @ [new_session (re_now env) ip]\<rparr>)) = Panic"
    by (auto simp: accept_client_def Let_def split: prod.splits res.splits)
  ultimately show ?thesis using key by simp
qed

theorem registration_panics_iff_witness:
  "\<forall>ip s. fst (accept_client sample_register ip (sample_hello\<lparr>mg_Key := ''abc'', mg_ClientID := []\<rparr>) s) = Panic"
proof -
  have "trim_space ''abc'' = ''abc''" "trim_space [] = []" by code_simp+
  then show ?thesis
    using registration_panics_iff [of sample_register _ "sample_hello\<lparr>mg_Key := ''abc'', mg_ClientID := []\<rparr>"]
    by (simp add: sample_register_def sample_hello_def message_of_def)
qed

end
