(* ===== verification/TunnelWait.thy ===== *)
theory TunnelWait
  imports TunnelServer
begin

text \<open>
  The two rendezvous of the tunnel server. \<open>proxyWaiting\<close> joins a connection to a public port with the connection
  the client opens for it, \<open>httpRequests\<close> joins a request of the HTTP proxy with the answer of the client. In both
  a goroutine enters a channel of capacity one under a random identifier and waits for a value, a timeout or an
  end; another takes the channel out of the table under the lock and sends to it after the lock is released. The
  steps are cut there, so that every interleaving is a run. The record \<open>mail\<close> and its steps
  are the specification of both, and the locale \<open>mailbox\<close> that of an implementation; its lemmas hold for both.
\<close>

section \<open>The rendezvous, abstractly\<close>

record 'v mail =
  ml_tab :: "nat smap"                 \<comment> \<open>the table of identifiers\<close>
  ml_box :: "nat \<Rightarrow> 'v option"          \<comment> \<open>the channel of a waiter\<close>
  ml_claims :: "(nat \<times> 'v) list"       \<comment> \<open>channels taken from the table, with the value that is going to be sent\<close>
  ml_got :: "nat \<Rightarrow> 'v list"            \<comment> \<open>what a waiter has received\<close>
  ml_used :: nat                       \<comment> \<open>the number of waiters so far\<close>
  ml_tags :: nat                       \<comment> \<open>the number of values with an identity so far\<close>

definition no_mail :: "'v mail" where
  "no_mail = \<lparr>ml_tab = [], ml_box = (\<lambda>_. None), ml_claims = [], ml_got = (\<lambda>_. []), ml_used = 0, ml_tags = 0\<rparr>"

text \<open>A value may carry a number (\<open>tag\<close>): then it is sent once.\<close>

inductive mail_step :: "('v \<Rightarrow> nat option) \<Rightarrow> 'v mail \<Rightarrow> 'v mail \<Rightarrow> bool" for tag where
  m_open: "mail_step tag m (m\<lparr>ml_tab := AList.update k (ml_used m) (ml_tab m), ml_used := Suc (ml_used m),
     ml_box := (ml_box m)(ml_used m := None), ml_got := (ml_got m)(ml_used m := [])\<rparr>)"
| m_claim: "map_of (ml_tab m) k = Some w \<Longrightarrow> tag v = None \<Longrightarrow>
     mail_step tag m (m\<lparr>ml_tab := AList.delete k (ml_tab m), ml_claims := ml_claims m @ [(w, v)]\<rparr>)"
| m_claim_tag: "map_of (ml_tab m) k = Some w \<Longrightarrow> tag v = Some (ml_tags m) \<Longrightarrow>
     mail_step tag m (m\<lparr>ml_tab := AList.delete k (ml_tab m), ml_claims := ml_claims m @ [(w, v)], ml_tags := Suc (ml_tags m)\<rparr>)"
| m_send: "ml_claims m = a @ (w, v) # b \<Longrightarrow> ml_box m w = None \<Longrightarrow>
     mail_step tag m (m\<lparr>ml_claims := a @ b, ml_box := (ml_box m)(w := Some v)\<rparr>)"
| m_lost: "ml_claims m = a @ (w, v) # b \<Longrightarrow> ml_box m w \<noteq> None \<Longrightarrow> mail_step tag m (m\<lparr>ml_claims := a @ b\<rparr>)"
| m_receive: "ml_box m w = Some v \<Longrightarrow>
     mail_step tag m (m\<lparr>ml_box := (ml_box m)(w := None), ml_got := (ml_got m)(w := ml_got m w @ [v])\<rparr>)"
| m_leave: "mail_step tag m (m\<lparr>ml_tab := AList.delete k (ml_tab m)\<rparr>)"
| m_refused: "mail_step tag m (m\<lparr>ml_tags := Suc (ml_tags m)\<rparr>)"

text \<open>The values a waiter has had or can still get; an entry of the table counts as the one to come.\<close>

definition load :: "'v mail \<Rightarrow> nat \<Rightarrow> nat" where
  "load m w = length (filter (\<lambda>c. fst c = w) (ml_claims m)) + (if ml_box m w = None then 0 else 1) + length (ml_got m w)"

definition holds :: "'v mail \<Rightarrow> nat \<Rightarrow> 'v \<Rightarrow> bool" where
  "holds m w v \<longleftrightarrow> (w, v) \<in> set (ml_claims m) \<or> ml_box m w = Some v \<or> v \<in> set (ml_got m w)"

definition mail_inv :: "'v mail \<Rightarrow> bool" where
  "mail_inv m \<longleftrightarrow> (\<forall>w. load m w \<le> 1) \<and> (\<forall>k w. map_of (ml_tab m) k = Some w \<longrightarrow> load m w = 0 \<and> w < ml_used m) \<and>
     (\<forall>w. ml_used m \<le> w \<longrightarrow> load m w = 0) \<and>
     (\<forall>k k' w. map_of (ml_tab m) k = Some w \<longrightarrow> map_of (ml_tab m) k' = Some w \<longrightarrow> k = k')"

definition mail_tags :: "('v \<Rightarrow> nat option) \<Rightarrow> 'v mail \<Rightarrow> bool" where
  "mail_tags tag m \<longleftrightarrow> (\<forall>w v t. holds m w v \<longrightarrow> tag v = Some t \<longrightarrow> t < ml_tags m) \<and>
     (\<forall>w v w' v' t. holds m w v \<longrightarrow> holds m w' v' \<longrightarrow> tag v = Some t \<longrightarrow> tag v' = Some t \<longrightarrow> w = w')"

lemma mail_inv_start: "mail_inv no_mail" "mail_tags tag no_mail"
  by (simp_all add: mail_inv_def mail_tags_def load_def holds_def no_mail_def)

lemma mail_inv_same:
  "mail_inv m \<Longrightarrow> load m' = load m \<Longrightarrow> map_of (ml_tab m') \<subseteq>\<^sub>m map_of (ml_tab m) \<Longrightarrow> ml_used m' = ml_used m \<Longrightarrow> mail_inv m'"
  unfolding mail_inv_def map_le_def by (metis domI)

lemma delete_le [simp]: "map_of (AList.delete k m) \<subseteq>\<^sub>m map_of m"
  by (auto simp: map_le_def)

lemma mail_inv_claim:
  assumes inv: "mail_inv m" and k: "map_of (ml_tab m) k = Some w" and tab: "ml_tab m' = AList.delete k (ml_tab m)"
    and load: "load m' = (load m)(w := Suc (load m w))" and used: "ml_used m' = ml_used m"
  shows "mail_inv m'"
proof -
  have zero: "load m w = 0" "w < ml_used m" "\<not> ml_used m \<le> w" using inv k by (fastforce simp: mail_inv_def)+
  have other: "x \<noteq> w" if "map_of (ml_tab m') k' = Some x" for k' x
    using that k inv tab by (auto simp: mail_inv_def split: if_splits)
  show ?thesis
    unfolding mail_inv_def
  proof (intro conjI allI impI)
    show "load m' x \<le> 1" for x using inv load zero by (auto simp: mail_inv_def)
    show "load m' x = 0" if "map_of (ml_tab m') k' = Some x" for k' x
      using that other [OF that] inv load tab by (auto simp: mail_inv_def split: if_splits)
    show "x < ml_used m'" if "map_of (ml_tab m') k' = Some x" for k' x
      using that inv used tab by (auto simp: mail_inv_def split: if_splits)
    show "load m' x = 0" if "ml_used m' \<le> x" for x
      using that inv used load zero by (auto simp: mail_inv_def)
    show "k1 = k2" if "map_of (ml_tab m') k1 = Some x" "map_of (ml_tab m') k2 = Some x" for k1 k2 x
      using that inv tab by (auto simp: mail_inv_def split: if_splits)
  qed
qed

lemma mail_inv_step:
  assumes "mail_step tag m m'" and inv: "mail_inv m"
  shows "mail_inv m'"
  using assms(1)
proof cases
  case (m_open k)
  have zero: "load m (ml_used m) = 0" using inv by (simp add: mail_inv_def)
  then have "load m' w = load m w" for w using m_open by (simp add: load_def split: if_splits)
  then show ?thesis using inv m_open zero by (auto simp: mail_inv_def split: if_splits intro: less_SucI)
next
  case (m_claim k w v)
  then show ?thesis by (intro mail_inv_claim [OF inv, of k w]) (auto simp: load_def)
next
  case (m_claim_tag k w v)
  then show ?thesis by (intro mail_inv_claim [OF inv, of k w]) (auto simp: load_def)
next
  case (m_send a w v b)
  then show ?thesis by (intro mail_inv_same [OF inv]) (auto simp: load_def)
next
  case (m_lost a w v b)
  have "load m w \<le> 1" using inv by (simp add: mail_inv_def)
  then show ?thesis using m_lost by (simp add: load_def)
next
  case (m_receive w v)
  then show ?thesis by (intro mail_inv_same [OF inv]) (auto simp: load_def)
next
  case (m_leave k)
  then show ?thesis by (intro mail_inv_same [OF inv]) (auto simp: load_def)
next
  case m_refused
  then show ?thesis by (intro mail_inv_same [OF inv]) (auto simp: load_def)
qed

text \<open>A step gives a waiter nothing but what it had or a value with a new number.\<close>

lemma holds_step:
  "mail_step tag m m' \<Longrightarrow> holds m' w v \<Longrightarrow> holds m w v \<or> tag v = None \<or> tag v = Some (ml_tags m) \<and> ml_tags m' = Suc (ml_tags m)"
  by (induction rule: mail_step.induct) (auto simp: holds_def split: if_splits)

lemma tags_step: "mail_step tag m m' \<Longrightarrow> ml_tags m \<le> ml_tags m'"
  by (induction rule: mail_step.induct) auto

lemma new_tag:
  "mail_step tag m m' \<Longrightarrow> (\<And>x y. tag y = Some (ml_tags m) \<Longrightarrow> \<not> holds m x y) \<Longrightarrow>
   holds m' w v \<Longrightarrow> holds m' w' v' \<Longrightarrow> tag v = Some (ml_tags m) \<Longrightarrow> tag v' = Some (ml_tags m) \<Longrightarrow> w = w'"
  by (induction rule: mail_step.induct) (fastforce simp: holds_def split: if_splits)+

lemma mail_tags_step:
  assumes step: "mail_step tag m m'" and tags: "mail_tags tag m"
  shows "mail_tags tag m'"
  unfolding mail_tags_def
proof (intro conjI allI impI)
  fix w v t assume "holds m' w v" "tag v = Some t"
  then show "t < ml_tags m'"
    using holds_step [OF step] tags tags_step [OF step] by (fastforce simp: mail_tags_def)
next
  fix w v w' v' t assume h: "holds m' w v" "holds m' w' v'" "tag v = Some t" "tag v' = Some t"
  show "w = w'"
  proof (cases "t = ml_tags m")
    case True
    have "\<not> holds m x y" if "tag y = Some (ml_tags m)" for x y
      using tags that by (auto simp: mail_tags_def)
    then show ?thesis using new_tag [OF step _ h(1,2)] h(3,4) True by simp
  next
    case False
    then have "holds m w v" using holds_step [OF step h(1)] h(3) by auto
    moreover have "holds m w' v'" using holds_step [OF step h(2)] h(4) False by auto
    ultimately show ?thesis using tags h(3,4) by (auto simp: mail_tags_def)
  qed
qed

section \<open>What implements it\<close>

locale mailbox =
  fixes view :: "'s \<Rightarrow> 'v mail" and tag :: "'v \<Rightarrow> nat option" and step :: "'s \<Rightarrow> 's \<Rightarrow> bool" and start :: 's
    and ok :: "'s \<Rightarrow> bool"
  assumes view_start: "view start = no_mail" and ok_start: "ok start" and ok_step: "ok s \<Longrightarrow> step s s' \<Longrightarrow> ok s'"
    and sim: "ok s \<Longrightarrow> step s s' \<Longrightarrow> (mail_step tag)\<^sup>*\<^sup>* (view s) (view s')"
begin

lemma reach_ok: "step\<^sup>*\<^sup>* start s \<Longrightarrow> ok s"
  by (induction rule: rtranclp_induct) (auto simp: ok_start intro: ok_step)

lemma reach_view: "step\<^sup>*\<^sup>* start s \<Longrightarrow> (mail_step tag)\<^sup>*\<^sup>* no_mail (view s)"
proof (induction rule: rtranclp_induct)
  case base
  show ?case by (simp add: view_start)
next
  case (step s s')
  then show ?case using sim [OF reach_ok] by (meson rtranclp_trans)
qed

lemma reach_inv:
  assumes "step\<^sup>*\<^sup>* start s"
  shows "mail_inv (view s)" and "mail_tags tag (view s)"
proof -
  have "(mail_step tag)\<^sup>*\<^sup>* no_mail m \<Longrightarrow> mail_inv m \<and> mail_tags tag m" for m
    by (induction rule: rtranclp_induct) (auto simp: mail_inv_start intro: mail_inv_step mail_tags_step)
  then show "mail_inv (view s)" and "mail_tags tag (view s)" using reach_view [OF assms] by blast+
qed

text \<open>A send never finds the channel full, and the waiter has not been served before.\<close>

lemma never_full:
  assumes "step\<^sup>*\<^sup>* start s" and "(w, v) \<in> set (ml_claims (view s))"
  shows "ml_box (view s) w = None" and "ml_got (view s) w = []" and "w \<notin> ran (map_of (ml_tab (view s)))"
proof -
  have l: "load (view s) w \<le> 1" "\<And>k. map_of (ml_tab (view s)) k = Some w \<Longrightarrow> load (view s) w = 0"
    using reach_inv(1) [OF assms(1)] by (auto simp: mail_inv_def)
  have "filter (\<lambda>c. fst c = w) (ml_claims (view s)) \<noteq> []"
    using assms(2) by (fastforce simp: filter_empty_conv)
  then obtain n where "length (filter (\<lambda>c. fst c = w) (ml_claims (view s))) = Suc n"
    by (cases "filter (\<lambda>c. fst c = w) (ml_claims (view s))") simp_all
  then show "ml_box (view s) w = None" "ml_got (view s) w = []" "w \<notin> ran (map_of (ml_tab (view s)))"
    using l by (auto simp: load_def ran_def split: if_splits)
qed

lemma served_once:
  assumes "step\<^sup>*\<^sup>* start s"
  shows "length (ml_got (view s) w) \<le> 1"
  using reach_inv(1) [OF assms] by (auto simp: mail_inv_def load_def dest: spec [of _ w])

lemma one_receiver:
  assumes "step\<^sup>*\<^sup>* start s" and "v \<in> set (ml_got (view s) w)" and "v' \<in> set (ml_got (view s) w')"
    and "tag v = Some t" and "tag v' = Some t"
  shows "w = w'"
  using reach_inv(2) [OF assms(1)] assms(2-5) by (fastforce simp: mail_tags_def holds_def)

end

section \<open>Connections to a public port\<close>

text \<open>
  A connection to a public port and its goroutine \<open>handlePublicConnection\<close>. A connection of a client is its number,
  in the order of arrival; the sender of a \<open>nil\<close> into the channel refuses.
\<close>

datatype pub_state = PubSending | PubWaiting | PubStreaming nat | PubDone nat | PubRefused | PubTimedOut | PubSendFailed

record pub_conn =
  pc_session :: nat
  pc_id :: string
  pc_chan :: "nat option option"
  pc_state :: pub_state

record proxy_wait =
  pw_proxyWaiting :: "nat smap"
  pw_pubs :: "pub_conn list"
  pw_claims :: "(nat \<times> nat option) list"
  pw_closed :: "bool list"                    \<comment> \<open>the connections of the clients: closed or not\<close>
  pw_active :: "nat \<Rightarrow> int"                 \<comment> \<open>\<open>activeConnections\<close> and \<open>totalConnections\<close> of each session\<close>
  pw_sessionTotal :: "nat \<Rightarrow> nat"
  pw_total :: nat

definition proxy_start :: proxy_wait where
  "proxy_start = \<lparr>pw_proxyWaiting = [], pw_pubs = [], pw_claims = [], pw_closed = [], pw_active = (\<lambda>_. 0),
     pw_sessionTotal = (\<lambda>_. 0), pw_total = 0\<rparr>"

definition pub_set :: "nat \<Rightarrow> (pub_conn \<Rightarrow> pub_conn) \<Rightarrow> proxy_wait \<Rightarrow> proxy_wait" where
  "pub_set w f s = s\<lparr>pw_pubs := (pw_pubs s)[w := f (pw_pubs s ! w)]\<rparr>"

text \<open>The deferred clean-up of the goroutine.\<close>

definition pub_leave :: "nat \<Rightarrow> pub_state \<Rightarrow> proxy_wait \<Rightarrow> proxy_wait" where
  "pub_leave w st s =
     pub_set w (\<lambda>c. c\<lparr>pc_state := st\<rparr>)
       (s\<lparr>pw_proxyWaiting := AList.delete (pc_id (pw_pubs s ! w)) (pw_proxyWaiting s)\<rparr>)"

definition pub_open :: "nat \<Rightarrow> byte list \<Rightarrow> proxy_wait \<Rightarrow> proxy_wait" where
  "pub_open u rnd s =
     (let proxyID = generateID rnd in
      s\<lparr>pw_pubs := pw_pubs s @ [\<lparr>pc_session = u, pc_id = proxyID, pc_chan = None, pc_state = PubSending\<rparr>],
        pw_proxyWaiting := AList.update proxyID (length (pw_pubs s)) (pw_proxyWaiting s)\<rparr>)"

definition pub_request :: "nat \<Rightarrow> client_session \<Rightarrow> proxy_wait \<Rightarrow> message" where
  "pub_request w c s =
     (message_of ''proxy'')\<lparr>mg_Key := se_key c, mg_ClientID := se_clientID c, mg_ID := pc_id (pw_pubs s ! w)\<rparr>"

definition pub_sent :: "nat \<Rightarrow> bool \<Rightarrow> proxy_wait \<Rightarrow> proxy_wait" where
  "pub_sent w sent s =
     (if pc_state (pw_pubs s ! w) \<noteq> PubSending then s
      else if sent then pub_set w (\<lambda>c. c\<lparr>pc_state := PubWaiting\<rparr>) s
      else pub_leave w PubSendFailed s)"

text \<open>The two cases of the \<open>select\<close>; a value that is there is not taken when the timer fires as well.\<close>

definition pub_receive :: "nat \<Rightarrow> proxy_wait \<Rightarrow> proxy_wait" where
  "pub_receive w s =
     (let c = pw_pubs s ! w in
      case pc_chan c of
        None \<Rightarrow> s
      | Some v \<Rightarrow>
          if pc_state c \<noteq> PubWaiting then s
          else let s = pub_set w (\<lambda>c. c\<lparr>pc_chan := None\<rparr>) s
          in case v of
               None \<Rightarrow> pub_leave w PubRefused s
             | Some conn \<Rightarrow>
                 pub_set w (\<lambda>c. c\<lparr>pc_state := PubStreaming conn\<rparr>)
                   (s\<lparr>pw_active := (pw_active s)(pc_session c := pw_active s (pc_session c) + 1),
                      pw_sessionTotal := (pw_sessionTotal s)(pc_session c := Suc (pw_sessionTotal s (pc_session c))),
                      pw_total := Suc (pw_total s)\<rparr>))"

definition pub_timeout :: "nat \<Rightarrow> proxy_wait \<Rightarrow> proxy_wait" where
  "pub_timeout w s = (if pc_state (pw_pubs s ! w) = PubWaiting then pub_leave w PubTimedOut s else s)"

definition conn_close :: "nat \<Rightarrow> proxy_wait \<Rightarrow> proxy_wait" where
  "conn_close conn s = s\<lparr>pw_closed := (pw_closed s)[conn := True]\<rparr>"

text \<open>The end of \<open>handleProxyStream\<close>: both copies have closed both connections.\<close>

definition pub_stream_end :: "nat \<Rightarrow> proxy_wait \<Rightarrow> proxy_wait" where
  "pub_stream_end w s =
     (let c = pw_pubs s ! w in
      case pc_state c of
        PubStreaming conn \<Rightarrow>
          pub_leave w (PubDone conn)
            (conn_close conn (s\<lparr>pw_active := (pw_active s)(pc_session c := pw_active s (pc_session c) - 1)\<rparr>))
      | _ \<Rightarrow> s)"

text \<open>\<open>dispatchProxyConnection\<close> and \<open>cancelProxyConnection\<close>, up to the end of the lock.\<close>

definition dispatch_claim :: "string \<Rightarrow> proxy_wait \<Rightarrow> proxy_wait" where
  "dispatch_claim proxyID s =
     (let conn = length (pw_closed s) in
      case map_of (pw_proxyWaiting s) proxyID of
        None \<Rightarrow> s\<lparr>pw_closed := pw_closed s @ [True]\<rparr>
      | Some w \<Rightarrow>
          s\<lparr>pw_proxyWaiting := AList.delete proxyID (pw_proxyWaiting s), pw_closed := pw_closed s @ [False],
            pw_claims := pw_claims s @ [(w, Some conn)]\<rparr>)"

definition cancel_claim :: "string \<Rightarrow> proxy_wait \<Rightarrow> proxy_wait" where
  "cancel_claim proxyID s =
     (case map_of (pw_proxyWaiting s) proxyID of
        None \<Rightarrow> s
      | Some w \<Rightarrow>
          s\<lparr>pw_proxyWaiting := AList.delete proxyID (pw_proxyWaiting s), pw_claims := pw_claims s @ [(w, None)]\<rparr>)"

text \<open>The send after it: into a full channel it times out and closes the connection, or is dropped.\<close>

definition claim_send :: "nat \<Rightarrow> proxy_wait \<Rightarrow> proxy_wait" where
  "claim_send i s =
     (let (w, v) = pw_claims s ! i;
          s = s\<lparr>pw_claims := take i (pw_claims s) @ drop (Suc i) (pw_claims s)\<rparr>
      in if pc_chan (pw_pubs s ! w) = None then pub_set w (\<lambda>c. c\<lparr>pc_chan := Some v\<rparr>) s
         else case v of None \<Rightarrow> s | Some conn \<Rightarrow> conn_close conn s)"

inductive proxy_step :: "proxy_wait \<Rightarrow> proxy_wait \<Rightarrow> bool" where
  opened: "proxy_step s (pub_open u rnd s)"
| sent: "w < length (pw_pubs s) \<Longrightarrow> proxy_step s (pub_sent w ok s)"
| received: "w < length (pw_pubs s) \<Longrightarrow> proxy_step s (pub_receive w s)"
| timeout: "w < length (pw_pubs s) \<Longrightarrow> proxy_step s (pub_timeout w s)"
| stream_end: "w < length (pw_pubs s) \<Longrightarrow> proxy_step s (pub_stream_end w s)"
| dispatched: "proxy_step s (dispatch_claim proxyID s)"
| cancelled: "proxy_step s (cancel_claim proxyID s)"
| claim_sent: "i < length (pw_claims s) \<Longrightarrow> proxy_step s (claim_send i s)"

definition pub_box :: "proxy_wait \<Rightarrow> nat \<Rightarrow> nat option option" where
  "pub_box s w = (if w < length (pw_pubs s) then pc_chan (pw_pubs s ! w) else None)"

primrec state_got :: "pub_state \<Rightarrow> nat option list" where
  "state_got PubSending = []"
| "state_got PubWaiting = []"
| "state_got (PubStreaming c) = [Some c]"
| "state_got (PubDone c) = [Some c]"
| "state_got PubRefused = [None]"
| "state_got PubTimedOut = []"
| "state_got PubSendFailed = []"

definition pub_got :: "proxy_wait \<Rightarrow> nat \<Rightarrow> nat option list" where
  "pub_got s w = (if w < length (pw_pubs s) then state_got (pc_state (pw_pubs s ! w)) else [])"

definition proxy_view :: "proxy_wait \<Rightarrow> nat option mail" where
  "proxy_view s = \<lparr>ml_tab = pw_proxyWaiting s, ml_box = pub_box s, ml_claims = pw_claims s, ml_got = pub_got s,
     ml_used = length (pw_pubs s), ml_tags = length (pw_closed s)\<rparr>"

lemma pub_set_simps [simp]:
  "pw_proxyWaiting (pub_set w f s) = pw_proxyWaiting s" "pw_claims (pub_set w f s) = pw_claims s"
  "pw_closed (pub_set w f s) = pw_closed s" "length (pw_pubs (pub_set w f s)) = length (pw_pubs s)"
  by (simp_all add: pub_set_def)

lemma pub_set_nth:
  "w < length (pw_pubs s) \<Longrightarrow> pw_pubs (pub_set w f s) ! v = (if v = w then f (pw_pubs s ! w) else pw_pubs s ! v)"
  by (auto simp: pub_set_def nth_list_update)

lemma pub_leave_simps [simp]:
  "pw_proxyWaiting (pub_leave w st s) = AList.delete (pc_id (pw_pubs s ! w)) (pw_proxyWaiting s)"
  "pw_claims (pub_leave w st s) = pw_claims s" "pw_closed (pub_leave w st s) = pw_closed s"
  "length (pw_pubs (pub_leave w st s)) = length (pw_pubs s)"
  by (simp_all add: pub_leave_def)

lemma pub_leave_nth:
  "w < length (pw_pubs s) \<Longrightarrow>
   pw_pubs (pub_leave w st s) ! v = (if v = w then (pw_pubs s ! w)\<lparr>pc_state := st\<rparr> else pw_pubs s ! v)"
  by (simp add: pub_leave_def pub_set_nth)

lemma conn_close_simps [simp]:
  "pw_proxyWaiting (conn_close c s) = pw_proxyWaiting s" "pw_claims (conn_close c s) = pw_claims s"
  "length (pw_closed (conn_close c s)) = length (pw_closed s)" "pw_pubs (conn_close c s) = pw_pubs s"
  by (simp_all add: conn_close_def)

lemmas pub_obs = pub_box_def pub_got_def pub_set_nth pub_leave_nth fun_eq_iff

lemma mail_stepI:
  assumes "mail_step tag m m'" and "m' = m''"
  shows "(mail_step tag)\<^sup>*\<^sup>* m m''"
  using assms by auto

lemma mail_step2I:
  assumes "mail_step tag m m'" and "mail_step tag m' m''" and "m'' = n"
  shows "(mail_step tag)\<^sup>*\<^sup>* m n"
  using assms by (meson converse_rtranclp_into_rtranclp rtranclp.rtrancl_refl)

lemma proxy_view_leave:
  assumes "w < length (pw_pubs s)" and "state_got st = state_got (pc_state (pw_pubs s ! w))"
  shows "proxy_view (pub_leave w st s) = (proxy_view s)\<lparr>ml_tab := AList.delete (pc_id (pw_pubs s ! w)) (pw_proxyWaiting s)\<rparr>"
  using assms by (auto simp: proxy_view_def pub_obs)

lemma proxy_view_set:
  assumes "w < length (pw_pubs s)" and "pc_chan (f (pw_pubs s ! w)) = pc_chan (pw_pubs s ! w)"
    and "state_got (pc_state (f (pw_pubs s ! w))) = state_got (pc_state (pw_pubs s ! w))"
  shows "proxy_view (pub_set w f s) = proxy_view s"
  using assms by (auto simp: proxy_view_def pub_obs)

lemma sim_leave:
  assumes "w < length (pw_pubs s)" and "state_got st = state_got (pc_state (pw_pubs s ! w))"
  shows "(mail_step tag)\<^sup>*\<^sup>* (proxy_view s) (proxy_view (pub_leave w st s))"
  unfolding proxy_view_leave [OF assms] by (rule mail_stepI [OF m_leave]) (simp add: proxy_view_def)

lemma sim_sent: "w < length (pw_pubs s) \<Longrightarrow> (mail_step tag)\<^sup>*\<^sup>* (proxy_view s) (proxy_view (pub_sent w ok s))"
  by (auto simp: pub_sent_def proxy_view_set intro!: sim_leave)

lemma sim_timeout: "w < length (pw_pubs s) \<Longrightarrow> (mail_step tag)\<^sup>*\<^sup>* (proxy_view s) (proxy_view (pub_timeout w s))"
  by (auto simp: pub_timeout_def intro!: sim_leave)

lemma sim_stream_end: 
  assumes "w < length (pw_pubs s)"
  shows "(mail_step tag)\<^sup>*\<^sup>* (proxy_view s) (proxy_view (pub_stream_end w s))"
proof (cases "pc_state (pw_pubs s ! w)")
  case (PubStreaming c)
  let ?s = "conn_close c (s\<lparr>pw_active := (pw_active s)(pc_session (pw_pubs s ! w) := pw_active s (pc_session (pw_pubs s ! w)) - 1)\<rparr>)"
  have "proxy_view ?s = proxy_view s" by (simp add: proxy_view_def pub_obs)
  then show ?thesis
    using PubStreaming assms sim_leave [of w ?s "PubDone c" tag] by (simp add: pub_stream_end_def Let_def)
qed (simp_all add: pub_stream_end_def Let_def)

lemma sim_receive:
  assumes "w < length (pw_pubs s)"
  shows "(mail_step tag)\<^sup>*\<^sup>* (proxy_view s) (proxy_view (pub_receive w s))"
proof (cases "pc_chan (pw_pubs s ! w) = None \<or> pc_state (pw_pubs s ! w) \<noteq> PubWaiting")
  case True
  then show ?thesis by (auto simp: pub_receive_def Let_def split: option.split)
next
  case False
  then obtain v where v: "pc_chan (pw_pubs s ! w) = Some v" "pc_state (pw_pubs s ! w) = PubWaiting" by auto
  then have box: "ml_box (proxy_view s) w = Some v" using assms by (simp add: proxy_view_def pub_box_def)
  show ?thesis
  proof (cases v)
    case None
    then show ?thesis
      using v assms by (intro mail_step2I [OF m_receive [OF box] m_leave [where k = "pc_id (pw_pubs s ! w)"]])
        (auto simp: pub_receive_def Let_def proxy_view_def pub_obs)
  next
    case (Some c)
    then show ?thesis
      using v assms by (intro mail_stepI [OF m_receive [OF box]]) (auto simp: pub_receive_def Let_def proxy_view_def pub_obs)
  qed
qed

lemma sim_dispatch: "(mail_step id)\<^sup>*\<^sup>* (proxy_view s) (proxy_view (dispatch_claim k s))"
proof (cases "map_of (pw_proxyWaiting s) k")
  case None
  then show ?thesis
    by (intro mail_stepI [OF m_refused]) (simp add: dispatch_claim_def proxy_view_def pub_obs)
next
  case (Some w)
  then show ?thesis
    by (intro mail_stepI [OF m_claim_tag [of _ k w _ "Some (length (pw_closed s))"]])
      (simp_all add: dispatch_claim_def proxy_view_def pub_obs)
qed

lemma sim_cancel: "(mail_step id)\<^sup>*\<^sup>* (proxy_view s) (proxy_view (cancel_claim k s))"
proof (cases "map_of (pw_proxyWaiting s) k")
  case (Some w)
  then show ?thesis
    by (intro mail_stepI [OF m_claim [of _ k w _ None]]) (simp_all add: cancel_claim_def proxy_view_def pub_obs)
qed (simp add: cancel_claim_def)

lemma sim_open: "(mail_step tag)\<^sup>*\<^sup>* (proxy_view s) (proxy_view (pub_open u rnd s))"
  by (rule mail_stepI [OF m_open [of _ _ "generateID rnd"]])
    (auto simp: pub_open_def Let_def proxy_view_def pub_obs nth_append)

lemma split_nth: "i < length xs \<Longrightarrow> xs = take i xs @ xs ! i # drop (Suc i) xs"
  by (simp add: id_take_nth_drop)

lemma sim_claim_send:
  assumes i: "i < length (pw_claims s)" and claims: "\<forall>c \<in> set (pw_claims s). fst c < length (pw_pubs s)"
  shows "(mail_step tag)\<^sup>*\<^sup>* (proxy_view s) (proxy_view (claim_send i s))"
proof -
  obtain w v where wv: "pw_claims s ! i = (w, v)" by fastforce
  then have w: "w < length (pw_pubs s)" using claims i nth_mem [OF i] by fastforce
  have split: "ml_claims (proxy_view s) = take i (pw_claims s) @ (w, v) # drop (Suc i) (pw_claims s)"
    using split_nth [OF i] wv by (simp add: proxy_view_def)
  show ?thesis
  proof (cases "pc_chan (pw_pubs s ! w) = None")
    case True
    then have "ml_box (proxy_view s) w = None" by (simp add: proxy_view_def pub_box_def)
    then show ?thesis
      using True wv w by (intro mail_stepI [OF m_send [OF split]]) (auto simp: claim_send_def Let_def proxy_view_def pub_obs)
  next
    case False
    then have "ml_box (proxy_view s) w \<noteq> None" using w by (simp add: proxy_view_def pub_box_def)
    then show ?thesis
      using False wv w by (intro mail_stepI [OF m_lost [OF split]])
        (auto simp: claim_send_def Let_def proxy_view_def pub_obs split: option.split)
  qed
qed

text \<open>An entry of the table belongs to a goroutine that still waits.\<close>

definition waits :: "pub_state \<Rightarrow> bool" where
  "waits st \<longleftrightarrow> st = PubSending \<or> st = PubWaiting"

definition proxy_ok :: "proxy_wait \<Rightarrow> bool" where
  "proxy_ok s \<longleftrightarrow>
     (\<forall>k w. map_of (pw_proxyWaiting s) k = Some w \<longrightarrow>
        w < length (pw_pubs s) \<and> pc_id (pw_pubs s ! w) = k \<and> waits (pc_state (pw_pubs s ! w)) \<and> pc_chan (pw_pubs s ! w) = None) \<and>
     (\<forall>c \<in> set (pw_claims s). fst c < length (pw_pubs s) \<and> (\<forall>k. map_of (pw_proxyWaiting s) k \<noteq> Some (fst c)))"

lemma proxy_ok_start: "proxy_ok proxy_start"
  by (simp add: proxy_ok_def proxy_start_def)

lemma ok_leave: "proxy_ok s \<Longrightarrow> w < length (pw_pubs s) \<Longrightarrow> proxy_ok (pub_leave w st s)"
  by (auto simp: proxy_ok_def pub_leave_nth split: if_splits)

lemma ok_set:
  "proxy_ok s \<Longrightarrow> w < length (pw_pubs s) \<Longrightarrow> (\<And>c. pc_id (f c) = pc_id c) \<Longrightarrow>
   (\<And>k. map_of (pw_proxyWaiting s) k = Some w \<Longrightarrow>
      waits (pc_state (f (pw_pubs s ! w))) \<and> pc_chan (f (pw_pubs s ! w)) = None) \<Longrightarrow>
   proxy_ok (pub_set w f s)"
  by (auto simp: proxy_ok_def pub_set_nth)

lemma ok_cong:
  "proxy_ok s \<Longrightarrow> pw_pubs s' = pw_pubs s \<Longrightarrow> pw_proxyWaiting s' = pw_proxyWaiting s \<Longrightarrow> pw_claims s' = pw_claims s \<Longrightarrow> proxy_ok s'"
  by (simp add: proxy_ok_def)

lemma ok_entry: "proxy_ok s \<Longrightarrow> map_of (pw_proxyWaiting s) k = Some w \<Longrightarrow>
   w < length (pw_pubs s) \<and> pc_id (pw_pubs s ! w) = k \<and> waits (pc_state (pw_pubs s ! w)) \<and> pc_chan (pw_pubs s ! w) = None"
  by (simp add: proxy_ok_def)

lemma ok_claim:
  assumes ok: "proxy_ok s" and k: "map_of (pw_proxyWaiting s) k = Some w"
  shows "proxy_ok (s\<lparr>pw_proxyWaiting := AList.delete k (pw_proxyWaiting s), pw_closed := cl, pw_claims := pw_claims s @ [(w, v)]\<rparr>)"
  using ok ok_entry [OF ok k] ok_entry [OF ok] by (auto simp: proxy_ok_def split: if_splits)

lemma ok_receive:
  assumes ok: "proxy_ok s" and w: "w < length (pw_pubs s)"
  shows "proxy_ok (pub_receive w s)"
proof (cases "pc_chan (pw_pubs s ! w)")
  case (Some v)
  then have none: "map_of (pw_proxyWaiting s) k \<noteq> Some w" for k using ok_entry [OF ok] by fastforce
  let ?s = "pub_set w (\<lambda>c. c\<lparr>pc_chan := None\<rparr>) s"
  have s: "proxy_ok ?s" "w < length (pw_pubs ?s)" using ok w none by (auto intro!: ok_set)
  have "proxy_ok (pub_set w (\<lambda>c. c\<lparr>pc_state := st\<rparr>) (?s\<lparr>pw_active := a, pw_sessionTotal := b, pw_total := n\<rparr>))" for st a b n
    using s none by (intro ok_set ok_cong [OF s(1)]) auto
  then show ?thesis
    using Some ok ok_leave [OF s] by (auto simp: pub_receive_def Let_def split: option.split)
qed (use ok in \<open>simp add: pub_receive_def\<close>)

lemma ok_step: "proxy_ok s \<Longrightarrow> proxy_step s s' \<Longrightarrow> proxy_ok s'"
proof (erule proxy_step.cases, goal_cases)
  case (1 u rnd s2)
  then show ?case by (fastforce simp: proxy_ok_def pub_open_def Let_def nth_append waits_def split: if_splits)
next
  case (2 w s2 b)
  then show ?case by (auto simp: pub_sent_def waits_def ok_entry intro!: ok_leave ok_set)
next
  case (3 w s2)
  then show ?case by (simp add: ok_receive)
next
  case (4 w s2)
  then show ?case by (auto simp: pub_timeout_def intro!: ok_leave)
next
  case (5 w s2)
  then show ?case
    by (auto simp: pub_stream_end_def Let_def split: pub_state.split intro!: ok_leave intro: ok_cong)
next
  case (6 s2 k)
  then show ?case by (auto simp: dispatch_claim_def Let_def ok_claim split: option.split intro: ok_cong)
next
  case (7 s2 k)
  then show ?case
    using ok_claim [where s = s and k = k and cl = "pw_closed s" and v = None] by (auto simp: cancel_claim_def split: option.split)
next
  case (8 i s2)
  obtain w v where wv: "pw_claims s ! i = (w, v)" by fastforce
  then have "(w, v) \<in> set (pw_claims s)" using 8 nth_mem by metis
  then have w: "w < length (pw_pubs s)" "\<And>k. map_of (pw_proxyWaiting s) k \<noteq> Some w"
    using 8 by (auto simp: proxy_ok_def)
  have s: "proxy_ok (s\<lparr>pw_claims := take i (pw_claims s) @ drop (Suc i) (pw_claims s)\<rparr>)"
    using 8(1) by (auto simp: proxy_ok_def dest: in_set_takeD in_set_dropD)
  then have "proxy_ok (pub_set w (\<lambda>c. c\<lparr>pc_chan := Some v\<rparr>) (s\<lparr>pw_claims := take i (pw_claims s) @ drop (Suc i) (pw_claims s)\<rparr>))"
    using w by (intro ok_set) auto
  then show ?case
    using 8 s wv by (auto simp: claim_send_def Let_def split: option.split intro: ok_cong)
qed

lemma proxy_sim:
  assumes ok: "proxy_ok s" and step: "proxy_step s s'"
  shows "(mail_step id)\<^sup>*\<^sup>* (proxy_view s) (proxy_view s')"
  using step
proof cases
  case (claim_sent i)
  then show ?thesis using ok by (auto simp: proxy_ok_def intro!: sim_claim_send)
qed (auto intro: sim_open sim_sent sim_receive sim_timeout sim_stream_end sim_dispatch sim_cancel)

interpretation px: mailbox proxy_view id proxy_step proxy_start proxy_ok
proof unfold_locales
  show "proxy_view proxy_start = no_mail" by (auto simp: proxy_view_def no_mail_def proxy_start_def pub_obs)
qed (auto intro: proxy_ok_start ok_step proxy_sim)

text \<open>A connection that was sent to a goroutine that has gone.\<close>

definition leaked :: "nat \<Rightarrow> nat \<Rightarrow> proxy_wait \<Rightarrow> bool" where
  "leaked w c s \<longleftrightarrow> w < length (pw_pubs s) \<and> pc_chan (pw_pubs s ! w) = Some (Some c) \<and>
     pc_state (pw_pubs s ! w) \<in> {PubTimedOut, PubSendFailed} \<and> c < length (pw_closed s) \<and> \<not> pw_closed s ! c"

definition served_by :: "nat \<Rightarrow> nat \<Rightarrow> proxy_wait \<Rightarrow> bool" where
  "served_by w c s \<longleftrightarrow> w < length (pw_pubs s) \<and> pc_state (pw_pubs s ! w) \<in> {PubStreaming c, PubDone c}"

lemma served_got: "served_by w c s \<longleftrightarrow> Some c \<in> set (ml_got (proxy_view s) w)"
  by (auto simp: served_by_def proxy_view_def pub_got_def) (cases "pc_state (pw_pubs s ! w)"; auto)+

lemma tag_holder:
  assumes "proxy_step\<^sup>*\<^sup>* proxy_start s" and "holds (proxy_view s) w (Some c)" and "holds (proxy_view s) w' (Some c)"
  shows "w = w'"
  using px.reach_inv(2) [OF assms(1)] assms(2,3) unfolding mail_tags_def by (metis id_apply)

lemma box_alone:
  assumes "proxy_step\<^sup>*\<^sup>* proxy_start s" and "pub_box s w = Some v"
  shows "\<forall>x. (w, x) \<notin> set (pw_claims s)" and "pub_got s w = []"
proof -
  have b: "ml_box (proxy_view s) w = Some v" using assms(2) by (simp add: proxy_view_def)
  show "\<forall>x. (w, x) \<notin> set (pw_claims s)"
    using px.never_full(1) [OF assms(1), of w] b by (fastforce simp: proxy_view_def)
  have "load (proxy_view s) w \<le> 1" using px.reach_inv(1) [OF assms(1)] by (simp add: mail_inv_def)
  then show "pub_got s w = []" using b by (simp add: load_def proxy_view_def)
qed

lemma leaked_held:
  assumes "leaked w c s"
  shows "pub_box s w = Some (Some c)" and "holds (proxy_view s) w (Some c)"
  using assms by (auto simp: leaked_def pub_box_def holds_def proxy_view_def)

lemma leaked_cong:
  "leaked w c s \<Longrightarrow> pw_pubs s' ! w = pw_pubs s ! w \<Longrightarrow> length (pw_pubs s) \<le> length (pw_pubs s') \<Longrightarrow>
   length (pw_closed s) \<le> length (pw_closed s') \<Longrightarrow> pw_closed s' ! c = pw_closed s ! c \<Longrightarrow> leaked w c s'"
  by (simp add: leaked_def)

lemma leaked_step:
  assumes reach: "proxy_step\<^sup>*\<^sup>* proxy_start s" and leak: "leaked w c s" and step: "proxy_step s s'"
  shows "leaked w c s'"
proof -
  have l: "w < length (pw_pubs s)" "c < length (pw_closed s)" "pc_state (pw_pubs s ! w) \<noteq> PubSending"
    "pc_state (pw_pubs s ! w) \<noteq> PubWaiting" "\<And>d. pc_state (pw_pubs s ! w) \<noteq> PubStreaming d"
    using leak by (auto simp: leaked_def)
  show ?thesis
    using step
  proof cases
    case (opened u rnd)
    then show ?thesis using l by (intro leaked_cong [OF leak]) (auto simp: pub_open_def Let_def nth_append)
  next
    case (sent v ok)
    then show ?thesis using l by (intro leaked_cong [OF leak]) (auto simp: pub_sent_def pub_set_nth pub_leave_nth)
  next
    case (received v)
    then show ?thesis using l
      by (intro leaked_cong [OF leak]) (auto simp: pub_receive_def Let_def pub_set_nth pub_leave_nth split: option.split)
  next
    case (timeout v)
    then show ?thesis using l by (intro leaked_cong [OF leak]) (auto simp: pub_timeout_def pub_leave_nth)
  next
    case (stream_end v)
    have "c \<noteq> d" if "pc_state (pw_pubs s ! v) = PubStreaming d" for d
    proof
      assume "c = d"
      then have "holds (proxy_view s) v (Some c)"
        using that stream_end by (auto simp: holds_def proxy_view_def pub_got_def)
      then have "v = w" using tag_holder [OF reach] leaked_held(2) [OF leak] by blast
      then show False using l that by blast
    qed
    then show ?thesis using l stream_end
      by (intro leaked_cong [OF leak])
        (auto simp: pub_stream_end_def Let_def pub_leave_nth conn_close_def split: pub_state.split)
  next
    case (dispatched k)
    then show ?thesis using l
      by (intro leaked_cong [OF leak]) (auto simp: dispatch_claim_def Let_def nth_append split: option.split)
  next
    case (cancelled k)
    then show ?thesis by (intro leaked_cong [OF leak]) (auto simp: cancel_claim_def split: option.split)
  next
    case (claim_sent i)
    obtain v x where vx: "pw_claims s ! i = (v, x)" by fastforce
    then have mem: "(v, x) \<in> set (pw_claims s)" using claim_sent nth_mem by metis
    have v: "v < length (pw_pubs s)" using px.reach_ok [OF reach] mem by (fastforce simp: proxy_ok_def)
    have ne: "v \<noteq> w" using box_alone(1) [OF reach leaked_held(1) [OF leak]] mem by blast
    have "ml_box (proxy_view s) v = None" using px.never_full(1) [OF reach, of v x] mem by (simp add: proxy_view_def)
    then have "pc_chan (pw_pubs s ! v) = None" using v by (simp add: proxy_view_def pub_box_def)
    then show ?thesis using vx ne v claim_sent
      by (intro leaked_cong [OF leak]) (auto simp: claim_send_def Let_def pub_set_nth)
  qed
qed

lemma leaked_run: "proxy_step\<^sup>*\<^sup>* s t \<Longrightarrow> proxy_step\<^sup>*\<^sup>* proxy_start s \<Longrightarrow> leaked w c s \<Longrightarrow> leaked w c t"
proof (induction rule: rtranclp_induct)
  case (step t t')
  then show ?case using leaked_step by (meson rtranclp_trans)
qed

section \<open>Requests of the HTTP proxy\<close>

record http_response =
  hr_StatusCode :: int
  hr_Headers :: "string smap"
  hr_Body :: "byte list"

record http_request =
  hx_ID :: string
  hx_Method :: string
  hx_Path :: string
  hx_Headers :: "string smap"
  hx_Body :: "byte list"

text \<open>\<open>SendHTTPRequest\<close>: the request is entered, sent, and waits for its answer, thirty seconds or the end of the client.\<close>

datatype call_state = CallSending | CallWaiting | CallAnswered http_response | CallTimedOut | CallDisconnected | CallSendFailed

record http_call =
  hc_session :: nat
  hc_id :: string
  hc_chan :: "http_response option"
  hc_state :: call_state

record http_calls =
  hs_httpRequests :: "nat smap"
  hs_calls :: "http_call list"
  hs_claims :: "(nat \<times> http_response) list"

definition calls_start :: http_calls where
  "calls_start = \<lparr>hs_httpRequests = [], hs_calls = [], hs_claims = []\<rparr>"

definition call_set :: "nat \<Rightarrow> (http_call \<Rightarrow> http_call) \<Rightarrow> http_calls \<Rightarrow> http_calls" where
  "call_set w f s = s\<lparr>hs_calls := (hs_calls s)[w := f (hs_calls s ! w)]\<rparr>"

definition call_leave :: "nat \<Rightarrow> call_state \<Rightarrow> http_calls \<Rightarrow> http_calls" where
  "call_leave w st s =
     call_set w (\<lambda>c. c\<lparr>hc_state := st\<rparr>) (s\<lparr>hs_httpRequests := AList.delete (hc_id (hs_calls s ! w)) (hs_httpRequests s)\<rparr>)"

definition call_open :: "nat \<Rightarrow> http_request \<Rightarrow> http_calls \<Rightarrow> http_calls" where
  "call_open u req s =
     s\<lparr>hs_calls := hs_calls s @ [\<lparr>hc_session = u, hc_id = hx_ID req, hc_chan = None, hc_state = CallSending\<rparr>],
       hs_httpRequests := AList.update (hx_ID req) (length (hs_calls s)) (hs_httpRequests s)\<rparr>"

definition call_message :: "http_request \<Rightarrow> message" where
  "call_message req =
     (message_of ''http_request'')\<lparr>mg_ID := hx_ID req, mg_Method := hx_Method req, mg_Path := hx_Path req,
        mg_Headers := hx_Headers req, mg_Body := hx_Body req\<rparr>"

definition call_sent :: "nat \<Rightarrow> bool \<Rightarrow> http_calls \<Rightarrow> http_calls" where
  "call_sent w sent s =
     (if hc_state (hs_calls s ! w) \<noteq> CallSending then s
      else if sent then call_set w (\<lambda>c. c\<lparr>hc_state := CallWaiting\<rparr>) s
      else call_leave w CallSendFailed s)"

definition call_receive :: "nat \<Rightarrow> http_calls \<Rightarrow> http_calls" where
  "call_receive w s =
     (let c = hs_calls s ! w in
      case hc_chan c of
        None \<Rightarrow> s
      | Some r \<Rightarrow>
          if hc_state c \<noteq> CallWaiting then s
          else call_leave w (CallAnswered r) (call_set w (\<lambda>c. c\<lparr>hc_chan := None\<rparr>) s))"

definition call_timeout :: "nat \<Rightarrow> http_calls \<Rightarrow> http_calls" where
  "call_timeout w s = (if hc_state (hs_calls s ! w) = CallWaiting then call_leave w CallTimedOut s else s)"

definition call_done :: "nat \<Rightarrow> tunnel_server \<Rightarrow> http_calls \<Rightarrow> http_calls" where
  "call_done w srv s =
     (let c = hs_calls s ! w in
      if hc_state c = CallWaiting \<and> se_closed (ts_sessions srv ! hc_session c) then call_leave w CallDisconnected s else s)"

text \<open>\<open>handleHTTPResponse\<close>: the channel is taken under the lock, then the answer is sent or dropped.\<close>

definition response_of :: "message \<Rightarrow> http_response" where
  "response_of msg = \<lparr>hr_StatusCode = mg_StatusCode msg, hr_Headers = mg_Headers msg, hr_Body = mg_Body msg\<rparr>"

definition response_claim :: "message \<Rightarrow> http_calls \<Rightarrow> http_calls" where
  "response_claim msg s =
     (case map_of (hs_httpRequests s) (mg_ID msg) of
        None \<Rightarrow> s
      | Some w \<Rightarrow>
          s\<lparr>hs_httpRequests := AList.delete (mg_ID msg) (hs_httpRequests s), hs_claims := hs_claims s @ [(w, response_of msg)]\<rparr>)"

definition response_send :: "nat \<Rightarrow> http_calls \<Rightarrow> http_calls" where
  "response_send i s =
     (let (w, r) = hs_claims s ! i;
          s = s\<lparr>hs_claims := take i (hs_claims s) @ drop (Suc i) (hs_claims s)\<rparr>
      in if hc_chan (hs_calls s ! w) = None then call_set w (\<lambda>c. c\<lparr>hc_chan := Some r\<rparr>) s else s)"

inductive call_step :: "http_calls \<Rightarrow> http_calls \<Rightarrow> bool" where
  opened: "call_step s (call_open u req s)"
| sent: "w < length (hs_calls s) \<Longrightarrow> call_step s (call_sent w ok s)"
| received: "w < length (hs_calls s) \<Longrightarrow> call_step s (call_receive w s)"
| timeout: "w < length (hs_calls s) \<Longrightarrow> call_step s (call_timeout w s)"
| disconnected: "w < length (hs_calls s) \<Longrightarrow> call_step s (call_done w srv s)"
| claimed: "call_step s (response_claim msg s)"
| claim_sent: "i < length (hs_claims s) \<Longrightarrow> call_step s (response_send i s)"

primrec call_got :: "call_state \<Rightarrow> http_response list" where
  "call_got CallSending = []"
| "call_got CallWaiting = []"
| "call_got (CallAnswered r) = [r]"
| "call_got CallTimedOut = []"
| "call_got CallDisconnected = []"
| "call_got CallSendFailed = []"

definition call_view :: "http_calls \<Rightarrow> http_response mail" where
  "call_view s = \<lparr>ml_tab = hs_httpRequests s,
     ml_box = (\<lambda>w. if w < length (hs_calls s) then hc_chan (hs_calls s ! w) else None), ml_claims = hs_claims s,
     ml_got = (\<lambda>w. if w < length (hs_calls s) then call_got (hc_state (hs_calls s ! w)) else []),
     ml_used = length (hs_calls s), ml_tags = 0\<rparr>"

lemma call_set_simps [simp]:
  "hs_httpRequests (call_set w f s) = hs_httpRequests s" "hs_claims (call_set w f s) = hs_claims s"
  "length (hs_calls (call_set w f s)) = length (hs_calls s)"
  by (simp_all add: call_set_def)

lemma call_set_nth:
  "w < length (hs_calls s) \<Longrightarrow> hs_calls (call_set w f s) ! v = (if v = w then f (hs_calls s ! w) else hs_calls s ! v)"
  by (auto simp: call_set_def nth_list_update)

lemma call_leave_simps [simp]:
  "hs_httpRequests (call_leave w st s) = AList.delete (hc_id (hs_calls s ! w)) (hs_httpRequests s)"
  "hs_claims (call_leave w st s) = hs_claims s" "length (hs_calls (call_leave w st s)) = length (hs_calls s)"
  by (simp_all add: call_leave_def)

lemma call_leave_nth:
  "w < length (hs_calls s) \<Longrightarrow>
   hs_calls (call_leave w st s) ! v = (if v = w then (hs_calls s ! w)\<lparr>hc_state := st\<rparr> else hs_calls s ! v)"
  by (simp add: call_leave_def call_set_nth)

lemmas call_obs = call_view_def call_set_nth call_leave_nth fun_eq_iff

text \<open>An entry of the table belongs to a request that still waits, and no answer is under way to it.\<close>

definition calls_ok :: "http_calls \<Rightarrow> bool" where
  "calls_ok s \<longleftrightarrow>
     (\<forall>k w. map_of (hs_httpRequests s) k = Some w \<longrightarrow>
        w < length (hs_calls s) \<and> hc_id (hs_calls s ! w) = k \<and> hc_state (hs_calls s ! w) \<in> {CallSending, CallWaiting} \<and>
        hc_chan (hs_calls s ! w) = None) \<and>
     (\<forall>c \<in> set (hs_claims s). fst c < length (hs_calls s) \<and> (\<forall>k. map_of (hs_httpRequests s) k \<noteq> Some (fst c)))"

lemma calls_entry: "calls_ok s \<Longrightarrow> map_of (hs_httpRequests s) k = Some w \<Longrightarrow>
   w < length (hs_calls s) \<and> hc_id (hs_calls s ! w) = k \<and> hc_state (hs_calls s ! w) \<in> {CallSending, CallWaiting} \<and>
   hc_chan (hs_calls s ! w) = None"
  by (simp add: calls_ok_def)

lemma calls_leave: "calls_ok s \<Longrightarrow> w < length (hs_calls s) \<Longrightarrow> calls_ok (call_leave w st s)"
  by (auto simp: calls_ok_def call_leave_nth split: if_splits)

lemma calls_set:
  "calls_ok s \<Longrightarrow> w < length (hs_calls s) \<Longrightarrow> (\<And>c. hc_id (f c) = hc_id c) \<Longrightarrow>
   (\<And>k. map_of (hs_httpRequests s) k = Some w \<Longrightarrow>
      hc_state (f (hs_calls s ! w)) \<in> {CallSending, CallWaiting} \<and> hc_chan (f (hs_calls s ! w)) = None) \<Longrightarrow>
   calls_ok (call_set w f s)"
  by (auto simp: calls_ok_def call_set_nth)

lemma calls_claim:
  assumes ok: "calls_ok s" and k: "map_of (hs_httpRequests s) k = Some w"
  shows "calls_ok (s\<lparr>hs_httpRequests := AList.delete k (hs_httpRequests s), hs_claims := hs_claims s @ [(w, v)]\<rparr>)"
  using ok calls_entry [OF ok k] calls_entry [OF ok] by (auto simp: calls_ok_def split: if_splits)

lemma calls_receive:
  assumes ok: "calls_ok s" and w: "w < length (hs_calls s)"
  shows "calls_ok (call_receive w s)"
proof (cases "hc_chan (hs_calls s ! w)")
  case (Some v)
  then have none: "map_of (hs_httpRequests s) k \<noteq> Some w" for k using calls_entry [OF ok] by fastforce
  then have "calls_ok (call_set w (\<lambda>c. c\<lparr>hc_chan := None\<rparr>) s)" using ok w by (auto intro!: calls_set)
  then show ?thesis using Some ok w by (auto simp: call_receive_def Let_def intro!: calls_leave)
qed (use ok in \<open>simp add: call_receive_def\<close>)

lemma calls_send:
  assumes ok: "calls_ok s" and i: "i < length (hs_claims s)"
  shows "calls_ok (response_send i s)"
proof -
  obtain w v where wv: "hs_claims s ! i = (w, v)" by fastforce
  then have "(w, v) \<in> set (hs_claims s)" using i nth_mem by metis
  then have w: "w < length (hs_calls s)" "\<And>k. map_of (hs_httpRequests s) k \<noteq> Some w"
    using ok by (auto simp: calls_ok_def)
  let ?s = "s\<lparr>hs_claims := take i (hs_claims s) @ drop (Suc i) (hs_claims s)\<rparr>"
  have s: "calls_ok ?s" using ok by (auto simp: calls_ok_def dest: in_set_takeD in_set_dropD)
  then have "calls_ok (call_set w (\<lambda>c. c\<lparr>hc_chan := Some v\<rparr>) ?s)" using w by (intro calls_set) auto
  then show ?thesis using s wv by (simp add: response_send_def Let_def)
qed

lemma calls_step: "calls_ok s \<Longrightarrow> call_step s s' \<Longrightarrow> calls_ok s'"
proof (erule call_step.cases, goal_cases)
  case (1 s2 u req)
  then show ?case by (fastforce simp: calls_ok_def call_open_def nth_append split: if_splits)
next
  case (2 w s2 b)
  then show ?case by (auto simp: call_sent_def calls_entry intro!: calls_leave calls_set)
qed (auto simp: calls_receive call_timeout_def call_done_def Let_def response_claim_def calls_claim calls_send calls_leave
    split: option.split)

lemma call_view_leave:
  assumes "w < length (hs_calls s)" and "call_got st = call_got (hc_state (hs_calls s ! w))"
  shows "(mail_step tag)\<^sup>*\<^sup>* (call_view s) (call_view (call_leave w st s))"
proof -
  have "call_view (call_leave w st s) = (call_view s)\<lparr>ml_tab := AList.delete (hc_id (hs_calls s ! w)) (ml_tab (call_view s))\<rparr>"
    using assms by (auto simp: call_obs)
  then show ?thesis using mail_stepI [OF m_leave] by metis
qed

lemma call_sim_receive:
  assumes "w < length (hs_calls s)"
  shows "(mail_step tag)\<^sup>*\<^sup>* (call_view s) (call_view (call_receive w s))"
proof (cases "hc_chan (hs_calls s ! w) = None \<or> hc_state (hs_calls s ! w) \<noteq> CallWaiting")
  case True
  then show ?thesis by (auto simp: call_receive_def Let_def split: option.split)
next
  case False
  then obtain v where v: "hc_chan (hs_calls s ! w) = Some v" "hc_state (hs_calls s ! w) = CallWaiting" by auto
  then have box: "ml_box (call_view s) w = Some v" using assms by (simp add: call_view_def)
  show ?thesis
    using v assms by (intro mail_step2I [OF m_receive [OF box] m_leave [where k = "hc_id (hs_calls s ! w)"]])
      (auto simp: call_receive_def Let_def call_obs)
qed

lemma call_sim_send:
  assumes i: "i < length (hs_claims s)" and ok: "calls_ok s"
  shows "(mail_step tag)\<^sup>*\<^sup>* (call_view s) (call_view (response_send i s))"
proof -
  obtain w v where wv: "hs_claims s ! i = (w, v)" by fastforce
  then have w: "w < length (hs_calls s)" using ok i nth_mem [OF i] by (fastforce simp: calls_ok_def)
  have split: "ml_claims (call_view s) = take i (hs_claims s) @ (w, v) # drop (Suc i) (hs_claims s)"
    using split_nth [OF i] wv by (simp add: call_view_def)
  show ?thesis
  proof (cases "hc_chan (hs_calls s ! w) = None")
    case True
    then have "ml_box (call_view s) w = None" by (simp add: call_view_def)
    then show ?thesis
      using True wv w by (intro mail_stepI [OF m_send [OF split]]) (auto simp: response_send_def Let_def call_obs)
  next
    case False
    then have "ml_box (call_view s) w \<noteq> None" using w by (simp add: call_view_def)
    then show ?thesis
      using False wv w by (intro mail_stepI [OF m_lost [OF split]]) (auto simp: response_send_def Let_def call_obs)
  qed
qed

lemma call_sim:
  assumes ok: "calls_ok s" and step: "call_step s s'"
  shows "(mail_step (\<lambda>_. None))\<^sup>*\<^sup>* (call_view s) (call_view s')"
  using step
proof cases
  case (opened u req)
  then show ?thesis by (intro mail_stepI [OF m_open [of _ _ "hx_ID req"]]) (auto simp: call_open_def call_obs nth_append)
next
  case (sent w b)
  then have "call_view (call_set w (\<lambda>c. c\<lparr>hc_state := CallWaiting\<rparr>) s) = call_view s" if "hc_state (hs_calls s ! w) = CallSending"
    using that by (auto simp: call_obs)
  then show ?thesis using sent by (auto simp: call_sent_def intro!: call_view_leave)
next
  case (claimed msg)
  show ?thesis
  proof (cases "map_of (hs_httpRequests s) (mg_ID msg)")
    case (Some w)
    then show ?thesis using claimed
      by (intro mail_stepI [OF m_claim [of _ "mg_ID msg" w _ "response_of msg"]]) (simp_all add: response_claim_def call_obs)
  qed (use claimed in \<open>simp add: response_claim_def\<close>)
next
  case (claim_sent i)
  then show ?thesis using ok by (simp add: call_sim_send)
qed (auto simp: call_timeout_def call_done_def Let_def call_sim_receive intro!: call_view_leave)

interpretation hq: mailbox call_view "\<lambda>_. None" call_step calls_start calls_ok
proof unfold_locales
  show "call_view calls_start = no_mail" by (auto simp: call_view_def no_mail_def calls_start_def)
  show "calls_ok calls_start" by (simp add: calls_ok_def calls_start_def)
qed (auto intro: calls_step call_sim)

section \<open>Copying between two connections\<close>

text \<open>
  \<open>proxyCopy\<close> over what the reads return (bytes, and whether an error came with them) and what the writes return (the
  number of bytes, and whether there was an error). The result is the chunks handed to \<open>Write\<close>, the byte counters,
  and whether the loop has ended; it has not when the source still blocks.
\<close>

fun proxyCopy ::
  "(byte list \<times> bool) list \<Rightarrow> (int \<times> bool) list \<Rightarrow> 64 word \<Rightarrow> 64 word \<Rightarrow> byte list list \<times> 64 word \<times> 64 word \<times> bool" where
  "proxyCopy [] ws n tot = ([], n, tot, False)"
| "proxyCopy ((buf, er) # rs) ws n tot =
     (if buf = [] then if er then ([], n, tot, True) else proxyCopy rs ws n tot
      else let n = n + of_nat (length buf); tot = tot + of_nat (length buf)
      in case ws of
           [] \<Rightarrow> ([buf], n, tot, False)
         | (nw, ew) # ws \<Rightarrow>
             let (nw, ew) = (if nw < 0 \<or> int (length buf) < nw then (0, True) else (nw, ew))
             in if ew then ([buf], n, tot, True)
                else if int (length buf) \<noteq> nw then ([buf], n, tot, True)
                else if er then ([buf], n, tot, True)
                else let (out, n, tot, ended) = proxyCopy rs ws n tot in (buf # out, n, tot, ended))"

text \<open>What is forwarded is a prefix of what was read, and every byte handed on is counted, in both counters.\<close>

lemma proxyCopy_prefix:
  "proxyCopy rs ws n tot = (out, m, tot', ended) \<Longrightarrow>
   \<exists>rest. concat (map fst rs) = concat out @ rest \<and> m = n + of_nat (length (concat out)) \<and>
     tot' = tot + of_nat (length (concat out))"
proof (induction rs ws n tot arbitrary: out m tot' ended rule: proxyCopy.induct)
  case (1 ws n tot)
  then show ?case by simp
next
  case (2 buf er rs ws n tot)
  show ?case
  proof (cases "\<exists>ws'. buf \<noteq> [] \<and> ws = (int (length buf), False) # ws' \<and> \<not> er")
    case True
    then obtain ws' where c: "buf \<noteq> []" "ws = (int (length buf), False) # ws'" "\<not> er" by blast
    obtain o2 m2 t2 e2 where r: "proxyCopy rs ws' (n + of_nat (length buf)) (tot + of_nat (length buf)) = (o2, m2, t2, e2)"
      by (metis prod_cases4)
    from "2.IH"(2) [OF c(1) refl refl c(2) _ refl] r c
    have "\<exists>rest. concat (map fst rs) = concat o2 @ rest \<and> m2 = n + of_nat (length buf) + of_nat (length (concat o2)) \<and>
        t2 = tot + of_nat (length buf) + of_nat (length (concat o2))"
      by simp
    then show ?thesis using "2.prems" c r by (auto simp: add.assoc)
  next
    case False
    then show ?thesis
      using "2.prems" "2.IH"(1) by (auto simp: Let_def split: if_splits list.splits prod.splits)
  qed
qed

section \<open>Properties\<close>

text \<open>
  C21: Connections to a public port and connections of clients are joined one to one: in every interleaving of waiting,
  dispatching, refusing, timeouts and ends, two goroutines never stream over the same client connection, a send
  finds the channel empty (so the ten-second timeout of the dispatcher cannot fire), and an entry of the table
  belongs to a goroutine that still waits, under its own identifier.
\<close>

theorem connections_join_one_to_one:
  assumes "proxy_step\<^sup>*\<^sup>* proxy_start s"
  shows "(served_by w c s \<and> served_by v c s \<longrightarrow> w = v) \<and>
    ((u, x) \<in> set (pw_claims s) \<longrightarrow> pc_chan (pw_pubs s ! u) = None) \<and>
    (map_of (pw_proxyWaiting s) k = Some z \<longrightarrow> pc_id (pw_pubs s ! z) = k \<and> pc_state (pw_pubs s ! z) \<in> {PubSending, PubWaiting})"
proof (intro conjI impI)
  show "w = v" if "served_by w c s \<and> served_by v c s"
    using that px.one_receiver [OF assms, of "Some c" w "Some c" v c] by (simp add: served_got)
next
  assume c: "(u, x) \<in> set (pw_claims s)"
  then have "u < length (pw_pubs s)" using px.reach_ok [OF assms] by (fastforce simp: proxy_ok_def)
  then show "pc_chan (pw_pubs s ! u) = None"
    using px.never_full(1) [OF assms, of u x] c by (simp add: proxy_view_def pub_box_def)
next
  assume z: "map_of (pw_proxyWaiting s) k = Some z"
  show "pc_id (pw_pubs s ! z) = k" "pc_state (pw_pubs s ! z) \<in> {PubSending, PubWaiting}"
    using ok_entry [OF px.reach_ok [OF assms] z] by (auto simp: waits_def)
qed


definition sample_race :: proxy_wait where
  "sample_race = claim_send 0 (pub_timeout 0 (dispatch_claim (generateID [1, 2]) (pub_sent 0 True (pub_open 0 [1, 2] proxy_start))))"

theorem connections_join_one_to_one_witness:
  "map_of (pw_proxyWaiting (pub_open 0 [1, 2] proxy_start)) ''0102'' = Some 0 \<and>
   pc_state (pw_pubs (pub_open 0 [1, 2] proxy_start) ! 0) \<in> {PubSending, PubWaiting}"
proof -
  have "proxy_step\<^sup>*\<^sup>* proxy_start (pub_open 0 [1, 2] proxy_start)" by (simp add: proxy_step.opened r_into_rtranclp)
  moreover have "map_of (pw_proxyWaiting (pub_open 0 [1, 2] proxy_start)) ''0102'' = Some 0" by code_simp
  ultimately show ?thesis using connections_join_one_to_one by blast
qed


text \<open>
  A request of the HTTP proxy gets at most one answer, the answer is never dropped for a full channel, and its
  entry in the table goes with it, however the answer, the timeout and the end of the client are ordered.
\<close>

theorem calls_are_answered_once:
  assumes "call_step\<^sup>*\<^sup>* calls_start s"
  shows "((w, r) \<in> set (hs_claims s) \<longrightarrow> hc_chan (hs_calls s ! w) = None \<and> call_got (hc_state (hs_calls s ! w)) = []) \<and>
    (map_of (hs_httpRequests s) k = Some z \<longrightarrow> hc_id (hs_calls s ! z) = k \<and> hc_state (hs_calls s ! z) \<in> {CallSending, CallWaiting})"
proof (intro conjI impI)
  assume c: "(w, r) \<in> set (hs_claims s)"
  then have "w < length (hs_calls s)" using hq.reach_ok [OF assms] by (fastforce simp: calls_ok_def)
  then show "hc_chan (hs_calls s ! w) = None" "call_got (hc_state (hs_calls s ! w)) = []"
    using hq.never_full(1,2) [OF assms, of w r] c by (simp_all add: call_view_def)
next
  assume z: "map_of (hs_httpRequests s) k = Some z"
  show "hc_id (hs_calls s ! z) = k" "hc_state (hs_calls s ! z) \<in> {CallSending, CallWaiting}"
    using calls_entry [OF hq.reach_ok [OF assms] z] by auto
qed

end
