(* ===== verification/GoPath.thy ===== *)
theory GoPath
  imports GoBase
begin

text \<open>
  The lexical operations of \<open>path/filepath\<close> on slash-separated paths, as the components use them: \<open>Clean\<close>, \<open>Join\<close>,
  \<open>Abs\<close> and \<open>Rel\<close>. A path is split into its elements; the cleaned elements are a stack on which \<open>..\<close> pops.
\<close>

section \<open>Clean, Join, Abs and Rel\<close>

abbreviation slash :: char where "slash \<equiv> CHR ''/''"

definition is_abs :: "string \<Rightarrow> bool" where
  "is_abs p \<longleftrightarrow> has_prefix p ''/''"

text \<open>The stack holds the elements in reverse.\<close>

fun clean_elems :: "bool \<Rightarrow> string list \<Rightarrow> string list \<Rightarrow> string list" where
  "clean_elems rooted [] st = rev st"
| "clean_elems rooted (e # es) st =
     (if e = [] \<or> e = ''.'' then clean_elems rooted es st
      else if e = ''..''
      then if st \<noteq> [] \<and> hd st \<noteq> ''..'' then clean_elems rooted es (tl st)
           else if rooted then clean_elems rooted es st
           else clean_elems rooted es (e # st)
      else clean_elems rooted es (e # st))"

definition path_elems :: "string \<Rightarrow> string list" where
  "path_elems p = clean_elems (is_abs p) (split_char slash p) []"

definition build_path :: "bool \<Rightarrow> string list \<Rightarrow> string" where
  "build_path rooted es = (let out = join ''/'' es in if rooted then slash # out else if out = [] then ''.'' else out)"

definition path_clean :: "string \<Rightarrow> string" where
  "path_clean p = build_path (is_abs p) (path_elems p)"

definition path_join :: "string list \<Rightarrow> string" where
  "path_join ps = (let ps = filter (\<lambda>p. p \<noteq> []) ps in if ps = [] then [] else path_clean (join ''/'' ps))"

definition path_abs :: "string \<Rightarrow> string \<Rightarrow> string" where
  "path_abs cwd p = (if is_abs p then path_clean p else path_join [cwd, p])"

fun strip_common :: "string list \<Rightarrow> string list \<Rightarrow> string list \<times> string list" where
  "strip_common (b # bs) (t # ts) = (if b = t then strip_common bs ts else (b # bs, t # ts))"
| "strip_common bs ts = (bs, ts)"

definition path_rel :: "string \<Rightarrow> string \<Rightarrow> string option" where
  "path_rel base targ =
     (if is_abs base \<noteq> is_abs targ then None
      else let (bs, ts) = strip_common (path_elems base) (path_elems targ)
      in if bs \<noteq> [] \<and> hd bs = ''..'' then None
         else Some (build_path False (replicate (length bs) ''..'' @ ts)))"

definition path_base :: "string \<Rightarrow> string" where
  "path_base p =
     (if p = [] then ''.''
      else let q = rev (dropWhile (\<lambda>c. c = slash) (rev p))
      in if q = [] then ''/'' else last (split_char slash q))"

section \<open>Facts\<close>

definition path_elem :: "string \<Rightarrow> bool" where
  "path_elem e \<longleftrightarrow> e \<noteq> [] \<and> e \<noteq> ''.'' \<and> slash \<notin> set e"

text \<open>Cleaned elements: no empty one, no dot, and no \<open>..\<close> but at the front of a relative path.\<close>

definition path_normal :: "bool \<Rightarrow> string list \<Rightarrow> bool" where
  "path_normal rooted es \<longleftrightarrow> (\<forall>e \<in> set es. path_elem e) \<and>
     (\<exists>n rest. es = replicate n ''..'' @ rest \<and> ''..'' \<notin> set rest \<and> (rooted \<longrightarrow> n = 0))"

lemma split_char_ne [simp]: "split_char c s \<noteq> []"
  by (induction s) (auto split: list.split)

lemma split_char_free: "f \<in> set (split_char c s) \<Longrightarrow> c \<notin> set f"
  by (induction s arbitrary: f) (auto split: if_splits list.splits)

lemma split_char_none: "c \<notin> set s \<Longrightarrow> split_char c s = [s]"
  by (induction s) auto

lemma split_char_append: "c \<notin> set f \<Longrightarrow> split_char c (f @ c # s) = f # split_char c s"
  by (induction f) auto

lemma split_join:
  "es \<noteq> [] \<Longrightarrow> (\<And>e. e \<in> set es \<Longrightarrow> slash \<notin> set e) \<Longrightarrow> split_char slash (join ''/'' es) = es"
proof (induction es)
  case (Cons x es)
  then show ?case using split_char_append [of slash x "join ''/'' es"] by (cases es) (auto simp: split_char_none)
qed simp

lemma normal_rev_Cons:
  "path_normal r (rev st) \<Longrightarrow> path_elem e \<Longrightarrow> e \<noteq> ''..'' \<Longrightarrow> path_normal r (rev (e # st))"
proof -
  assume st: "path_normal r (rev st)" and e: "path_elem e" "e \<noteq> ''..''"
  then obtain n rest where "rev st = replicate n ''..'' @ rest" "''..'' \<notin> set rest" "r \<longrightarrow> n = 0"
    by (auto simp: path_normal_def)
  then have "rev (e # st) = replicate n ''..'' @ (rest @ [e])" "''..'' \<notin> set (rest @ [e])" "r \<longrightarrow> n = 0"
    using e by auto
  moreover have "\<forall>x \<in> set (rev (e # st)). path_elem x" using st e by (auto simp: path_normal_def)
  ultimately show ?thesis unfolding path_normal_def by blast
qed

lemma normal_dots:
  assumes "path_normal r (rev st)" and "st = [] \<or> hd st = ''..''" and "\<not> r"
  shows "path_normal r (rev (''..'' # st))"
proof -
  obtain n rest where n: "rev st = replicate n ''..'' @ rest" "''..'' \<notin> set rest"
    using assms(1) by (auto simp: path_normal_def)
  have "rest = []"
  proof (rule ccontr)
    assume "rest \<noteq> []"
    then have "rev st \<noteq> []" "last (rev st) = last rest" using n(1) by auto
    then have "st \<noteq> []" "hd st = last rest" by (auto simp: last_rev)
    then show False using assms(2) n(2) \<open>rest \<noteq> []\<close> last_in_set by metis
  qed
  then have "rev (''..'' # st) = replicate (Suc n) ''..'' @ []"
    using n(1) by (simp add: replicate_append_same)
  then show ?thesis
    using assms(1,3) unfolding path_normal_def
    by (auto simp: path_elem_def intro!: exI [of _ "Suc n"] simp del: replicate_Suc)
qed

lemma normal_tl:
  assumes "path_normal r (rev st)" and "st \<noteq> []" and "hd st \<noteq> ''..''"
  shows "path_normal r (rev (tl st))"
proof -
  obtain n rest where n: "rev st = replicate n ''..'' @ rest" "''..'' \<notin> set rest" "r \<longrightarrow> n = 0"
    using assms(1) by (auto simp: path_normal_def)
  have "rest \<noteq> []"
  proof
    assume "rest = []"
    then have "st = replicate n ''..''" using n(1) by (metis append_Nil2 rev_replicate rev_rev_ident)
    then show False using assms(2,3) by (cases n) auto
  qed
  then have "rev (tl st) = replicate n ''..'' @ butlast rest"
    using n(1) by (metis butlast_append butlast_rev)
  moreover have "''..'' \<notin> set (butlast rest)" using n(2) in_set_butlastD by metis
  moreover have "\<forall>e \<in> set (rev (tl st)). path_elem e"
    using assms(1,2) list.set_sel(2) [of st] by (auto simp: path_normal_def)
  ultimately show ?thesis using n(3) unfolding path_normal_def by metis
qed

lemma clean_normal:
  assumes "\<And>e. e \<in> set es \<Longrightarrow> slash \<notin> set e" and "path_normal r (rev st)"
  shows "path_normal r (clean_elems r es st)"
  using assms
proof (induction r es st rule: clean_elems.induct)
  case (1 rooted st)
  then show ?case by simp
next
  case (2 r e es st)
  have es: "\<And>x. x \<in> set es \<Longrightarrow> slash \<notin> set x" and e: "slash \<notin> set e" using "2.prems"(1) by auto
  consider (skip) "e = [] \<or> e = ''.''" | (pop) "e = ''..''" "st \<noteq> []" "hd st \<noteq> ''..''"
    | (root) "e = ''..''" "st = [] \<or> hd st = ''..''" "r" | (dots) "e = ''..''" "st = [] \<or> hd st = ''..''" "\<not> r"
    | (push) "e \<noteq> []" "e \<noteq> ''.''" "e \<noteq> ''..''" by blast
  then show ?case
  proof cases
    case skip
    then show ?thesis using "2.IH"(1) [OF _ es "2.prems"(2)] by simp
  next
    case pop
    then show ?thesis using "2.IH"(2) [OF _ _ _ es] normal_tl [OF "2.prems"(2)] by simp
  next
    case root
    then show ?thesis using "2.IH"(3) [OF _ _ _ _ es "2.prems"(2)] by auto
  next
    case dots
    then have "path_normal r (rev (e # st))" using normal_dots [OF "2.prems"(2)] by simp
    then show ?thesis using dots "2.IH"(4) [OF _ _ _ _ es] by auto
  next
    case push
    then have "path_normal r (rev (e # st))" using normal_rev_Cons [OF "2.prems"(2)] e by (simp add: path_elem_def)
    then show ?thesis using push "2.IH"(5) [OF _ _ es] by simp
  qed
qed

lemma normal_Nil: "path_normal r []"
  by (auto simp: path_normal_def)

lemma elems_normal: "path_normal (is_abs p) (path_elems p)"
  unfolding path_elems_def by (rule clean_normal) (auto simp: split_char_free normal_Nil)

text \<open>Cleaning changes nothing in a clean path.\<close>

lemma clean_plain:
  "(\<And>e. e \<in> set es \<Longrightarrow> path_elem e \<and> e \<noteq> ''..'') \<Longrightarrow> clean_elems r es st = rev st @ es"
  by (induction r es st rule: clean_elems.induct) (auto simp: path_elem_def)

lemma clean_dots: "clean_elems False (replicate n ''..'' @ es) (replicate m ''..'') = clean_elems False es (replicate (n + m) ''..'')"
proof (induction n arbitrary: m)
  case (Suc n)
  then show ?case using Suc [of "Suc m"] by (cases m) simp_all
qed simp

lemma clean_id:
  assumes "path_normal r es"
  shows "clean_elems r es [] = es"
proof -
  obtain n rest where n: "es = replicate n ''..'' @ rest" "''..'' \<notin> set rest" "r \<longrightarrow> n = 0"
    using assms by (auto simp: path_normal_def)
  have rest: "path_elem e \<and> e \<noteq> ''..''" if "e \<in> set rest" for e
    using assms n(1,2) that by (auto simp: path_normal_def)
  show ?thesis
  proof (cases r)
    case True
    then show ?thesis using n clean_plain [OF rest, of rest r "[]"] by simp
  next
    case False
    then show ?thesis
      using n(1) clean_dots [of n rest 0] clean_plain [OF rest, of rest False "replicate n ''..''"] by simp
  qed
qed

lemma join_Nil_iff: "(\<And>e. e \<in> set es \<Longrightarrow> path_elem e) \<Longrightarrow> join ''/'' es = [] \<longleftrightarrow> es = []"
  by (cases "(''/'', es)" rule: join.cases) (auto simp: path_elem_def)

lemma join_not_abs: "(\<And>e. e \<in> set es \<Longrightarrow> path_elem e) \<Longrightarrow> \<not> is_abs (join ''/'' es)"
proof -
  assume e: "\<And>e. e \<in> set es \<Longrightarrow> path_elem e"
  show ?thesis
  proof (cases es)
    case (Cons x xs)
    then obtain c cs where "x = c # cs" "c \<noteq> slash" using e [of x] by (cases x) (auto simp: path_elem_def)
    then show ?thesis using Cons by (cases xs) (auto simp: is_abs_def has_prefix_def)
  qed (simp add: is_abs_def has_prefix_def)
qed

lemma build_is_abs: "path_normal r es \<Longrightarrow> is_abs (build_path r es) = r"
  using join_not_abs [of es] by (auto simp: build_path_def Let_def path_normal_def is_abs_def has_prefix_def)

lemma build_elems:
  assumes "path_normal r es"
  shows "path_elems (build_path r es) = es"
proof -
  have e: "\<And>e. e \<in> set es \<Longrightarrow> path_elem e" using assms by (simp add: path_normal_def)
  then have s: "es \<noteq> [] \<Longrightarrow> split_char slash (join ''/'' es) = es" by (intro split_join) (auto simp: path_elem_def)
  show ?thesis
  proof (cases "es = []")
    case True
    then show ?thesis using build_is_abs [OF assms] by (auto simp: path_elems_def build_path_def)
  next
    case False
    then show ?thesis
      using s join_Nil_iff [OF e] clean_id [OF assms]
      unfolding path_elems_def build_is_abs [OF assms] by (auto simp: build_path_def Let_def)
  qed
qed

lemma clean_elems_idem [simp]: "path_elems (path_clean p) = path_elems p" "is_abs (path_clean p) = is_abs p"
  using build_elems [OF elems_normal] build_is_abs [OF elems_normal] by (simp_all add: path_clean_def)

lemma path_clean_idem [simp]: "path_clean (path_clean p) = path_clean p"
  by (simp add: path_clean_def [of "path_clean p"]) (simp add: path_clean_def)

lemma strip_common_split:
  "strip_common bs ts = (bs', ts') \<Longrightarrow> \<exists>c. bs = c @ bs' \<and> ts = c @ ts'"
  by (induction bs ts rule: strip_common.induct) (auto split: if_splits intro: exI [of _ "_ # _"])

lemma strip_common_prefix: "strip_common bs (bs @ ts) = ([], ts)"
  by (induction bs) (cases ts; auto)+

lemma normal_elem: "path_normal r es \<Longrightarrow> x \<in> set es \<Longrightarrow> path_elem x"
  by (simp add: path_normal_def)

lemma path_elem_dots: "path_elem ''..''"
  by (simp add: path_elem_def)

lemma normal_abs_no_dots: "path_normal True es \<Longrightarrow> ''..'' \<notin> set es"
  by (auto simp: path_normal_def)

lemma prefix_drop: "has_prefix a p \<Longrightarrow> a = p @ drop (length p) a"
  by (metis append_take_drop_id has_prefix_def)

lemma has_prefix_cut: "c \<notin> set p \<Longrightarrow> has_prefix (t @ c # r) p \<longleftrightarrow> has_prefix t p"
proof (induction p arbitrary: t)
  case (Cons x p)
  then show ?case by (cases t) (auto simp: has_prefix_def)
qed simp

lemma join_prefix: "slash \<notin> set p \<Longrightarrow> has_prefix (join ''/'' (x # xs)) p \<longleftrightarrow> has_prefix x p"
  using has_prefix_cut [of slash p x] by (cases xs) simp_all

lemma build_prefix:
  "(\<And>e. e \<in> set (x # xs) \<Longrightarrow> path_elem e) \<Longrightarrow> has_prefix (build_path False (x # xs)) ''..'' \<longleftrightarrow> has_prefix x ''..''"
  using join_Nil_iff [of "x # xs"] join_prefix [of "''..''" x xs] by (simp add: build_path_def Let_def)

text \<open>The result of \<open>Rel\<close> starts with two dots when the target is not below the base, or an element's name does.\<close>

lemma rel_abs:
  assumes "is_abs base" and "is_abs targ" and "path_rel base targ = Some r"
  shows "has_prefix r ''..'' \<longleftrightarrow>
    \<not> (\<exists>es. path_elems targ = path_elems base @ es \<and> (es = [] \<or> \<not> has_prefix (hd es) ''..''))"
proof -
  obtain bs ts where st: "strip_common (path_elems base) (path_elems targ) = (bs, ts)" by fastforce
  then obtain c where c: "path_elems base = c @ bs" "path_elems targ = c @ ts" using strip_common_split by blast
  have n: "path_normal True (c @ bs)" "path_normal True (c @ ts)"
    using elems_normal [of base] elems_normal [of targ] assms(1,2) c by simp_all
  have r: "r = build_path False (replicate (length bs) ''..'' @ ts)"
    using assms st by (simp add: path_rel_def split: if_split_asm)
  show ?thesis
  proof (cases bs)
    case (Cons b bs')
    have e: "path_elem x" if "x \<in> set (''..'' # replicate (length bs') ''..'' @ ts)" for x
      using normal_elem [OF n(2), of x] path_elem_dots that by auto
    have "has_prefix (build_path False (''..'' # replicate (length bs') ''..'' @ ts)) ''..'' \<longleftrightarrow> has_prefix ''..'' ''..''"
      by (rule build_prefix) (rule e)
    then have "has_prefix r ''..''" using Cons r by (simp add: has_prefix_def)
    moreover have "path_elems targ \<noteq> path_elems base @ es" for es
    proof
      assume "path_elems targ = path_elems base @ es"
      then have "strip_common (path_elems base) (path_elems targ) = ([], es)" by (simp only: strip_common_prefix)
      then show False using st Cons by simp
    qed
    ultimately show ?thesis by blast
  next
    case Nil
    show ?thesis
    proof (cases ts)
      case Nil
      then have "path_elems targ = path_elems base @ []" "\<not> has_prefix r ''..''"
        using \<open>bs = []\<close> c r by (simp_all add: build_path_def has_prefix_def)
      then show ?thesis by blast
    next
      case (Cons t ts')
      have e: "path_elem x" if "x \<in> set (t # ts')" for x using normal_elem [OF n(2), of x] that Cons by auto
      have "has_prefix (build_path False (t # ts')) ''..'' \<longleftrightarrow> has_prefix t ''..''" by (rule build_prefix) (rule e)
      then have "has_prefix r ''..'' \<longleftrightarrow> has_prefix t ''..''" using r Nil Cons by simp
      moreover have "path_elems targ = path_elems base @ es \<longleftrightarrow> es = t # ts'" for es using c Nil Cons by auto
      ultimately show ?thesis by simp
    qed
  qed
qed

end
