(* ===== verification/GoBase64.thy ===== *)
theory GoBase64
  imports GoSlice
begin

text \<open>
  The standard and the URL alphabet of \<open>encoding/base64\<close>, with padding: \<open>EncodeToString\<close> and \<open>DecodeString\<close>. The
  decoder skips carriage returns and line feeds and does not look at the bits a padded group leaves over.
\<close>

definition b64_alphabet :: "bool \<Rightarrow> string" where
  "b64_alphabet url = ''ABCDEFGHIJKLMNOPQRSTUVWXYZabcdefghijklmnopqrstuvwxyz0123456789'' @ (if url then ''-_'' else ''+/'')"

definition b64_char :: "bool \<Rightarrow> nat \<Rightarrow> char" where
  "b64_char url n = b64_alphabet url ! (n mod 64)"

fun index_of :: "string \<Rightarrow> char \<Rightarrow> nat option" where
  "index_of [] c = None"
| "index_of (x # xs) c = (if x = c then Some 0 else map_option Suc (index_of xs c))"

definition b64_val :: "bool \<Rightarrow> char \<Rightarrow> nat option" where
  "b64_val url c = index_of (b64_alphabet url) c"

fun b64_encode :: "bool \<Rightarrow> byte list \<Rightarrow> string" where
  "b64_encode url [] = []"
| "b64_encode url [a] = (let n = unat a * 16 in [b64_char url (n div 64), b64_char url n, CHR ''='', CHR ''=''])"
| "b64_encode url [a, b] =
     (let n = (unat a * 256 + unat b) * 4
      in [b64_char url (n div 4096), b64_char url (n div 64), b64_char url n, CHR ''=''])"
| "b64_encode url (a # b # c # rest) =
     (let n = (unat a * 256 + unat b) * 256 + unat c
      in b64_char url (n div 262144) # b64_char url (n div 4096) # b64_char url (n div 64) # b64_char url n #
         b64_encode url rest)"

definition byte_of :: "nat \<Rightarrow> byte" where
  "byte_of n = of_nat n"

fun b64_groups :: "bool \<Rightarrow> string \<Rightarrow> byte list option" where
  "b64_groups url [] = Some []"
| "b64_groups url (a # b # c # d # rest) =
     (case (b64_val url a, b64_val url b) of
        (Some x, Some y) \<Rightarrow>
          if c = CHR ''='' then
            if d = CHR ''='' \<and> rest = [] then Some [byte_of ((x * 64 + y) div 16)] else None
          else
            (case b64_val url c of
               None \<Rightarrow> None
             | Some z \<Rightarrow>
                 if d = CHR ''='' then
                   if rest = [] then
                     let n = ((x * 64 + y) * 64 + z) div 4 in Some [byte_of (n div 256), byte_of (n mod 256)]
                   else None
                 else
                   (case (b64_val url d, b64_groups url rest) of
                      (Some u, Some bs) \<Rightarrow>
                        let n = ((x * 64 + y) * 64 + z) * 64 + u
                        in Some (byte_of (n div 65536) # byte_of (n div 256 mod 256) # byte_of (n mod 256) # bs)
                    | _ \<Rightarrow> None))
      | _ \<Rightarrow> None)"
| "b64_groups url _ = None"

definition b64_decode :: "bool \<Rightarrow> string \<Rightarrow> byte list option" where
  "b64_decode url s = b64_groups url (filter (\<lambda>c. (of_char c :: nat) \<notin> {10, 13}) s)"

section \<open>Decoding what was encoded\<close>

lemma index_of_nth: "distinct xs \<Longrightarrow> i < length xs \<Longrightarrow> index_of xs (xs ! i) = Some i"
proof (induction xs arbitrary: i)
  case (Cons x xs)
  then show ?case by (cases i) auto
qed simp

lemma alphabet_codes:
  "map of_char (b64_alphabet url) = [65..<91] @ [97..<123] @ [48..<58] @ (if url then [45, 95] else [43, 47 :: nat])"
  by (simp add: b64_alphabet_def upt_rec)

lemma alphabet: "length (b64_alphabet url) = 64" "distinct (b64_alphabet url)"
  "\<forall>c \<in> set (b64_alphabet url). c \<noteq> CHR ''='' \<and> (of_char c :: nat) \<notin> {10, 13}"
proof -
  show "length (b64_alphabet url) = 64" by (simp add: b64_alphabet_def)
  have "distinct (map of_char (b64_alphabet url) :: nat list)" unfolding alphabet_codes by simp
  then show "distinct (b64_alphabet url)" by (simp add: distinct_map)
  have "of_char c \<in> set (map of_char (b64_alphabet url) :: nat list)" if "c \<in> set (b64_alphabet url)" for c
    using that by simp
  then show "\<forall>c \<in> set (b64_alphabet url). c \<noteq> CHR ''='' \<and> (of_char c :: nat) \<notin> {10, 13}"
    unfolding alphabet_codes by (fastforce split: if_splits)
qed

lemma b64_val_char [simp]: "b64_val url (b64_char url n) = Some (n mod 64)"
  unfolding b64_val_def b64_char_def by (rule index_of_nth) (simp_all add: alphabet)

lemma b64_char_in: "b64_char url n \<in> set (b64_alphabet url)"
  unfolding b64_char_def by (rule nth_mem) (simp add: alphabet)

lemma b64_char_plain [simp]: "b64_char url n \<noteq> CHR ''=''" "(of_char (b64_char url n) :: nat) \<noteq> 10" "(of_char (b64_char url n) :: nat) \<noteq> 13"
  using alphabet(3) b64_char_in [of url n] by auto

lemma byte_of_unat [simp]: "byte_of (unat a) = a"
  by (simp add: byte_of_def)

lemma unat_byte: "unat (a :: byte) < 256"
  using unsigned_less [of a] by simp

lemma digit_step: "n div 64 * 64 + n mod 64 = (n :: nat)"
  by (rule div_mult_mod_eq)

lemma digits2: "n < 4096 \<Longrightarrow> n div 64 mod 64 * 64 + n mod 64 = (n :: nat)"
  using digit_step [of n] by (simp add: less_mult_imp_div_less)

lemma digits3: "n < 262144 \<Longrightarrow> (n div 4096 mod 64 * 64 + n div 64 mod 64) * 64 + n mod 64 = (n :: nat)"
  using digits2 [of "n div 64"] digit_step [of n] by (simp add: less_mult_imp_div_less div_mult2_eq [symmetric])

lemma digits4: "n < 16777216 \<Longrightarrow>
   ((n div 262144 mod 64 * 64 + n div 4096 mod 64) * 64 + n div 64 mod 64) * 64 + n mod 64 = (n :: nat)"
  using digits3 [of "n div 64"] digit_step [of n] by (simp add: less_mult_imp_div_less div_mult2_eq [symmetric])

lemma b64_groups_encode: "b64_groups url (b64_encode url bs) = Some bs"
proof (induction url bs rule: b64_encode.induct)
  case (2 url a)
  define n where "n = unat a * 16"
  have "n < 4096" "n div 16 = unat a" using unat_byte [of a] by (simp_all add: n_def)
  then show ?case using digits2 [of n] by (simp add: Let_def n_def [symmetric])
next
  case (3 url a b)
  have n: "(unat a * 256 + unat b) div 256 = unat a" "(unat a * 256 + unat b) mod 256 = unat b"
    using unat_byte [of b] by simp_all
  have "(unat a * 256 + unat b) * 4 < 262144" using unat_byte [of a] unat_byte [of b] by simp
  from digits3 [OF this] n show ?case by (simp add: Let_def del: distrib_right_numeral)
next
  case (4 url a b c rest)
  define m where "m = unat a * 256 + unat b"
  define n where "n = m * 256 + unat c"
  have m: "m < 65536" "m div 256 = unat a" "m mod 256 = unat b"
    using unat_byte [of a] unat_byte [of b] by (simp_all add: m_def)
  have n: "n < 16777216" "n div 256 = m" "n mod 256 = unat c"
    using unat_byte [of c] m(1) by (simp_all add: n_def)
  have "n div 65536 = unat a" using div_mult2_eq [of n 256 256] n(2) m(2) by simp
  then show ?case using 4 n m digits4 [OF n(1)] by (simp add: Let_def m_def [symmetric] n_def [symmetric])
qed simp

lemma b64_encode_plain: "filter (\<lambda>c. (of_char c :: nat) \<notin> {10, 13}) (b64_encode url bs) = b64_encode url bs"
  by (induction url bs rule: b64_encode.induct) (auto simp: Let_def)

theorem b64_decode_encode: "b64_decode url (b64_encode url bs) = Some bs"
  unfolding b64_decode_def b64_encode_plain by (rule b64_groups_encode)

end
