(* ===== verification/FileServer.thy ===== *)
theory FileServer
  imports GoPath GoBase64 HttpModel TunnelProto
begin

text \<open>
  The file server of \<open>cmd/fileserver\<close> and the mode of the client that starts it (\<open>file_mode.go\<close>): paths, permissions,
  sessions, the authentication in front of the WebDAV handler, and the pages. The WebDAV handler is a library: that
  it runs is the reply \<open>FsWebDAV\<close>. The host (file system, environment, working directory) is a record.
\<close>

section \<open>Paths\<close>

record fs_host =
  ho_cwd :: "string option"              \<comment> \<open>\<open>os.Getwd\<close>\<close>
  ho_home :: "string option"             \<comment> \<open>\<open>os.UserHomeDir\<close>\<close>
  ho_expandEnv :: "string \<Rightarrow> string"      \<comment> \<open>\<open>os.ExpandEnv\<close>\<close>
  ho_stat :: "string \<Rightarrow> bool option"      \<comment> \<open>\<open>os.Stat\<close>: whether the path is a directory\<close>

datatype fs_error = InvalidRoot | InvalidRequested | NoRelative | PathEscapes | PathMissing | PathNotDirectory

definition fs_abs :: "fs_host \<Rightarrow> string \<Rightarrow> string option" where
  "fs_abs ho p = (if is_abs p then Some (path_clean p) else map_option (\<lambda>cwd. path_join [cwd, p]) (ho_cwd ho))"

definition ExpandPath :: "fs_host \<Rightarrow> string \<Rightarrow> string" where
  "ExpandPath ho path =
     (if (has_prefix path ''~/'' \<or> path = ''~'') \<and> ho_home ho \<noteq> None
      then (if path = ''~'' then the (ho_home ho) else path_join [the (ho_home ho), drop 2 path])
      else ho_expandEnv ho path)"

definition NormalizePath :: "fs_host \<Rightarrow> string \<Rightarrow> string" where
  "NormalizePath ho path =
     (let path = ExpandPath ho path in case fs_abs ho path of None \<Rightarrow> path | Some absPath \<Rightarrow> path_clean absPath)"

definition ValidatePath :: "fs_host \<Rightarrow> string \<Rightarrow> string \<Rightarrow> (fs_error, string) res" where
  "ValidatePath ho root requested =
     (let cleanRoot = path_clean root; cleanRequested = path_clean requested;
          fullPath = (if is_abs cleanRequested then cleanRequested else path_join [cleanRoot, cleanRequested])
      in case fs_abs ho cleanRoot of
           None \<Rightarrow> Fail InvalidRoot
         | Some absRoot \<Rightarrow>
             (case fs_abs ho fullPath of
                None \<Rightarrow> Fail InvalidRequested
              | Some absPath \<Rightarrow>
                  (case path_rel absRoot absPath of
                     None \<Rightarrow> Fail NoRelative
                   | Some relPath \<Rightarrow> if has_prefix relPath ''..'' then Fail PathEscapes else Ok absPath)))"

definition PathExists :: "fs_host \<Rightarrow> string \<Rightarrow> bool" where
  "PathExists ho path \<longleftrightarrow> ho_stat ho path \<noteq> None"

definition IsDirectory :: "fs_host \<Rightarrow> string \<Rightarrow> bool" where
  "IsDirectory ho path = (case ho_stat ho path of None \<Rightarrow> False | Some d \<Rightarrow> d)"

text \<open>The result of \<open>MkdirAll\<close> is a parameter; \<open>None\<close> where it is not called.\<close>

definition EnsureDirectory :: "fs_host \<Rightarrow> string \<Rightarrow> (fs_error, string option) res" where
  "EnsureDirectory ho path =
     (if PathExists ho path then if \<not> IsDirectory ho path then Fail PathNotDirectory else Ok None else Ok (Some path))"

section \<open>Permissions\<close>

definition PermRead :: string where "PermRead = ''r''"
definition PermReadWrite :: string where "PermReadWrite = ''rw''"
definition PermFull :: string where "PermFull = ''rwx''"

lemmas perm_defs = PermRead_def PermReadWrite_def PermFull_def

definition ParsePermissions :: "string \<Rightarrow> string" where
  "ParsePermissions s =
     (let s = to_lower (trim_space s) in
      if s \<in> {''r'', ''read''} then PermRead
      else if s \<in> {''rw'', ''readwrite'', ''read-write''} then PermReadWrite
      else if s \<in> {''rwx'', ''full''} then PermFull
      else PermReadWrite)"

definition HasRead :: "string \<Rightarrow> bool" where
  "HasRead p \<longleftrightarrow> p = PermRead \<or> p = PermReadWrite \<or> p = PermFull"

definition HasWrite :: "string \<Rightarrow> bool" where
  "HasWrite p \<longleftrightarrow> p = PermReadWrite \<or> p = PermFull"

definition HasExecute :: "string \<Rightarrow> bool" where
  "HasExecute p \<longleftrightarrow> p = PermFull"

definition read_methods :: "string list" where
  "read_methods = [''GET'', ''HEAD'', ''OPTIONS'', ''PROPFIND'']"

definition write_methods :: "string list" where
  "write_methods = [''PUT'', ''POST'', ''DELETE'', ''MKCOL'', ''COPY'', ''MOVE'', ''PROPPATCH'', ''PATCH'']"

text \<open>The missing permission, or \<open>None\<close> when the request passes.\<close>

definition permission_check :: "string \<Rightarrow> string \<Rightarrow> string option" where
  "permission_check perms m =
     (if m \<in> set read_methods then if HasRead perms then None else Some ''Read''
      else if m \<in> set write_methods then if HasWrite perms then None else Some ''Write''
      else None)"

definition CheckMethodPermission :: "string \<Rightarrow> string \<Rightarrow> string option" where
  "CheckMethodPermission m perms = permission_check perms (map (\<lambda>c. if 97 \<le> (of_char c :: nat) \<and> (of_char c :: nat) \<le> 122
     then char_of (of_char c - 32 :: nat) else c) m)"

section \<open>Sessions\<close>

record fs_session =
  fe_CreatedAt :: gtime
  fe_ExpiresAt :: gtime

record session_manager =
  sm_sessions :: "fs_session smap"
  sm_username :: string
  sm_password :: string

definition NewSessionManager :: "string \<Rightarrow> string \<Rightarrow> session_manager" where
  "NewSessionManager username password = \<lparr>sm_sessions = [], sm_username = username, sm_password = password\<rparr>"

text \<open>A tick of \<open>cleanupLoop\<close>.\<close>

definition cleanup_sessions :: "gtime \<Rightarrow> session_manager \<Rightarrow> session_manager" where
  "cleanup_sessions now sm = sm\<lparr>sm_sessions := m_keep (\<lambda>t s. \<not> time_after now (fe_ExpiresAt s)) (sm_sessions sm)\<rparr>"

definition CreateSession :: "gtime \<Rightarrow> byte list option \<Rightarrow> session_manager \<Rightarrow> string option \<times> session_manager" where
  "CreateSession now rnd sm =
     (case rnd of
        None \<Rightarrow> (None, sm)
      | Some b \<Rightarrow>
          let token = b64_encode True b;
              session = \<lparr>fe_CreatedAt = now, fe_ExpiresAt = now + 24 * hour\<rparr>
          in (Some token, sm\<lparr>sm_sessions := AList.update token session (sm_sessions sm)\<rparr>))"

definition ValidateSession :: "gtime \<Rightarrow> string \<Rightarrow> session_manager \<Rightarrow> bool" where
  "ValidateSession now token sm =
     (case map_of (sm_sessions sm) token of None \<Rightarrow> False | Some s \<Rightarrow> \<not> time_after now (fe_ExpiresAt s))"

definition DeleteSession :: "string \<Rightarrow> session_manager \<Rightarrow> session_manager" where
  "DeleteSession token sm = sm\<lparr>sm_sessions := AList.delete token (sm_sessions sm)\<rparr>"

definition ValidatePassword :: "session_manager \<Rightarrow> string \<Rightarrow> bool" where
  "ValidatePassword sm password \<longleftrightarrow> sm_password sm = password"

definition ValidateCredentials :: "session_manager \<Rightarrow> string \<Rightarrow> string \<Rightarrow> bool" where
  "ValidateCredentials sm username password \<longleftrightarrow> sm_username sm = username \<and> sm_password sm = password"

section \<open>Authentication\<close>

text \<open>The name and the password of a \<open>Basic\<close> header after its prefix.\<close>

definition basic_pair :: "string \<Rightarrow> (string \<times> string) option" where
  "basic_pair encoded =
     (case b64_decode False encoded of
        None \<Rightarrow> None
      | Some bs \<Rightarrow> (case splitn2 (bytes_str bs) (CHR '':'') of [u, p] \<Rightarrow> Some (u, p) | _ \<Rightarrow> None))"

definition validateAuthHeader :: "gtime \<Rightarrow> string \<Rightarrow> session_manager \<Rightarrow> bool" where
  "validateAuthHeader now auth sm =
     (if has_prefix auth ''Basic '' then
        (case basic_pair (drop 6 auth) of None \<Rightarrow> False | Some (u, p) \<Rightarrow> ValidateCredentials sm u p)
      else if has_prefix auth ''Bearer '' then ValidateSession now (drop 7 auth) sm
      else False)"

text \<open>\<open>r.BasicAuth()\<close> of net/http.\<close>

definition basic_auth :: "string \<Rightarrow> (string \<times> string) option" where
  "basic_auth auth = (if length auth < 6 \<or> \<not> equal_fold (take 6 auth) ''Basic '' then None else basic_pair (drop 6 auth))"

definition cookie_valid :: "gtime \<Rightarrow> request \<Rightarrow> session_manager \<Rightarrow> bool" where
  "cookie_valid now r sm = (case cookie r ''proxvn_session'' of None \<Rightarrow> False | Some v \<Rightarrow> ValidateSession now v sm)"

definition PasswordAuthMiddleware :: "gtime \<Rightarrow> request \<Rightarrow> session_manager \<Rightarrow> bool" where
  "PasswordAuthMiddleware now r sm =
     (let auth = header_get r ''Authorization'' in
      if cookie_valid now r sm then True
      else if auth \<noteq> [] \<and> validateAuthHeader now auth sm then True
      else if r_method r = ''OPTIONS'' then True
      else case basic_auth auth of None \<Rightarrow> False | Some (u, p) \<Rightarrow> ValidateCredentials sm u p)"

section \<open>Handlers\<close>

datatype fs_reply =
    FsWebDAV
  | FsForbidden string
  | FsUnauthorized
  | FsLoginPage
  | FsBrowsePage
  | FsRedirect nat string
  | FsLoggedIn string bool        \<comment> \<open>the token, and whether its cookie is for HTTPS only\<close>
  | FsLoggedOut bool
  | FsError nat

record fs_env =
  fv_now :: gtime
  fv_tls :: bool                             \<comment> \<open>whether the request came over TLS\<close>
  fv_parseForm :: bool                       \<comment> \<open>whether \<open>ParseForm\<close> succeeds\<close>
  fv_json :: "(string \<times> string) option"       \<comment> \<open>the body decoded as JSON\<close>
  fv_random :: "byte list option"            \<comment> \<open>the bytes of a new token\<close>

definition cookie_secure :: "fs_env \<Rightarrow> request \<Rightarrow> bool" where
  "cookie_secure env r \<longleftrightarrow> fv_tls env \<or> header_get r ''X-Forwarded-Proto'' = ''https''"

definition login_pair :: "fs_env \<Rightarrow> request \<Rightarrow> string \<times> string" where
  "login_pair env r =
     (let username = form_value r ''username''; password = form_value r ''password'' in
      if password = [] then case fv_json env of None \<Rightarrow> (username, password) | Some up \<Rightarrow> up else (username, password))"

definition HandleLogin :: "fs_env \<Rightarrow> request \<Rightarrow> session_manager \<Rightarrow> fs_reply \<times> session_manager" where
  "HandleLogin env r sm =
     (if r_method r \<noteq> ''POST'' then (FsError 405, sm)
      else if \<not> fv_parseForm env then (FsError 400, sm)
      else let (username, password) = login_pair env r
      in if \<not> ValidateCredentials sm username password then (FsError 401, sm)
         else case CreateSession (fv_now env) (fv_random env) sm of
                (None, sm) \<Rightarrow> (FsError 500, sm)
              | (Some token, sm) \<Rightarrow> (FsLoggedIn token (cookie_secure env r), sm))"

definition HandleLogout :: "fs_env \<Rightarrow> request \<Rightarrow> session_manager \<Rightarrow> fs_reply \<times> session_manager" where
  "HandleLogout env r sm =
     (FsLoggedOut (cookie_secure env r),
      case cookie r ''proxvn_session'' of None \<Rightarrow> sm | Some v \<Rightarrow> DeleteSession v sm)"

definition serveLogin :: "fs_env \<Rightarrow> request \<Rightarrow> session_manager \<Rightarrow> fs_reply" where
  "serveLogin env r sm = (if cookie_valid (fv_now env) r sm then FsRedirect 303 ''/browse'' else FsLoginPage)"

definition serveBrowse :: "fs_env \<Rightarrow> request \<Rightarrow> session_manager \<Rightarrow> fs_reply" where
  "serveBrowse env r sm = (if cookie_valid (fv_now env) r sm then FsBrowsePage else FsRedirect 303 ''/login'')"

definition ui_handler :: "fs_env \<Rightarrow> request \<Rightarrow> session_manager \<Rightarrow> fs_reply \<times> session_manager" where
  "ui_handler env r sm =
     (let path = r_path r in
      if path = ''/'' \<or> path = ''/login'' then (serveLogin env r sm, sm)
      else if path = ''/browse'' then (serveBrowse env r sm, sm)
      else if path = ''/api/login'' then HandleLogin env r sm
      else if path = ''/api/logout'' then HandleLogout env r sm
      else (FsError 404, sm))"

definition webdav_server :: "string \<Rightarrow> fs_env \<Rightarrow> request \<Rightarrow> session_manager \<Rightarrow> fs_reply" where
  "webdav_server perms env r sm =
     (if \<not> PasswordAuthMiddleware (fv_now env) r sm then FsUnauthorized
      else case permission_check perms (r_method r) of Some p \<Rightarrow> FsForbidden p | None \<Rightarrow> FsWebDAV)"

text \<open>The \<open>ServeMux\<close> of the file mode: it redirects to the clean path first, but for \<open>CONNECT\<close>.\<close>

definition mux_path :: "string \<Rightarrow> string" where
  "mux_path p =
     (if p = [] then ''/''
      else let p = (if hd p \<noteq> slash then slash # p else p); np = path_clean p
      in if last p = slash \<and> np \<noteq> ''/'' then np @ ''/'' else np)"

definition file_share :: "string \<Rightarrow> fs_env \<Rightarrow> request \<Rightarrow> session_manager \<Rightarrow> fs_reply \<times> session_manager" where
  "file_share perms env r sm =
     (if r_method r \<noteq> ''CONNECT'' \<and> mux_path (r_path r) \<noteq> r_path r then (FsRedirect 301 (mux_path (r_path r)), sm)
      else if r_path r = ''/webdav'' \<or> has_prefix (r_path r) ''/webdav/'' then (webdav_server perms env r sm, sm)
      else ui_handler env r sm)"

text \<open>The start of the file mode, up to the server it shares: its root, its permissions and its sessions.\<close>

definition NewWebDAVServer ::
  "fs_host \<Rightarrow> string \<Rightarrow> string \<Rightarrow> string \<Rightarrow> string \<Rightarrow> (fs_error, string \<times> string \<times> session_manager) res" where
  "NewWebDAVServer ho root username password perms =
     (let root = NormalizePath ho root in
      if \<not> PathExists ho root then Fail PathMissing
      else if \<not> IsDirectory ho root then Fail PathNotDirectory
      else Ok (root, perms, NewSessionManager username password))"

definition runFileShareMode ::
  "fs_host \<Rightarrow> string \<Rightarrow> string \<Rightarrow> string \<Rightarrow> string \<Rightarrow> (fs_error, string \<times> string \<times> session_manager) res" where
  "runFileShareMode ho path username password perms =
     (let expandedPath = ExpandPath ho path in
      if \<not> PathExists ho expandedPath then Fail PathMissing
      else if \<not> IsDirectory ho expandedPath then Fail PathNotDirectory
      else NewWebDAVServer ho (NormalizePath ho expandedPath) username password (ParsePermissions perms))"

text \<open>What \<open>main\<close> does with the flags before it.\<close>

definition file_mode_main ::
  "fs_host \<Rightarrow> string \<Rightarrow> string \<Rightarrow> string \<Rightarrow> string \<Rightarrow> (fs_error, string \<times> string \<times> session_manager) res option" where
  "file_mode_main ho file user pass perms =
     (if pass = [] then None
      else Some (runFileShareMode ho file (trim_space user) (trim_space pass) (trim_space perms)))"

section \<open>Runs\<close>

datatype fs_event = Request fs_env request | Cleanup gtime

fun fs_run :: "string \<Rightarrow> fs_event list \<Rightarrow> session_manager \<Rightarrow> session_manager" where
  "fs_run perms [] sm = sm"
| "fs_run perms (Request env r # evs) sm = fs_run perms evs (snd (file_share perms env r sm))"
| "fs_run perms (Cleanup now # evs) sm = fs_run perms evs (cleanup_sessions now sm)"

section \<open>Facts\<close>

lemma fs_abs_abs: "is_abs p \<Longrightarrow> fs_abs ho p = Some (path_clean p)"
  by (simp add: fs_abs_def)

lemma is_abs_slash [simp]: "is_abs (slash # l)"
  by (simp add: is_abs_def has_prefix_def)

lemma join_cwd_abs:
  assumes "is_abs cwd"
  shows "is_abs (path_join [cwd, p]) \<and> path_clean (path_join [cwd, p]) = path_join [cwd, p]"
proof -
  obtain l where "cwd = slash # l" using assms by (cases cwd) (auto simp: is_abs_def has_prefix_def)
  then show ?thesis by (simp add: path_join_def Let_def)
qed

lemma fs_abs_clean:
  assumes "fs_abs ho p = Some q" and "\<And>cwd. ho_cwd ho = Some cwd \<Longrightarrow> is_abs cwd"
  shows "is_abs q" and "path_clean q = q"
  using assms join_cwd_abs by (auto simp: fs_abs_def split: if_splits)

lemma sessions_ValidateSession:
  "ValidateSession now token sm \<longleftrightarrow> (\<exists>s. map_of (sm_sessions sm) token = Some s \<and> now \<le> fe_ExpiresAt s)"
  by (auto simp: ValidateSession_def time_after_def split: option.split)

text \<open>A login that creates the session of a token.\<close>

definition login_event :: "string \<Rightarrow> string \<Rightarrow> string \<Rightarrow> gtime \<Rightarrow> fs_event \<Rightarrow> bool" where
  "login_event user pass token t ev =
     (case ev of
        Cleanup now \<Rightarrow> False
      | Request env r \<Rightarrow> r_method r = ''POST'' \<and> r_path r = ''/api/login'' \<and> login_pair env r = (user, pass) \<and>
          map_option (b64_encode True) (fv_random env) = Some token \<and> fv_now env = t)"

definition carries_token :: "request \<Rightarrow> string \<Rightarrow> bool" where
  "carries_token r token \<longleftrightarrow>
     cookie r ''proxvn_session'' = Some token \<or> header_get r ''Authorization'' = ''Bearer '' @ token"

definition presents :: "request \<Rightarrow> string \<Rightarrow> string \<Rightarrow> bool" where
  "presents r user pass \<longleftrightarrow>
     equal_fold (take 6 (header_get r ''Authorization'')) ''Basic '' \<and>
     basic_pair (drop 6 (header_get r ''Authorization'')) = Some (user, pass)"

definition issued :: "string \<Rightarrow> string \<Rightarrow> fs_event list \<Rightarrow> session_manager \<Rightarrow> bool" where
  "issued user pass evs sm \<longleftrightarrow> sm_username sm = user \<and> sm_password sm = pass \<and> m_ok (sm_sessions sm) \<and>
     (\<forall>token s. map_of (sm_sessions sm) token = Some s \<longrightarrow>
        (\<exists>ev \<in> set evs. \<exists>t. login_event user pass token t ev \<and> fe_ExpiresAt s = t + 24 * hour))"

lemma issued_login:
  assumes "issued user pass evs sm" and "r_path r = ''/api/login''"
  shows "issued user pass (evs @ [Request env r]) (snd (HandleLogin env r sm))"
  using assms
  by (auto simp: issued_def HandleLogin_def CreateSession_def login_event_def ValidateCredentials_def Let_def
      split: prod.split option.splits if_splits)

lemma issued_keep: "issued user pass evs sm \<Longrightarrow> issued user pass (evs @ es) sm"
  by (fastforce simp: issued_def)

lemma issued_logout: "issued user pass evs sm \<Longrightarrow> issued user pass (evs @ es) (snd (HandleLogout env r sm))"
  by (fastforce simp: issued_def HandleLogout_def DeleteSession_def split: option.splits if_splits)

lemma issued_cleanup: "issued user pass evs sm \<Longrightarrow> issued user pass (evs @ es) (cleanup_sessions now sm)"
  by (fastforce simp: issued_def cleanup_sessions_def map_of_m_keep split: option.splits if_splits)

lemma issued_request: "issued user pass evs sm \<Longrightarrow> issued user pass (evs @ [Request env r]) (snd (file_share perms env r sm))"
  using issued_keep issued_login issued_logout by (auto simp: file_share_def ui_handler_def Let_def)

lemma issued_run: "issued user pass before sm \<Longrightarrow> issued user pass (before @ evs) (fs_run perms evs sm)"
proof (induction perms evs sm arbitrary: before rule: fs_run.induct)
  case (2 perms env r evs sm)
  show ?case using "2.IH" [OF issued_request [OF "2.prems"]] by simp
next
  case (3 perms now evs sm)
  show ?case using "3.IH" [OF issued_cleanup [OF "3.prems", of "[Cleanup now]"]] by simp
qed simp

lemma issued_new: "issued user pass [] (NewSessionManager user pass)"
  by (simp add: issued_def NewSessionManager_def)

lemma webdav_guard:
  assumes "fst (file_share perms env r sm) = FsWebDAV"
  shows "PasswordAuthMiddleware (fv_now env) r sm \<and> permission_check perms (r_method r) = None"
  using assms
  by (auto simp: file_share_def ui_handler_def webdav_server_def HandleLogin_def HandleLogout_def serveLogin_def serveBrowse_def
      Let_def split: if_splits option.splits prod.splits)

lemma middleware_cases:
  assumes "PasswordAuthMiddleware now r sm"
  obtains token where "carries_token r token" "ValidateSession now token sm"
    | "r_method r = ''OPTIONS''" | "presents r (sm_username sm) (sm_password sm)"
proof -
  let ?a = "header_get r ''Authorization''"
  have bearer: "carries_token r (drop 7 ?a)" if "has_prefix ?a ''Bearer ''"
  proof -
    have "length ''Bearer '' = 7" by simp
    then show ?thesis using prefix_drop [OF that] unfolding carries_token_def by metis
  qed
  have basic: "presents r u p" if "basic_pair (drop 6 ?a) = Some (u, p)" "has_prefix ?a ''Basic '' \<or> equal_fold (take 6 ?a) ''Basic ''" for u p
    using that by (auto simp: presents_def has_prefix_def equal_fold_def numeral_eq_Suc)
  show thesis
    using assms that bearer basic
    by (auto simp: PasswordAuthMiddleware_def Let_def cookie_valid_def validateAuthHeader_def basic_auth_def carries_token_def
        ValidateCredentials_def split: option.splits if_splits prod.splits)
qed

lemma basic_pair_encode: "CHR '':'' \<notin> set u \<Longrightarrow> basic_pair (b64_encode False (str_bytes (u @ CHR '':'' # p))) = Some (u, p)"
  by (simp add: basic_pair_def b64_decode_encode splitn2_append)

section \<open>Properties\<close>

text \<open>
  C27: Nobody reaches the WebDAV handler without the credentials of the share: in any run of the file server, a request
  that it serves has a method the permissions allow, and is an OPTIONS request, or carries the user name and the
  password itself, or the token of a login with them at most 24 hours before.
\<close>

theorem webdav_needs_credentials:
  assumes "fst (file_share perms env r (fs_run perms evs (NewSessionManager user pass))) = FsWebDAV"
  shows "permission_check perms (r_method r) = None \<and>
    (r_method r = ''OPTIONS'' \<or> presents r user pass \<or>
     (\<exists>token t. carries_token r token \<and> (\<exists>ev \<in> set evs. login_event user pass token t ev) \<and> fv_now env \<le> t + 24 * hour))"
proof -
  let ?sm = "fs_run perms evs (NewSessionManager user pass)"
  have i: "issued user pass evs ?sm" using issued_run [OF issued_new] by simp
  note g = webdav_guard [OF assms]
  from g have "PasswordAuthMiddleware (fv_now env) r ?sm" by simp
  then show ?thesis
  proof (cases rule: middleware_cases)
    case (1 token)
    then obtain s where s: "map_of (sm_sessions ?sm) token = Some s" "fv_now env \<le> fe_ExpiresAt s"
      by (auto simp: sessions_ValidateSession)
    then obtain ev t where "ev \<in> set evs" "login_event user pass token t ev" "fe_ExpiresAt s = t + 24 * hour"
      using i unfolding issued_def by blast
    then show ?thesis using 1 s g by auto
  next
    case 2
    then show ?thesis using g by simp
  next
    case 3
    then show ?thesis using i g by (simp add: issued_def)
  qed
qed

definition sample_dav :: "string \<Rightarrow> request" where
  "sample_dav m = get_request\<lparr>r_method := m, r_path := ''/webdav/a.txt'',
     r_header := [(''Authorization'', [''Basic '' @ b64_encode False (str_bytes ''bob:pw'')])]\<rparr>"

definition sample_fs_env :: fs_env where
  "sample_fs_env = \<lparr>fv_now = 0, fv_tls = False, fv_parseForm = True, fv_json = None, fv_random = Some [1, 2, 3]\<rparr>"

lemma sample_dav_fields [simp]: "r_method (sample_dav m) = m" "r_path (sample_dav m) = ''/webdav/a.txt''"
  "header_get (sample_dav m) ''Authorization'' = ''Basic '' @ b64_encode False (str_bytes (''bob'' @ CHR '':'' # ''pw''))"
  by (simp_all add: sample_dav_def header_get_def first_value_def)

lemma sample_path: "has_prefix ''/webdav/a.txt'' ''/webdav/''" "mux_path ''/webdav/a.txt'' = ''/webdav/a.txt''"
  by code_simp+

lemma sample_auth: "PasswordAuthMiddleware now (sample_dav m) (NewSessionManager ''bob'' ''pw'')"
proof -
  have "basic_pair (b64_encode False (str_bytes (''bob'' @ CHR '':'' # ''pw''))) = Some (''bob'', ''pw'')"
    by (rule basic_pair_encode) simp
  then have "validateAuthHeader now (''Basic '' @ b64_encode False (str_bytes (''bob'' @ CHR '':'' # ''pw''))) (NewSessionManager ''bob'' ''pw'')"
    by (simp add: validateAuthHeader_def has_prefix_def ValidateCredentials_def NewSessionManager_def)
  then show ?thesis by (simp add: PasswordAuthMiddleware_def Let_def)
qed

lemma sample_served: "fst (file_share PermRead sample_fs_env (sample_dav ''LOCK'') (fs_run PermRead [] (NewSessionManager ''bob'' ''pw''))) = FsWebDAV"
  using sample_path sample_auth
  by (simp add: file_share_def webdav_server_def permission_check_def read_methods_def write_methods_def)

theorem webdav_needs_credentials_witness:
  "presents (sample_dav ''LOCK'') ''bob'' ''pw''"
proof -
  have "r_method (sample_dav ''LOCK'') \<noteq> ''OPTIONS''" by (simp add: sample_dav_def)
  then show ?thesis using webdav_needs_credentials [OF sample_served] by simp
qed

text \<open>
  A share for reading refuses the eight methods it lists and nothing else: any other method of a client with the
  credentials goes to the WebDAV handler, \<open>LOCK\<close> too, with which a WebDAV server creates the file that is locked.
\<close>

theorem read_only_share_refuses:
  assumes "has_prefix (r_path r) ''/webdav/''" and "mux_path (r_path r) = r_path r"
    and "PasswordAuthMiddleware (fv_now env) r sm"
  shows "fst (file_share PermRead env r sm) = (if r_method r \<in> set write_methods then FsForbidden ''Write'' else FsWebDAV)"
proof -
  have "set read_methods \<inter> set write_methods = {}" by code_simp
  then show ?thesis
    using assms by (auto simp: file_share_def webdav_server_def permission_check_def HasRead_def HasWrite_def perm_defs)
qed

theorem read_only_share_refuses_witness:
  "fst (file_share PermRead sample_fs_env (sample_dav ''LOCK'') (NewSessionManager ''bob'' ''pw'')) = FsWebDAV \<and>
   fst (file_share PermRead sample_fs_env (sample_dav ''PUT'') (NewSessionManager ''bob'' ''pw'')) = FsForbidden ''Write''"
proof -
  have p: "has_prefix (r_path (sample_dav m)) ''/webdav/''" "mux_path (r_path (sample_dav m)) = r_path (sample_dav m)" for m
    using sample_path by simp_all
  show ?thesis
    using read_only_share_refuses [OF p sample_auth, of sample_fs_env "''LOCK''"]
      read_only_share_refuses [OF p sample_auth, of sample_fs_env "''PUT''"]
    by (simp add: write_methods_def)
qed

text \<open>
  C28: A path that \<open>ValidatePath\<close> accepts lies in the root: it is absolute and clean, without dots, and its elements start
  with those of the root. It accepts exactly the paths below the root, except those whose first element after the
  root has a name that starts with two dots.
\<close>

theorem validated_path_is_inside:
  assumes "ho_cwd ho = Some cwd" and "is_abs cwd" and "fs_abs ho (path_clean root) = Some absRoot"
    and "fs_abs ho (if is_abs requested then path_clean requested else path_join [path_clean root, path_clean requested]) = Some absPath"
  shows "(ValidatePath ho root requested = Ok p \<longleftrightarrow>
      p = absPath \<and> (\<exists>es. path_elems absPath = path_elems absRoot @ es \<and> (es = [] \<or> \<not> has_prefix (hd es) ''..''))) \<and>
    is_abs absPath \<and> path_clean absPath = absPath \<and> ''..'' \<notin> set (path_elems absPath)"
proof -
  have abs: "is_abs absRoot" "is_abs absPath" "path_clean absPath = absPath"
    using fs_abs_clean [OF assms(3)] fs_abs_clean [OF assms(4)] assms(1,2) by auto
  have dots: "''..'' \<notin> set (path_elems absPath)"
    using elems_normal [of absPath] abs(2) normal_abs_no_dots by simp
  have "ValidatePath ho root requested =
      (case path_rel absRoot absPath of None \<Rightarrow> Fail NoRelative
       | Some relPath \<Rightarrow> if has_prefix relPath ''..'' then Fail PathEscapes else Ok absPath)"
    using assms(3,4) by (simp add: ValidatePath_def Let_def)
  moreover have "path_rel absRoot absPath \<noteq> None"
  proof -
    have "''..'' \<notin> set (path_elems absRoot)" using elems_normal [of absRoot] abs(1) normal_abs_no_dots by simp
    then have "bs = [] \<or> hd bs \<noteq> ''..''" if "strip_common (path_elems absRoot) (path_elems absPath) = (bs, ts)" for bs ts
      using strip_common_split [OF that] hd_in_set [of bs] by (metis Un_iff set_append)
    then show ?thesis using abs(1,2) by (auto simp: path_rel_def split: prod.split)
  qed
  ultimately show ?thesis using rel_abs [OF abs(1,2)] abs dots by (auto split: option.splits if_splits)
qed

definition sample_host :: fs_host where
  "sample_host = \<lparr>ho_cwd = Some ''/srv'', ho_home = None, ho_expandEnv = (\<lambda>p. p), ho_stat = (\<lambda>p. if p = ''/data'' then Some True else None)\<rparr>"

theorem validated_path_is_inside_witness:
  "ValidatePath sample_host ''/data'' ''a/../b'' = Ok ''/data/b'' \<and> ValidatePath sample_host ''/data'' ''..x'' \<noteq> Ok ''/data/..x''"
proof -
  have h: "ho_cwd sample_host = Some ''/srv''" "is_abs ''/srv''" "fs_abs sample_host (path_clean ''/data'') = Some ''/data''"
    by code_simp+
  have a: "fs_abs sample_host (if is_abs ''a/../b'' then path_clean ''a/../b'' else path_join [path_clean ''/data'', path_clean ''a/../b'']) =
      Some ''/data/b''"
    and b: "fs_abs sample_host (if is_abs ''..x'' then path_clean ''..x'' else path_join [path_clean ''/data'', path_clean ''..x'']) =
      Some ''/data/..x''"
    by code_simp+
  have e: "path_elems ''/data'' = [''data'']" "path_elems ''/data/b'' = [''data'', ''b'']" "path_elems ''/data/..x'' = [''data'', ''..x'']"
    by code_simp+
  show ?thesis
    using validated_path_is_inside [OF h a, of "''/data/b''"] validated_path_is_inside [OF h b, of "''/data/..x''"]
    unfolding e by (simp add: has_prefix_def)
qed

end
