(* ===== verification/TunnelHttp.thy ===== *)
theory TunnelHttp
  imports TunnelWait GoPath HttpModel
begin

text \<open>
  The HTTP proxy in front of the tunnels (\<open>internal/http\<close>): hosts and subdomains, the landing page and the downloads,
  the certificates, and the way of a request to its client and of the answer back. The host's files are a record;
  \<open>http.ServeFile\<close> is modelled up to the file it names.
\<close>

section \<open>Hosts and subdomains\<close>

text \<open>\<open>host[:strings.Index(host, ":")]\<close> where the colon is not the first character.\<close>

definition strip_port :: "string \<Rightarrow> string" where
  "strip_port host = (case str_index host (CHR '':'') of None \<Rightarrow> host | Some i \<Rightarrow> if 0 < i then take i host else host)"

definition isMainDomain :: "http_proxy \<Rightarrow> string \<Rightarrow> bool" where
  "isMainDomain p host =
     (let host = strip_port host in host = hp_baseDomain p \<or> host = ''www.'' @ hp_baseDomain p)"

definition subdomain_char :: "char \<Rightarrow> bool" where
  "subdomain_char c =
     (let n = (of_char c :: nat) in 97 \<le> n \<and> n \<le> 122 \<or> 48 \<le> n \<and> n \<le> 57 \<or> c = CHR ''-'')"

definition extractSubdomain :: "http_proxy \<Rightarrow> string \<Rightarrow> string" where
  "extractSubdomain p host =
     (let host = strip_port host; suffix = ''.'' @ hp_baseDomain p in
      if \<not> has_suffix host suffix then []
      else let subdomain = take (length host - length suffix) host
      in if \<not> list_all subdomain_char subdomain then [] else subdomain)"

definition ValidateSubdomain :: "string \<Rightarrow> bool" where
  "ValidateSubdomain s =
     (if length s = 0 \<or> 63 < length s then False
      else if \<not> list_all subdomain_char s then False
      else hd s \<noteq> CHR ''-'' \<and> last s \<noteq> CHR ''-'')"

definition GetFullDomain :: "http_proxy \<Rightarrow> string \<Rightarrow> string" where
  "GetFullDomain p s = s @ ''.'' @ hp_baseDomain p"

definition generateRequestID :: "byte list \<Rightarrow> string" where
  "generateRequestID rnd = hex (take 8 rnd)"

text \<open>The first in the iteration order of the map.\<close>

definition GetSubdomainForClient :: "tunnel_server \<Rightarrow> http_proxy \<Rightarrow> string \<Rightarrow> string" where
  "GetSubdomainForClient s p cid =
     (case filter (\<lambda>e. se_clientID (ts_sessions s ! snd e) = cid) (hp_subdomains p) of [] \<Rightarrow> [] | e # _ \<Rightarrow> fst e)"

definition GetActiveSubdomains :: "http_proxy \<Rightarrow> string list" where
  "GetActiveSubdomains p = map fst (hp_subdomains p)"

section \<open>Certificates\<close>

definition cert_locations :: "(string \<times> string) list" where
  "cert_locations =
     [(''wildcard.crt'', ''wildcard.key''), (''server.crt'', ''server.key''), (''cert.pem'', ''key.pem''),
      (''/etc/letsencrypt/live/vutrungocrong.fun/fullchain.pem'', ''/etc/letsencrypt/live/vutrungocrong.fun/privkey.pem''),
      (''/etc/letsencrypt/live/*.vutrungocrong.fun/fullchain.pem'', ''/etc/letsencrypt/live/*.vutrungocrong.fun/privkey.pem''),
      (''/etc/ssl/certs/vutrungocrong.fun.crt'', ''/etc/ssl/private/vutrungocrong.fun.key'')]"

text \<open>\<open>exists\<close> is \<open>os.Stat\<close> without error, \<open>loads\<close> is \<open>tls.LoadX509KeyPair\<close> without error.\<close>

fun first_cert :: "(string \<Rightarrow> bool) \<Rightarrow> (string \<Rightarrow> string \<Rightarrow> bool) \<Rightarrow> (string \<times> string) list \<Rightarrow> (string \<times> string) option" where
  "first_cert exists loads [] = None"
| "first_cert exists loads ((c, k) # locs) =
     (if exists c \<and> exists k \<and> loads c k then Some (c, k) else first_cert exists loads locs)"

definition LoadCertificate :: "(string \<Rightarrow> bool) \<Rightarrow> (string \<Rightarrow> string \<Rightarrow> bool) \<Rightarrow> (string \<times> string) option" where
  "LoadCertificate exists loads = first_cert exists loads cert_locations"

section \<open>The landing page\<close>

record http_site =
  si_landingDir :: string
  si_binDir :: string
  si_dashboard :: bool      \<comment> \<open>whether \<open>SetDashboardTarget\<close> was called\<close>

definition new_site :: "(string \<Rightarrow> bool) \<Rightarrow> http_site" where
  "new_site exists =
     \<lparr>si_landingDir = (if exists ''frontend/landing'' then ''frontend/landing'' else ''../frontend/landing''),
      si_binDir = (if exists ''bin'' then ''bin'' else ''.''), si_dashboard = False\<rparr>"

text \<open>\<open>initHTTPProxy\<close>: the proxy starts only with a domain and a certificate.\<close>

definition initHTTPProxy ::
  "(string \<Rightarrow> bool) \<Rightarrow> (string \<Rightarrow> string \<Rightarrow> bool) \<Rightarrow> string \<Rightarrow> (http_proxy \<times> http_site \<times> string \<times> string) option" where
  "initHTTPProxy exists loads domain =
     (let httpDomain = trim_space domain in
      if httpDomain = [] then None
      else case LoadCertificate exists loads of
             None \<Rightarrow> None
           | Some (certFile, keyFile) \<Rightarrow>
               if certFile = [] \<or> keyFile = [] then None
               else Some (\<lparr>hp_subdomains = [], hp_baseDomain = httpDomain\<rparr>, (new_site exists)\<lparr>si_dashboard := True\<rparr>,
                          certFile, keyFile))"

datatype hp_reply =
    HpDashboard                                 \<comment> \<open>handed to the dashboard's server\<close>
  | HpEmpty
  | HpFile string "string option"               \<comment> \<open>a file and the content type that was set\<close>
  | HpRedirect string
  | HpError nat
  | HpForward nat http_request                  \<comment> \<open>to the session of a client\<close>
  | HpAnswer int "string smap" "byte list"
  | HpAbort

definition slash_or_back :: "char \<Rightarrow> bool" where
  "slash_or_back c \<longleftrightarrow> c = slash \<or> (of_char c :: nat) = 92"

text \<open>The checks of \<open>http.ServeFile\<close>: two dots as an element of the URL path, and an index page.\<close>

definition contains_dot_dot :: "string \<Rightarrow> bool" where
  "contains_dot_dot p = (''..'' \<in> set (split_char slash (map (\<lambda>c. if slash_or_back c then slash else c) p)))"

definition serve_file :: "request \<Rightarrow> string \<Rightarrow> string option \<Rightarrow> hp_reply" where
  "serve_file r name ctype =
     (if contains_dot_dot (r_path r) then HpError 400
      else if has_suffix (r_path r) ''/index.html'' then HpRedirect ''./''
      else HpFile name ctype)"

definition serveLandingPage :: "(string \<Rightarrow> bool) \<Rightarrow> http_site \<Rightarrow> request \<Rightarrow> hp_reply" where
  "serveLandingPage exists si r =
     (let path = r_path r in
      if has_prefix path ''/dashboard'' \<or> has_prefix path ''/api'' then HpEmpty
      else if has_prefix path ''/downloads/''
      then let filePath = path_join [si_binDir si, drop 11 path]
           in if exists filePath then serve_file r filePath None else HpError 404
      else if path = ''/'' \<or> path = ''/index.html'' then serve_file r (path_join [si_landingDir si, ''index.html'']) None
      else if path = ''/style.css'' then serve_file r (path_join [si_landingDir si, ''style.css'']) (Some ''text/css'')
      else if path = ''/script.js''
      then serve_file r (path_join [si_landingDir si, ''script.js'']) (Some ''application/javascript'')
      else let filePath = path_join [si_landingDir si, path]
           in if exists filePath
              then serve_file r filePath
                     (if has_suffix filePath ''.css'' then Some ''text/css''
                      else if has_suffix filePath ''.js'' then Some ''application/javascript''
                      else None)
              else HpError 404)"

section \<open>Requests\<close>

text \<open>Header values in one string, in the order of the header.\<close>

definition join_headers :: "(string list) smap \<Rightarrow> string smap" where
  "join_headers h = map (\<lambda>(k, vs). (k, join '', '' vs)) h"

text \<open>\<open>handleRequest\<close> up to \<open>SendHTTPRequest\<close>; \<open>body\<close> is what reading the body gives.\<close>

definition proxy_handleRequest ::
  "(string \<Rightarrow> bool) \<Rightarrow> http_proxy \<Rightarrow> http_site \<Rightarrow> byte list \<Rightarrow> byte list option \<Rightarrow> request \<Rightarrow> hp_reply" where
  "proxy_handleRequest exists p si rnd body r =
     (if isMainDomain p (r_host r)
      then if (has_prefix (r_path r) ''/dashboard'' \<or> has_prefix (r_path r) ''/api'') \<and> si_dashboard si then HpDashboard
           else serveLandingPage exists si r
      else let subdomain = extractSubdomain p (r_host r) in
        if subdomain = [] then HpError 400
        else case map_of (hp_subdomains p) subdomain of
               None \<Rightarrow> HpError 502
             | Some u \<Rightarrow>
                 (case body of
                    None \<Rightarrow> HpError 500
                  | Some b \<Rightarrow>
                      HpForward u \<lparr>hx_ID = generateRequestID rnd, hx_Method = r_method r, hx_Path = r_url r,
                        hx_Headers = join_headers (r_header r), hx_Body = b\<rparr>))"

text \<open>
  The rest of it. \<open>WriteHeader\<close> panics for a status of less than three or more than three digits, which ends the
  connection; an informational status is followed by a 200.
\<close>

definition write_response :: "call_state \<Rightarrow> hp_reply" where
  "write_response st =
     (case st of
        CallAnswered resp \<Rightarrow>
          (let c = hr_StatusCode resp in
           if c < 100 \<or> 999 < c then HpAbort
           else HpAnswer (if c \<le> 199 \<and> c \<noteq> 101 then 200 else c) (hr_Headers resp) (hr_Body resp))
      | _ \<Rightarrow> HpError 502)"

section \<open>The client's side\<close>

record local_request =
  lr_method :: string
  lr_url :: string
  lr_headers :: "string smap"
  lr_host :: string
  lr_body :: "byte list"

record local_response =
  lp_status :: int
  lp_headers :: "(string list) smap"
  lp_body :: "byte list"

datatype http_outcome = HttpIgnored | HttpSilent | HttpReply message bool   \<comment> \<open>an answer, and whether the counters grow\<close>

definition http_error :: "string \<Rightarrow> int \<Rightarrow> string \<Rightarrow> message" where
  "http_error i code text =
     (message_of ''http_response'')\<lparr>mg_ID := i, mg_StatusCode := code, mg_Headers := [(''Content-Type'', ''text/plain'')],
        mg_Body := str_bytes text\<rparr>"

definition local_of :: "string \<Rightarrow> message \<Rightarrow> local_request" where
  "local_of addr msg =
     (let scheme = (if has_suffix addr '':443'' then ''https'' else ''http'') in
      \<lparr>lr_method = mg_Method msg, lr_url = scheme @ ''://'' @ addr @ mg_Path msg, lr_headers = mg_Headers msg,
       lr_host = (if str_contains addr ''127.0.0.1'' \<or> str_contains addr ''::1'' \<or> str_contains addr ''localhost''
                  then ''localhost'' else addr),
       lr_body = mg_Body msg\<rparr>)"

text \<open>
  \<open>handleHTTPRequest\<close>: \<open>bad\<close> is the error of \<open>http.NewRequest\<close>, \<open>server\<close> what the local server answers and reading its
  body gives.
\<close>

definition client_http ::
  "string \<Rightarrow> string \<Rightarrow> string option \<Rightarrow> (local_request \<Rightarrow> local_response option) \<Rightarrow> message \<Rightarrow> http_outcome" where
  "client_http protocol addr bad server msg =
     (if protocol \<noteq> ''http'' then HttpIgnored
      else case bad of
             Some e \<Rightarrow> HttpReply (http_error (mg_ID msg) 502 e) False
           | None \<Rightarrow>
               (case server (local_of addr msg) of
                  None \<Rightarrow> HttpSilent
                | Some resp \<Rightarrow>
                    HttpReply ((message_of ''http_response'')\<lparr>mg_ID := mg_ID msg, mg_StatusCode := lp_status resp,
                      mg_Headers := join_headers (lp_headers resp), mg_Body := lp_body resp\<rparr>) True))"

section \<open>Facts\<close>

lemma strip_port_free: "CHR '':'' \<notin> set h \<Longrightarrow> strip_port h = h"
  by (simp add: strip_port_def str_index_None [symmetric])

lemma strip_port_cut: "CHR '':'' \<notin> set h \<Longrightarrow> h \<noteq> [] \<Longrightarrow> strip_port (h @ CHR '':'' # port) = h"
  by (simp add: strip_port_def str_index_append)

lemma clean_append: "clean_elems r (a @ b) st = clean_elems r b (rev (clean_elems r a st))"
  by (induction r a st rule: clean_elems.induct) auto

lemma clean_no_dots: "''..'' \<notin> set b \<Longrightarrow> clean_elems r b st = rev st @ filter (\<lambda>e. e \<noteq> [] \<and> e \<noteq> ''.'') b"
  by (induction r b st rule: clean_elems.induct) auto

lemma split_char_join2: "split_char slash (a @ slash # b) = split_char slash a @ split_char slash b"
proof (induction a)
  case (Cons x a)
  then show ?case by (cases "split_char slash a") auto
qed simp

lemma is_abs_append: "a \<noteq> [] \<Longrightarrow> is_abs (a @ b) = is_abs a"
  by (cases a) (auto simp: is_abs_def has_prefix_def)

text \<open>A path joined to a directory stays below it when no element of it is two dots.\<close>

lemma join_below:
  assumes "dir \<noteq> []" and "''..'' \<notin> set (split_char slash f)"
  shows "path_elems (path_join [dir, f]) = path_elems dir @ filter (\<lambda>e. e \<noteq> [] \<and> e \<noteq> ''.'') (split_char slash f)"
proof (cases "f = []")
  case True
  then show ?thesis using assms(1) by (simp add: path_join_def)
next
  case False
  then have "path_elems (path_join [dir, f]) = clean_elems (is_abs dir) (split_char slash dir @ split_char slash f) []"
    using assms(1) split_char_join2 [of dir f]
    by (simp add: path_join_def Let_def path_elems_def [of "dir @ slash # f"] is_abs_append)
  then show ?thesis using clean_no_dots [OF assms(2)] by (simp add: clean_append path_elems_def)
qed

lemma split_map:
  assumes "\<not> contains_dot_dot p"
  shows "''..'' \<notin> set (split_char slash p)"
proof -
  let ?f = "\<lambda>c. if slash_or_back c then slash else c"
  have "e \<in> set (split_char slash p) \<Longrightarrow> (\<forall>c \<in> set e. ?f c = c) \<Longrightarrow> e \<in> set (split_char slash (map ?f p))" for e
  proof (induction p rule: length_induct)
    case (1 p)
    show ?case
    proof (cases "slash \<in> set p")
      case False
      then have "e = p" using 1 by (simp add: split_char_none)
      then have "map ?f p = p" using 1 by (auto intro: map_idI)
      then show ?thesis using 1 by simp
    next
      case True
      then obtain a q where p: "p = a @ slash # q" "slash \<notin> set a" by (meson split_list_first)
      then have "map ?f p = map ?f a @ slash # map ?f q" by (simp add: slash_or_back_def)
      then have m: "split_char slash (map ?f p) = split_char slash (map ?f a) @ split_char slash (map ?f q)"
        by (simp only: split_char_join2)
      have "e = a \<or> e \<in> set (split_char slash q)" using 1 p by (simp add: split_char_append)
      then show ?thesis
      proof
        assume "e = a"
        then have "map ?f a = a" using 1 by (auto intro: map_idI)
        then show ?thesis using m p \<open>e = a\<close> by (simp add: split_char_none)
      next
        assume "e \<in> set (split_char slash q)"
        then have "e \<in> set (split_char slash (map ?f q))" using 1 p by simp
        then show ?thesis using m by simp
      qed
    qed
  qed
  then show ?thesis using assms by (auto simp: contains_dot_dot_def slash_or_back_def)
qed

lemma split_drop: "has_prefix p (d @ ''/'') \<Longrightarrow> set (split_char slash (drop (Suc (length d)) p)) \<subseteq> set (split_char slash p)"
proof -
  assume "has_prefix p (d @ ''/'')"
  then have "p = d @ slash # drop (Suc (length d)) p" using prefix_drop [of p "d @ ''/''"] by simp
  then show ?thesis using split_char_join2 [of d "drop (Suc (length d)) p"] by (metis Un_upper2 set_append)
qed

lemma elems_filter_split:
  "\<forall>e \<in> set (filter (\<lambda>e. e \<noteq> [] \<and> e \<noteq> ''.'') (split_char slash f)). path_elem e"
  by (auto simp: path_elem_def dest: split_char_free)

definition inside :: "string \<Rightarrow> string \<Rightarrow> bool" where
  "inside dir f \<longleftrightarrow> (\<exists>es. path_elems f = path_elems dir @ es \<and> ''..'' \<notin> set es \<and> (\<forall>e \<in> set es. path_elem e))"

lemma inside_join: "dir \<noteq> [] \<Longrightarrow> ''..'' \<notin> set (split_char slash f) \<Longrightarrow> inside dir (path_join [dir, f])"
  using join_below [of dir f] elems_filter_split [of f] unfolding inside_def by fastforce

lemma serve_file_HpFile: "serve_file r name ct = HpFile f c \<Longrightarrow> f = name \<and> c = ct \<and> \<not> contains_dot_dot (r_path r)"
  by (auto simp: serve_file_def split: if_splits)

lemma landing_inside:
  assumes "serveLandingPage exists si r = HpFile f c" and "si_landingDir si \<noteq> []" and "si_binDir si \<noteq> []"
  shows "inside (si_binDir si) f \<or> inside (si_landingDir si) f"
proof -
  let ?bin = "path_join [si_binDir si, drop 11 (r_path r)]" and ?l = "\<lambda>n. path_join [si_landingDir si, n]"
  have f: "\<not> contains_dot_dot (r_path r)"
    "f = ?bin \<and> has_prefix (r_path r) ''/downloads/'' \<or> f = ?l ''index.html'' \<or> f = ?l ''style.css'' \<or> f = ?l ''script.js'' \<or> f = ?l (r_path r)"
    using assms(1) by (auto simp: serveLandingPage_def Let_def split: if_splits dest: serve_file_HpFile)
  have p: "''..'' \<notin> set (split_char slash (r_path r))" using split_map [OF f(1)] .
  have "''..'' \<notin> set (split_char slash (drop 11 (r_path r)))" if "has_prefix (r_path r) ''/downloads/''"
    using split_drop [of "r_path r" "''/downloads''"] that p by (auto simp: numeral_eq_Suc)
  then show ?thesis
    using f(2) inside_join [OF assms(2)] inside_join [OF assms(3)] p by (auto simp: split_char_none)
qed

lemma strip_full: "CHR '':'' \<notin> set (hp_baseDomain p) \<Longrightarrow> CHR '':'' \<notin> set sub \<Longrightarrow> h = GetFullDomain p sub \<or> h = GetFullDomain p sub @ CHR '':'' # port \<Longrightarrow>
    strip_port h = GetFullDomain p sub"
  by (auto simp: GetFullDomain_def strip_port_free strip_port_cut simp del: append_assoc)

lemma extract_full:
  "list_all subdomain_char sub \<Longrightarrow> strip_port h = GetFullDomain p sub \<Longrightarrow> extractSubdomain p h = sub"
  by (simp add: extractSubdomain_def GetFullDomain_def has_suffix_def)

lemma extract_only:
  assumes "extractSubdomain p h = sub" and "sub \<noteq> []"
  shows "strip_port h = GetFullDomain p sub \<and> list_all subdomain_char sub"
  using assms by (auto simp: extractSubdomain_def Let_def GetFullDomain_def has_suffix_iff split: if_splits)

lemma hex_subdomain: "list_all subdomain_char (take n (hex bs))"
proof -
  have "subdomain_char c" if "c \<in> set (hex bs)" for c
    using hex_chars [OF that] by (auto simp: subdomain_char_def)
  then show ?thesis by (auto simp: list_all_iff dest: in_set_takeD)
qed

lemma subdomain_no_colon: "list_all subdomain_char s \<Longrightarrow> CHR '':'' \<notin> set s"
  by (auto simp: list_all_iff subdomain_char_def)

lemma map_of_join_headers: "map_of (join_headers h) k = map_option (join '', '') (map_of h k)"
  by (induction h) (auto simp: join_headers_def)

lemma first_cert_in: "first_cert exists loads locs = Some (c, k) \<Longrightarrow> (c, k) \<in> set locs \<and> exists k"
  by (induction locs) (auto split: if_splits)

lemma cert_keys_here: "map snd (filter (\<lambda>l. slash \<notin> set (snd l)) cert_locations) = [''wildcard.key'', ''server.key'', ''key.pem'']"
  by code_simp

lemma cert_key_here:
  assumes "LoadCertificate exists loads = Some (c, k)" and "slash \<notin> set k"
  shows "exists k" and "k \<in> set [''wildcard.key'', ''server.key'', ''key.pem'']"
proof -
  have l: "(c, k) \<in> set cert_locations" "exists k" using first_cert_in [OF assms(1) [unfolded LoadCertificate_def]] by simp_all
  then show "exists k" by simp
  have "k \<in> set (map snd (filter (\<lambda>l. slash \<notin> set (snd l)) cert_locations))" using l(1) assms(2) by force
  then show "k \<in> set [''wildcard.key'', ''server.key'', ''key.pem'']" unfolding cert_keys_here .
qed

text \<open>A file of the working directory as a download from the directory \<open>.\<close>.\<close>

lemma download_here:
  assumes "k \<in> set [''wildcard.key'', ''server.key'', ''key.pem'']" and "exists k" and "si_binDir si = ''.''" and "r_path r = ''/downloads/'' @ k"
  shows "serveLandingPage exists si r = HpFile k None"
proof -
  have "path_join [''.'', k] = k" "\<not> contains_dot_dot (''/downloads/'' @ k)" "\<not> has_suffix (''/downloads/'' @ k) ''/index.html''"
    using assms(1) by (elim set_ConsD [elim_format] disjE; (simp only:)?; code_simp)+
  then show ?thesis using assms(2-4) by (simp add: serveLandingPage_def serve_file_def has_prefix_def)
qed

section \<open>A sample proxy\<close>

definition sample_proxy :: http_proxy where
  "sample_proxy = \<lparr>hp_subdomains = [(''010203'', 0)], hp_baseDomain = ''t.io''\<rparr>"

definition sample_site :: http_site where
  "sample_site = \<lparr>si_landingDir = ''../frontend/landing'', si_binDir = ''.'', si_dashboard = True\<rparr>"

definition sample_http :: "string \<Rightarrow> string \<Rightarrow> request" where
  "sample_http host path = get_request\<lparr>r_host := host, r_path := path, r_url := path\<rparr>"

lemma sample_http_fields [simp]: "r_host (sample_http h q) = h" "r_path (sample_http h q) = q" "r_url (sample_http h q) = q"
  by (simp_all add: sample_http_def)

definition sample_local :: "local_request \<Rightarrow> local_response option" where
  "sample_local lr = Some \<lparr>lp_status = 200, lp_headers = [(''Set-Cookie'', [''a=1'', ''b=2''])], lp_body = [1]\<rparr>"

lemma sample_registered:
  "RegisterClient ''010203'' 0 (sample_proxy\<lparr>hp_subdomains := []\<rparr>) = Ok sample_proxy" "generateSubdomain [1, 2, 3, 4] = ''010203''"
  "CHR '':'' \<notin> set (hp_baseDomain (sample_proxy\<lparr>hp_subdomains := []\<rparr>))"
  "GetFullDomain (sample_proxy\<lparr>hp_subdomains := []\<rparr>) ''010203'' = ''010203.t.io''"
  by code_simp+

section \<open>Properties\<close>

text \<open>
  C23: A request to the host of a subdomain, with or without a port, goes to the client that registered it: after
  \<open>RegisterClient\<close> with a generated subdomain, the proxy forwards every such request to that session with its method,
  its URL, its body and its headers, and no other host leads there.
\<close>

theorem subdomain_routes_to_its_client:
  assumes "RegisterClient sub u p = Ok p'" and "sub = generateSubdomain rnd" and "3 \<le> length rnd" and "CHR '':'' \<notin> set (hp_baseDomain p)"
    and "r_host r = GetFullDomain p sub \<or> r_host r = GetFullDomain p sub @ CHR '':'' # port"
  shows "proxy_handleRequest exists p' si rq (Some b) r =
      HpForward u \<lparr>hx_ID = generateRequestID rq, hx_Method = r_method r, hx_Path = r_url r,
        hx_Headers = join_headers (r_header r), hx_Body = b\<rparr> \<and>
    (proxy_handleRequest exists p' si rq2 body2 r2 = HpForward v req2 \<longrightarrow>
       (\<exists>s. strip_port (r_host r2) = GetFullDomain p s \<and> map_of (hp_subdomains p') s = Some v))"
proof -
  have p': "hp_baseDomain p' = hp_baseDomain p" "map_of (hp_subdomains p') sub = Some u" "GetFullDomain p' = GetFullDomain p"
    using assms(1) by (auto simp: RegisterClient_def GetFullDomain_def fun_eq_iff split: if_splits)
  have sub: "list_all subdomain_char sub" "length sub = 6"
    using assms(2,3) by (auto simp: generateSubdomain_def hex_subdomain)
  have host: "strip_port (r_host r) = GetFullDomain p' sub"
    using strip_full [of p' sub "r_host r" port] assms(4,5) subdomain_no_colon [OF sub(1)] p' by simp
  have "\<not> isMainDomain p' (r_host r)"
  proof
    assume "isMainDomain p' (r_host r)"
    then have "length (GetFullDomain p' sub) = length (hp_baseDomain p') \<or> length (GetFullDomain p' sub) = length (hp_baseDomain p') + 4"
      by (auto simp: isMainDomain_def host Let_def)
    then show False using sub(2) by (simp add: GetFullDomain_def)
  qed
  moreover have "extractSubdomain p' (r_host r) = sub" by (rule extract_full [OF sub(1) host])
  moreover have "sub \<noteq> []" using sub(2) by auto
  moreover have "\<exists>s. strip_port (r_host r2) = GetFullDomain p s \<and> map_of (hp_subdomains p') s = Some v"
    if "proxy_handleRequest exists p' si rq2 body2 r2 = HpForward v req2"
  proof -
    have land: "serveLandingPage exists si r2 \<noteq> HpForward v req2" by (auto simp: serveLandingPage_def serve_file_def Let_def)
    then have e: "extractSubdomain p' (r_host r2) \<noteq> []" "map_of (hp_subdomains p') (extractSubdomain p' (r_host r2)) = Some v"
      using that by (auto simp: proxy_handleRequest_def Let_def split: if_splits option.splits)
    then show ?thesis using extract_only [OF refl e(1)] p'(3) by auto
  qed
  ultimately show ?thesis using p'(2) by (simp add: proxy_handleRequest_def)
qed

theorem subdomain_routes_to_its_client_witness:
  "\<exists>req. proxy_handleRequest (\<lambda>_. False) sample_proxy sample_site [7] (Some []) (sample_http ''010203.t.io'' ''/a'') = HpForward 0 req"
  using subdomain_routes_to_its_client [OF sample_registered(1) sample_registered(2) [symmetric] _ sample_registered(3),
      of "sample_http ''010203.t.io'' ''/a''"] sample_registered(4)
  by simp



text \<open>
  C25: What the main domain serves lies in the directory of the downloads or that of the landing page: the name of a file it
  serves is the directory's followed by elements without dots.
\<close>

theorem served_files_stay_inside:
  assumes "proxy_handleRequest exists p si rnd body r = HpFile f ct" and "si_landingDir si \<noteq> []" and "si_binDir si \<noteq> []"
  shows "inside (si_binDir si) f \<or> inside (si_landingDir si) f"
  using assms landing_inside
  by (auto simp: proxy_handleRequest_def Let_def split: if_splits option.splits)

theorem served_files_stay_inside_witness:
  "inside ''.'' ''../frontend/landing/index.html'' \<or> inside ''../frontend/landing'' ''../frontend/landing/index.html''"
proof -
  have "proxy_handleRequest (\<lambda>_. True) sample_proxy sample_site [] None (sample_http ''t.io'' ''/'') =
      HpFile ''../frontend/landing/index.html'' None"
    by code_simp
  from served_files_stay_inside [OF this] show ?thesis by (simp add: sample_site_def)
qed

text \<open>
  C26: The private key of the server is a download: without a directory \<open>bin\<close> the downloads are the working directory, where
  the certificate and its key are looked for first; anybody gets the key under its name on the main domain.
\<close>

theorem private_key_is_served:
  assumes "initHTTPProxy exists loads domain = Some (p, si, certFile, keyFile)" and "\<not> exists ''bin''" and "slash \<notin> set keyFile"
    and "CHR '':'' \<notin> set domain" and "trim_space domain = domain"
    and "r_host r = domain" and "r_path r = ''/downloads/'' @ keyFile"
  shows "proxy_handleRequest exists p si rnd body r = HpFile keyFile None"
proof -
  have i: "LoadCertificate exists loads = Some (certFile, keyFile)" "hp_baseDomain p = domain" "si_binDir si = ''.''"
    using assms(1,2,5) by (auto simp: initHTTPProxy_def new_site_def Let_def split: if_splits option.splits)
  then have "serveLandingPage exists si r = HpFile keyFile None"
    using cert_key_here [OF i(1) assms(3)] assms(7) by (intro download_here)
  then show ?thesis
    using i(2) assms(4,6,7) by (simp add: proxy_handleRequest_def isMainDomain_def strip_port_free has_prefix_def)
qed

theorem private_key_is_served_witness:
  "\<exists>p si. proxy_handleRequest (\<lambda>f. f = ''wildcard.crt'' \<or> f = ''wildcard.key'') p si [] None (sample_http ''t.io'' ''/downloads/wildcard.key'') =
     HpFile ''wildcard.key'' None"
proof -
  let ?e = "\<lambda>f. f = ''wildcard.crt'' \<or> f = ''wildcard.key''"
  have "LoadCertificate ?e (\<lambda>_ _. True) = Some (''wildcard.crt'', ''wildcard.key'')" by (simp add: LoadCertificate_def cert_locations_def)
  moreover have t: "trim_space ''t.io'' = ''t.io''" by code_simp
  ultimately have i: "initHTTPProxy ?e (\<lambda>_ _. True) ''t.io'' =
      Some (\<lparr>hp_subdomains = [], hp_baseDomain = ''t.io''\<rparr>, (new_site ?e)\<lparr>si_dashboard := True\<rparr>, ''wildcard.crt'', ''wildcard.key'')"
    by (simp add: initHTTPProxy_def)
  show ?thesis
    using private_key_is_served [OF i _ _ _ t, of "sample_http ''t.io'' ''/downloads/wildcard.key''" "[]" None] by auto
qed

text \<open>
  The downloads tell which files of the host exist: a path with two dots is refused with a 400 when the file it leads to
  exists and with a 404 when it does not, for the existence is looked up before the path is checked.
\<close>

theorem downloads_reveal_files:
  assumes "isMainDomain p (r_host r)" and "has_prefix (r_path r) ''/downloads/''" and "contains_dot_dot (r_path r)"
  shows "proxy_handleRequest exists p si rnd body r = HpError (if exists (path_join [si_binDir si, drop 11 (r_path r)]) then 400 else 404)"
proof -
  obtain f where f: "r_path r = ''/downloads/'' @ f" using prefix_drop [OF assms(2)] by blast
  then show ?thesis using assms(1,3) by (simp add: proxy_handleRequest_def serveLandingPage_def serve_file_def has_prefix_def)
qed

theorem downloads_reveal_files_witness:
  "proxy_handleRequest (\<lambda>f. f = ''../secret'') sample_proxy sample_site [] None (sample_http ''t.io'' ''/downloads/../secret'') = HpError 400 \<and>
   proxy_handleRequest (\<lambda>f. False) sample_proxy sample_site [] None (sample_http ''t.io'' ''/downloads/../secret'') = HpError 404"
proof -
  have p: "isMainDomain sample_proxy (r_host (sample_http ''t.io'' ''/downloads/../secret''))"
    "has_prefix (r_path (sample_http ''t.io'' ''/downloads/../secret'')) ''/downloads/''"
    "contains_dot_dot (r_path (sample_http ''t.io'' ''/downloads/../secret''))"
    by code_simp+
  have "path_join [si_binDir sample_site, drop 11 ''/downloads/../secret''] = ''../secret''" by code_simp
  then show ?thesis using downloads_reveal_files [OF p] by simp
qed

end
