(* ===== verification/TunnelClient.thy ===== *)
theory TunnelClient
  imports TunnelUdpClient TunnelHttp
begin

text \<open>
  The control connection of the tunnel client, from \<open>cmd/client\<close>: registration, the messages of the server, the
  heartbeat, the proxy connections, the end of a connection and the loop that connects again. The UDP side and the
  fields both sides use are the record of \<open>TunnelUdpClient\<close>. A call of a method on the encoder after \<open>closeControl\<close> has
  set it to \<open>nil\<close> is a \<open>Panic\<close>, which ends the process.
\<close>

section \<open>State\<close>

record tunnel_client =
  tc_udp :: udp_client
  tc_serverAddr :: string
  tc_localAddr :: string
  tc_clientID :: string
  tc_remotePort :: int
  tc_publicHost :: string
  tc_subdomain :: string
  tc_baseDomain :: string
  tc_certFingerprint :: string
  tc_pingSent :: int
  tc_pingMs :: int
  tc_pingCh :: "duration option option"    \<comment> \<open>the channel with its buffer, or \<open>nil\<close>\<close>
  tc_activeSessions :: int
  tc_totalSessions :: nat
  tc_exitFlag :: bool

definition upd_udp :: "(udp_client \<Rightarrow> udp_client) \<Rightarrow> tunnel_client \<Rightarrow> tunnel_client" where
  "upd_udp f c = c\<lparr>tc_udp := f (tc_udp c)\<rparr>"

text \<open>The client \<open>main\<close> makes of its flags.\<close>

definition newClient :: "string \<Rightarrow> string \<Rightarrow> string \<Rightarrow> string \<Rightarrow> string \<Rightarrow> tunnel_client" where
  "newClient server addr i protocol pin =
     \<lparr>tc_udp = (newUdpClient [] protocol None)\<lparr>uc_enc := False\<rparr>, tc_serverAddr = server, tc_localAddr = addr, tc_clientID = i,
      tc_remotePort = 0, tc_publicHost = [], tc_subdomain = [], tc_baseDomain = [], tc_certFingerprint = pin, tc_pingSent = 0,
      tc_pingMs = 0, tc_pingCh = None, tc_activeSessions = 0, tc_totalSessions = 0, tc_exitFlag = False\<rparr>"

section \<open>Certificates\<close>

text \<open>\<open>verifyCertFingerprint\<close>: \<open>parse\<close> is \<open>x509.ParseCertificate\<close> with the raw bytes, \<open>sha\<close> is SHA-256.\<close>

definition verifyCertFingerprint ::
  "(byte list \<Rightarrow> byte list option) \<Rightarrow> (byte list \<Rightarrow> byte list) \<Rightarrow> byte list list \<Rightarrow> string \<Rightarrow> bool" where
  "verifyCertFingerprint parse sha rawCerts expected =
     (if expected = [] then True
      else case rawCerts of
             [] \<Rightarrow> False
           | raw # _ \<Rightarrow> (case parse raw of None \<Rightarrow> False | Some der \<Rightarrow> hex (sha der) = expected))"

text \<open>Whether the TLS configuration accepts a server: without a pin every certificate passes.\<close>

definition tls_accepts :: "(byte list \<Rightarrow> byte list option) \<Rightarrow> (byte list \<Rightarrow> byte list) \<Rightarrow> tunnel_client \<Rightarrow> byte list list \<Rightarrow> bool" where
  "tls_accepts parse sha c rawCerts =
     (if tc_certFingerprint c \<noteq> [] then verifyCertFingerprint parse sha rawCerts (tc_certFingerprint c) else True)"

section \<open>Connecting\<close>

definition register_message :: "tunnel_client \<Rightarrow> message" where
  "register_message c =
     (message_of ''register'')
       \<lparr>mg_Key := uc_key (tc_udp c), mg_ClientID := tc_clientID c, mg_Target := tc_localAddr c, mg_Protocol := uc_protocol (tc_udp c),
        mg_RequestedPort := (if 0 < tc_remotePort c then tc_remotePort c else 0)\<rparr>"

record connect_env =
  co_env :: client_env
  co_dial :: bool                    \<comment> \<open>whether the TLS connection comes about\<close>
  co_sent :: bool
  co_reply :: "message option"       \<comment> \<open>the answer, or an error of the decoder\<close>
  co_udp :: bool                     \<comment> \<open>whether the UDP channel can be opened\<close>

definition start_connection :: "tunnel_client \<Rightarrow> tunnel_client" where
  "start_connection c =
     (upd_udp (\<lambda>u. (stopUDPPing (u\<lparr>uc_enc := True\<rparr>))\<lparr>uc_status := UdpOffline, uc_bytesUp := 0, uc_bytesDown := 0\<rparr>) c)
       \<lparr>tc_pingSent := 0, tc_pingMs := -1, tc_pingCh := Some (Some (-1))\<rparr>"

text \<open>The deferred clean-up of an attempt that failed after the dial.\<close>

definition failed_connection :: "tunnel_client \<Rightarrow> tunnel_client" where
  "failed_connection c = upd_udp (\<lambda>u. stopUDPPing (u\<lparr>uc_enc := False, uc_udpConn := False\<rparr>)) c"

text \<open>\<open>net.SplitHostPort\<close> of a name or an IPv4 address with a port, and \<open>net.JoinHostPort\<close>.\<close>

definition host_part :: "string \<Rightarrow> string" where
  "host_part addr =
     (case str_last_index addr (CHR '':'') of
        None \<Rightarrow> addr
      | Some i \<Rightarrow> if CHR '':'' \<in> set (take i addr) then addr else take i addr)"

definition join_host_port :: "string \<Rightarrow> string \<Rightarrow> string" where
  "join_host_port h p = (if CHR '':'' \<in> set h then ''['' @ h @ '']:'' @ p else h @ '':'' @ p)"

definition apply_registered :: "message \<Rightarrow> tunnel_client \<Rightarrow> tunnel_client" where
  "apply_registered resp c =
     (let u = tc_udp c;
          protocol = (if trim_space (mg_Protocol resp) \<noteq> [] then to_lower (trim_space (mg_Protocol resp)) else uc_protocol u)
      in c\<lparr>tc_udp := u\<lparr>uc_key := (if trim_space (mg_Key resp) \<noteq> [] then trim_space (mg_Key resp) else uc_key u),
                       uc_protocol := protocol,
                       uc_udpSecret := (if mg_UDPSecret resp \<noteq> [] \<and> length (mg_UDPSecret resp) = 32
                                        then Some (mg_UDPSecret resp) else uc_udpSecret u),
                       uc_status := UdpNotApplicable\<rparr>,
           tc_remotePort := mg_RemotePort resp,
           tc_subdomain := (if protocol = ''http'' \<and> mg_Subdomain resp \<noteq> [] then mg_Subdomain resp else tc_subdomain c),
           tc_baseDomain := (if mg_BaseDomain resp \<noteq> [] then mg_BaseDomain resp else tc_baseDomain c),
           tc_publicHost := join_host_port (host_part (tc_serverAddr c)) (itoa (mg_RemotePort resp))\<rparr>)"

definition connectControl :: "connect_env \<Rightarrow> tunnel_client \<Rightarrow> bool \<times> tunnel_client" where
  "connectControl env c =
     (if \<not> co_dial env then (False, c)
      else let c = start_connection c in
        if \<not> co_sent env then (False, failed_connection c)
        else case co_reply env of
               None \<Rightarrow> (False, failed_connection c)
             | Some resp \<Rightarrow>
                 if mg_Type resp \<noteq> ''registered'' then (False, failed_connection c)
                 else let c = apply_registered resp c
                 in (True, if uc_protocol (tc_udp c) = ''udp''
                           then upd_udp (\<lambda>u. snd (setupUDPChannel (co_env env) (co_udp env) (u\<lparr>uc_status := UdpOffline\<rparr>))) c
                           else c))"

definition closeControl :: "tunnel_client \<Rightarrow> tunnel_client" where
  "closeControl c =
     (upd_udp (\<lambda>u. (stopUDPPing (snd (closeAllUDPSessions u)))\<lparr>uc_status := UdpOffline, uc_udpConn := False, uc_udpReady := False,
        uc_enc := False\<rparr>) c)\<lparr>tc_pingCh := None\<rparr>"

section \<open>The goroutines of a connection\<close>

text \<open>\<open>c.enc.Encode(msg)\<close>.\<close>

definition encode :: "tunnel_client \<Rightarrow> (unit, tunnel_client) res" where
  "encode c = (if uc_enc (tc_udp c) then Ok c else Panic)"

text \<open>A tick of \<open>heartbeatLoop\<close> that finds its connection there or already closed.\<close>

definition client_heartbeat :: "gtime \<Rightarrow> bool \<Rightarrow> tunnel_client \<Rightarrow> (unit, tunnel_client) res" where
  "client_heartbeat now sent c = rbind (encode c) (\<lambda>c. Ok (if sent then c\<lparr>tc_pingSent := now\<rparr> else c))"

definition millis :: "duration \<Rightarrow> int" where
  "millis d = (if 0 \<le> d then d div 1000000 else - (- d div 1000000))"

definition recordPingReply :: "gtime \<Rightarrow> tunnel_client \<Rightarrow> tunnel_client" where
  "recordPingReply now c =
     (let sent = tc_pingSent c; c = c\<lparr>tc_pingSent := 0\<rparr> in
      if sent \<le> 0 then c
      else let ms = time_sub now sent; c = c\<lparr>tc_pingMs := millis ms\<rparr>
      in case tc_pingCh c of None \<Rightarrow> c | Some _ \<Rightarrow> c\<lparr>tc_pingCh := Some (Some ms)\<rparr>)"

text \<open>What a message of the server starts besides the change of the state.\<close>

datatype client_task = ProxyTask string | HttpTask message | UdpOut "client_out list" | SendPong

definition receive_message :: "client_env \<Rightarrow> message \<Rightarrow> tunnel_client \<Rightarrow> client_task list \<times> tunnel_client" where
  "receive_message env msg c =
     (let t = mg_Type msg in
      if t = ''proxy'' then ([ProxyTask (mg_ID msg)], c)
      else if t = ''udp_open'' then let (out, u) = uc_handleUDPOpen env msg (tc_udp c) in ([UdpOut out], c\<lparr>tc_udp := u\<rparr>)
      else if t = ''udp_close'' then let (out, u) = uc_handleUDPClose env (mg_ID msg) (tc_udp c) in ([UdpOut out], c\<lparr>tc_udp := u\<rparr>)
      else if t = ''ping'' then ([SendPong], c)
      else if t = ''pong'' then ([], recordPingReply (ce_now env) c)
      else if t = ''http_request'' then ([HttpTask msg], c)
      else ([], c))"

text \<open>\<open>handleProxy\<close>: how far the two connections come, and the error that is reported.\<close>

datatype proxy_result = ProxySkipped | ProxyFailed bool | ProxyHandshakeFailed | ProxyStreams

definition reportProxyError :: "string \<Rightarrow> tunnel_client \<Rightarrow> message option" where
  "reportProxyError i c = (if uc_enc (tc_udp c) then Some ((message_of ''proxy_error'')\<lparr>mg_ID := i\<rparr>) else None)"

definition handleProxy :: "bool \<Rightarrow> bool \<Rightarrow> bool \<Rightarrow> string \<Rightarrow> tunnel_client \<Rightarrow> proxy_result \<times> tunnel_client" where
  "handleProxy local_ok server_ok handshake_ok i c =
     (if uc_protocol (tc_udp c) = ''udp'' then (ProxySkipped, c)
      else if trim_space i = [] then (ProxySkipped, c)
      else if \<not> local_ok then (ProxyFailed (reportProxyError i c \<noteq> None), c)
      else let c = c\<lparr>tc_activeSessions := tc_activeSessions c + 1, tc_totalSessions := tc_totalSessions c + 1\<rparr> in
        if \<not> server_ok then (ProxyFailed (reportProxyError i c \<noteq> None), c)
        else if \<not> handshake_ok then (ProxyHandshakeFailed, c)
        else (ProxyStreams, c))"

text \<open>The end of the copy to the server.\<close>

definition proxy_end :: "tunnel_client \<Rightarrow> tunnel_client" where
  "proxy_end c = c\<lparr>tc_activeSessions := tc_activeSessions c - 1\<rparr>"

text \<open>The end of \<open>handleHTTPRequest\<close>, which sends its answer over the connection of that moment.\<close>

definition http_done ::
  "string option \<Rightarrow> (local_request \<Rightarrow> local_response option) \<Rightarrow> bool \<Rightarrow> message \<Rightarrow> tunnel_client \<Rightarrow> (unit, tunnel_client) res" where
  "http_done bad srv sent msg c =
     (case client_http (uc_protocol (tc_udp c)) (tc_localAddr c) bad srv msg of
        HttpReply m counted \<Rightarrow>
          rbind (encode c) (\<lambda>c. Ok (if counted \<and> sent
            then upd_udp (\<lambda>u. u\<lparr>uc_bytesDown := uc_bytesDown u + length (mg_Body msg), uc_bytesUp := uc_bytesUp u + length (mg_Body m)\<rparr>) c
            else c))
      | _ \<Rightarrow> Ok c)"

section \<open>Traffic and ping display\<close>

text \<open>
  A tick of \<open>trafficLoop\<close>: the counters of the moment, those of the tick before, and \<open>statusCh\<close> with its buffer of
  one, or \<open>nil\<close>: a full buffer is drained first. \<open>None\<close> where the send blocks for ever. The rates are kept unformatted.
\<close>

record traffic =
  ta_upDelta :: "64 word"
  ta_downDelta :: "64 word"
  ta_up :: "64 word"
  ta_down :: "64 word"

definition traffic_tick ::
  "64 word \<Rightarrow> 64 word \<Rightarrow> 64 word \<times> 64 word \<Rightarrow> traffic option option \<Rightarrow> (traffic option option \<times> 64 word \<times> 64 word) option" where
  "traffic_tick up down prev ch =
     (let stats = \<lparr>ta_upDelta = up - fst prev, ta_downDelta = down - snd prev, ta_up = up, ta_down = down\<rparr> in
      case ch of
        None \<Rightarrow> None
      | Some buffer \<Rightarrow> Some (Some (Some stats), up, down))"

fun traffic_run :: "(64 word \<times> 64 word) list \<Rightarrow> 64 word \<times> 64 word \<Rightarrow> traffic option option \<Rightarrow> (traffic option option \<times> 64 word \<times> 64 word) option" where
  "traffic_run [] prev ch = Some (ch, prev)"
| "traffic_run ((up, down) # ts) prev ch =
     (case traffic_tick up down prev ch of None \<Rightarrow> None | Some (ch, prev) \<Rightarrow> traffic_run ts prev ch)"

definition nonEmpty :: "string \<Rightarrow> string \<Rightarrow> string" where
  "nonEmpty v fallback = (if trim_space v = [] then fallback else v)"

definition formatPingDisplay :: "duration \<Rightarrow> string \<times> string" where
  "formatPingDisplay d =
     (if d < 0 then (''N/A'', ''[----]'')
      else let ms = millis d
      in (itoa ms @ '' ms'',
          if ms \<le> 50 then ''[||||]'' else if ms \<le> 120 then ''[||| ]'' else if ms \<le> 250 then ''[||  ]''
          else if ms \<le> 500 then ''[|   ]'' else ''[    ]''))"

section \<open>The loop of connections\<close>

definition first_backoff :: duration where "first_backoff = 3 * second"
definition max_backoff :: duration where "max_backoff = 5 * minute"

definition next_backoff :: "duration \<Rightarrow> duration" where
  "next_backoff b = (let b = b * 2 in if max_backoff < b then max_backoff else b)"

text \<open>
  \<open>run\<close> over the results of \<open>connectControl\<close>, each with whether the exit flag is set when its connection has
  ended: the waits it makes, and whether it returned.
\<close>

fun client_loop :: "(bool \<times> bool) list \<Rightarrow> duration \<Rightarrow> duration list \<times> bool" where
  "client_loop [] b = ([], False)"
| "client_loop ((connected, exit) # rs) b =
     (if \<not> connected then let (ws, r) = client_loop rs (next_backoff b) in (b # ws, r)
      else if exit then ([], True)
      else let (ws, r) = client_loop rs first_backoff in (first_backoff # ws, r))"

section \<open>Runs\<close>

datatype client_event =
    Connect connect_env
  | Receive client_env message
  | Heartbeat gtime bool
  | HttpDone "string option" "local_request \<Rightarrow> local_response option" bool message
  | ProxyStart bool bool bool string
  | ProxyEnd
  | Close

fun client_step :: "client_event \<Rightarrow> tunnel_client \<Rightarrow> (unit, tunnel_client) res" where
  "client_step (Connect env) c = Ok (snd (connectControl env c))"
| "client_step (Receive env msg) c = Ok (snd (receive_message env msg c))"
| "client_step (Heartbeat now sent) c = client_heartbeat now sent c"
| "client_step (HttpDone bad srv sent msg) c = http_done bad srv sent msg c"
| "client_step (ProxyStart a b d i) c = Ok (snd (handleProxy a b d i c))"
| "client_step ProxyEnd c = Ok (proxy_end c)"
| "client_step Close c = Ok (closeControl c)"

fun run_client :: "client_event list \<Rightarrow> tunnel_client \<Rightarrow> (unit, tunnel_client) res" where
  "run_client [] c = Ok c"
| "run_client (ev # evs) c = rbind (client_step ev c) (run_client evs)"

section \<open>Command line\<close>

text \<open>\<open>normalizedArgs\<close>: \<open>prog\<close> is \<open>os.Args[0]\<close>.\<close>

definition normalizedArgs :: "string \<Rightarrow> string list \<Rightarrow> string list" where
  "normalizedArgs prog input =
     filter (\<lambda>arg. arg \<noteq> [] \<and> \<not> (arg = prog \<or> has_suffix arg (''/'' @ path_base prog)) \<and> CHR ''/'' \<notin> set arg) input"

definition valid_port :: "string \<Rightarrow> int option" where
  "valid_port s = (let (p, err) = parse_int s in if \<not> err \<and> 0 < p \<and> p \<le> 65535 then Some p else None)"

text \<open>The host and the port the client forwards to; \<open>None\<close> where \<open>main\<close> ends with an error.\<close>

definition local_target :: "string \<Rightarrow> string \<Rightarrow> int \<Rightarrow> string list \<Rightarrow> (string \<times> int) option" where
  "local_target prog hostFlag portFlag input =
     (let h = trim_space hostFlag; h = (if h = [] then ''localhost'' else h) in
      case (case normalizedArgs prog input of
              [] \<Rightarrow> Some (h, portFlag)
            | [p] \<Rightarrow> map_option (\<lambda>p. (h, p)) (valid_port p)
            | a # p # _ \<Rightarrow> map_option (\<lambda>p. (if trim_space a \<noteq> [] then a else h, p)) (valid_port p)) of
        None \<Rightarrow> None
      | Some (h, p) \<Rightarrow> if p \<le> 0 \<or> 65535 < p then None else Some (h, p))"

definition main_protocol :: "string \<Rightarrow> string" where
  "main_protocol proto = (let p = to_lower (trim_space proto) in if p \<noteq> ''udp'' \<and> p \<noteq> ''http'' then ''tcp'' else p)"

section \<open>Facts\<close>

lemma upd_udp_simps [simp]:
  "tc_udp (upd_udp f c) = f (tc_udp c)" "tc_remotePort (upd_udp f c) = tc_remotePort c" "tc_exitFlag (upd_udp f c) = tc_exitFlag c"
  "tc_subdomain (upd_udp f c) = tc_subdomain c" "tc_clientID (upd_udp f c) = tc_clientID c" "tc_baseDomain (upd_udp f c) = tc_baseDomain c"
  "tc_localAddr (upd_udp f c) = tc_localAddr c"
  by (simp_all add: upd_udp_def)

named_theorems enc_keeps "operations of the UDP side leave the encoder alone"

lemma enc_remove [enc_keeps]: "uc_enc (snd (uc_removeUDPSession env sid b u)) = uc_enc u"
  by (auto simp: uc_removeUDPSession_def Let_def split: option.split)

lemma enc_open [enc_keeps]: "uc_enc (snd (uc_handleUDPOpen env m u)) = uc_enc u"
  by (auto simp: uc_handleUDPOpen_def Let_def)

lemma enc_close [enc_keeps]: "uc_enc (snd (uc_handleUDPClose env sid u)) = uc_enc u"
  by (simp add: uc_handleUDPClose_def enc_remove)

lemma enc_stop [enc_keeps]: "uc_enc (stopUDPPing u) = uc_enc u"
  by (simp add: stopUDPPing_def)

lemma enc_setup [enc_keeps]: "uc_enc (snd (setupUDPChannel env d u)) = uc_enc u"
  by (simp add: setupUDPChannel_def stopUDPPing_def Let_def)

lemma enc_apply [enc_keeps]: "uc_enc (tc_udp (apply_registered r c)) = uc_enc (tc_udp c)"
  by (simp add: apply_registered_def Let_def)

lemma enc_start [enc_keeps]: "uc_enc (tc_udp (start_connection c))" "\<not> uc_enc (tc_udp (failed_connection c))"
  by (simp_all add: start_connection_def failed_connection_def enc_stop)

lemma enc_connect:
  "uc_enc (tc_udp (snd (connectControl env c))) \<longleftrightarrow> fst (connectControl env c) \<or> \<not> co_dial env \<and> uc_enc (tc_udp c)"
  by (simp add: connectControl_def Let_def enc_keeps split: option.split)

lemma enc_ping: "uc_enc (tc_udp (recordPingReply now c)) = uc_enc (tc_udp c)"
  by (simp add: recordPingReply_def Let_def split: option.split)

lemma enc_receive: "uc_enc (tc_udp (snd (receive_message env msg c))) = uc_enc (tc_udp c)"
  by (simp add: receive_message_def Let_def case_prod_beta enc_ping enc_open enc_close)

lemma enc_proxy: "uc_enc (tc_udp (snd (handleProxy a b d i c))) = uc_enc (tc_udp c)"
  by (simp add: handleProxy_def Let_def)

text \<open>
  Whether a run leaves a connection, read off its events alone: the last attempt to connect that reached the server,
  or the last end of a connection, decides.
\<close>

definition connect_ok :: "connect_env \<Rightarrow> bool" where
  "connect_ok env \<longleftrightarrow> co_dial env \<and> co_sent env \<and> (case co_reply env of None \<Rightarrow> False | Some m \<Rightarrow> mg_Type m = ''registered'')"

fun link_up :: "client_event list \<Rightarrow> bool \<Rightarrow> bool" where
  "link_up [] b = b"
| "link_up (Connect env # evs) b = link_up evs (if co_dial env then connect_ok env else b)"
| "link_up (Close # evs) b = link_up evs False"
| "link_up (_ # evs) b = link_up evs b"

text \<open>Whether an event ends in a message for the server.\<close>

fun sends_message :: "client_event \<Rightarrow> tunnel_client \<Rightarrow> bool" where
  "sends_message (Heartbeat now sent) c = True"
| "sends_message (HttpDone bad srv sent msg) c =
     (case client_http (uc_protocol (tc_udp c)) (tc_localAddr c) bad srv msg of HttpReply m n \<Rightarrow> True | _ \<Rightarrow> False)"
| "sends_message _ c = False"

lemma connect_fst: "fst (connectControl env c) \<longleftrightarrow> connect_ok env"
  by (simp add: connectControl_def connect_ok_def Let_def split: option.split)

lemma step_panic: "client_step ev c = Panic \<longleftrightarrow> sends_message ev c \<and> \<not> uc_enc (tc_udp c)"
  by (cases ev) (auto simp: client_heartbeat_def http_done_def encode_def split: http_outcome.split)

lemma step_ok_or_panic: "client_step ev c \<noteq> Fail e"
  by (cases ev) (auto simp: client_heartbeat_def http_done_def encode_def split: http_outcome.split)

lemma step_link: "client_step ev c = Ok c' \<Longrightarrow> uc_enc (tc_udp c') = link_up [ev] (uc_enc (tc_udp c))"
  by (cases ev)
    (auto simp: client_heartbeat_def http_done_def encode_def enc_connect connect_fst enc_receive enc_proxy
      proxy_end_def closeControl_def connect_ok_def split: http_outcome.splits if_splits)


lemma run_link: "run_client evs c = Ok c' \<Longrightarrow> uc_enc (tc_udp c') = link_up evs (uc_enc (tc_udp c))"
proof (induction evs arbitrary: c)
  case (Cons ev evs)
  then obtain c1 where step: "client_step ev c = Ok c1" and rest: "run_client evs c1 = Ok c'"
    by (cases "client_step ev c") auto
  have "link_up (ev # evs) b = link_up evs (link_up [ev] b)" for b by (cases ev) auto
  then show ?case using Cons.IH [OF rest] step_link [OF step] by simp
qed simp

lemma run_panic_step: "client_step ev c = Ok c1 \<Longrightarrow> run_client (ev # pre) c = run_client pre c1"
  by simp

lemma run_panic:
  "run_client evs c = Panic \<longleftrightarrow>
     (\<exists>pre ev post c'. evs = pre @ ev # post \<and> run_client pre c = Ok c' \<and> client_step ev c' = Panic)" (is "_ = ?R evs c")
proof (induction evs arbitrary: c)
  case (Cons ev evs)
  show ?case
  proof (cases "client_step ev c")
    case (Ok c1)
    note step = run_panic_step [OF Ok]
    have "?R (ev # evs) c" if "?R evs c1"
    proof -
      from that obtain pre e post c' where "evs = pre @ e # post" "run_client pre c1 = Ok c'" "client_step e c' = Panic" by blast
      then show ?thesis using step by (intro exI [of _ "ev # pre"]) auto
    qed
    moreover have "?R evs c1" if "?R (ev # evs) c"
    proof -
      from that obtain pre e post c' where p: "ev # evs = pre @ e # post" "run_client pre c = Ok c'" "client_step e c' = Panic"
        by blast
      moreover from this Ok have "pre \<noteq> []" by auto
      ultimately obtain pre' where "pre = ev # pre'" by (cases pre) auto
      then show ?thesis using p step by auto
    qed
    ultimately have eq: "?R (ev # evs) c = ?R evs c1" by blast
    have "run_client (ev # evs) c = run_client evs c1" by (rule step)
    then show ?thesis unfolding eq using Cons.IH [of c1] by (simp only:)
  next
    case Panic
    then have "?R (ev # evs) c" by (intro exI [of _ "[]"]) simp
    then show ?thesis using Panic by simp
  qed (simp add: step_ok_or_panic)
qed simp


text \<open>A heartbeat that fires after the end of its connection.\<close>

lemma late_heartbeat_crashes: "run_client [Close, Heartbeat now sent] c = Panic"
  by (simp add: closeControl_def client_heartbeat_def encode_def)

section \<open>Waiting before the next attempt\<close>

lemma next_min: "0 < x \<Longrightarrow> next_backoff (min x max_backoff) = min (2 * x) max_backoff"
  by (auto simp: next_backoff_def Let_def min_def max_backoff_def dur_defs)

lemma backoff_next: "0 < b \<Longrightarrow> next_backoff (min (2 ^ i * b) max_backoff) = min (2 ^ Suc i * b) max_backoff"
  using next_min [of "2 ^ i * b"] by (simp add: mult.assoc)

lemma loop_failures:
  "0 < b \<Longrightarrow> b \<le> max_backoff \<Longrightarrow>
   fst (client_loop (replicate k (False, x) @ rs) (min (2 ^ i * b) max_backoff)) =
     map (\<lambda>j. min (2 ^ j * b) max_backoff) [i..<i + k] @ fst (client_loop rs (min (2 ^ (i + k) * b) max_backoff))"
proof (induction k arbitrary: i)
  case (Suc k)
  have "fst (client_loop (replicate (Suc k) (False, x) @ rs) (min (2 ^ i * b) max_backoff)) =
      min (2 ^ i * b) max_backoff # fst (client_loop (replicate k (False, x) @ rs) (min (2 ^ Suc i * b) max_backoff))"
    by (simp add: backoff_next [OF Suc.prems(1)] case_prod_beta del: power_Suc)
  moreover have "[i..<i + Suc k] = i # [Suc i..<Suc i + k]" by (subst upt_conv_Cons) simp_all
  ultimately show ?case using Suc.IH [of "Suc i"] Suc.prems by simp
qed simp

lemma backoff_range: "first_backoff \<le> b \<Longrightarrow> first_backoff \<le> next_backoff b \<and> next_backoff b \<le> max_backoff"
  by (simp add: next_backoff_def Let_def first_backoff_def max_backoff_def second_def minute_def)

lemma loop_range:
  "first_backoff \<le> b \<Longrightarrow> b \<le> max_backoff \<Longrightarrow> set (fst (client_loop rs b)) \<subseteq> {first_backoff..max_backoff}"
proof (induction rs b rule: client_loop.induct)
  case (2 connected exit rs b)
  have "first_backoff \<le> max_backoff" by (simp add: first_backoff_def max_backoff_def second_def minute_def)
  then show ?case using 2 backoff_range [of b] by (simp add: case_prod_beta)
qed simp

lemma loop_returns: "snd (client_loop rs b) \<longleftrightarrow> (True, True) \<in> set rs"
  by (induction rs b rule: client_loop.induct) (auto simp: case_prod_beta)

text \<open>
  C35: The waits of \<open>run\<close>: they start at three seconds, double with every failed attempt up to five minutes, start again
  after a success, and stay in these bounds in every run, which returns only if the exit flag is set when a connection
  ends.
\<close>

theorem reconnect_backoff:
  "fst (client_loop (replicate k (False, x) @ (True, False) # rs) first_backoff) =
     map (\<lambda>i. min (2 ^ i * first_backoff) max_backoff) [0..<k] @ first_backoff # fst (client_loop rs first_backoff) \<and>
   set (fst (client_loop rs first_backoff)) \<subseteq> {first_backoff..max_backoff} \<and>
   (snd (client_loop rs first_backoff) \<longleftrightarrow> (True, True) \<in> set rs)"
proof -
  have b: "0 < first_backoff" "first_backoff \<le> max_backoff"
    by (simp_all add: first_backoff_def max_backoff_def second_def minute_def)
  then have start: "min (2 ^ 0 * first_backoff) max_backoff = first_backoff" by simp
  show ?thesis
    using loop_failures [OF b, of k x "(True, False) # rs" 0, unfolded start] loop_range [OF order_refl b(2)] loop_returns
    by (simp add: case_prod_beta)
qed

end
