(* ===== verification/TunnelSession.thy ===== *)
theory TunnelSession
  imports TunnelClient TunnelServer
begin

text \<open>
  The two programs of the tunnel together: the message the client sends when it connects goes through \<open>handleClient\<close> of
  the server, and its answer through \<open>connectControl\<close> of the client. What both sides then hold about the tunnel, and
  what becomes of its public port when the client connects again.
\<close>

section \<open>Facts on text\<close>

lemma drop_hd: "dropWhile P s \<noteq> [] \<Longrightarrow> \<not> P (hd (dropWhile P s))"
  by (induction s) auto

lemma drop_fix: "s = [] \<or> \<not> P (hd s) \<Longrightarrow> dropWhile P s = s"
  by (cases s) auto

lemma drop_rev_keeps: "s = [] \<or> \<not> P (hd s) \<Longrightarrow> s' = rev (dropWhile P (rev s)) \<Longrightarrow> s' = [] \<or> \<not> P (hd s')"
proof (induction s arbitrary: s' rule: rev_induct)
  case (snoc x s)
  show ?case
  proof (cases "P x")
    case True
    then have "s' = rev (dropWhile P (rev s))" using snoc.prems(2) by simp
    moreover have "s = [] \<or> \<not> P (hd s)" using snoc.prems(1) by (cases s) auto
    ultimately show ?thesis using snoc.IH by blast
  next
    case False
    then show ?thesis using snoc.prems by simp
  qed
qed simp

lemma trim_trim [simp]: "trim_space (trim_space s) = trim_space s"
proof -
  let ?d = "dropWhile is_space s"
  have "?d = [] \<or> \<not> is_space (hd ?d)" using drop_hd [of is_space s] by blast
  then have "dropWhile is_space (trim_space s) = trim_space s"
    unfolding trim_space_def by (intro drop_fix drop_rev_keeps [OF _ refl])
  moreover have "dropWhile is_space (rev (trim_space s)) = rev (trim_space s)"
    unfolding trim_space_def using drop_hd [of is_space "rev ?d"] by (intro drop_fix) auto
  ultimately show ?thesis by (simp add: trim_space_def [of "trim_space s"])
qed

lemma lower_code:
  "(of_char (lower_char c) :: nat) = (if 65 \<le> (of_char c :: nat) \<and> (of_char c :: nat) \<le> 90 then of_char c + 32 else of_char c)"
  by (simp add: lower_char_def Let_def)

lemma lower_space: "is_space (lower_char c) = is_space c"
  by (auto simp: is_space_def lower_code)

lemma lower_lower: "to_lower (to_lower s) = to_lower s"
proof -
  have "lower_char (lower_char c) = lower_char c" for c
    by (simp add: lower_char_def [of "lower_char c"] lower_code Let_def)
  then show ?thesis by (simp add: to_lower_def)
qed

lemma trim_lower: "trim_space (to_lower s) = to_lower (trim_space s)"
proof -
  have "dropWhile is_space (map lower_char t) = map lower_char (dropWhile is_space t)" for t
    by (simp add: dropWhile_map lower_space comp_def)
  note d = this this [of "rev t" for t, unfolded rev_map [symmetric]]
  show ?thesis by (simp only: trim_space_def to_lower_def d)
    (simp only: rev_map d)
qed

lemma hex_no_space: "c \<in> set (hex bs) \<Longrightarrow> \<not> is_space c"
proof -
  assume "c \<in> set (hex bs)"
  then obtain b :: byte where "c = hex_digit (unat b div 16) \<or> c = hex_digit (unat b mod 16)" by (auto simp: hex_def)
  moreover have "unat b div 16 < 16" by (simp add: less_mult_imp_div_less unsigned_less [of b, simplified])
  moreover have "unat b mod 16 < 16" by simp
  ultimately obtain d where "d < 16" "c = hex_digit d" by blast
  then show ?thesis by (auto simp: hex_digit_def is_space_def)
qed

lemma drop_none: "(\<And>c. c \<in> set s \<Longrightarrow> \<not> P c) \<Longrightarrow> dropWhile P s = s"
  by (cases s) simp_all

lemma trim_id: "(\<And>c. c \<in> set s \<Longrightarrow> \<not> is_space c) \<Longrightarrow> trim_space s = s"
  using drop_none [of s is_space] drop_none [of "rev s" is_space] by (simp add: trim_space_def)

lemma trim_key: "trim_space (register_key env m) = register_key env m"
  by (simp add: register_key_def Let_def generateID_def trim_id [OF hex_no_space])

lemma protocol_key: "to_lower (trim_space (tunnel_protocol m)) = tunnel_protocol m"
proof -
  have "trim_space ''tcp'' = ''tcp''" "to_lower ''tcp'' = ''tcp''" by (simp_all add: trim_space_def is_space_def to_lower_def lower_char_def)
  then show ?thesis by (simp add: tunnel_protocol_def Let_def trim_lower lower_lower)
qed

section \<open>The answer of the server\<close>

lemma port_frame [simp]:
  "fst (getNextPublicPort now key req (s\<lparr>ts_sessions := x\<rparr>)) = fst (getNextPublicPort now key req s)"
  by (simp add: getNextPublicPort_def reserved_for_def split: list.split)

lemma registerHTTP_session:
  assumes "registerHTTPClient env u s = Ok s'" and "u < length (ts_sessions s)"
  shows "\<exists>sub. ts_sessions s' ! u = (ts_sessions s ! u)\<lparr>se_subdomain := sub\<rparr> \<and> length (ts_sessions s') = length (ts_sessions s)"
  using assms by (auto simp: registerHTTPClient_def RegisterClient_def Let_def upd_session_def split: option.splits if_splits)

lemma no_secret: "se_udpSecret c = None \<Longrightarrow> c\<lparr>se_subdomain := x\<rparr> = c\<lparr>se_subdomain := x, se_udpSecret := None\<rparr>"
  by (cases c) simp

lemma answer_tail:
  assumes "u < length (ts_sessions t)" and "se_udpSecret (ts_sessions t ! u) = None"
    and "(case (if protocol = ''http'' then registerHTTPClient env u t else Ok t) of
         Fail e \<Rightarrow> (Fail e, t)
       | Panic \<Rightarrow> (Panic, t)
       | Ok s \<Rightarrow>
           let s = (case re_udp_key env of None \<Rightarrow> s | Some k \<Rightarrow> upd_session u (\<lambda>c. c\<lparr>se_udpSecret := Some k\<rparr>) s)
           in if re_send env then (Ok (registered_message u s), s) else (Fail SendFailed, s)) = (Ok m, s1)"
  shows "m = registered_message u s1 \<and>
    (\<exists>sub. ts_sessions s1 ! u = (ts_sessions t ! u)\<lparr>se_subdomain := sub, se_udpSecret := re_udp_key env\<rparr>)"
proof -
  obtain t1 where t1: "(if protocol = ''http'' then registerHTTPClient env u t else Ok t) = Ok t1"
    using assms(3) by (auto split: res.splits)
  have "\<exists>sub. ts_sessions t1 ! u = (ts_sessions t ! u)\<lparr>se_subdomain := sub\<rparr> \<and> length (ts_sessions t1) = length (ts_sessions t)"
  proof (cases "protocol = ''http''")
    case True
    then show ?thesis using t1 registerHTTP_session [OF _ assms(1)] by simp
  next
    case False
    then show ?thesis using t1 by (intro exI [of _ "se_subdomain (ts_sessions t ! u)"]) simp
  qed
  then obtain sub where sub: "ts_sessions t1 ! u = (ts_sessions t ! u)\<lparr>se_subdomain := sub\<rparr>" "u < length (ts_sessions t1)"
    using assms(1) by auto
  let ?s = "case re_udp_key env of None \<Rightarrow> t1 | Some k \<Rightarrow> upd_session u (\<lambda>c. c\<lparr>se_udpSecret := Some k\<rparr>) t1"
  have "s1 = ?s" "m = registered_message u ?s"
    using assms(3) unfolding t1 by (auto simp: Let_def split: if_splits)
  moreover have "ts_sessions ?s ! u = (ts_sessions t ! u)\<lparr>se_subdomain := sub, se_udpSecret := re_udp_key env\<rparr>"
    using sub no_secret [OF assms(2)] by (simp add: upd_session_def split: option.split)
  ultimately show ?thesis by blast
qed

text \<open>What the answer to a registration says is what the session holds.\<close>

lemma accept_answer:
  assumes acc: "accept_client env ip msg s = (Ok m, s')" and u: "u = length (ts_sessions s)"
  shows "m = registered_message u s'" and "key_of s' u = register_key env msg"
    and "se_protocol (ts_sessions s' ! u) = tunnel_protocol msg"
    and "port_of s' u = fst (getNextPublicPort (re_now env) (register_key env msg) (mg_RequestedPort msg) s)"
    and "se_udpSecret (ts_sessions s' ! u) = re_udp_key env"
proof -
  define s0 where "s0 = s\<lparr>ts_sessions := ts_sessions s @ [new_session (re_now env) ip]\<rparr>"
  obtain s1 where h: "handleClient env u msg s0 = (Ok m, s1)" and s': "s' = s1\<lparr>ts_activeConnections := ts_activeConnections s1 + 1\<rparr>"
    using acc by (auto simp: accept_client_def s0_def u Let_def split: res.splits prod.splits)
  have adm: "re_admit env \<and> mg_Type msg = ''register''"
    using h by (cases "re_admit env"; cases "mg_Type msg = ''register''") (simp_all add: handleClient_def)
  define key where "key = register_key env msg"
  obtain p s2 where g: "getNextPublicPort (re_now env) key (mg_RequestedPort msg) s0 = (p, s2)" by fastforce
  have p: "p = fst (getNextPublicPort (re_now env) key (mg_RequestedPort msg) s)"
    using g by (metis fst_conv port_frame s0_def)
  have len: "ts_sessions s2 = ts_sessions s @ [new_session (re_now env) ip]"
    using getNext_frame(1) [OF g] by (simp add: s0_def)
  obtain cid where cid: "client_id key msg = Ok cid"
    using h g by (cases "client_id key msg") (auto simp: handleClient_def Let_def key_def split: if_splits)
  let ?f = "\<lambda>c. c\<lparr>se_clientID := cid, se_key := key, se_target := mg_Target msg,
      se_protocol := tunnel_protocol msg, se_publicPort := p\<rparr>"
  let ?t = "addClient u (upd_session u ?f s2)"
  have t: "u < length (ts_sessions ?t)" "ts_sessions ?t ! u = ?f (new_session (re_now env) ip)"
    using len by (simp_all add: addClient_def upd_session_def u)
  have "handleClient env u msg s0 =
      (case (if tunnel_protocol msg = ''http'' then registerHTTPClient env u ?t else Ok ?t) of
         Fail e \<Rightarrow> (Fail e, ?t)
       | Panic \<Rightarrow> (Panic, ?t)
       | Ok s \<Rightarrow>
           let s = (case re_udp_key env of None \<Rightarrow> s | Some k \<Rightarrow> upd_session u (\<lambda>c. c\<lparr>se_udpSecret := Some k\<rparr>) s)
           in if re_send env then (Ok (registered_message u s), s) else (Fail SendFailed, s))"
    using adm g cid by (simp add: handleClient_def Let_def key_def [symmetric])
  note tail = answer_tail [OF t(1) _ trans [OF this [symmetric] h], unfolded t(2)]
  have tail: "m = registered_message u s1 \<and> (\<exists>sub. ts_sessions s1 ! u = (?f (new_session (re_now env) ip))\<lparr>se_subdomain := sub, se_udpSecret := re_udp_key env\<rparr>)"
    by (rule tail) (simp add: new_session_def)
  have "registered_message u s' = registered_message u s1" by (simp add: s' registered_message_def Let_def)
  then show "m = registered_message u s'" using tail by simp
  show "key_of s' u = register_key env msg" "se_protocol (ts_sessions s' ! u) = tunnel_protocol msg"
    "port_of s' u = fst (getNextPublicPort (re_now env) (register_key env msg) (mg_RequestedPort msg) s)"
    "se_udpSecret (ts_sessions s' ! u) = re_udp_key env"
    using tail by (auto simp: s' key_of_def port_of_def key_def p)
qed

section \<open>The state of the client\<close>

lemma setup_keeps:
  "uc_key (snd (setupUDPChannel env d u)) = uc_key u" "uc_protocol (snd (setupUDPChannel env d u)) = uc_protocol u"
  "uc_udpSecret (snd (setupUDPChannel env d u)) = uc_udpSecret u"
  by (simp_all add: setupUDPChannel_def stopUDPPing_def Let_def)

lemma start_keeps:
  "uc_key (tc_udp (start_connection c)) = uc_key (tc_udp c)" "uc_protocol (tc_udp (start_connection c)) = uc_protocol (tc_udp c)"
  "tc_subdomain (start_connection c) = tc_subdomain c" "tc_localAddr (start_connection c) = tc_localAddr c"
  "tc_clientID (start_connection c) = tc_clientID c"
  by (simp_all add: start_connection_def stopUDPPing_def)

text \<open>The fields an accepted answer sets.\<close>

lemma connect_fields:
  assumes "co_dial e" "co_sent e" "co_reply e = Some m" "mg_Type m = ''registered''" and "connectControl e c = (ok, c')"
  shows "ok" and "tc_remotePort c' = mg_RemotePort m"
    and "uc_key (tc_udp c') = (if trim_space (mg_Key m) \<noteq> [] then trim_space (mg_Key m) else uc_key (tc_udp c))"
    and "uc_protocol (tc_udp c') = (if trim_space (mg_Protocol m) \<noteq> [] then to_lower (trim_space (mg_Protocol m)) else uc_protocol (tc_udp c))"
    and "length (mg_UDPSecret m) = 32 \<Longrightarrow> uc_udpSecret (tc_udp c') = Some (mg_UDPSecret m)"
    and "uc_protocol (tc_udp c') = ''http'' \<Longrightarrow> mg_Subdomain m \<noteq> [] \<Longrightarrow> tc_subdomain c' = mg_Subdomain m"
    and "tc_localAddr c' = tc_localAddr c" and "tc_clientID c' = tc_clientID c"
proof -
  let ?r = "apply_registered m (start_connection c)"
  have c': "c' = (if uc_protocol (tc_udp ?r) = ''udp''
      then upd_udp (\<lambda>u. snd (setupUDPChannel (co_env e) (co_udp e) (u\<lparr>uc_status := UdpOffline\<rparr>))) ?r else ?r)" and ok: ok
    using assms by (auto simp: connectControl_def Let_def)
  show ok by (fact ok)
  have same: "tc_remotePort c' = tc_remotePort ?r" "uc_key (tc_udp c') = uc_key (tc_udp ?r)" "uc_protocol (tc_udp c') = uc_protocol (tc_udp ?r)"
    "uc_udpSecret (tc_udp c') = uc_udpSecret (tc_udp ?r)" "tc_subdomain c' = tc_subdomain ?r" "tc_localAddr c' = tc_localAddr ?r"
    "tc_clientID c' = tc_clientID ?r"
    by (simp_all add: c' setup_keeps)
  show "tc_remotePort c' = mg_RemotePort m"
    and "uc_key (tc_udp c') = (if trim_space (mg_Key m) \<noteq> [] then trim_space (mg_Key m) else uc_key (tc_udp c))"
    and "uc_protocol (tc_udp c') = (if trim_space (mg_Protocol m) \<noteq> [] then to_lower (trim_space (mg_Protocol m)) else uc_protocol (tc_udp c))"
    and "length (mg_UDPSecret m) = 32 \<Longrightarrow> uc_udpSecret (tc_udp c') = Some (mg_UDPSecret m)"
    and "uc_protocol (tc_udp c') = ''http'' \<Longrightarrow> mg_Subdomain m \<noteq> [] \<Longrightarrow> tc_subdomain c' = mg_Subdomain m"
    and "tc_localAddr c' = tc_localAddr c" and "tc_clientID c' = tc_clientID c"
    unfolding same by (auto simp: apply_registered_def Let_def start_keeps)
qed

text \<open>The client connects: its registration goes to the server, and the answer of the server back to it.\<close>

definition join_server ::
  "register_env \<Rightarrow> string \<Rightarrow> connect_env \<Rightarrow> tunnel_client \<Rightarrow> tunnel_server \<Rightarrow> (tunnel_client \<times> tunnel_server) option" where
  "join_server env ip e c s =
     (case accept_client env ip (register_message c) s of
        (Ok m, s') \<Rightarrow> let (ok, c') = connectControl (e\<lparr>co_reply := Some m\<rparr>) c in if ok then Some (c', s') else None
      | _ \<Rightarrow> None)"

lemma join_elim:
  assumes "join_server env ip e c s = Some (c', s')"
  obtains m where "accept_client env ip (register_message c) s = (Ok m, s')" "mg_Type m = ''registered''"
    "connectControl (e\<lparr>co_reply := Some m\<rparr>) c = (True, c')" "co_dial e" "co_sent e"
proof -
  obtain m where m: "accept_client env ip (register_message c) s = (Ok m, s')" "connectControl (e\<lparr>co_reply := Some m\<rparr>) c = (True, c')"
    using assms by (auto simp: join_server_def Let_def split: prod.splits res.splits if_splits)
  then have "connect_ok (e\<lparr>co_reply := Some m\<rparr>)" using connect_fst by (metis fst_conv)
  then show thesis using that m by (auto simp: connect_ok_def)
qed

lemma join_answer:
  assumes join: "join_server env ip e c s = Some (c', s')" and u: "u = length (ts_sessions s)"
  shows "tc_remotePort c' = port_of s' u" and "re_random_key env \<noteq> [] \<Longrightarrow> uc_key (tc_udp c') = key_of s' u"
    and "uc_protocol (tc_udp c') = se_protocol (ts_sessions s' ! u)"
    and "re_udp_key env = Some k \<Longrightarrow> length k = 32 \<Longrightarrow> uc_udpSecret (tc_udp c') = Some k \<and> se_udpSecret (ts_sessions s' ! u) = Some k"
    and "uc_protocol (tc_udp c') = ''http'' \<Longrightarrow> se_subdomain (ts_sessions s' ! u) \<noteq> [] \<Longrightarrow> tc_subdomain c' = se_subdomain (ts_sessions s' ! u)"
proof -
  obtain m where acc: "accept_client env ip (register_message c) s = (Ok m, s')" and reg: "mg_Type m = ''registered''"
    and con: "connectControl (e\<lparr>co_reply := Some m\<rparr>) c = (True, c')" "co_dial e" "co_sent e"
    using join by (rule join_elim)
  note a = accept_answer [OF acc u]
  have m: "mg_RemotePort m = port_of s' u" "mg_Key m = key_of s' u" "mg_Protocol m = se_protocol (ts_sessions s' ! u)"
    "mg_Subdomain m = se_subdomain (ts_sessions s' ! u)" "re_udp_key env = Some k \<Longrightarrow> mg_UDPSecret m = k" for k
    using a(5) by (simp_all add: a(1) registered_message_def message_of_def Let_def port_of_def key_of_def)
  have sent: "co_dial (e\<lparr>co_reply := Some m\<rparr>)" "co_sent (e\<lparr>co_reply := Some m\<rparr>)" "co_reply (e\<lparr>co_reply := Some m\<rparr>) = Some m"
    using con(2,3) by simp_all
  note f = connect_fields(2-6) [OF sent reg con(1)]
  show "tc_remotePort c' = port_of s' u" using f(1) by (simp add: m)
  show "uc_key (tc_udp c') = key_of s' u" if key: "re_random_key env \<noteq> []"
  proof -
    have "key_of s' u \<noteq> []"
      using key by (cases "re_random_key env") (auto simp: a(2) register_key_def Let_def generateID_def hex_def)
    then show ?thesis using f(2) by (simp add: m a(2) trim_key)
  qed
  have "se_protocol (ts_sessions s' ! u) \<noteq> []" by (simp add: a(3) tunnel_protocol_def Let_def)
  then show "uc_protocol (tc_udp c') = se_protocol (ts_sessions s' ! u)"
    using f(3) protocol_key [of "register_message c"] by (auto simp: m a(3) to_lower_def)
  show "uc_udpSecret (tc_udp c') = Some k \<and> se_udpSecret (ts_sessions s' ! u) = Some k"
    if "re_udp_key env = Some k" "length k = 32" using f(4) a(5) that by (simp add: m)
  show "tc_subdomain c' = se_subdomain (ts_sessions s' ! u)"
    if "uc_protocol (tc_udp c') = ''http''" "se_subdomain (ts_sessions s' ! u) \<noteq> []" using f(5) that by (simp add: m)
qed

lemma accept_tcp:
  assumes "re_admit env" "re_send env" "mg_Type msg = ''register''" "trim_space (mg_ClientID msg) \<noteq> []" "tunnel_protocol msg \<noteq> ''http''"
  shows "\<exists>m s'. accept_client env ip msg s = (Ok m, s')"
  using assms by (simp add: accept_client_def handleClient_def client_id_def Let_def case_prod_beta)

lemma join_tcp:
  assumes "re_admit env" "re_send env" "trim_space (tc_clientID c) \<noteq> []" "tunnel_protocol (register_message c) \<noteq> ''http''"
    and "co_dial e" "co_sent e"
  obtains c' s' where "join_server env ip e c s = Some (c', s')"
proof -
  obtain m s' where acc: "accept_client env ip (register_message c) s = (Ok m, s')"
    using accept_tcp [OF assms(1,2) _ _ assms(4), of ip s] assms(3) by (auto simp: register_message_def message_of_def)
  have "mg_Type m = ''registered''" by (simp add: accept_answer(1) [OF acc refl] registered_message_def message_of_def Let_def)
  then have "fst (connectControl (e\<lparr>co_reply := Some m\<rparr>) c)" using assms(5,6) by (simp add: connect_fst connect_ok_def)
  then show thesis using that by (simp add: join_server_def acc case_prod_beta)
qed

text \<open>A run of both programs, with the state \<open>sample_run\<close> of the server.\<close>

definition sample_register_env :: register_env where
  "sample_register_env = \<lparr>re_now = 100, re_admit = True, re_random_key = replicate 16 0, re_random_subdomain = [1, 2, 3],
     re_udp_key = Some (replicate 32 7), re_send = True\<rparr>"

definition sample_connect :: connect_env where
  "sample_connect = \<lparr>co_env = sample_client_env, co_dial = True, co_sent = True, co_reply = None, co_udp = True\<rparr>"

definition sample_client :: tunnel_client where
  "sample_client = (upd_udp (\<lambda>u. u\<lparr>uc_key := ''alpha-key''\<rparr>)
     (newClient ''192.0.2.1:8882'' ''localhost:80'' ''c1'' ''tcp'' []))\<lparr>tc_remotePort := 10000\<rparr>"

lemma sample_fields:
  "re_admit sample_register_env" "re_send sample_register_env" "co_dial sample_connect" "co_sent sample_connect"
  "trim_space (tc_clientID sample_client) \<noteq> []" "tunnel_protocol (register_message sample_client) \<noteq> ''http''"
  "trim_space (uc_key (tc_udp sample_client)) = ''alpha-key''" "tc_remotePort sample_client = 10000"
  by code_simp+

lemmas sample_join = join_tcp [OF sample_fields(1,2,5,6,3,4)]

text \<open>
  C32: After a registration both programs agree on the tunnel: the public port, the key, the protocol and the secret of the
  datagrams, and for an HTTP tunnel its subdomain.
\<close>

theorem registration_agrees:
  assumes "join_server env ip e c s = Some (c', s')" and "u = length (ts_sessions s)"
    and "re_random_key env \<noteq> []" and "re_udp_key env = Some k" "length k = 32"
  shows "tc_remotePort c' = port_of s' u \<and> uc_key (tc_udp c') = key_of s' u \<and>
    uc_protocol (tc_udp c') = se_protocol (ts_sessions s' ! u) \<and>
    uc_udpSecret (tc_udp c') = Some k \<and> se_udpSecret (ts_sessions s' ! u) = Some k \<and>
    (uc_protocol (tc_udp c') = ''http'' \<and> se_subdomain (ts_sessions s' ! u) \<noteq> [] \<longrightarrow>
       tc_subdomain c' = se_subdomain (ts_sessions s' ! u))"
  using join_answer [OF assms(1,2)] assms(3-5) by blast

theorem registration_agrees_witness:
  "\<exists>c' s'. join_server sample_register_env ''192.0.2.7'' sample_connect sample_client (newServer None) = Some (c', s') \<and>
     tc_remotePort c' = port_of s' 0 \<and> uc_udpSecret (tc_udp c') = Some (replicate 32 7)"
proof -
  obtain c' s' where j: "join_server sample_register_env ''192.0.2.7'' sample_connect sample_client (newServer None) = Some (c', s')"
    by (rule sample_join)
  have "0 = length (ts_sessions (newServer None))" "re_random_key sample_register_env \<noteq> []"
    "re_udp_key sample_register_env = Some (replicate 32 7)" "length (replicate 32 (7 :: byte)) = 32"
    by (simp_all add: newServer_def sample_register_env_def)
  from registration_agrees [OF j this] show ?thesis using j by blast
qed



end
