(* ===== verification/TunnelDb.thy ===== *)
theory TunnelDb
  imports GoSlice NetAddr
begin

text \<open>
  The database of the tunnel server, from \<open>internal/database\<close> and \<open>internal/models\<close>: the three tables of the schema in
  \<open>migrate\<close> with their constraints, and one operation per method, each the meaning of the statement it sends. A
  statement that fails changes nothing. Identifiers are the text the schema makes by default, the hexadecimal digits of
  16 random bytes; the identifiers of the Go values are \<open>uuid.UUID\<close>, which the library reads from a column and writes
  into a statement.
\<close>

section \<open>Tables\<close>

record user_row =
  uw_id :: string
  uw_username :: string
  uw_email :: string
  uw_password :: string
  uw_role :: string
  uw_api_key :: string
  uw_created :: gtime
  uw_updated :: gtime

record tunnel_row =
  tr_id :: string
  tr_user_id :: string
  tr_name :: string
  tr_protocol :: string
  tr_local_host :: string
  tr_local_port :: int
  tr_public_port :: int
  tr_status :: string
  tr_client_id :: string
  tr_auth_token :: string
  tr_created :: gtime
  tr_updated :: gtime
  tr_last_seen :: gtime

record connection_row =
  cr_id :: string
  cr_tunnel_id :: string
  cr_remote_addr :: string
  cr_connected :: gtime
  cr_disconnected :: "gtime option"
  cr_bytes_up :: int
  cr_bytes_down :: int
  cr_duration :: int

record database =
  db_users :: "user_row list"
  db_tunnels :: "tunnel_row list"
  db_connections :: "connection_row list"

section \<open>Models\<close>

type_synonym uuid = "byte list"

record user =
  ur_ID :: uuid
  ur_Username :: string
  ur_Email :: string
  ur_Password :: string
  ur_Role :: string
  ur_APIKey :: string
  ur_CreatedAt :: gtime
  ur_UpdatedAt :: gtime

record tunnel =
  tn_ID :: uuid
  tn_UserID :: uuid
  tn_Name :: string
  tn_Protocol :: string
  tn_LocalHost :: string
  tn_LocalPort :: int
  tn_PublicPort :: int
  tn_Status :: string
  tn_ClientID :: string
  tn_AuthToken :: string
  tn_CreatedAt :: gtime
  tn_UpdatedAt :: gtime
  tn_LastSeen :: gtime

record connection =
  cn_ID :: uuid
  cn_TunnelID :: uuid
  cn_RemoteAddr :: string
  cn_ConnectedAt :: gtime
  cn_DisconnectedAt :: "gtime option"
  cn_BytesUp :: int
  cn_BytesDown :: int
  cn_Duration :: int

record metrics =
  me_ActiveTunnels :: nat
  me_TotalConnections :: nat
  me_TotalBytesUp :: int
  me_TotalBytesDown :: int
  me_ActiveUsers :: nat

record tunnel_stats =
  st_Connections :: nat
  st_BytesUp :: int
  st_BytesDown :: int
  st_LastActive :: gtime

text \<open>
  The library for identifiers: how it reads the text of a column and how it writes an identifier. It reads the digits
  with and without hyphens and writes the form with hyphens, of 36 characters.
\<close>

record uuid_lib =
  ul_parse :: "string \<Rightarrow> uuid option"
  ul_string :: "uuid \<Rightarrow> string"

definition uuid_ok :: "uuid_lib \<Rightarrow> bool" where
  "uuid_ok lib \<longleftrightarrow> (\<forall>b. length b = 16 \<longrightarrow>
     ul_parse lib (hex b) = Some b \<and> ul_parse lib (ul_string lib b) = Some b \<and> length (ul_string lib b) = 36)"

text \<open>
  What a statement meets: the driver, a pooled connection that does or does not enforce foreign keys (the pragma of
  \<open>migrate\<close> reaches the one connection it runs on), the random bytes of a default identifier, the clock, and whether the
  driver reads the text of a computed column as a time.
\<close>

record db_env =
  de_lib :: uuid_lib
  de_ok :: bool
  de_fk :: bool
  de_random :: "byte list"
  de_now :: gtime
  de_time_text :: bool

datatype db_error =
    DriverError | UniqueViolation | CheckViolation | ForeignKeyViolation | NoRows | ScanError | NothingChanged

text \<open>\<open>CURRENT_TIMESTAMP\<close> counts seconds.\<close>

definition sql_now :: "db_env \<Rightarrow> gtime" where
  "sql_now env = de_now env div second * second"

definition new_id :: "db_env \<Rightarrow> string" where
  "new_id env = hex (take 16 (de_random env))"

section \<open>Reading rows\<close>

definition scan_user :: "db_env \<Rightarrow> user_row \<Rightarrow> (db_error, user) res" where
  "scan_user env r =
     (case ul_parse (de_lib env) (uw_id r) of
        None \<Rightarrow> Fail ScanError
      | Some i \<Rightarrow> Ok \<lparr>ur_ID = i, ur_Username = uw_username r, ur_Email = uw_email r, ur_Password = uw_password r,
          ur_Role = uw_role r, ur_APIKey = uw_api_key r, ur_CreatedAt = uw_created r, ur_UpdatedAt = uw_updated r\<rparr>)"

definition scan_tunnel :: "db_env \<Rightarrow> tunnel_row \<Rightarrow> (db_error, tunnel) res" where
  "scan_tunnel env r =
     (case (ul_parse (de_lib env) (tr_id r), ul_parse (de_lib env) (tr_user_id r)) of
        (Some i, Some u) \<Rightarrow> Ok \<lparr>tn_ID = i, tn_UserID = u, tn_Name = tr_name r, tn_Protocol = tr_protocol r,
          tn_LocalHost = tr_local_host r, tn_LocalPort = tr_local_port r, tn_PublicPort = tr_public_port r,
          tn_Status = tr_status r, tn_ClientID = tr_client_id r, tn_AuthToken = tr_auth_token r,
          tn_CreatedAt = tr_created r, tn_UpdatedAt = tr_updated r, tn_LastSeen = tr_last_seen r\<rparr>
      | _ \<Rightarrow> Fail ScanError)"

text \<open>The loop over the rows of a result, which returns at the first row that does not scan.\<close>

fun scan_all :: "('r \<Rightarrow> (db_error, 'a) res) \<Rightarrow> 'r list \<Rightarrow> (db_error, 'a list) res" where
  "scan_all f [] = Ok []"
| "scan_all f (r # rs) = rbind (f r) (\<lambda>x. rbind (scan_all f rs) (\<lambda>xs. Ok (x # xs)))"

text \<open>\<open>QueryRow\<close>: the first row.\<close>

definition query_row :: "db_env \<Rightarrow> ('r \<Rightarrow> (db_error, 'a) res) \<Rightarrow> 'r list \<Rightarrow> (db_error, 'a) res" where
  "query_row env f rs = (if \<not> de_ok env then Fail DriverError else case rs of [] \<Rightarrow> Fail NoRows | r # _ \<Rightarrow> f r)"

definition query_rows :: "db_env \<Rightarrow> ('r \<Rightarrow> (db_error, 'a) res) \<Rightarrow> 'r list \<Rightarrow> (db_error, 'a list) res" where
  "query_rows env f rs = (if \<not> de_ok env then Fail DriverError else scan_all f rs)"

text \<open>\<open>ORDER BY created_at DESC\<close>: rows of one second stay in the order of the table.\<close>

definition newest_first :: "('r \<Rightarrow> gtime) \<Rightarrow> 'r list \<Rightarrow> 'r list" where
  "newest_first created rs = sort_key (\<lambda>r. - created r) rs"

section \<open>Users\<close>

definition users_clash :: "user_row \<Rightarrow> user_row \<Rightarrow> bool" where
  "users_clash r r' \<longleftrightarrow> uw_id r = uw_id r' \<or> uw_username r = uw_username r' \<or> uw_email r = uw_email r' \<or> uw_api_key r = uw_api_key r'"

text \<open>The row is there even when the identifier that comes back does not scan.\<close>

definition CreateUser :: "db_env \<Rightarrow> user \<Rightarrow> database \<Rightarrow> (db_error, user) res \<times> database" where
  "CreateUser env u d =
     (let row = \<lparr>uw_id = new_id env, uw_username = ur_Username u, uw_email = ur_Email u, uw_password = ur_Password u,
        uw_role = ur_Role u, uw_api_key = ur_APIKey u, uw_created = sql_now env, uw_updated = sql_now env\<rparr> in
      if \<not> de_ok env then (Fail DriverError, d)
      else if list_ex (users_clash row) (db_users d) then (Fail UniqueViolation, d)
      else (case ul_parse (de_lib env) (uw_id row) of
              None \<Rightarrow> Fail ScanError
            | Some i \<Rightarrow> Ok (u\<lparr>ur_ID := i, ur_CreatedAt := uw_created row, ur_UpdatedAt := uw_updated row\<rparr>),
            d\<lparr>db_users := db_users d @ [row]\<rparr>))"

definition GetUserByUsername :: "db_env \<Rightarrow> string \<Rightarrow> database \<Rightarrow> (db_error, user) res" where
  "GetUserByUsername env name d = query_row env (scan_user env) (filter (\<lambda>r. uw_username r = name) (db_users d))"

definition GetUserByAPIKey :: "db_env \<Rightarrow> string \<Rightarrow> database \<Rightarrow> (db_error, user) res" where
  "GetUserByAPIKey env key d = query_row env (scan_user env) (filter (\<lambda>r. uw_api_key r = key) (db_users d))"

definition GetAllUsers :: "db_env \<Rightarrow> database \<Rightarrow> (db_error, user list) res" where
  "GetAllUsers env d = query_rows env (scan_user env) (newest_first uw_created (db_users d))"

text \<open>The cascades of the foreign keys, where they are enforced.\<close>

definition delete_tunnels :: "bool \<Rightarrow> (tunnel_row \<Rightarrow> bool) \<Rightarrow> database \<Rightarrow> database" where
  "delete_tunnels fk P d =
     (let gone = map tr_id (filter P (db_tunnels d)) in
      d\<lparr>db_tunnels := filter (\<lambda>r. \<not> P r) (db_tunnels d),
        db_connections := (if fk then filter (\<lambda>c. cr_tunnel_id c \<notin> set gone) (db_connections d) else db_connections d)\<rparr>)"

definition DeleteUser :: "db_env \<Rightarrow> string \<Rightarrow> database \<Rightarrow> (db_error, unit) res \<times> database" where
  "DeleteUser env i d =
     (if \<not> de_ok env then (Fail DriverError, d)
      else if \<not> list_ex (\<lambda>r. uw_id r = i) (db_users d) then (Fail NothingChanged, d)
      else let d' = d\<lparr>db_users := filter (\<lambda>r. uw_id r \<noteq> i) (db_users d)\<rparr>
           in (Ok (), if de_fk env then delete_tunnels True (\<lambda>t. tr_user_id t = i) d' else d'))"

section \<open>Tunnels\<close>

text \<open>The checks of the schema on a row.\<close>

definition tunnel_checks :: "tunnel_row \<Rightarrow> bool" where
  "tunnel_checks r \<longleftrightarrow> tr_protocol r \<in> {''tcp'', ''udp'', ''http''} \<and> 0 < tr_local_port r \<and> tr_local_port r < 65536"

definition CreateTunnel :: "db_env \<Rightarrow> tunnel \<Rightarrow> database \<Rightarrow> (db_error, tunnel) res \<times> database" where
  "CreateTunnel env t d =
     (let now = sql_now env;
          row = \<lparr>tr_id = new_id env, tr_user_id = ul_string (de_lib env) (tn_UserID t), tr_name = tn_Name t,
            tr_protocol = tn_Protocol t, tr_local_host = tn_LocalHost t, tr_local_port = tn_LocalPort t,
            tr_public_port = tn_PublicPort t, tr_status = tn_Status t, tr_client_id = tn_ClientID t,
            tr_auth_token = tn_AuthToken t, tr_created = now, tr_updated = now, tr_last_seen = now\<rparr> in
      if \<not> de_ok env then (Fail DriverError, d)
      else if \<not> tunnel_checks row then (Fail CheckViolation, d)
      else if list_ex (\<lambda>r. tr_id r = tr_id row \<or> tr_public_port r = tr_public_port row) (db_tunnels d) then (Fail UniqueViolation, d)
      else if de_fk env \<and> \<not> list_ex (\<lambda>u. uw_id u = tr_user_id row) (db_users d) then (Fail ForeignKeyViolation, d)
      else (case ul_parse (de_lib env) (tr_id row) of
              None \<Rightarrow> Fail ScanError
            | Some i \<Rightarrow> Ok (t\<lparr>tn_ID := i, tn_CreatedAt := now, tn_UpdatedAt := now, tn_LastSeen := now\<rparr>),
            d\<lparr>db_tunnels := db_tunnels d @ [row]\<rparr>))"

definition GetTunnelsByUserID :: "db_env \<Rightarrow> string \<Rightarrow> database \<Rightarrow> (db_error, tunnel list) res" where
  "GetTunnelsByUserID env u d =
     query_rows env (scan_tunnel env) (newest_first tr_created (filter (\<lambda>r. tr_user_id r = u) (db_tunnels d)))"

definition GetTunnelByID :: "db_env \<Rightarrow> string \<Rightarrow> database \<Rightarrow> (db_error, tunnel) res" where
  "GetTunnelByID env i d = query_row env (scan_tunnel env) (filter (\<lambda>r. tr_id r = i) (db_tunnels d))"

definition GetTunnelByPublicPort :: "db_env \<Rightarrow> int \<Rightarrow> database \<Rightarrow> (db_error, tunnel) res" where
  "GetTunnelByPublicPort env p d = query_row env (scan_tunnel env) (filter (\<lambda>r. tr_public_port r = p) (db_tunnels d))"

definition GetAllTunnels :: "db_env \<Rightarrow> database \<Rightarrow> (db_error, tunnel list) res" where
  "GetAllTunnels env d = query_rows env (scan_tunnel env) (newest_first tr_created (db_tunnels d))"

text \<open>An update of the rows that match; the trigger sets \<open>updated_at\<close>.\<close>

definition update_tunnels :: "db_env \<Rightarrow> (tunnel_row \<Rightarrow> bool) \<Rightarrow> (tunnel_row \<Rightarrow> tunnel_row) \<Rightarrow> database \<Rightarrow> database" where
  "update_tunnels env P f d = d\<lparr>db_tunnels := map (\<lambda>r. if P r then (f r)\<lparr>tr_updated := sql_now env\<rparr> else r) (db_tunnels d)\<rparr>"

definition UpdateTunnel :: "db_env \<Rightarrow> string \<Rightarrow> string \<Rightarrow> string \<Rightarrow> string \<Rightarrow> int \<Rightarrow> database \<Rightarrow> (db_error, unit) res \<times> database" where
  "UpdateTunnel env i u name localHost localPort d =
     (let P = (\<lambda>r. tr_id r = i \<and> tr_user_id r = u);
          f = (\<lambda>r. r\<lparr>tr_name := (if name = [] then tr_name r else name),
                 tr_local_host := (if localHost = [] then tr_local_host r else localHost),
                 tr_local_port := (if 0 < localPort then localPort else tr_local_port r)\<rparr>);
          d' = update_tunnels env P f d in
      if \<not> de_ok env then (Fail DriverError, d)
      else if \<not> list_all tunnel_checks (map f (filter P (db_tunnels d))) then (Fail CheckViolation, d)
      else if \<not> list_ex P (db_tunnels d) then (Fail NothingChanged, d)
      else (Ok (), d'))"

definition UpdateTunnelStatus :: "db_env \<Rightarrow> string \<Rightarrow> string \<Rightarrow> database \<Rightarrow> (db_error, unit) res \<times> database" where
  "UpdateTunnelStatus env i status d =
     (if \<not> de_ok env then (Fail DriverError, d)
      else (Ok (), update_tunnels env (\<lambda>r. tr_id r = i) (\<lambda>r. r\<lparr>tr_status := status, tr_last_seen := sql_now env\<rparr>) d))"

definition UpdateTunnelLastSeen :: "db_env \<Rightarrow> string \<Rightarrow> database \<Rightarrow> (db_error, unit) res \<times> database" where
  "UpdateTunnelLastSeen env i d =
     (if \<not> de_ok env then (Fail DriverError, d)
      else (Ok (), update_tunnels env (\<lambda>r. tr_id r = i) (\<lambda>r. r\<lparr>tr_last_seen := sql_now env\<rparr>) d))"

text \<open>\<open>DeleteTunnel\<close> of a user and \<open>DeleteTunnelByAdmin\<close>.\<close>

definition delete_tunnel_where :: "db_env \<Rightarrow> (tunnel_row \<Rightarrow> bool) \<Rightarrow> database \<Rightarrow> (db_error, unit) res \<times> database" where
  "delete_tunnel_where env P d =
     (if \<not> de_ok env then (Fail DriverError, d)
      else if \<not> list_ex P (db_tunnels d) then (Fail NothingChanged, d)
      else (Ok (), delete_tunnels (de_fk env) P d))"

definition DeleteTunnel :: "db_env \<Rightarrow> string \<Rightarrow> string \<Rightarrow> database \<Rightarrow> (db_error, unit) res \<times> database" where
  "DeleteTunnel env i u d = delete_tunnel_where env (\<lambda>r. tr_id r = i \<and> tr_user_id r = u) d"

definition DeleteTunnelByAdmin :: "db_env \<Rightarrow> string \<Rightarrow> database \<Rightarrow> (db_error, unit) res \<times> database" where
  "DeleteTunnelByAdmin env i d = delete_tunnel_where env (\<lambda>r. tr_id r = i) d"

definition IsPortAvailable :: "db_env \<Rightarrow> int \<Rightarrow> database \<Rightarrow> bool" where
  "IsPortAvailable env p d \<longleftrightarrow> de_ok env \<and> length (filter (\<lambda>r. tr_public_port r = p) (db_tunnels d)) = 0"

section \<open>Connections and figures\<close>

definition CreateConnection :: "db_env \<Rightarrow> connection \<Rightarrow> database \<Rightarrow> (db_error, connection) res \<times> database" where
  "CreateConnection env c d =
     (let row = \<lparr>cr_id = new_id env, cr_tunnel_id = ul_string (de_lib env) (cn_TunnelID c), cr_remote_addr = cn_RemoteAddr c,
            cr_connected = cn_ConnectedAt c, cr_disconnected = None, cr_bytes_up = cn_BytesUp c, cr_bytes_down = cn_BytesDown c,
            cr_duration = cn_Duration c\<rparr> in
      if \<not> de_ok env then (Fail DriverError, d)
      else if list_ex (\<lambda>r. cr_id r = cr_id row) (db_connections d) then (Fail UniqueViolation, d)
      else if de_fk env \<and> \<not> list_ex (\<lambda>t. tr_id t = cr_tunnel_id row) (db_tunnels d) then (Fail ForeignKeyViolation, d)
      else (case ul_parse (de_lib env) (cr_id row) of None \<Rightarrow> Fail ScanError | Some i \<Rightarrow> Ok (c\<lparr>cn_ID := i\<rparr>),
            d\<lparr>db_connections := db_connections d @ [row]\<rparr>))"

definition UpdateConnection :: "db_env \<Rightarrow> connection \<Rightarrow> database \<Rightarrow> (db_error, unit) res \<times> database" where
  "UpdateConnection env c d =
     (if \<not> de_ok env then (Fail DriverError, d)
      else (Ok (), d\<lparr>db_connections := map (\<lambda>r. if cr_id r = ul_string (de_lib env) (cn_ID c)
              then r\<lparr>cr_disconnected := cn_DisconnectedAt c, cr_bytes_up := cn_BytesUp c, cr_bytes_down := cn_BytesDown c,
                     cr_duration := cn_Duration c\<rparr> else r) (db_connections d)\<rparr>))"

definition GetMetrics :: "db_env \<Rightarrow> database \<Rightarrow> (db_error, metrics) res" where
  "GetMetrics env d =
     (if \<not> de_ok env then Fail DriverError
      else let active = filter (\<lambda>t. tr_status t = ''active'') (db_tunnels d) in
        Ok \<lparr>me_ActiveTunnels = length active, me_TotalConnections = length (db_connections d),
            me_TotalBytesUp = sum_list (map cr_bytes_up (db_connections d)),
            me_TotalBytesDown = sum_list (map cr_bytes_down (db_connections d)),
            me_ActiveUsers = length (remdups (map tr_user_id (filter (\<lambda>t. sql_now env - hour < tr_last_seen t) active)))\<rparr>)"

text \<open>
  \<open>GetTunnelStats\<close>: one row of aggregates. Without a connection the time is \<open>NULL\<close>, which does not scan into a
  \<open>time.Time\<close>; with one it is the text of a computed column.
\<close>

definition GetTunnelStats :: "db_env \<Rightarrow> string \<Rightarrow> database \<Rightarrow> (db_error, tunnel_stats) res" where
  "GetTunnelStats env i d =
     (let cs = filter (\<lambda>c. cr_tunnel_id c = i) (db_connections d) in
      if \<not> de_ok env then Fail DriverError
      else if cs = [] \<or> \<not> de_time_text env then Fail ScanError
      else Ok \<lparr>st_Connections = length cs, st_BytesUp = sum_list (map cr_bytes_up cs), st_BytesDown = sum_list (map cr_bytes_down cs),
               st_LastActive = Max (set (map cr_connected cs))\<rparr>)"

text \<open>A tick of \<open>cleanupOldConnections\<close>.\<close>

definition cleanupOldConnections :: "db_env \<Rightarrow> database \<Rightarrow> database" where
  "cleanupOldConnections env d =
     (if \<not> de_ok env then d
      else d\<lparr>db_connections := filter (\<lambda>c. case cr_disconnected c of None \<Rightarrow> True | Some t \<Rightarrow> \<not> t < sql_now env - 24 * hour) (db_connections d)\<rparr>)"

section \<open>The schema holds\<close>

definition stored_id :: "string \<Rightarrow> bool" where
  "stored_id i \<longleftrightarrow> (\<exists>b. length b = 16 \<and> i = hex b)"

definition users_ok :: "user_row list \<Rightarrow> bool" where
  "users_ok us \<longleftrightarrow> distinct (map uw_id us) \<and> distinct (map uw_username us) \<and> distinct (map uw_email us) \<and>
     distinct (map uw_api_key us) \<and> (\<forall>u \<in> set us. stored_id (uw_id u))"

definition tunnels_ok :: "tunnel_row list \<Rightarrow> bool" where
  "tunnels_ok ts \<longleftrightarrow> distinct (map tr_id ts) \<and> distinct (map tr_public_port ts) \<and> (\<forall>t \<in> set ts. stored_id (tr_id t) \<and> tunnel_checks t)"

definition connections_ok :: "connection_row list \<Rightarrow> bool" where
  "connections_ok cs \<longleftrightarrow> distinct (map cr_id cs) \<and> (\<forall>c \<in> set cs. stored_id (cr_id c))"

definition db_ok :: "database \<Rightarrow> bool" where
  "db_ok d \<longleftrightarrow> users_ok (db_users d) \<and> tunnels_ok (db_tunnels d) \<and> connections_ok (db_connections d)"

definition env_ok :: "db_env \<Rightarrow> bool" where
  "env_ok env \<longleftrightarrow> uuid_ok (de_lib env) \<and> 16 \<le> length (de_random env)"

lemma new_id_stored: "env_ok env \<Longrightarrow> stored_id (new_id env)"
  by (auto simp: stored_id_def new_id_def env_ok_def intro!: exI [of _ "take 16 (de_random env)"])

lemma ok_filter: "users_ok us \<Longrightarrow> users_ok (filter P us)" "tunnels_ok ts \<Longrightarrow> tunnels_ok (filter Q ts)"
  "connections_ok cs \<Longrightarrow> connections_ok (filter R cs)"
  by (auto simp: users_ok_def tunnels_ok_def connections_ok_def distinct_map_filter)

lemma map_update: "(\<And>r. P r \<Longrightarrow> g (f r) = g r) \<Longrightarrow> map g (map (\<lambda>r. if P r then f r else r) rs) = map g rs"
  by (induction rs) simp_all

lemma tunnels_update:
  assumes "tunnels_ok ts" and "\<And>r. P r \<Longrightarrow> tr_id (f r) = tr_id r \<and> tr_public_port (f r) = tr_public_port r"
    and "list_all tunnel_checks (map f (filter P ts))"
  shows "tunnels_ok (map (\<lambda>r. if P r then (f r)\<lparr>tr_updated := x\<rparr> else r) ts)"
proof -
  let ?f = "\<lambda>r. (f r)\<lparr>tr_updated := x\<rparr>"
  have same: "map tr_id (map (\<lambda>r. if P r then ?f r else r) ts) = map tr_id ts"
    "map tr_public_port (map (\<lambda>r. if P r then ?f r else r) ts) = map tr_public_port ts"
    by (rule map_update, simp add: assms(2))+
  have "stored_id (tr_id r) \<and> tunnel_checks r" if r: "r \<in> set (map (\<lambda>r. if P r then ?f r else r) ts)" for r
  proof -
    from r obtain t where t: "t \<in> set ts" "r = (if P t then ?f t else t)" by auto
    then show ?thesis using assms by (cases "P t") (auto simp: tunnels_ok_def list_all_iff tunnel_checks_def)
  qed
  then show ?thesis using assms(1) unfolding tunnels_ok_def same by blast
qed

lemma connections_update:
  assumes "connections_ok cs" and "\<And>r. P r \<Longrightarrow> cr_id (f r) = cr_id r"
  shows "connections_ok (map (\<lambda>r. if P r then f r else r) cs)"
proof -
  have same: "map cr_id (map (\<lambda>r. if P r then f r else r) cs) = map cr_id cs"
    by (rule map_update) (simp add: assms(2))
  have "stored_id (cr_id r)" if r: "r \<in> set (map (\<lambda>r. if P r then f r else r) cs)" for r
  proof -
    from r obtain t where t: "t \<in> set cs" "r = (if P t then f t else t)" by auto
    then show ?thesis using assms by (cases "P t") (auto simp: connections_ok_def)
  qed
  then show ?thesis using assms(1) unfolding connections_ok_def same by blast
qed

named_theorems db_keeps "the statements keep the schema"

lemma create_user_keeps [db_keeps]: "env_ok env \<Longrightarrow> db_ok d \<Longrightarrow> db_ok (snd (CreateUser env u d))"
  by (auto simp: CreateUser_def Let_def db_ok_def users_ok_def list_ex_iff users_clash_def new_id_stored)

lemma delete_tunnels_keeps: "db_ok d \<Longrightarrow> db_ok (delete_tunnels fk P d)"
  by (auto simp: delete_tunnels_def Let_def db_ok_def ok_filter)

lemma delete_user_keeps [db_keeps]: "db_ok d \<Longrightarrow> db_ok (snd (DeleteUser env i d))"
  by (auto simp: DeleteUser_def Let_def db_ok_def ok_filter intro!: delete_tunnels_keeps [unfolded db_ok_def])

lemma create_tunnel_keeps [db_keeps]: "env_ok env \<Longrightarrow> db_ok d \<Longrightarrow> db_ok (snd (CreateTunnel env t d))"
  by (auto simp: CreateTunnel_def Let_def db_ok_def tunnels_ok_def list_ex_iff new_id_stored)

lemma update_tunnels_keeps:
  "db_ok d \<Longrightarrow> (\<And>r. P r \<Longrightarrow> tr_id (f r) = tr_id r \<and> tr_public_port (f r) = tr_public_port r) \<Longrightarrow>
   list_all tunnel_checks (map f (filter P (db_tunnels d))) \<Longrightarrow> db_ok (update_tunnels env P f d)"
  by (simp add: db_ok_def update_tunnels_def tunnels_update)

lemma checks_hold: "db_ok d \<Longrightarrow> (\<And>r. tunnel_checks (f r) = tunnel_checks r) \<Longrightarrow> list_all tunnel_checks (map f (filter P (db_tunnels d)))"
  by (auto simp: db_ok_def tunnels_ok_def list_all_iff)

lemma update_keeps [db_keeps]:
  "db_ok d \<Longrightarrow> db_ok (snd (UpdateTunnel env i u name h p d))" "db_ok d \<Longrightarrow> db_ok (snd (UpdateTunnelStatus env i st d))"
  "db_ok d \<Longrightarrow> db_ok (snd (UpdateTunnelLastSeen env i d))"
  by (auto simp: UpdateTunnel_def UpdateTunnelStatus_def UpdateTunnelLastSeen_def Let_def tunnel_checks_def
      intro!: update_tunnels_keeps checks_hold)

lemma delete_keeps [db_keeps]:
  "db_ok d \<Longrightarrow> db_ok (snd (DeleteTunnel env i u d))" "db_ok d \<Longrightarrow> db_ok (snd (DeleteTunnelByAdmin env i d))"
  by (simp_all add: DeleteTunnel_def DeleteTunnelByAdmin_def delete_tunnel_where_def delete_tunnels_keeps)

lemma create_connection_keeps [db_keeps]: "env_ok env \<Longrightarrow> db_ok d \<Longrightarrow> db_ok (snd (CreateConnection env c d))"
  by (auto simp: CreateConnection_def Let_def db_ok_def list_ex_iff connections_ok_def new_id_stored)

lemma connection_keeps [db_keeps]:
  "db_ok d \<Longrightarrow> db_ok (snd (UpdateConnection env c d))" "db_ok d \<Longrightarrow> db_ok (cleanupOldConnections env d)"
  by (simp_all add: UpdateConnection_def cleanupOldConnections_def db_ok_def ok_filter connections_update)

text \<open>Every state of the database that statements lead to from an empty one.\<close>

inductive db_step :: "database \<Rightarrow> database \<Rightarrow> bool" where
  "env_ok env \<Longrightarrow> db_step d (snd (CreateUser env u d))"
| "db_step d (snd (DeleteUser env i d))"
| "env_ok env \<Longrightarrow> db_step d (snd (CreateTunnel env t d))"
| "db_step d (snd (UpdateTunnel env i u name h p d))"
| "db_step d (snd (UpdateTunnelStatus env i st d))"
| "db_step d (snd (UpdateTunnelLastSeen env i d))"
| "db_step d (snd (DeleteTunnel env i u d))"
| "db_step d (snd (DeleteTunnelByAdmin env i d))"
| "env_ok env \<Longrightarrow> db_step d (snd (CreateConnection env c d))"
| "db_step d (snd (UpdateConnection env c d))"
| "db_step d (cleanupOldConnections env d)"

definition empty_db :: database where
  "empty_db = \<lparr>db_users = [], db_tunnels = [], db_connections = []\<rparr>"

lemma step_keeps: "db_step d d' \<Longrightarrow> db_ok d \<Longrightarrow> db_ok d'"
  by (induction rule: db_step.induct) (simp_all add: db_keeps)

lemma empty_ok: "db_ok empty_db"
  by (simp add: empty_db_def db_ok_def users_ok_def tunnels_ok_def connections_ok_def)

lemma db_reach_ok: "db_step\<^sup>*\<^sup>* empty_db d \<Longrightarrow> db_ok d"
  by (induction rule: rtranclp_induct) (simp_all add: empty_ok step_keeps)

section \<open>Identifiers of rows and of values\<close>

text \<open>The text of an identifier in a statement is never that of a row.\<close>

lemma written_id: "uuid_ok lib \<Longrightarrow> length b = 16 \<Longrightarrow> stored_id i \<Longrightarrow> ul_string lib b \<noteq> i"
proof
  assume "uuid_ok lib" "length b = 16" "stored_id i" "ul_string lib b = i"
  moreover from \<open>stored_id i\<close> have "length i = 32" by (auto simp: stored_id_def length_hex)
  ultimately show False by (auto simp: uuid_ok_def)
qed

lemma written_row:
  assumes "db_ok d" "uuid_ok lib" "length b = 16"
  shows "u \<in> set (db_users d) \<Longrightarrow> uw_id u \<noteq> ul_string lib b" "t \<in> set (db_tunnels d) \<Longrightarrow> tr_id t \<noteq> ul_string lib b"
    "c \<in> set (db_connections d) \<Longrightarrow> cr_id c \<noteq> ul_string lib b"
  using assms(1) written_id [OF assms(2,3)]
  by (fastforce simp: db_ok_def users_ok_def tunnels_ok_def connections_ok_def)+

lemma written_ex:
  assumes "db_ok d" "uuid_ok lib" "length b = 16"
  shows "\<not> list_ex (\<lambda>u. uw_id u = ul_string lib b) (db_users d)" "\<not> list_ex (\<lambda>t. tr_id t = ul_string lib b \<and> Q t) (db_tunnels d)"
    "\<not> list_ex (\<lambda>t. tr_id t = ul_string lib b) (db_tunnels d)"
    "filter (\<lambda>t. tr_id t = ul_string lib b) (db_tunnels d) = []"
  using written_row [OF assms] by (auto simp: list_ex_iff filter_empty_conv)

text \<open>An identifier library with the behaviour that is relied on: groups of digits with hyphens, read back with or without them.\<close>

fun unhex :: "string \<Rightarrow> byte list option" where
  "unhex (a # b # s) =
     (case (hex_val a, hex_val b, unhex s) of
        (Some x, Some y, Some bs) \<Rightarrow> Some (word_of_nat (16 * x + y) # bs)
      | _ \<Rightarrow> None)"
| "unhex s = (if s = [] then Some [] else None)"

definition sample_uuid :: uuid_lib where
  "sample_uuid =
     \<lparr>ul_parse = (\<lambda>s. if length s = 32 then unhex s else if length s = 36 then unhex (filter (\<lambda>c. c \<noteq> CHR ''-'') s) else None),
      ul_string = (\<lambda>b. hex (take 4 b) @ ''-'' @ hex (take 2 (drop 4 b)) @ ''-'' @ hex (take 2 (drop 6 b)) @ ''-'' @
         hex (take 2 (drop 8 b)) @ ''-'' @ hex (drop 10 b))\<rparr>"

lemma hex_val_digit: "d < 16 \<Longrightarrow> hex_val (hex_digit d) = Some d"
  by (auto simp: hex_digit_def hex_val_def Let_def)

lemma hex_digits: "unat (b :: byte) div 16 < 16" "unat b mod 16 < 16"
  by (simp_all add: less_mult_imp_div_less unsigned_less [of b, simplified])

lemma unhex_hex: "unhex (hex b) = Some b"
proof (induction b)
  case (Cons x b)
  have "hex (x # b) = hex_digit (unat x div 16) # hex_digit (unat x mod 16) # hex b" by (simp add: hex_def)
  moreover have "word_of_nat (16 * (unat x div 16) + unat x mod 16) = x" by simp
  ultimately show ?case using Cons hex_val_digit hex_digits by simp
qed (simp add: hex_def)

lemma hex_append: "hex (a @ b) = hex a @ hex b"
  by (simp add: hex_def)

lemma hex_set: "c \<in> set (hex b) \<Longrightarrow> hex_val c \<noteq> None"
proof -
  assume "c \<in> set (hex b)"
  then obtain x :: byte where "c = hex_digit (unat x div 16) \<or> c = hex_digit (unat x mod 16)" by (auto simp: hex_def)
  then show ?thesis using hex_val_digit [OF hex_digits(1), of x] hex_val_digit [OF hex_digits(2), of x] by fastforce
qed

lemma hex_no_hyphen: "filter (\<lambda>c. c \<noteq> CHR ''-'') (hex b) = hex b"
proof -
  have "hex_val (CHR ''-'') = None" by (simp add: hex_val_def)
  then show ?thesis using hex_set [of "CHR ''-''" b] by (intro filter_True ballI notI) simp
qed

lemma pieces: "take n (drop m b) @ drop (n + m) b = drop m b"
  by (metis append_take_drop_id drop_drop)

lemma sample_parse:
  "length s = 32 \<Longrightarrow> ul_parse sample_uuid s = unhex s"
  "length s = 36 \<Longrightarrow> ul_parse sample_uuid s = unhex (filter (\<lambda>c. c \<noteq> CHR ''-'') s)"
  by (simp_all add: sample_uuid_def)

lemma sample_written:
  assumes "length b = 16"
  shows "length (ul_string sample_uuid b) = 36" and "filter (\<lambda>c. c \<noteq> CHR ''-'') (ul_string sample_uuid b) = hex b"
proof -
  show "length (ul_string sample_uuid b) = 36" using assms by (simp add: sample_uuid_def length_hex)
  have "filter (\<lambda>c. c \<noteq> CHR ''-'') (ul_string sample_uuid b) =
      hex (take 4 b @ take 2 (drop 4 b) @ take 2 (drop 6 b) @ take 2 (drop 8 b) @ drop 10 b)"
    by (simp add: sample_uuid_def hex_no_hyphen hex_append)
  also have "take 4 b @ take 2 (drop 4 b) @ take 2 (drop 6 b) @ take 2 (drop 8 b) @ drop 10 b = b"
    using pieces [of 2 8 b] pieces [of 2 6 b] pieces [of 2 4 b] by simp
  finally show "filter (\<lambda>c. c \<noteq> CHR ''-'') (ul_string sample_uuid b) = hex b" .
qed

lemma sample_uuid_ok: "uuid_ok sample_uuid"
proof -
  have "ul_parse sample_uuid (hex b) = Some b \<and> ul_parse sample_uuid (ul_string sample_uuid b) = Some b \<and>
      length (ul_string sample_uuid b) = 36" if b: "length b = 16" for b
    using sample_written [OF b] sample_parse(2) [OF sample_written(1) [OF b]] sample_parse(1) [of "hex b"] b
    by (simp add: length_hex unhex_hex)
  then show ?thesis unfolding uuid_ok_def by blast
qed

definition sample_db_env :: db_env where
  "sample_db_env = \<lparr>de_lib = sample_uuid, de_ok = True, de_fk = True, de_random = replicate 16 5, de_now = 1700000000 * second,
     de_time_text = False\<rparr>"

definition sample_user :: user where
  "sample_user = \<lparr>ur_ID = replicate 16 1, ur_Username = ''ann'', ur_Email = ''ann@example.org'', ur_Password = ''hash'', ur_Role = ''user'',
     ur_APIKey = ''key-1'', ur_CreatedAt = 0, ur_UpdatedAt = 0\<rparr>"

definition sample_db :: database where
  "sample_db = snd (CreateUser sample_db_env sample_user empty_db)"

lemma sample_db_env_ok: "env_ok sample_db_env"
  by (simp add: env_ok_def sample_db_env_def sample_uuid_ok)

lemma sample_db_reach: "db_step\<^sup>*\<^sup>* empty_db sample_db"
  unfolding sample_db_def by (rule r_into_rtranclp) (rule db_step.intros(1) [OF sample_db_env_ok])

text \<open>
  The schema gives its rows identifiers of 32 digits, and the Go code writes an identifier with hyphens. So with an
  identifier that went through a Go value nothing is found: a user or a tunnel named by it is not deleted, read or
  changed, the closing update of a connection changes no row, and where foreign keys are enforced no tunnel and no
  connection can be created at all.
\<close>

theorem written_identifiers_match_nothing:
  assumes "db_step\<^sup>*\<^sup>* empty_db d" and "uuid_ok (de_lib env)" and "length i = 16"
  shows "snd (DeleteUser env (ul_string (de_lib env) i) d) = d \<and> fst (DeleteUser env (ul_string (de_lib env) i) d) \<noteq> Ok () \<and>
    GetTunnelByID env (ul_string (de_lib env) i) d = Fail (if de_ok env then NoRows else DriverError) \<and>
    fst (UpdateTunnel env (ul_string (de_lib env) i) u name h p d) \<noteq> Ok () \<and>
    fst (DeleteTunnel env (ul_string (de_lib env) i) u d) \<noteq> Ok () \<and>
    fst (DeleteTunnelByAdmin env (ul_string (de_lib env) i) d) \<noteq> Ok () \<and>
    snd (UpdateConnection env (c\<lparr>cn_ID := i\<rparr>) d) = d \<and>
    (de_fk env \<longrightarrow> (\<forall>t v. fst (CreateTunnel env (t\<lparr>tn_UserID := i\<rparr>) d) \<noteq> Ok v) \<and>
       (\<forall>c v. fst (CreateConnection env (c\<lparr>cn_TunnelID := i\<rparr>) d) \<noteq> Ok v))"
proof -
  note ok = db_reach_ok [OF assms(1)]
  note n = written_ex [OF ok assms(2,3)] written_row(3) [OF ok assms(2,3)]
  have "map (\<lambda>r. if cr_id r = ul_string (de_lib env) i then f r else r) (db_connections d) = db_connections d" for f
    using n(5) by (auto intro: map_idI)
  then show ?thesis
    using n by (auto simp: DeleteUser_def GetTunnelByID_def query_row_def UpdateTunnel_def DeleteTunnel_def DeleteTunnelByAdmin_def
        delete_tunnel_where_def UpdateConnection_def CreateTunnel_def CreateConnection_def Let_def)
qed

theorem written_identifiers_match_nothing_witness:
  "length (db_users sample_db) = 1 \<and>
   snd (DeleteUser sample_db_env (ul_string sample_uuid (ur_ID (case GetUserByUsername sample_db_env ''ann'' sample_db of Ok u \<Rightarrow> u))) sample_db) =
     sample_db"
proof -
  have row: "ul_parse sample_uuid (new_id sample_db_env) = Some (replicate 16 5)"
    using sample_uuid_ok by (simp add: uuid_ok_def new_id_def sample_db_env_def)
  have one: "length (db_users sample_db) = 1"
    by (simp add: sample_db_def CreateUser_def Let_def sample_db_env_def empty_db_def)
  have "ur_ID (case GetUserByUsername sample_db_env ''ann'' sample_db of Ok u \<Rightarrow> u) = replicate 16 5"
    using row by (simp add: GetUserByUsername_def query_row_def scan_user_def sample_db_def CreateUser_def Let_def sample_db_env_def
        sample_user_def empty_db_def)
  moreover have lib: "de_lib sample_db_env = sample_uuid" by (simp add: sample_db_env_def)
  ultimately show ?thesis
    using one written_identifiers_match_nothing [OF sample_db_reach, of sample_db_env "replicate 16 5"] sample_uuid_ok by simp
qed

end
