(* ===== verification/TunnelApi.thy ===== *)
theory TunnelApi
  imports TunnelDb
begin

text \<open>
  The web interface of the tunnel server: accounts and tokens (\<open>internal/auth\<close>), the middleware in front of the routes
  (\<open>internal/middleware\<close>), the handlers (\<open>internal/api\<close>) and the routes of \<open>startHTTPServer\<close>. Password hashing, the
  token format and the validation of mail addresses are the libraries'. Files and web sockets are left out.
\<close>

section \<open>Tokens\<close>

record claims =
  cm_UserID :: string
  cm_Username :: string
  cm_Role :: string
  cm_ExpiresAt :: gtime
  cm_IssuedAt :: gtime
  cm_Issuer :: string

text \<open>
  The libraries: a hash of a password, its check, the signature of claims with a secret, and \<open>ParseWithClaims\<close>: it asks
  the given function for a key, told whether the token names an HMAC method, and answers with the claims and whether they
  are valid at a time.
\<close>

record auth_lib =
  al_hash :: "string \<Rightarrow> string option"
  al_check :: "string \<Rightarrow> string \<Rightarrow> bool"
  al_sign :: "string \<Rightarrow> claims \<Rightarrow> string option"
  al_parse :: "gtime \<Rightarrow> (bool \<Rightarrow> string option) \<Rightarrow> string \<Rightarrow> (claims \<times> bool) option"
  al_email :: "string \<Rightarrow> bool"

record auth_service =
  sv_jwtSecret :: string
  sv_tokenExpiry :: duration

record api_env =
  ae_db :: db_env
  ae_auth :: auth_lib
  ae_uuid :: uuid             \<comment> \<open>the identifier drawn for a new user\<close>
  ae_key :: uuid              \<comment> \<open>the identifier drawn for its API key\<close>
  ae_start :: gtime
  ae_pages :: "int \<times> int"     \<comment> \<open>pages of the database file and their size\<close>

abbreviation ae_now :: "api_env \<Rightarrow> gtime" where "ae_now env \<equiv> de_now (ae_db env)"
abbreviation ae_lib :: "api_env \<Rightarrow> uuid_lib" where "ae_lib env \<equiv> de_lib (ae_db env)"

definition HashPassword :: "auth_lib \<Rightarrow> string \<Rightarrow> string option" where
  "HashPassword lib password = al_hash lib password"

definition CheckPassword :: "auth_lib \<Rightarrow> string \<Rightarrow> string \<Rightarrow> bool" where
  "CheckPassword lib password stored = al_check lib stored password"

definition token_claims :: "api_env \<Rightarrow> auth_service \<Rightarrow> user \<Rightarrow> claims" where
  "token_claims env svc u =
     \<lparr>cm_UserID = ul_string (ae_lib env) (ur_ID u), cm_Username = ur_Username u, cm_Role = ur_Role u,
      cm_ExpiresAt = ae_now env + sv_tokenExpiry svc, cm_IssuedAt = ae_now env, cm_Issuer = ''proxvn''\<rparr>"

definition GenerateToken :: "api_env \<Rightarrow> auth_service \<Rightarrow> user \<Rightarrow> string option" where
  "GenerateToken env svc u = al_sign (ae_auth env) (sv_jwtSecret svc) (token_claims env svc u)"

definition ValidateToken :: "api_env \<Rightarrow> auth_service \<Rightarrow> string \<Rightarrow> claims option" where
  "ValidateToken env svc t =
     (case al_parse (ae_auth env) (ae_now env) (\<lambda>hmac. if hmac then Some (sv_jwtSecret svc) else None) t of
        None \<Rightarrow> None
      | Some (c, valid) \<Rightarrow> if valid then Some c else None)"

definition GenerateAPIKey :: "byte list option \<Rightarrow> gtime \<Rightarrow> string" where
  "GenerateAPIKey rnd now = (case rnd of None \<Rightarrow> ''proxvn_'' @ itoa now | Some b \<Rightarrow> ''proxvn_'' @ hex (take 32 b))"

section \<open>Requests and answers\<close>

text \<open>The fields of a JSON body that decodes, with the empty text for a field that is absent.\<close>

record api_json =
  js_username :: string
  js_email :: string
  js_password :: string
  js_role :: string

record api_request =
  aq_method :: string
  aq_path :: string
  aq_origin :: string
  aq_authorization :: string
  aq_token :: string
  aq_api_key :: string
  aq_json :: "api_json option"

record user_view =
  uv_id :: string
  uv_username :: string
  uv_email :: string
  uv_role :: string
  uv_api_key :: string
  uv_created_at :: "gtime option"

datatype api_data =
    NoData
  | LoginData string string string     \<comment> \<open>token, name and role\<close>
  | NewUser string string string       \<comment> \<open>identifier, name and API key\<close>
  | UserView user_view
  | UserViews "user_view list"
  | Tunnels "tunnel list"
  | Metrics metrics duration
  | Health duration
  | DatabaseStats int
  | TextData string
  | MetricsStream                      \<comment> \<open>a web socket\<close>

record api_response =
  ap_code :: nat
  ap_success :: bool
  ap_error :: string
  ap_data :: api_data

definition api_ok :: "nat \<Rightarrow> api_data \<Rightarrow> api_response" where
  "api_ok code x = \<lparr>ap_code = code, ap_success = True, ap_error = [], ap_data = x\<rparr>"

definition api_fail :: "nat \<Rightarrow> string \<Rightarrow> api_response" where
  "api_fail code e = \<lparr>ap_code = code, ap_success = False, ap_error = e, ap_data = NoData\<rparr>"

text \<open>What the middleware stores in the context of a request.\<close>

record api_context =
  ac_user_id :: string
  ac_username :: string
  ac_role :: string

section \<open>Middleware\<close>

definition trim_prefix :: "string \<Rightarrow> string \<Rightarrow> string" where
  "trim_prefix s p = (if has_prefix s p then drop (length p) s else s)"

definition request_token :: "api_request \<Rightarrow> string" where
  "request_token req =
     (let t = (if aq_authorization req \<noteq> [] then trim_prefix (aq_authorization req) ''Bearer '' else []) in
      if t = [] then aq_token req else t)"

definition AuthMiddleware :: "api_env \<Rightarrow> auth_service \<Rightarrow> api_request \<Rightarrow> (api_response, api_context) res" where
  "AuthMiddleware env svc req =
     (let t = request_token req in
      if t = [] then Fail (api_fail 401 ''Authorization required'')
      else case ValidateToken env svc t of
             None \<Rightarrow> Fail (api_fail 401 ''Invalid token'')
           | Some c \<Rightarrow> Ok \<lparr>ac_user_id = cm_UserID c, ac_username = cm_Username c, ac_role = cm_Role c\<rparr>)"

definition APIKeyMiddleware :: "api_env \<Rightarrow> api_request \<Rightarrow> database \<Rightarrow> (api_response, api_context) res" where
  "APIKeyMiddleware env req d =
     (if aq_api_key req = [] then Fail (api_fail 401 ''API key required'')
      else case GetUserByAPIKey (ae_db env) (aq_api_key req) d of
             Ok u \<Rightarrow> Ok \<lparr>ac_user_id = ul_string (ae_lib env) (ur_ID u), ac_username = ur_Username u, ac_role = ur_Role u\<rparr>
           | _ \<Rightarrow> Fail (api_fail 401 ''Invalid API key''))"

definition AdminMiddleware :: "api_context \<Rightarrow> (api_response, api_context) res" where
  "AdminMiddleware ctx = (if ac_role ctx \<noteq> ''admin'' then Fail (api_fail 403 ''Admin access required'') else Ok ctx)"

text \<open>The headers of \<open>CORSMiddleware\<close>, and whether it answers the request itself.\<close>

definition CORSMiddleware :: "api_request \<Rightarrow> (string \<times> string) list \<times> bool" where
  "CORSMiddleware req =
     ([(''Access-Control-Allow-Origin'', if aq_origin req \<noteq> [] then aq_origin req else ''*''),
       (''Access-Control-Allow-Methods'', ''GET, POST, PUT, DELETE, OPTIONS, PATCH''),
       (''Access-Control-Allow-Headers'', ''Origin, Content-Type, Authorization, X-API-Key, X-Requested-With''),
       (''Access-Control-Allow-Credentials'', ''true''),
       (''Access-Control-Max-Age'', ''86400'')],
      aq_method req = ''OPTIONS'')"

section \<open>Handlers\<close>

definition api_Login :: "api_env \<Rightarrow> auth_service \<Rightarrow> api_request \<Rightarrow> database \<Rightarrow> api_response" where
  "api_Login env svc req d =
     (case aq_json req of
        None \<Rightarrow> api_fail 400 ''Invalid request''
      | Some j \<Rightarrow>
          if js_username j = [] \<or> js_password j = [] then api_fail 400 ''Invalid request''
          else case GetUserByUsername (ae_db env) (js_username j) d of
                 Ok u \<Rightarrow>
                   if \<not> al_check (ae_auth env) (ur_Password u) (js_password j) then api_fail 401 ''Invalid credentials''
                   else (case GenerateToken env svc u of
                           None \<Rightarrow> api_fail 500 ''Failed to generate token''
                         | Some t \<Rightarrow> api_ok 200 (LoginData t (ur_Username u) (ur_Role u)))
               | _ \<Rightarrow> api_fail 401 ''Invalid credentials'')"

text \<open>The rules on the fields of a new user.\<close>

definition valid_new_user :: "api_env \<Rightarrow> api_json \<Rightarrow> bool" where
  "valid_new_user env j \<longleftrightarrow> js_username j \<noteq> [] \<and> js_email j \<noteq> [] \<and> al_email (ae_auth env) (js_email j) \<and> 6 \<le> length (js_password j)"

definition api_user :: "api_env \<Rightarrow> api_json \<Rightarrow> string \<Rightarrow> string \<Rightarrow> user" where
  "api_user env j hashed role =
     \<lparr>ur_ID = ae_uuid env, ur_Username = js_username j, ur_Email = js_email j, ur_Password = hashed, ur_Role = role,
      ur_APIKey = ul_string (ae_lib env) (ae_key env), ur_CreatedAt = 0, ur_UpdatedAt = 0\<rparr>"

text \<open>The answer to a bad body also quotes the decoder, which is left out.\<close>

definition api_Register :: "api_env \<Rightarrow> api_request \<Rightarrow> database \<Rightarrow> api_response \<times> database" where
  "api_Register env req d =
     (case aq_json req of
        None \<Rightarrow> (api_fail 400 ''Invalid request'', d)
      | Some j \<Rightarrow>
          if \<not> valid_new_user env j then (api_fail 400 ''Invalid request'', d)
          else case al_hash (ae_auth env) (js_password j) of
                 None \<Rightarrow> (api_fail 500 ''Failed to process password'', d)
               | Some h \<Rightarrow>
                   let (r, d') = CreateUser (ae_db env) (api_user env j h ''user'') d in
                   case r of
                     Ok u \<Rightarrow> (api_ok 201 (NewUser (ul_string (ae_lib env) (ur_ID u)) (ur_Username u) (ur_APIKey u)), d')
                   | _ \<Rightarrow> (api_fail 400 ''Username or email already exists'', d'))"

definition view_of :: "api_env \<Rightarrow> user \<Rightarrow> gtime option \<Rightarrow> user_view" where
  "view_of env u created =
     \<lparr>uv_id = ul_string (ae_lib env) (ur_ID u), uv_username = ur_Username u, uv_email = ur_Email u, uv_role = ur_Role u,
      uv_api_key = ur_APIKey u, uv_created_at = created\<rparr>"

definition api_GetProfile :: "api_env \<Rightarrow> api_context \<Rightarrow> database \<Rightarrow> api_response" where
  "api_GetProfile env ctx d =
     (case GetUserByUsername (ae_db env) (ac_username ctx) d of
        Ok u \<Rightarrow> api_ok 200 (UserView (view_of env u None))
      | _ \<Rightarrow> api_fail 404 ''User not found'')"

definition api_GetAllUsers :: "api_env \<Rightarrow> database \<Rightarrow> api_response" where
  "api_GetAllUsers env d =
     (case GetAllUsers (ae_db env) d of
        Ok us \<Rightarrow> api_ok 200 (UserViews (map (\<lambda>u. view_of env u (Some (ur_CreatedAt u))) us))
      | _ \<Rightarrow> api_fail 500 ''Failed to fetch users'')"

definition api_CreateUserByAdmin :: "api_env \<Rightarrow> api_request \<Rightarrow> database \<Rightarrow> api_response \<times> database" where
  "api_CreateUserByAdmin env req d =
     (case aq_json req of
        None \<Rightarrow> (api_fail 400 ''Invalid request'', d)
      | Some j \<Rightarrow>
          if \<not> valid_new_user env j then (api_fail 400 ''Invalid request'', d)
          else case al_hash (ae_auth env) (js_password j) of
                 None \<Rightarrow> (api_fail 500 ''Failed to process password'', d)
               | Some h \<Rightarrow>
                   let role = (if js_role j = [] then ''user'' else js_role j);
                       (r, d') = CreateUser (ae_db env) (api_user env j h role) d in
                   case r of
                     Ok u \<Rightarrow> (api_ok 201 (UserView (view_of env u None)), d')
                   | _ \<Rightarrow> (api_fail 400 ''Failed to create user'', d'))"

definition api_DeleteUser :: "api_env \<Rightarrow> api_context \<Rightarrow> string \<Rightarrow> database \<Rightarrow> api_response \<times> database" where
  "api_DeleteUser env ctx i d =
     (if i = ac_user_id ctx then (api_fail 400 ''Cannot delete your own account'', d)
      else let (r, d') = DeleteUser (ae_db env) i d in
        case r of Ok _ \<Rightarrow> (api_ok 200 (TextData ''User deleted successfully''), d') | _ \<Rightarrow> (api_fail 500 ''Failed to delete user'', d'))"

definition api_GetAllTunnels :: "api_env \<Rightarrow> database \<Rightarrow> api_response" where
  "api_GetAllTunnels env d =
     (case GetAllTunnels (ae_db env) d of Ok ts \<Rightarrow> api_ok 200 (Tunnels ts) | _ \<Rightarrow> api_fail 500 ''Failed to fetch tunnels'')"

definition api_DeleteTunnelByAdmin :: "api_env \<Rightarrow> string \<Rightarrow> database \<Rightarrow> api_response \<times> database" where
  "api_DeleteTunnelByAdmin env i d =
     (let (r, d') = DeleteTunnelByAdmin (ae_db env) i d in
      case r of Ok _ \<Rightarrow> (api_ok 200 (TextData ''Tunnel deleted successfully''), d') | _ \<Rightarrow> (api_fail 500 ''Failed to delete tunnel'', d'))"

text \<open>\<open>GetDatabaseStats\<close>, of which the size of the file is kept.\<close>

definition GetDatabaseStats :: "api_env \<Rightarrow> (db_error, int) res" where
  "GetDatabaseStats env = (if de_ok (ae_db env) then Ok (fst (ae_pages env) * snd (ae_pages env)) else Fail DriverError)"

definition api_GetSystemStats :: "api_env \<Rightarrow> api_response" where
  "api_GetSystemStats env =
     (case GetDatabaseStats env of Ok n \<Rightarrow> api_ok 200 (DatabaseStats n) | _ \<Rightarrow> api_fail 500 ''Failed to get stats'')"

definition api_GetTunnels :: "api_env \<Rightarrow> api_context \<Rightarrow> database \<Rightarrow> api_response" where
  "api_GetTunnels env ctx d =
     (case GetTunnelsByUserID (ae_db env) (ac_user_id ctx) d of
        Ok ts \<Rightarrow> api_ok 200 (Tunnels ts)
      | _ \<Rightarrow> api_fail 500 ''Failed to fetch tunnels'')"

definition api_GetMetrics :: "api_env \<Rightarrow> database \<Rightarrow> api_response" where
  "api_GetMetrics env d =
     (case GetMetrics (ae_db env) d of
        Ok m \<Rightarrow> api_ok 200 (Metrics m (time_sub (ae_now env) (ae_start env)))
      | _ \<Rightarrow> api_fail 500 ''Failed to fetch metrics'')"

definition api_Health :: "api_env \<Rightarrow> api_response" where
  "api_Health env = api_ok 200 (Health (time_sub (ae_now env) (ae_start env)))"

section \<open>Routes\<close>

datatype route =
    LoginRoute | RegisterRoute | MetricsRoute | HealthRoute | ProfileRoute | TunnelsRoute | SocketRoute
  | AdminUsers | AdminCreateUser | AdminDeleteUser string | AdminTunnels | AdminDeleteTunnel string | AdminStats

text \<open>A path with a parameter: one segment that is not empty.\<close>

definition path_param :: "string \<Rightarrow> string \<Rightarrow> string option" where
  "path_param pre path =
     (if has_prefix path pre
      then let i = drop (length pre) path in if i = [] \<or> CHR ''/'' \<in> set i then None else Some i
      else None)"

definition find_route :: "string \<Rightarrow> string \<Rightarrow> route option" where
  "find_route m path =
     (if m = ''POST'' then
        (if path = ''/api/auth/login'' then Some LoginRoute
         else if path = ''/api/auth/register'' then Some RegisterRoute
         else if path = ''/api/admin/users'' then Some AdminCreateUser else None)
      else if m = ''GET'' then
        (if path = ''/api/metrics'' then Some MetricsRoute
         else if path = ''/api/health'' then Some HealthRoute
         else if path = ''/api/profile'' then Some ProfileRoute
         else if path = ''/api/tunnels'' then Some TunnelsRoute
         else if path = ''/api/ws'' then Some SocketRoute
         else if path = ''/api/admin/users'' then Some AdminUsers
         else if path = ''/api/admin/tunnels'' then Some AdminTunnels
         else if path = ''/api/admin/stats'' then Some AdminStats else None)
      else if m = ''DELETE'' then
        (case path_param ''/api/admin/users/'' path of
           Some i \<Rightarrow> Some (AdminDeleteUser i)
         | None \<Rightarrow> map_option AdminDeleteTunnel (path_param ''/api/admin/tunnels/'' path))
      else None)"

fun is_admin_route :: "route \<Rightarrow> bool" where
  "is_admin_route LoginRoute = False"
| "is_admin_route RegisterRoute = False"
| "is_admin_route MetricsRoute = False"
| "is_admin_route HealthRoute = False"
| "is_admin_route ProfileRoute = False"
| "is_admin_route TunnelsRoute = False"
| "is_admin_route SocketRoute = False"
| "is_admin_route _ = True"

definition protected :: "api_env \<Rightarrow> auth_service \<Rightarrow> api_request \<Rightarrow> database \<Rightarrow> (api_context \<Rightarrow> api_response \<times> database) \<Rightarrow> api_response \<times> database" where
  "protected env svc req d h = (case AuthMiddleware env svc req of Fail r \<Rightarrow> (r, d) | Ok ctx \<Rightarrow> h ctx | Panic \<Rightarrow> (api_fail 500 [], d))"

definition admin_only :: "api_env \<Rightarrow> auth_service \<Rightarrow> api_request \<Rightarrow> database \<Rightarrow> (api_context \<Rightarrow> api_response \<times> database) \<Rightarrow> api_response \<times> database" where
  "admin_only env svc req d h =
     protected env svc req d (\<lambda>ctx. case AdminMiddleware ctx of Fail r \<Rightarrow> (r, d) | Ok ctx \<Rightarrow> h ctx | Panic \<Rightarrow> (api_fail 500 [], d))"

definition serve_route :: "api_env \<Rightarrow> auth_service \<Rightarrow> route \<Rightarrow> api_request \<Rightarrow> database \<Rightarrow> api_response \<times> database" where
  "serve_route env svc r req d =
     (case r of
        LoginRoute \<Rightarrow> (api_Login env svc req d, d)
      | RegisterRoute \<Rightarrow> api_Register env req d
      | MetricsRoute \<Rightarrow> (api_GetMetrics env d, d)
      | HealthRoute \<Rightarrow> (api_Health env, d)
      | ProfileRoute \<Rightarrow> protected env svc req d (\<lambda>ctx. (api_GetProfile env ctx d, d))
      | TunnelsRoute \<Rightarrow> protected env svc req d (\<lambda>ctx. (api_GetTunnels env ctx d, d))
      | SocketRoute \<Rightarrow> protected env svc req d (\<lambda>ctx. (api_ok 101 MetricsStream, d))
      | AdminUsers \<Rightarrow> admin_only env svc req d (\<lambda>ctx. (api_GetAllUsers env d, d))
      | AdminCreateUser \<Rightarrow> admin_only env svc req d (\<lambda>ctx. api_CreateUserByAdmin env req d)
      | AdminDeleteUser i \<Rightarrow> admin_only env svc req d (\<lambda>ctx. api_DeleteUser env ctx i d)
      | AdminTunnels \<Rightarrow> admin_only env svc req d (\<lambda>ctx. (api_GetAllTunnels env d, d))
      | AdminDeleteTunnel i \<Rightarrow> admin_only env svc req d (\<lambda>ctx. api_DeleteTunnelByAdmin env i d)
      | AdminStats \<Rightarrow> admin_only env svc req d (\<lambda>ctx. (api_GetSystemStats env, d)))"

definition api_serve :: "api_env \<Rightarrow> auth_service \<Rightarrow> api_request \<Rightarrow> database \<Rightarrow> api_response \<times> database" where
  "api_serve env svc req d =
     (if snd (CORSMiddleware req) then (\<lparr>ap_code = 204, ap_success = True, ap_error = [], ap_data = NoData\<rparr>, d)
      else case find_route (aq_method req) (aq_path req) of
             None \<Rightarrow> (api_fail 404 [], d)     \<comment> \<open>a route outside the interface, or none\<close>
           | Some r \<Rightarrow> serve_route env svc r req d)"

text \<open>The administrator \<open>main\<close> makes when it finds no user, or cannot read them.\<close>

definition seed_admin :: "api_env \<Rightarrow> database \<Rightarrow> database" where
  "seed_admin env d =
     (let users = (case GetAllUsers (ae_db env) d of Ok us \<Rightarrow> us | _ \<Rightarrow> []) in
      if users \<noteq> [] then d
      else snd (CreateUser (ae_db env)
             \<lparr>ur_ID = ae_uuid env, ur_Username = ''admin'', ur_Email = ''admin@proxvn.com'',
              ur_Password = (case al_hash (ae_auth env) ''admin123'' of None \<Rightarrow> [] | Some h \<Rightarrow> h), ur_Role = ''admin'',
              ur_APIKey = ul_string (ae_lib env) (ae_key env), ur_CreatedAt = 0, ur_UpdatedAt = 0\<rparr> d))"

section \<open>Who may do what\<close>

lemma auth_ok:
  "AuthMiddleware env svc req = Ok ctx \<Longrightarrow>
   \<exists>c. ValidateToken env svc (request_token req) = Some c \<and> ac_role ctx = cm_Role c \<and> ac_user_id ctx = cm_UserID c"
  by (auto simp: AuthMiddleware_def Let_def split: if_splits option.splits)

lemma auth_fail: "AuthMiddleware env svc req = Fail r \<Longrightarrow> ap_code r = 401 \<and> ap_data r = NoData" "AuthMiddleware env svc req \<noteq> Panic"
  by (auto simp: AuthMiddleware_def Let_def api_fail_def split: if_splits option.splits)

definition is_admin_token :: "api_env \<Rightarrow> auth_service \<Rightarrow> api_request \<Rightarrow> bool" where
  "is_admin_token env svc req \<longleftrightarrow> (case ValidateToken env svc (request_token req) of None \<Rightarrow> False | Some c \<Rightarrow> cm_Role c = ''admin'')"

lemma admin_only_refuses:
  assumes "\<not> is_admin_token env svc req"
  shows "snd (admin_only env svc req d h) = d \<and> ap_code (fst (admin_only env svc req d h)) \<in> {401, 403} \<and>
    ap_data (fst (admin_only env svc req d h)) = NoData"
proof (cases "AuthMiddleware env svc req")
  case (Ok ctx)
  then have "ac_role ctx \<noteq> ''admin''" using auth_ok [OF Ok] assms by (auto simp: is_admin_token_def)
  then show ?thesis by (simp add: admin_only_def protected_def Ok AdminMiddleware_def api_fail_def)
next
  case (Fail r)
  then show ?thesis using auth_fail(1) [OF Fail] by (simp add: admin_only_def protected_def)
qed (simp add: auth_fail(2))

lemma admin_only_admits:
  assumes "is_admin_token env svc req" and "request_token req \<noteq> []"
  shows "\<exists>ctx. admin_only env svc req d h = h ctx \<and>
    (\<forall>c. ValidateToken env svc (request_token req) = Some c \<longrightarrow> ac_user_id ctx = cm_UserID c)"
proof -
  obtain c where c: "ValidateToken env svc (request_token req) = Some c" "cm_Role c = ''admin''"
    using assms by (auto simp: is_admin_token_def split: option.splits)
  then show ?thesis using assms(2)
    by (auto simp: admin_only_def protected_def AuthMiddleware_def Let_def AdminMiddleware_def)
qed

lemma admin_routes: "is_admin_route r \<Longrightarrow> \<exists>h. \<forall>req d. serve_route env svc r req d = admin_only env svc req d (h req d)"
  by (cases r) (auto simp: serve_route_def)

lemma served:
  "find_route (aq_method req) (aq_path req) = Some r \<Longrightarrow> api_serve env svc req d = serve_route env svc r req d"
  by (auto simp: api_serve_def CORSMiddleware_def find_route_def)

section \<open>Accounts\<close>

definition admin_names :: "database \<Rightarrow> string set" where
  "admin_names d = uw_username ` {u \<in> set (db_users d). uw_role u = ''admin''}"

lemma create_admins: "ur_Role u \<noteq> ''admin'' \<Longrightarrow> admin_names (snd (CreateUser env u d)) = admin_names d"
  by (auto simp: admin_names_def CreateUser_def Let_def)

lemma register_admins: "admin_names (snd (api_Register env req d)) = admin_names d"
proof -
  have u: "ur_Role (api_user env j h ''user'') \<noteq> ''admin''" for j h by (simp add: api_user_def)
  show ?thesis
    by (auto simp: api_Register_def Let_def case_prod_beta create_admins [OF u] split: option.split res.split)
qed

text \<open>A request without the token of an administrator neither makes nor removes one.\<close>

lemma serve_admins:
  assumes "\<not> is_admin_token env svc req"
  shows "admin_names (snd (api_serve env svc req d)) = admin_names d"
proof (cases "find_route (aq_method req) (aq_path req)")
  case None
  then show ?thesis by (simp add: api_serve_def)
next
  case (Some r)
  note s = served [OF Some, of env svc d]
  show ?thesis
  proof (cases "is_admin_route r")
    case True
    then obtain h where "serve_route env svc r req d = admin_only env svc req d (h req d)" using admin_routes by blast
    then show ?thesis using admin_only_refuses [OF assms] by (simp add: s)
  next
    case False
    then have "r = RegisterRoute \<or> snd (serve_route env svc r req d) = d"
      by (cases r) (auto simp: serve_route_def protected_def split: res.split)
    then show ?thesis using register_admins by (auto simp: s serve_route_def)
  qed
qed

lemma scan_role: "scan_user env r = Ok u \<Longrightarrow> ur_Role u = uw_role r \<and> ur_Username u = uw_username r"
  by (auto simp: scan_user_def split: option.splits)

lemma found_role: "GetUserByUsername env n d = Ok u \<Longrightarrow> ur_Role u = ''admin'' \<Longrightarrow> ur_Username u \<in> admin_names d"
proof -
  assume "GetUserByUsername env n d = Ok u" and a: "ur_Role u = ''admin''"
  then obtain r rs where "filter (\<lambda>r. uw_username r = n) (db_users d) = r # rs" "scan_user env r = Ok u"
    by (auto simp: GetUserByUsername_def query_row_def split: if_splits list.splits)
  moreover from this have "r \<in> set (filter (\<lambda>r. uw_username r = n) (db_users d))" by simp
  then have "r \<in> set (db_users d)" by simp
  ultimately show ?thesis using a scan_role [of env r u] by (auto simp: admin_names_def)
qed

section \<open>Runs\<close>

text \<open>The token a request is answered with, and the claims it is for.\<close>

definition issued :: "api_env \<Rightarrow> auth_service \<Rightarrow> api_request \<Rightarrow> database \<Rightarrow> (string \<times> claims) set" where
  "issued env svc req d =
     {(t, c). find_route (aq_method req) (aq_path req) = Some LoginRoute \<and>
        (\<exists>j u. aq_json req = Some j \<and> GetUserByUsername (ae_db env) (js_username j) d = Ok u \<and> c = token_claims env svc u \<and>
           GenerateToken env svc u = Some t \<and> fst (api_serve env svc req d) = api_ok 200 (LoginData t (ur_Username u) (ur_Role u)))}"

text \<open>The token library accepts only what was signed with the secret: the tokens issued so far.\<close>

definition signed_only :: "api_env \<Rightarrow> auth_service \<Rightarrow> (string \<times> claims) set \<Rightarrow> bool" where
  "signed_only env svc I \<longleftrightarrow>
     (\<forall>t c. al_parse (ae_auth env) (ae_now env) (\<lambda>hmac. if hmac then Some (sv_jwtSecret svc) else None) t = Some (c, True) \<longrightarrow> (t, c) \<in> I)"

text \<open>
  The states requests lead to, with the tokens issued so far and the names that were administrators at some time.
\<close>

inductive api_reach :: "auth_service \<Rightarrow> database \<Rightarrow> database \<Rightarrow> (string \<times> claims) set \<Rightarrow> string set \<Rightarrow> bool" for svc d0 where
  start: "api_reach svc d0 d0 {} (admin_names d0)"
| request: "api_reach svc d0 d I A \<Longrightarrow> signed_only env svc I \<Longrightarrow>
    api_reach svc d0 (snd (api_serve env svc req d)) (I \<union> issued env svc req d) (A \<union> admin_names (snd (api_serve env svc req d)))"

lemma validated: "signed_only env svc I \<Longrightarrow> ValidateToken env svc t = Some c \<Longrightarrow> (t, c) \<in> I"
  by (auto simp: signed_only_def ValidateToken_def split: option.splits prod.splits if_splits)

lemma issued_admin: "(t, c) \<in> issued env svc req d \<Longrightarrow> cm_Role c = ''admin'' \<Longrightarrow> cm_Username c \<in> admin_names d"
  using found_role by (auto simp: issued_def token_claims_def)

lemma reach_tokens:
  "api_reach svc d0 d I A \<Longrightarrow> admin_names d \<subseteq> A \<and> (\<forall>t c. (t, c) \<in> I \<and> cm_Role c = ''admin'' \<longrightarrow> cm_Username c \<in> A)"
proof (induction rule: api_reach.induct)
  case (request d I A env req)
  then show ?case using issued_admin [of _ _ env svc req d] by blast
qed simp

text \<open>A service with one account, whose holder logs in at time 0; the token library accepts the token later.\<close>

definition sample_claims :: claims where
  "sample_claims = \<lparr>cm_UserID = ul_string sample_uuid (replicate 16 5), cm_Username = ''admin'', cm_Role = ''admin'',
     cm_ExpiresAt = 24 * hour, cm_IssuedAt = 0, cm_Issuer = ''proxvn''\<rparr>"

definition sample_auth :: auth_lib where
  "sample_auth = \<lparr>al_hash = (\<lambda>p. Some (''h:'' @ p)), al_check = (\<lambda>h p. h = ''h:'' @ p), al_sign = (\<lambda>s c. Some ''token''),
     al_parse = (\<lambda>now key t. if 100 < now \<and> key True = Some ''s'' \<and> t = ''token'' then Some (sample_claims, True) else None),
     al_email = (\<lambda>e. True)\<rparr>"

definition sample_service :: auth_service where
  "sample_service = \<lparr>sv_jwtSecret = ''s'', sv_tokenExpiry = 24 * hour\<rparr>"

definition sample_api :: "gtime \<Rightarrow> api_env" where
  "sample_api t = \<lparr>ae_db = sample_db_env\<lparr>de_now := t\<rparr>, ae_auth = sample_auth, ae_uuid = replicate 16 1, ae_key = replicate 16 2,
     ae_start = 0, ae_pages = (1, 4096)\<rparr>"

definition sample_accounts :: database where
  "sample_accounts = seed_admin (sample_api 0) empty_db"

definition sample_request :: "string \<Rightarrow> string \<Rightarrow> api_request" where
  "sample_request m path = \<lparr>aq_method = m, aq_path = path, aq_origin = [], aq_authorization = ''Bearer token'', aq_token = [],
     aq_api_key = [], aq_json = Some \<lparr>js_username = ''admin'', js_email = [], js_password = ''admin123'', js_role = []\<rparr>\<rparr>"

lemma sample_id: "ul_parse sample_uuid (hex (replicate 16 5)) = Some (replicate 16 5)"
  using sample_uuid_ok by (simp add: uuid_ok_def)

lemma sample_users:
  "db_users sample_accounts =
     [\<lparr>uw_id = hex (replicate 16 5), uw_username = ''admin'', uw_email = ''admin@proxvn.com'', uw_password = ''h:admin123'', uw_role = ''admin'',
       uw_api_key = ul_string sample_uuid (replicate 16 2), uw_created = 0, uw_updated = 0\<rparr>]"
  by (simp add: sample_accounts_def seed_admin_def GetAllUsers_def query_rows_def newest_first_def empty_db_def sample_api_def
      sample_db_env_def CreateUser_def Let_def new_id_def sql_now_def sample_auth_def)

lemma sample_accounts_reach: "db_step\<^sup>*\<^sup>* empty_db sample_accounts"
proof -
  have "GetAllUsers (ae_db (sample_api 0)) empty_db = Ok []"
    by (simp add: GetAllUsers_def query_rows_def newest_first_def empty_db_def sample_api_def sample_db_env_def)
  moreover have "env_ok (ae_db (sample_api 0))" using sample_db_env_ok by (simp add: env_ok_def sample_api_def)
  ultimately show ?thesis unfolding sample_accounts_def seed_admin_def
    by (auto simp: Let_def intro: r_into_rtranclp db_step.intros(1))
qed

lemma sample_token:
  "ValidateToken (sample_api 200) sample_service (request_token (sample_request m path)) = Some sample_claims"
  "request_token (sample_request m path) = ''token''"
  by (simp_all add: request_token_def sample_request_def trim_prefix_def has_prefix_def ValidateToken_def sample_api_def sample_auth_def
      sample_service_def)

lemma sample_admin: "is_admin_token (sample_api 200) sample_service (sample_request m path)"
  using sample_token(1) [of m path] by (simp add: is_admin_token_def sample_claims_def)

lemma sample_login: "(''token'', sample_claims) \<in> issued (sample_api 0) sample_service (sample_request ''POST'' ''/api/auth/login'') sample_accounts"
proof -
  let ?r = "sample_request ''POST'' ''/api/auth/login''"
  have lib: "ae_lib (sample_api 0) = sample_uuid" "de_ok (ae_db (sample_api 0))" "ae_auth (sample_api 0) = sample_auth" "ae_now (sample_api 0) = 0"
    by (simp_all add: sample_api_def sample_db_env_def)
  obtain u where u: "GetUserByUsername (ae_db (sample_api 0)) ''admin'' sample_accounts = Ok u" "ur_Password u = ''h:admin123''"
      "token_claims (sample_api 0) sample_service u = sample_claims" "ur_Username u = ''admin''"
    by (simp add: GetUserByUsername_def query_row_def sample_users scan_user_def lib sample_id token_claims_def sample_claims_def
        sample_service_def)
  have route: "find_route (aq_method ?r) (aq_path ?r) = Some LoginRoute" by (simp add: sample_request_def find_route_def)
  have token: "GenerateToken (sample_api 0) sample_service u = Some ''token''"
    by (simp add: GenerateToken_def lib sample_auth_def)
  have "api_Login (sample_api 0) sample_service ?r sample_accounts = api_ok 200 (LoginData ''token'' (ur_Username u) (ur_Role u))"
    using u token by (simp add: api_Login_def sample_request_def lib sample_auth_def)
  then have "fst (api_serve (sample_api 0) sample_service ?r sample_accounts) = api_ok 200 (LoginData ''token'' (ur_Username u) (ur_Role u))"
    by (simp add: served [OF route] serve_route_def)
  then show ?thesis using route u token by (auto simp: issued_def sample_request_def)
qed

lemma sample_reach:
  "\<exists>A. api_reach sample_service sample_accounts sample_accounts
     ({} \<union> issued (sample_api 0) sample_service (sample_request ''POST'' ''/api/auth/login'') sample_accounts) A"
proof -
  let ?r = "sample_request ''POST'' ''/api/auth/login''"
  have "signed_only (sample_api 0) sample_service {}" by (simp add: signed_only_def sample_api_def sample_auth_def)
  from api_reach.request [OF api_reach.start this, of sample_accounts ?r]
  have "\<exists>A. api_reach sample_service sample_accounts (snd (api_serve (sample_api 0) sample_service ?r sample_accounts))
     ({} \<union> issued (sample_api 0) sample_service ?r sample_accounts) A" by blast
  moreover have "find_route (aq_method ?r) (aq_path ?r) = Some LoginRoute" by (simp add: sample_request_def find_route_def)
  then have "snd (api_serve (sample_api 0) sample_service ?r sample_accounts) = sample_accounts"
    by (simp add: served serve_route_def)
  ultimately show ?thesis by simp
qed


section \<open>Deleting accounts\<close>

lemma scan_all_ok: "scan_all f rs = Ok xs \<Longrightarrow> x \<in> set xs \<Longrightarrow> \<exists>r \<in> set rs. f r = Ok x"
proof (induction rs arbitrary: xs)
  case (Cons r rs)
  then obtain y ys where "f r = Ok y" "scan_all f rs = Ok ys" "xs = y # ys"
    by (cases "f r"; cases "scan_all f rs") auto
  then show ?case using Cons by auto
qed simp

lemma scan_id: "uuid_ok (de_lib env) \<Longrightarrow> stored_id (uw_id r) \<Longrightarrow> scan_user env r = Ok u \<Longrightarrow> length (ur_ID u) = 16 \<and> uw_id r = hex (ur_ID u)"
  by (auto simp: scan_user_def stored_id_def uuid_ok_def split: option.splits)

text \<open>The identifiers the list of users shows.\<close>

lemma listed_view:
  assumes "db_ok d" "uuid_ok (ae_lib env)" and "api_GetAllUsers env d = api_ok 200 (UserViews vs)" "v \<in> set vs"
  obtains b where "length b = 16" "uv_id v = ul_string (ae_lib env) b"
proof -
  obtain us where us: "GetAllUsers (ae_db env) d = Ok us" "vs = map (\<lambda>u. view_of env u (Some (ur_CreatedAt u))) us"
    using assms(3) by (auto simp: api_GetAllUsers_def api_ok_def api_fail_def split: res.splits)
  then obtain u where u: "u \<in> set us" "uv_id v = ul_string (ae_lib env) (ur_ID u)"
    using assms(4) by (auto simp: view_of_def)
  then obtain r where "r \<in> set (newest_first uw_created (db_users d))" "scan_user (ae_db env) r = Ok u"
    using us(1) by (auto simp: GetAllUsers_def query_rows_def split: if_splits dest: scan_all_ok)
  moreover from this have "stored_id (uw_id r)" using assms(1) by (simp add: newest_first_def db_ok_def users_ok_def)
  ultimately show thesis using that u(2) scan_id [OF assms(2)] by blast
qed

definition delete_request :: "api_request \<Rightarrow> string \<Rightarrow> api_request" where
  "delete_request req i = req\<lparr>aq_method := ''DELETE'', aq_path := ''/api/admin/users/'' @ i\<rparr>"

lemma delete_route:
  "i \<noteq> [] \<Longrightarrow> CHR ''/'' \<notin> set i \<Longrightarrow>
   find_route (aq_method (delete_request req i)) (aq_path (delete_request req i)) = Some (AdminDeleteUser i)"
  by (simp add: delete_request_def find_route_def path_param_def has_prefix_def)

lemma token_kept [simp]: "request_token (delete_request req i) = request_token req" "aq_origin (delete_request req i) = aq_origin req"
  by (simp_all add: request_token_def delete_request_def Let_def)

lemma delete_anywhere:
  "i \<noteq> [] \<Longrightarrow> find_route (aq_method (delete_request req i)) (aq_path (delete_request req i)) \<in> {None, Some (AdminDeleteUser i)}"
  by (cases "CHR ''/'' \<in> set i") (simp_all add: delete_route, simp add: delete_request_def find_route_def path_param_def has_prefix_def)

lemma stored_path: "stored_id i \<Longrightarrow> i \<noteq> [] \<and> CHR ''/'' \<notin> set i"
proof -
  assume "stored_id i"
  then obtain b where b: "length b = 16" "i = hex b" by (auto simp: stored_id_def)
  have "hex_val (CHR ''/'') = None" by (simp add: hex_val_def)
  moreover have "i \<noteq> []" using b(1) length_hex [of b] unfolding b(2) by fastforce
  ultimately show ?thesis using hex_set [of "CHR ''/''" b] unfolding b(2) by blast
qed

lemma delete_served:
  assumes "find_route (aq_method (delete_request req i)) (aq_path (delete_request req i)) = Some (AdminDeleteUser i)"
    and "is_admin_token env svc req" "request_token req \<noteq> []" "ValidateToken env svc (request_token req) = Some c"
  shows "\<exists>ctx. ac_user_id ctx = cm_UserID c \<and> api_serve env svc (delete_request req i) d = api_DeleteUser env ctx i d"
proof -
  have "is_admin_token env svc (delete_request req i)" using assms(2) by (simp add: is_admin_token_def)
  from admin_only_admits [OF this] obtain ctx where "ac_user_id ctx = cm_UserID c"
      "admin_only env svc (delete_request req i) d (\<lambda>ctx. api_DeleteUser env ctx i d) = api_DeleteUser env ctx i d"
    using assms(3,4) by fastforce
  then show ?thesis by (auto simp: served [OF assms(1)] serve_route_def)
qed

lemma delete_missing:
  "\<not> list_ex (\<lambda>u. uw_id u = i) (db_users d) \<Longrightarrow>
   ap_code (fst (api_DeleteUser env ctx i d)) \<noteq> 200 \<and> snd (api_DeleteUser env ctx i d) = d"
  by (simp add: api_DeleteUser_def DeleteUser_def api_fail_def)

definition list_request :: "api_request \<Rightarrow> api_request" where
  "list_request req = req\<lparr>aq_method := ''GET'', aq_path := ''/api/admin/users''\<rparr>"

lemma list_served:
  assumes "is_admin_token env svc req" "request_token req \<noteq> []"
  shows "api_serve env svc (list_request req) d = (api_GetAllUsers env d, d)"
proof -
  have t: "request_token (list_request req) = request_token req" by (simp add: request_token_def list_request_def Let_def)
  then have "is_admin_token env svc (list_request req)" using assms(1) by (simp add: is_admin_token_def)
  from admin_only_admits [OF this] have "admin_only env svc (list_request req) d (\<lambda>ctx. (api_GetAllUsers env d, d)) = (api_GetAllUsers env d, d)"
    using assms(2) t by fastforce
  moreover have "find_route (aq_method (list_request req)) (aq_path (list_request req)) = Some AdminUsers"
    by (simp add: list_request_def find_route_def)
  ultimately show ?thesis by (simp add: served serve_route_def)
qed

lemma sample_listed: "\<exists>v. api_GetAllUsers (sample_api 200) sample_accounts = api_ok 200 (UserViews [v])"
proof -
  have "ae_lib (sample_api 200) = sample_uuid" "de_ok (ae_db (sample_api 200))" by (simp_all add: sample_api_def sample_db_env_def)
  then show ?thesis by (auto simp: api_GetAllUsers_def GetAllUsers_def query_rows_def newest_first_def sample_users scan_user_def sample_id)
qed


text \<open>
  C31: An administrator cannot delete an account by the identifier the list of accounts shows: no row has it. By the
  identifier of the row every account is deleted, the own one included, which the handler means to refuse, and the
  token of a deleted administrator goes on being admitted until it expires.
\<close>

theorem deleting_accounts:
  assumes reach: "db_step\<^sup>*\<^sup>* empty_db d" and lib: "uuid_ok (ae_lib env)"
    and tok: "ValidateToken env svc (request_token req) = Some c" "cm_Role c = ''admin''" "request_token req \<noteq> []"
    and own: "cm_UserID c = ul_string (ae_lib env) b" "length b = 16"
    and listed: "fst (api_serve env svc (list_request req) d) = api_ok 200 (UserViews vs)" "v \<in> set vs"
    and row: "r \<in> set (db_users d)" and d': "d' = snd (api_serve env svc (delete_request req (uw_id r)) d)"
  shows "ap_code (fst (api_serve env svc (delete_request req (uv_id v)) d)) \<noteq> 200 \<and>
    snd (api_serve env svc (delete_request req (uv_id v)) d) = d \<and>
    ap_code (fst (api_serve env svc (delete_request req (uw_id r)) d)) = 200 \<and> r \<notin> set (db_users d') \<and>
    api_serve env svc (list_request req) d' = (api_GetAllUsers env d', d')"
proof -
  note ok = db_reach_ok [OF reach]
  have admin: "is_admin_token env svc req" using tok by (simp add: is_admin_token_def)
  note l = list_served [OF admin tok(3)]
  have all: "api_GetAllUsers env d = api_ok 200 (UserViews vs)" using listed(1) by (simp add: l)
  obtain a where a: "length a = 16" "uv_id v = ul_string (ae_lib env) a"
    by (rule listed_view [OF ok lib all listed(2)])
  then have "uv_id v \<noteq> []" using lib by (auto simp: uuid_ok_def)
  from delete_anywhere [OF this, of req]
  have shown: "ap_code (fst (api_serve env svc (delete_request req (uv_id v)) d)) \<noteq> 200 \<and>
      snd (api_serve env svc (delete_request req (uv_id v)) d) = d"
  proof (elim insertE)
    assume "find_route (aq_method (delete_request req (uv_id v))) (aq_path (delete_request req (uv_id v))) = None"
    then show ?thesis by (simp add: api_serve_def CORSMiddleware_def delete_request_def api_fail_def)
  next
    assume f: "find_route (aq_method (delete_request req (uv_id v))) (aq_path (delete_request req (uv_id v))) = Some (AdminDeleteUser (uv_id v))"
    then show ?thesis
      using delete_served [OF f admin tok(3,1), of d] delete_missing [OF written_ex(1) [OF ok lib a(1)]] by (auto simp: a(2))
  qed simp
  have id: "stored_id (uw_id r)" using ok row by (simp add: db_ok_def users_ok_def)
  then have "uw_id r \<noteq> cm_UserID c" using written_id [OF lib own(2)] own(1) by metis
  moreover obtain ctx where "ac_user_id ctx = cm_UserID c" "api_serve env svc (delete_request req (uw_id r)) d = api_DeleteUser env ctx (uw_id r) d"
    using delete_served [OF delete_route admin tok(3,1)] stored_path [OF id] by metis
  moreover have "de_ok (ae_db env)" using all by (auto simp: api_GetAllUsers_def GetAllUsers_def query_rows_def api_ok_def api_fail_def split: if_splits)
  moreover have "list_ex (\<lambda>u. uw_id u = uw_id r) (db_users d)" using row by (auto simp: list_ex_iff)
  ultimately have "ap_code (fst (api_serve env svc (delete_request req (uw_id r)) d)) = 200 \<and> r \<notin> set (db_users d')"
    unfolding d' by (auto simp: api_DeleteUser_def DeleteUser_def Let_def api_ok_def delete_tunnels_def)
  then show ?thesis using shown list_served [OF admin tok(3)] by blast
qed

theorem deleting_accounts_witness:
  "ap_code (fst (api_serve (sample_api 200) sample_service
     (delete_request (sample_request ''GET'' ''/'') (uw_id (hd (db_users sample_accounts)))) sample_accounts)) = 200"
proof -
  let ?q = "sample_request ''GET'' ''/''"
  obtain v where v: "api_GetAllUsers (sample_api 200) sample_accounts = api_ok 200 (UserViews [v])" using sample_listed by blast
  have lib: "uuid_ok (ae_lib (sample_api 200))" using sample_uuid_ok by (simp add: sample_api_def sample_db_env_def)
  have c: "cm_Role sample_claims = ''admin''" "request_token ?q \<noteq> []" "cm_UserID sample_claims = ul_string (ae_lib (sample_api 200)) (replicate 16 5)"
    "length (replicate 16 (5 :: byte)) = 16"
    by (simp_all add: sample_claims_def sample_token sample_api_def sample_db_env_def)
  have l: "fst (api_serve (sample_api 200) sample_service (list_request ?q) sample_accounts) = api_ok 200 (UserViews [v])"
    using list_served [OF sample_admin c(2)] v by simp
  have r: "hd (db_users sample_accounts) \<in> set (db_users sample_accounts)" by (simp add: sample_users)
  from deleting_accounts [OF sample_accounts_reach lib sample_token(1) c l _ r refl, of v] show ?thesis by simp
qed

end
