(* ===== verification/TunnelCache.thy ===== *)
theory TunnelCache
  imports GoSlice HttpModel "HOL-Library.Multiset"
begin

text \<open>
  The response cache of the tunnel server (\<open>internal/cache\<close>), its worker pool (\<open>internal/pool\<close>) and the choice of a
  compression (\<open>internal/compression\<close>). SHA-256 and the encoders are the libraries'.
\<close>

section \<open>The cache\<close>

record 'a cache_item =
  ci_Value :: 'a
  ci_Expiry :: gtime
  ci_AccessTime :: gtime
  ci_Hits :: nat

record 'a cache =
  ch_items :: "(string \<times> 'a cache_item) list"
  ch_maxSize :: int
  ch_ttl :: duration

definition newCache :: "int \<Rightarrow> duration \<Rightarrow> 'a cache" where
  "newCache maxSize ttl = \<lparr>ch_items = [], ch_maxSize = maxSize, ch_ttl = ttl\<rparr>"

definition cache_get :: "gtime \<Rightarrow> string \<Rightarrow> 'a cache \<Rightarrow> 'a option \<times> 'a cache" where
  "cache_get now key c =
     (case map_of (ch_items c) key of
        None \<Rightarrow> (None, c)
      | Some item \<Rightarrow>
          if time_after now (ci_Expiry item) then (None, c)
          else (Some (ci_Value item),
                c\<lparr>ch_items := AList.update key (item\<lparr>ci_AccessTime := now, ci_Hits := ci_Hits item + 1\<rparr>) (ch_items c)\<rparr>))"

text \<open>
  The scan of \<open>evictLRU\<close> over the map, in the order the iteration happens to take, which \<open>ks\<close> gives: the key and the
  time of the oldest item so far, \<open>None\<close> before the first.
\<close>

fun lru_scan :: "(string \<times> 'a cache_item) list \<Rightarrow> (string \<times> gtime) option \<Rightarrow> (string \<times> gtime) option" where
  "lru_scan [] best = best"
| "lru_scan ((key, item) # rest) best =
     lru_scan rest (case best of
        None \<Rightarrow> Some (key, ci_AccessTime item)
      | Some (k, t) \<Rightarrow> if ci_AccessTime item < t then Some (key, ci_AccessTime item) else Some (k, t))"

text \<open>\<open>order\<close> is the order of the iteration. An item under the empty key is never evicted.\<close>

definition evictLRU :: "((string \<times> 'a cache_item) list \<Rightarrow> (string \<times> 'a cache_item) list) \<Rightarrow> 'a cache \<Rightarrow> 'a cache" where
  "evictLRU order c =
     (case lru_scan (order (ch_items c)) None of
        None \<Rightarrow> c
      | Some (key, _) \<Rightarrow> if key \<noteq> [] then c\<lparr>ch_items := AList.delete key (ch_items c)\<rparr> else c)"

definition cache_set ::
  "((string \<times> 'a cache_item) list \<Rightarrow> (string \<times> 'a cache_item) list) \<Rightarrow> gtime \<Rightarrow> string \<Rightarrow> 'a \<Rightarrow> 'a cache \<Rightarrow> 'a cache" where
  "cache_set order now key v c =
     (let c = (if ch_maxSize c \<le> int (length (ch_items c)) then evictLRU order c else c) in
      c\<lparr>ch_items := AList.update key \<lparr>ci_Value = v, ci_Expiry = now + ch_ttl c, ci_AccessTime = now, ci_Hits = 0\<rparr> (ch_items c)\<rparr>)"

definition cache_delete :: "string \<Rightarrow> 'a cache \<Rightarrow> 'a cache" where
  "cache_delete key c = c\<lparr>ch_items := AList.delete key (ch_items c)\<rparr>"

definition cache_clear :: "'a cache \<Rightarrow> 'a cache" where
  "cache_clear c = c\<lparr>ch_items := []\<rparr>"

record cache_stats =
  cs_size :: nat
  cs_max_size :: int
  cs_total_hits :: nat

definition cache_stats_of :: "'a cache \<Rightarrow> cache_stats" where
  "cache_stats_of c =
     \<lparr>cs_size = length (ch_items c), cs_max_size = ch_maxSize c, cs_total_hits = sum_list (map (\<lambda>(k, i). ci_Hits i) (ch_items c))\<rparr>"

text \<open>A tick of \<open>cleanup\<close>.\<close>

definition cache_cleanup :: "gtime \<Rightarrow> 'a cache \<Rightarrow> 'a cache" where
  "cache_cleanup now c = c\<lparr>ch_items := m_keep (\<lambda>k i. \<not> time_after now (ci_Expiry i)) (ch_items c)\<rparr>"

section \<open>The caching middleware\<close>

record cached_response =
  ca_StatusCode :: int
  ca_Headers :: "(string list) smap"
  ca_Body :: "byte list"
  ca_ContentType :: string

definition tunnelCacheKey :: "(string \<Rightarrow> byte list) \<Rightarrow> request \<Rightarrow> string" where
  "tunnelCacheKey sha r =
     ''http:'' @ take 16 (hex (sha (r_method r @ r_url r @ header_get r ''Accept'' @ header_get r ''Accept-Encoding'')))"

text \<open>What the handler behind the middleware writes: the status, the headers and the body.\<close>

record handler_answer =
  ha_status :: int
  ha_header :: "(string list) smap"
  ha_body :: "byte list"

text \<open>\<open>c.Header(key, value)\<close> for every value of a header: each replaces the one before.\<close>

definition replay_headers :: "(string list) smap \<Rightarrow> (string list) smap" where
  "replay_headers hs = fold (\<lambda>(k, vs) m. fold (\<lambda>v m. AList.update k [v] m) vs m) hs []"

definition cacheMiddleware ::
  "(string \<Rightarrow> byte list) \<Rightarrow> ((string \<times> cached_response cache_item) list \<Rightarrow> (string \<times> cached_response cache_item) list) \<Rightarrow>
   gtime \<Rightarrow> (request \<Rightarrow> handler_answer) \<Rightarrow> request \<Rightarrow> cached_response cache \<Rightarrow> handler_answer \<times> cached_response cache" where
  "cacheMiddleware sha order now next r c =
     (if r_method r \<noteq> ''GET'' \<or> header_get r ''Authorization'' \<noteq> [] then (next r, c)
      else let key = tunnelCacheKey sha r in
        case cache_get now key c of
          (Some resp, c) \<Rightarrow>
            (\<lparr>ha_status = ca_StatusCode resp,
              ha_header = AList.update ''Content-Type'' [ca_ContentType resp] (AList.update ''X-Cache'' [''HIT''] (replay_headers (ca_Headers resp))),
              ha_body = ca_Body resp\<rparr>, c)
        | (None, c) \<Rightarrow>
            let a = next r; a = a\<lparr>ha_header := (''X-Cache'', [''MISS'']) # ha_header a\<rparr> in
            (a, if ha_status a = 200 \<and> ha_body a \<noteq> []
                then cache_set order now key
                  \<lparr>ca_StatusCode = ha_status a, ca_Headers = ha_header a, ca_Body = ha_body a,
                   ca_ContentType = first_value (ha_header a) ''Content-Type''\<rparr> c
                else c))"

section \<open>The worker pool\<close>

text \<open>
  The queue of tasks, the two channels that are closed by \<open>Stop\<close>, the tasks at work and those that are finished. A send
  into the closed queue is a panic, and so is a second \<open>Stop\<close>.
\<close>

record worker_pool =
  wp_maxWorkers :: nat
  wp_tasks :: "nat list"
  wp_stopped :: bool
  wp_idle :: nat
  wp_running :: "nat list"
  wp_finished :: "nat list"

definition newWorkerPool :: "nat \<Rightarrow> worker_pool" where
  "newWorkerPool n = \<lparr>wp_maxWorkers = n, wp_tasks = [], wp_stopped = False, wp_idle = n, wp_running = [], wp_finished = []\<rparr>"

text \<open>
  \<open>Submit\<close>: \<open>Ok None\<close> where it blocks. After \<open>Stop\<close> both cases of its select can be taken, the send into the closed
  queue among them; \<open>sends\<close> is the choice.
\<close>

definition pool_submit :: "bool \<Rightarrow> nat \<Rightarrow> worker_pool \<Rightarrow> (unit, worker_pool option) res" where
  "pool_submit sends t p =
     (if wp_stopped p then (if sends then Panic else Ok (Some p))
      else if length (wp_tasks p) < wp_maxWorkers p * 2 then Ok (Some (p\<lparr>wp_tasks := wp_tasks p @ [t]\<rparr>))
      else Ok None)"

text \<open>A turn of an idle worker: it takes a task, or leaves after \<open>Stop\<close>, which it can do with tasks in the queue.\<close>

definition worker_turn :: "bool \<Rightarrow> worker_pool \<Rightarrow> worker_pool" where
  "worker_turn leaves p =
     (if wp_idle p = 0 then p
      else if wp_stopped p \<and> (leaves \<or> wp_tasks p = []) then p\<lparr>wp_idle := wp_idle p - 1\<rparr>
      else case wp_tasks p of
             [] \<Rightarrow> p
           | t # ts \<Rightarrow> p\<lparr>wp_tasks := ts, wp_idle := wp_idle p - 1, wp_running := wp_running p @ [t]\<rparr>)"

definition task_done :: "nat \<Rightarrow> worker_pool \<Rightarrow> worker_pool" where
  "task_done t p =
     (if t \<in> set (wp_running p)
      then p\<lparr>wp_running := remove1 t (wp_running p), wp_idle := wp_idle p + 1, wp_finished := wp_finished p @ [t]\<rparr> else p)"

definition pool_stop :: "worker_pool \<Rightarrow> (unit, worker_pool) res" where
  "pool_stop p = (if wp_stopped p then Panic else Ok (p\<lparr>wp_stopped := True\<rparr>))"

section \<open>Compression\<close>

record compression_config =
  cc_Enable :: bool
  cc_GzipLevel :: int
  cc_ZstdLevel :: int
  cc_EnableBrotli :: bool
  cc_EnableZstd :: bool
  cc_SkipTypes :: "string list"

definition skip_types :: "string list" where
  "skip_types = [''image/jpeg'', ''image/png'', ''image/gif'', ''image/webp'', ''application/zip'', ''application/gzip'',
     ''application/x-gzip'', ''video/'', ''audio/'']"

definition compression_default :: compression_config where
  "compression_default =
     \<lparr>cc_Enable = True, cc_GzipLevel = 6, cc_ZstdLevel = 3, cc_EnableBrotli = False, cc_EnableZstd = True,
      cc_SkipTypes = [''image/jpeg'', ''image/png'', ''image/gif'', ''image/webp'', ''video/'', ''audio/'', ''application/zip'',
        ''application/gzip'', ''application/x-gzip'']\<rparr>"

definition shouldSkipCompression :: "string \<Rightarrow> bool" where
  "shouldSkipCompression contentType \<longleftrightarrow> list_ex (\<lambda>s. str_contains contentType s) skip_types"

text \<open>The encoding of an answer: the content type that is looked at is that of the request.\<close>

definition choose_encoding :: "compression_config \<Rightarrow> bool \<Rightarrow> request \<Rightarrow> string option" where
  "choose_encoding cfg zstd_ok r =
     (let accept = header_get r ''Accept-Encoding'' in
      if \<not> cc_Enable cfg \<or> shouldSkipCompression (header_get r ''Content-Type'') \<or> accept = [] then None
      else if str_contains accept ''zstd'' \<and> cc_EnableZstd cfg then (if zstd_ok then Some ''zstd'' else None)
      else if str_contains accept ''br'' \<and> cc_EnableBrotli cfg then None
      else if str_contains accept ''gzip'' then Some ''gzip'' else None)"

section \<open>The cache as a queue of keys\<close>

text \<open>
  The contract of the cache: its keys in the order of their last use, the one to be evicted first. A use moves a key to
  the end; a new key takes the place of the first one when the cache is full.
\<close>

definition lru_touch :: "string \<Rightarrow> string list \<Rightarrow> string list" where
  "lru_touch k q = removeAll k q @ [k]"

definition lru_set :: "int \<Rightarrow> string \<Rightarrow> string list \<Rightarrow> string list" where
  "lru_set maxSize k q = lru_touch k (if maxSize \<le> int (length q) then tl q else q)"

definition used_at :: "'a cache \<Rightarrow> string \<Rightarrow> gtime" where
  "used_at c k = ci_AccessTime (the (map_of (ch_items c) k))"

definition lru_rel :: "'a cache \<Rightarrow> string list \<Rightarrow> bool" where
  "lru_rel c q \<longleftrightarrow> m_ok (ch_items c) \<and> distinct q \<and> set q = fst ` set (ch_items c) \<and> sorted_wrt (\<lambda>k k'. used_at c k < used_at c k') q"

lemma rel_length: "lru_rel c q \<Longrightarrow> length (ch_items c) = length q"
  using distinct_card [of q] distinct_card [of "map fst (ch_items c)"] by (simp add: lru_rel_def m_ok_def)

lemma rel_update:
  assumes "lru_rel c q" and "\<And>k. k \<in> set q \<Longrightarrow> used_at c k < now" and "ci_AccessTime item = now"
  shows "lru_rel (c\<lparr>ch_items := AList.update key item (ch_items c)\<rparr>) (lru_touch key q)"
proof -
  let ?c = "c\<lparr>ch_items := AList.update key item (ch_items c)\<rparr>"
  have at: "used_at ?c k = (if k = key then now else used_at c k)" for k
    using assms(3) by (simp add: used_at_def update_conv')
  have "sorted_wrt (\<lambda>k k'. used_at c k < used_at c k') (removeAll key q)"
    using assms(1) by (simp add: lru_rel_def removeAll_filter_not_eq sorted_wrt_filter)
  then have "sorted_wrt (\<lambda>k k'. used_at ?c k < used_at ?c k') (removeAll key q)"
    by (rule sorted_wrt_mono_rel [rotated]) (auto simp: at)
  then have "sorted_wrt (\<lambda>k k'. used_at ?c k < used_at ?c k') (lru_touch key q)"
    using assms(2) by (auto simp: lru_touch_def sorted_wrt_append at)
  moreover have "set (lru_touch key q) = fst ` set (ch_items ?c)"
    using assms(1) by (auto simp: lru_touch_def lru_rel_def dom_update)
  ultimately show ?thesis using assms(1) by (simp add: lru_rel_def lru_touch_def distinct_removeAll)
qed

lemma rel_keep:
  assumes "lru_rel c q" and "m_ok items" and "\<And>k. map_of items k = (if P k then map_of (ch_items c) k else None)"
  shows "lru_rel (c\<lparr>ch_items := items\<rparr>) (filter P q)"
proof -
  have at: "P k \<Longrightarrow> used_at (c\<lparr>ch_items := items\<rparr>) k = used_at c k" for k by (simp add: used_at_def assms(3))
  have "sorted_wrt (\<lambda>k k'. used_at c k < used_at c k') (filter P q)" using assms(1) by (simp add: lru_rel_def sorted_wrt_filter)
  then have "sorted_wrt (\<lambda>k k'. used_at (c\<lparr>ch_items := items\<rparr>) k < used_at (c\<lparr>ch_items := items\<rparr>) k') (filter P q)"
    by (rule sorted_wrt_mono_rel [rotated]) (auto simp: at)
  moreover have "fst ` set items = {k. map_of items k \<noteq> None}" "fst ` set (ch_items c) = {k. map_of (ch_items c) k \<noteq> None}"
    by (auto simp: map_of_eq_None_iff)
  then have "set (filter P q) = fst ` set items" using assms(1,3) by (auto simp: lru_rel_def split: if_splits)
  ultimately show ?thesis using assms(1,2) by (simp add: lru_rel_def)
qed

lemma rel_delete: "lru_rel c q \<Longrightarrow> lru_rel (cache_delete k c) (removeAll k q)"
  unfolding cache_delete_def removeAll_filter_not_eq
  by (rule rel_keep) (auto simp: lru_rel_def delete_conv')

lemma scan_min:
  "lru_scan xs (Some (k, t)) = Some (k', t') \<Longrightarrow>
   t' \<le> t \<and> (\<forall>(x, i) \<in> set xs. t' \<le> ci_AccessTime i) \<and> (k' = k \<and> t' = t \<or> (\<exists>i. (k', i) \<in> set xs \<and> t' = ci_AccessTime i))"
proof (induction xs arbitrary: k t)
  case (Cons x xs)
  obtain y i where x: "x = (y, i)" by (cases x)
  show ?case
  proof (cases "ci_AccessTime i < t")
    case True
    then show ?thesis using Cons.prems Cons.IH [of y "ci_AccessTime i"] by (fastforce simp: x)
  next
    case False
    then show ?thesis using Cons.prems Cons.IH [of k t] by (fastforce simp: x)
  qed
qed simp

lemma scan_some: "\<exists>k' t'. lru_scan xs (Some (k, t)) = Some (k', t')"
  by (induction xs "Some (k, t)" arbitrary: k t rule: lru_scan.induct) (auto split: if_splits)

text \<open>The scan finds the first key of the queue, whatever the order of the iteration.\<close>

lemma scan_first:
  assumes rel: "lru_rel c (k # q)" and perm: "set xs = set (ch_items c)"
  shows "\<exists>t. lru_scan xs None = Some (k, t)"
proof -
  have ok: "m_ok (ch_items c)" using rel by (simp add: lru_rel_def)
  have "fst ` set xs \<noteq> {}" unfolding perm using rel by (auto simp: lru_rel_def)
  then obtain y i ys where xs: "xs = (y, i) # ys" by (cases xs) auto
  obtain k' t' where s: "lru_scan ys (Some (y, ci_AccessTime i)) = Some (k', t')" using scan_some by blast
  note m = scan_min [OF s]
  then obtain j where j: "(k', j) \<in> set xs" "t' = ci_AccessTime j" by (auto simp: xs)
  have all: "t' \<le> ci_AccessTime i'" if "(x, i') \<in> set xs" for x i' using m that by (auto simp: xs)
  have used: "used_at c x = ci_AccessTime i'" if "(x, i') \<in> set xs" for x i'
    using that ok perm by (simp add: used_at_def m_ok_def)
  have dom: "fst ` set xs = set (k # q)" unfolding perm using rel by (simp add: lru_rel_def)
  have "k \<in> fst ` set xs" by (simp add: dom)
  then obtain i0 where i0: "(k, i0) \<in> set xs" by auto
  have "k' \<in> fst ` set xs" using j(1) by (rule image_eqI [rotated]) simp
  then have "k' \<in> set (k # q)" by (simp only: dom)
  moreover have "\<not> used_at c k < used_at c k'" using all [OF i0] used [OF i0] used [OF j(1)] j(2) by simp
  ultimately have "k' = k" using rel by (auto simp: lru_rel_def)
  then show ?thesis using s by (simp add: xs)
qed

lemma rel_evict:
  assumes "lru_rel c q" and "[] \<notin> set q" and "set (order (ch_items c)) = set (ch_items c)"
  shows "lru_rel (evictLRU order c) (tl q)" and "ch_maxSize (evictLRU order c) = ch_maxSize c"
    and "k \<in> set (tl q) \<Longrightarrow> used_at (evictLRU order c) k = used_at c k"
proof -
  have "lru_rel (evictLRU order c) (tl q) \<and> (\<forall>k \<in> set (tl q). used_at (evictLRU order c) k = used_at c k)"
  proof (cases q)
    case Nil
    then have "ch_items c = []" using assms(1) by (simp add: lru_rel_def)
    then have "order (ch_items c) = []" using assms(3) by simp
    then have "evictLRU order c = c" by (simp add: evictLRU_def)
    then show ?thesis using assms(1) Nil by simp
  next
    case (Cons k q')
    then obtain t where t: "lru_scan (order (ch_items c)) None = Some (k, t)" using scan_first [of c k q'] assms(1,3) by blast
    have "k \<noteq> []" using Cons assms(2) by auto
    then have e: "evictLRU order c = cache_delete k c" by (simp add: evictLRU_def cache_delete_def t)
    have "k \<notin> set q'" using assms(1) Cons by (simp add: lru_rel_def)
    moreover from this have "used_at (cache_delete k c) x = used_at c x" if "x \<in> set q'" for x
      using that by (auto simp: used_at_def cache_delete_def delete_conv')
    ultimately show ?thesis using rel_delete [OF assms(1), of k] by (simp add: e Cons)
  qed
  then show "lru_rel (evictLRU order c) (tl q)" "k \<in> set (tl q) \<Longrightarrow> used_at (evictLRU order c) k = used_at c k" by auto
  show "ch_maxSize (evictLRU order c) = ch_maxSize c" by (auto simp: evictLRU_def split: option.split)
qed

lemma rel_set:
  assumes rel: "lru_rel c q" and "[] \<notin> set q" and "set (order (ch_items c)) = set (ch_items c)"
    and clock: "\<And>k. k \<in> set q \<Longrightarrow> used_at c k < now"
  shows "lru_rel (cache_set order now key v c) (lru_set (ch_maxSize c) key q)"
proof -
  let ?full = "ch_maxSize c \<le> int (length (ch_items c))"
  let ?c = "if ?full then evictLRU order c else c" and ?q = "if ?full then tl q else q"
  note e = rel_evict [where order = order and c = c, OF rel assms(2,3)]
  have "lru_rel ?c ?q" using rel e(1) by simp
  moreover have "used_at ?c k < now" if "k \<in> set ?q" for k
    using that clock e(3) [of k] by (cases q) (auto split: if_splits)
  moreover have "ch_ttl ?c = ch_ttl c" by (auto simp: evictLRU_def split: option.split)
  ultimately show ?thesis
    using rel_update [of ?c ?q now] rel_length [OF rel] by (simp add: cache_set_def Let_def lru_set_def)
qed

lemma length_touch: "length (lru_touch k q) \<le> Suc (length q)"
  by (simp add: lru_touch_def length_removeAll_less_eq)

lemma length_set: "int (length q) \<le> n \<Longrightarrow> 1 \<le> n \<Longrightarrow> int (length (lru_set n k q)) \<le> n"
  using length_touch [of k q] length_touch [of k "tl q"] by (auto simp: lru_set_def)

text \<open>
  C36: The cache refines a queue of keys, whatever the order in which the map is iterated, on a clock that moves: every
  operation does to the items what the operation of the queue does to the keys. What was stored is found until its time
  is over, and the cache stays within its size. The empty key is excluded: it is never evicted.
\<close>

theorem cache_refines_lru:
  assumes rel: "lru_rel c q" and keys: "[] \<notin> set q" and order: "set (order (ch_items c)) = set (ch_items c)"
    and clock: "\<forall>k \<in> set q. used_at c k < now"
  shows "lru_rel (cache_set order now key v c) (lru_set (ch_maxSize c) key q) \<and>
    lru_rel (snd (cache_get now key c)) (if fst (cache_get now key c) = None then q else lru_touch key q) \<and>
    lru_rel (cache_delete key c) (removeAll key q) \<and>
    lru_rel (cache_cleanup now c) (filter (\<lambda>k. \<not> time_after now (ci_Expiry (the (map_of (ch_items c) k)))) q) \<and>
    fst (cache_get t key (cache_set order now key v c)) = (if time_after t (now + ch_ttl c) then None else Some v) \<and>
    (int (length q) \<le> ch_maxSize c \<and> 1 \<le> ch_maxSize c \<longrightarrow>
       int (length (ch_items (cache_set order now key v c))) \<le> ch_maxSize c)"
proof -
  have set: "lru_rel (cache_set order now key v c) (lru_set (ch_maxSize c) key q)"
    using rel_set [where order = order and c = c, OF rel keys order] clock by blast
  have get: "lru_rel (snd (cache_get now key c)) (if fst (cache_get now key c) = None then q else lru_touch key q)"
    using rel rel_update [OF rel, of now] clock by (auto simp: cache_get_def split: option.split)
  have ok: "m_ok (ch_items c)" using rel by (simp add: lru_rel_def)
  let ?P = "\<lambda>k. \<not> time_after now (ci_Expiry (the (map_of (ch_items c) k)))"
  have keep: "map_of (m_keep (\<lambda>k i. \<not> time_after now (ci_Expiry i)) (ch_items c)) k = (if ?P k then map_of (ch_items c) k else None)" for k
    using map_of_m_keep [OF ok] by (auto split: option.split)
  have clean: "lru_rel (cache_cleanup now c) (filter ?P q)"
    unfolding cache_cleanup_def by (rule rel_keep [OF rel _ keep]) (simp add: ok)
  have ttl: "ch_ttl (evictLRU order c) = ch_ttl c" by (auto simp: evictLRU_def split: option.split)
  have found: "fst (cache_get t key (cache_set order now key v c)) = (if time_after t (now + ch_ttl c) then None else Some v)"
    by (simp add: cache_get_def cache_set_def Let_def update_conv' ttl)
  have "int (length q) \<le> ch_maxSize c \<and> 1 \<le> ch_maxSize c \<longrightarrow>
       int (length (ch_items (cache_set order now key v c))) \<le> ch_maxSize c"
    using length_set rel_length [OF set] by simp
  then show ?thesis using set get rel_delete [OF rel] clean found by blast
qed

definition sample_cache :: "nat cache" where
  "sample_cache = \<lparr>ch_items = [(''b'', \<lparr>ci_Value = 2, ci_Expiry = 100, ci_AccessTime = 2, ci_Hits = 0\<rparr>),
       (''a'', \<lparr>ci_Value = 1, ci_Expiry = 100, ci_AccessTime = 5, ci_Hits = 1\<rparr>)], ch_maxSize = 2, ch_ttl = 100\<rparr>"

theorem cache_refines_lru_witness:
  "lru_rel (cache_set rev 9 ''c'' 3 sample_cache) [''a'', ''c'']"
proof -
  have rel: "lru_rel sample_cache [''b'', ''a'']" by (auto simp: lru_rel_def sample_cache_def m_ok_def used_at_def)
  have "[] \<notin> set [''b'', ''a'']" "set (rev (ch_items sample_cache)) = set (ch_items sample_cache)"
    "\<forall>k \<in> set [''b'', ''a'']. used_at sample_cache k < 9"
    by (auto simp: sample_cache_def used_at_def)
  from conjunct1 [OF cache_refines_lru [where order = rev and c = sample_cache and key = "''c''" and v = 3, OF rel this]]
  have "lru_rel (cache_set rev 9 ''c'' 3 sample_cache) (lru_set (ch_maxSize sample_cache) ''c'' [''b'', ''a''])" .
  moreover have "lru_set (ch_maxSize sample_cache) ''c'' [''b'', ''a''] = [''a'', ''c'']"
    by (simp add: lru_set_def lru_touch_def sample_cache_def)
  ultimately show ?thesis by simp
qed

section \<open>Answers from the cache\<close>

lemma get_of_set:
  "fst (cache_get t key (cache_set order now key v c)) = (if time_after t (now + ch_ttl c) then None else Some v)"
  by (simp add: cache_get_def cache_set_def Let_def update_conv' evictLRU_def split: option.split)

lemma get_ttl [simp]: "ch_ttl (snd (cache_get now key c)) = ch_ttl c"
  by (simp add: cache_get_def split: option.split)

text \<open>
  The key of an answer joins the address, \<open>Accept\<close> and \<open>Accept-Encoding\<close> without anything between them, so a request
  whose three texts join to the same text as those of an earlier one is given the answer to that one, whatever the two
  addresses are.
\<close>

theorem cached_answers_cross_addresses:
  assumes get: "r_method r1 = ''GET''" "r_method r2 = ''GET''" "header_get r1 ''Authorization'' = []" "header_get r2 ''Authorization'' = []"
    and joined: "r_url r1 @ header_get r1 ''Accept'' @ header_get r1 ''Accept-Encoding'' =
      r_url r2 @ header_get r2 ''Accept'' @ header_get r2 ''Accept-Encoding''"
    and answer: "ha_status (handler r1) = 200" "ha_body (handler r1) \<noteq> []" and miss: "fst (cache_get now (tunnelCacheKey sha r1) c) = None"
    and fresh: "later \<le> now + ch_ttl c"
  shows "let c1 = snd (cacheMiddleware sha order now handler r1 c); a2 = fst (cacheMiddleware sha order later handler r2 c1)
    in ha_body a2 = ha_body (handler r1) \<and> ha_status a2 = 200"
proof -
  let ?key = "tunnelCacheKey sha r1"
  have key: "tunnelCacheKey sha r2 = ?key" using joined get by (simp add: tunnelCacheKey_def)
  define v where "v = \<lparr>ca_StatusCode = 200, ca_Headers = (''X-Cache'', [''MISS'']) # ha_header (handler r1), ca_Body = ha_body (handler r1),
    ca_ContentType = first_value ((''X-Cache'', [''MISS'']) # ha_header (handler r1)) ''Content-Type''\<rparr>"
  obtain c0 where c0: "cache_get now ?key c = (None, c0)" "ch_ttl c0 = ch_ttl c"
    using miss get_ttl [of now ?key c] by (cases "cache_get now ?key c") auto
  have "snd (cacheMiddleware sha order now handler r1 c) = cache_set order now ?key v c0"
    using get answer c0 by (simp add: cacheMiddleware_def Let_def v_def)
  moreover have "fst (cache_get later ?key (cache_set order now ?key v c0)) = Some v"
    using fresh c0(2) by (simp add: get_of_set time_after_def)
  then obtain c2 where "cache_get later ?key (cache_set order now ?key v c0) = (Some v, c2)"
    by (metis prod.collapse)
  ultimately show ?thesis using get by (simp add: cacheMiddleware_def Let_def key v_def)
qed

definition sample_page :: "string \<Rightarrow> string \<Rightarrow> request" where
  "sample_page url accept = get_request\<lparr>r_url := url, r_header := [(''Accept'', [accept])]\<rparr>"

theorem cached_answers_cross_addresses_witness:
  "let next = (\<lambda>r. \<lparr>ha_status = 200, ha_header = [], ha_body = map (\<lambda>c. of_char c) (r_url r)\<rparr>);
       sha = (\<lambda>s. replicate 32 1);
       c1 = snd (cacheMiddleware sha rev 0 next (sample_page ''/ab'' []) (newCache 10 60));
       a2 = fst (cacheMiddleware sha rev 5 next (sample_page ''/a'' ''b'') c1)
   in ha_body a2 = map (\<lambda>c. of_char c) ''/ab''"
proof -
  let ?next = "\<lambda>r. \<lparr>ha_status = 200, ha_header = [], ha_body = map (\<lambda>c. of_char c) (r_url r)\<rparr>"
  have h: "header_get (sample_page u a) ''Authorization'' = []" "header_get (sample_page u a) ''Accept'' = a"
    "header_get (sample_page u a) ''Accept-Encoding'' = []" "r_method (sample_page u a) = ''GET''" "r_url (sample_page u a) = u" for u a
    by (simp_all add: sample_page_def get_request_def header_get_def first_value_def)
  have "fst (cache_get 0 (tunnelCacheKey (\<lambda>s. replicate 32 1) (sample_page ''/ab'' [])) (newCache 10 60)) = (None :: cached_response option)"
    by (simp add: cache_get_def newCache_def)
  from cached_answers_cross_addresses [where ?r2.0 = "sample_page ''/a'' ''b''" and handler = ?next and later = 5 and order = rev,
      OF h(4) h(4) h(1) h(1) _ _ _ this]
  show ?thesis by (simp add: h Let_def newCache_def)
qed

section \<open>Facts on the pool\<close>

definition pool_tasks :: "worker_pool \<Rightarrow> nat multiset" where
  "pool_tasks p = mset (wp_tasks p) + mset (wp_running p) + mset (wp_finished p)"

definition pool_bounds :: "worker_pool \<Rightarrow> bool" where
  "pool_bounds p \<longleftrightarrow> length (wp_tasks p) \<le> wp_maxWorkers p * 2 \<and> wp_idle p + length (wp_running p) \<le> wp_maxWorkers p"

text \<open>No task is lost or run twice on the way, the queue and the workers stay within their number, and only a use after \<open>Stop\<close> panics.\<close>

lemma submit_tasks:
  "pool_submit sends t p = Ok (Some p') \<Longrightarrow> pool_tasks p' = pool_tasks p + (if wp_stopped p then {#} else {#t#}) \<and> (pool_bounds p \<longrightarrow> pool_bounds p')"
  by (auto simp: pool_submit_def pool_tasks_def pool_bounds_def split: if_splits)

lemma turn_tasks: "pool_tasks (worker_turn leaves p) = pool_tasks p" "pool_bounds p \<Longrightarrow> pool_bounds (worker_turn leaves p)"
  by (auto simp: worker_turn_def pool_tasks_def pool_bounds_def split: list.split)

lemma done_tasks: "pool_tasks (task_done t p) = pool_tasks p"
  by (auto simp: task_done_def pool_tasks_def)

lemma done_bounds: "pool_bounds p \<Longrightarrow> pool_bounds (task_done t p)"
proof (cases "t \<in> set (wp_running p)")
  case True
  then have "length (wp_running p) = Suc (length (remove1 t (wp_running p)))"
    using length_pos_if_in_set [OF True] by (simp add: length_remove1)
  then show "pool_bounds p \<Longrightarrow> ?thesis" using True by (simp add: task_done_def pool_bounds_def)
qed (simp add: task_done_def)

lemma pool_panics:
  "pool_submit sends t p = Panic \<longleftrightarrow> wp_stopped p \<and> sends" "pool_stop p = Panic \<longleftrightarrow> wp_stopped p"
  by (simp_all add: pool_submit_def pool_stop_def)

text \<open>The workers can leave with tasks in the queue, which then never run.\<close>

lemma stop_drops_tasks:
  "wp_stopped p \<Longrightarrow> wp_running p = [] \<Longrightarrow> (worker_turn True ^^ wp_idle p) p = p\<lparr>wp_idle := 0\<rparr>"
proof (induction "wp_idle p" arbitrary: p)
  case (Suc n)
  have "worker_turn True p = p\<lparr>wp_idle := n\<rparr>" using Suc.hyps(2) Suc.prems by (simp add: worker_turn_def flip: Suc.hyps(2))
  then show ?case using Suc.hyps(1) [of "p\<lparr>wp_idle := n\<rparr>"] Suc.prems by (simp add: funpow_swap1 flip: Suc.hyps(2))
qed simp

end
