(* ===== verification/Throttle.thy ===== *)
theory Throttle
  imports GoBase
begin

text \<open>
  What the alerts of the firewall and the throttled log lines of the tunnel server share: an event goes out if the last
  one under its key is old enough. The state of a provider is only seen through the time of the last event of a key.
\<close>

locale throttle =
  fixes fires :: "gtime \<Rightarrow> 'k \<Rightarrow> 's \<Rightarrow> bool"
    and after :: "gtime \<Rightarrow> 'k \<Rightarrow> 's \<Rightarrow> 's"
    and last_time :: "'s \<Rightarrow> 'k \<Rightarrow> gtime option"
    and interval :: "'k \<Rightarrow> duration"
  assumes interval_pos: "0 \<le> interval k"
    and fires_iff: "fires now k s \<longleftrightarrow> (case last_time s k of None \<Rightarrow> True | Some t \<Rightarrow> interval k \<le> time_sub now t)"
    and after_last: "last_time (after now k s) k' = (if fires now k s \<and> k' = k then Some now else last_time s k')"
begin

text \<open>The events that go out, of events at their times.\<close>

fun sent :: "(gtime \<times> 'k) list \<Rightarrow> 's \<Rightarrow> (gtime \<times> 'k) list" where
  "sent [] s = []"
| "sent ((t, k) # evs) s = (if fires t k s then [(t, k)] else []) @ sent evs (after t k s)"

lemma sub_bound: "interval k \<le> time_sub now t \<Longrightarrow> t + interval k \<le> now"
  using interval_pos [of k] by (auto simp: time_sub_def clamp64_def min_i64_def max_i64_def split: if_splits)

lemma sent_after: "(t, k) \<in> set (sent evs s) \<Longrightarrow> last_time s k = Some t0 \<Longrightarrow> t0 + interval k \<le> t"
proof (induction evs s arbitrary: t0 rule: sent.induct)
  case (2 t1 k1 evs s)
  show ?case
  proof (cases "fires t1 k1 s")
    case fires: True
    show ?thesis
    proof (cases "k = k1")
      case True
      then have "t0 + interval k \<le> t1" using fires "2.prems"(2) sub_bound by (simp add: fires_iff)
      moreover have "t = t1 \<or> t1 + interval k \<le> t"
        using "2.prems"(1) "2.IH" [of t1] fires True by (auto simp: after_last)
      ultimately show ?thesis using interval_pos [of k] by auto
    next
      case False
      then show ?thesis using 2 by (auto simp: after_last fires)
    qed
  next
    case False
    then show ?thesis using 2 by (auto simp: after_last)
  qed
qed simp

text \<open>Events of one key are at least the interval apart.\<close>

lemma spacing: "sorted_wrt (\<lambda>(t, k) (t', k'). k = k' \<longrightarrow> t + interval k \<le> t') (sent evs s)"
proof (induction evs s rule: sent.induct)
  case (2 t1 k1 evs s)
  show ?case
  proof (cases "fires t1 k1 s")
    case True
    then have "\<forall>(t', k') \<in> set (sent evs (after t1 k1 s)). k1 = k' \<longrightarrow> t1 + interval k1 \<le> t'"
      using sent_after [of _ k1 evs "after t1 k1 s" t1] by (auto simp: after_last)
    then show ?thesis using 2 True by auto
  next
    case False
    then show ?thesis using 2 by simp
  qed
qed simp

text \<open>An event that is held back follows one that went out less than the interval before.\<close>

lemma held_back: "\<not> fires now k s \<Longrightarrow> \<exists>t. last_time s k = Some t \<and> time_sub now t < interval k"
  by (auto simp: fires_iff not_le split: option.splits)

end

end
