(* ===== verification/TunnelLimits.thy ===== *)
theory TunnelLimits
  imports Throttle TunnelServer
begin

text \<open>
  The limits of the tunnel server: the limiters of an address (\<open>ratelimit.go\<close>), the slots for control connections
  (\<open>run\<close>), the log lines that are held back (\<open>logOnce\<close>), and the limiter with its protection of logins in
  \<open>internal/middleware\<close>. The token bucket is \<open>golang.org/x/time/rate\<close>: a parameter that makes a limiter and asks it.
\<close>

section \<open>The limiters of an address\<close>

text \<open>Tokens for a number of seconds, the burst, and \<open>Allow\<close> at a time.\<close>

record 'l limiter_lib =
  ll_new :: "int \<times> int \<Rightarrow> int \<Rightarrow> 'l"
  ll_allow :: "gtime \<Rightarrow> 'l \<Rightarrow> bool \<times> 'l"

record 'l rate_limiter =
  rm_registrations :: 'l
  rm_httpRequests :: 'l
  rm_udpSessions :: 'l
  rm_lastSeen :: gtime

definition new_rate_limiter :: "'l limiter_lib \<Rightarrow> gtime \<Rightarrow> 'l rate_limiter" where
  "new_rate_limiter lib now =
     \<lparr>rm_registrations = ll_new lib (1, 12) 10, rm_httpRequests = ll_new lib (100, 1) 200, rm_udpSessions = ll_new lib (50, 60) 100,
      rm_lastSeen = now\<rparr>"

type_synonym 'l limiters = "(string \<times> 'l rate_limiter) list"

definition getRateLimiter :: "'l limiter_lib \<Rightarrow> gtime \<Rightarrow> string \<Rightarrow> 'l limiters \<Rightarrow> 'l rate_limiter \<times> 'l limiters" where
  "getRateLimiter lib now ip ls =
     (case map_of ls ip of
        None \<Rightarrow> let l = new_rate_limiter lib now in (l, AList.update ip l ls)
      | Some l \<Rightarrow> let l = l\<lparr>rm_lastSeen := now\<rparr> in (l, AList.update ip l ls))"

definition checkRegistrationRateLimit :: "'l limiter_lib \<Rightarrow> gtime \<Rightarrow> string \<Rightarrow> 'l limiters \<Rightarrow> bool \<times> 'l limiters" where
  "checkRegistrationRateLimit lib now ip ls =
     (let (l, ls) = getRateLimiter lib now ip ls; (ok, b) = ll_allow lib now (rm_registrations l)
      in (ok, AList.update ip (l\<lparr>rm_registrations := b\<rparr>) ls))"

definition checkHTTPRequestRateLimit :: "'l limiter_lib \<Rightarrow> gtime \<Rightarrow> string \<Rightarrow> 'l limiters \<Rightarrow> bool \<times> 'l limiters" where
  "checkHTTPRequestRateLimit lib now ip ls =
     (let (l, ls) = getRateLimiter lib now ip ls; (ok, b) = ll_allow lib now (rm_httpRequests l)
      in (ok, AList.update ip (l\<lparr>rm_httpRequests := b\<rparr>) ls))"

definition checkUDPSessionRateLimit :: "'l limiter_lib \<Rightarrow> gtime \<Rightarrow> string \<Rightarrow> 'l limiters \<Rightarrow> bool \<times> 'l limiters" where
  "checkUDPSessionRateLimit lib now ip ls =
     (let (l, ls) = getRateLimiter lib now ip ls; (ok, b) = ll_allow lib now (rm_udpSessions l)
      in (ok, AList.update ip (l\<lparr>rm_udpSessions := b\<rparr>) ls))"

text \<open>A tick of \<open>cleanupRateLimiters\<close>.\<close>

definition cleanupRateLimiters :: "gtime \<Rightarrow> 'l limiters \<Rightarrow> 'l limiters" where
  "cleanupRateLimiters now ls = m_keep (\<lambda>ip l. \<not> hour < time_sub now (rm_lastSeen l)) ls"

section \<open>Slots for connections\<close>

definition maxConnections :: nat where "maxConnections = 10000"

text \<open>
  The loop of \<open>run\<close>: the connections that hold a slot of the semaphore. A connection that is accepted is handed to
  \<open>handleConnection\<close>, which waits for its first byte without a deadline, or closed when no slot is free.
\<close>

datatype slot_event = Accept nat | Ends nat

fun slot_step :: "slot_event \<Rightarrow> nat list \<Rightarrow> nat list" where
  "slot_step (Accept c) held = (if length held < maxConnections then held @ [c] else held)"
| "slot_step (Ends c) held = remove1 c held"

text \<open>What \<open>handleConnection\<close> makes of the first message: nothing before its first byte.\<close>

datatype first_step = Waits | Closed | Session | ProxyData string

definition handleConnection :: "bool \<Rightarrow> bool \<Rightarrow> message option option \<Rightarrow> first_step" where
  "handleConnection first_byte ended first =
     (if \<not> first_byte then (if ended then Closed else Waits)
      else case first of
             None \<Rightarrow> Waits
           | Some None \<Rightarrow> Closed
           | Some (Some m) \<Rightarrow>
               if mg_Type m = ''register'' then Session
               else if mg_Type m = ''proxy'' then ProxyData (mg_ID m) else Closed)"

section \<open>Log lines\<close>

type_synonym throttled = "(string \<times> gtime) list"

definition logOnce :: "string \<Rightarrow> string \<Rightarrow> duration option \<Rightarrow> gtime \<Rightarrow> throttled \<Rightarrow> string option \<times> throttled" where
  "logOnce msg key cooldown now st =
     (if msg = [] \<or> key = [] then (None, st)
      else let interval = (case cooldown of None \<Rightarrow> 30 * second | Some d \<Rightarrow> d) in
        case map_of st key of
          Some t \<Rightarrow> if time_sub now t < interval then (None, st) else (Some msg, AList.update key now st)
        | None \<Rightarrow> (Some msg, AList.update key now st))"

text \<open>The lines the server logs this way, with their key and interval.\<close>

datatype log_line = ActiveSessions | ProxyRefused | ProxyTimeout

fun log_key :: "log_line \<Rightarrow> string" where
  "log_key ActiveSessions = ''active_sessions''"
| "log_key ProxyRefused = ''proxy_refused''"
| "log_key ProxyTimeout = ''proxy_timeout''"

fun log_cooldown :: "log_line \<Rightarrow> duration option" where
  "log_cooldown ProxyTimeout = Some (15 * second)"
| "log_cooldown _ = None"

definition log_interval :: "log_line \<Rightarrow> duration" where
  "log_interval l = (case log_cooldown l of None \<Rightarrow> 30 * second | Some d \<Rightarrow> d)"

definition log_fires :: "gtime \<Rightarrow> log_line \<Rightarrow> throttled \<Rightarrow> bool" where
  "log_fires now l st \<longleftrightarrow> fst (logOnce ''line'' (log_key l) (log_cooldown l) now st) \<noteq> None"

definition log_after :: "gtime \<Rightarrow> log_line \<Rightarrow> throttled \<Rightarrow> throttled" where
  "log_after now l st = snd (logOnce ''line'' (log_key l) (log_cooldown l) now st)"

lemma log_key_inj: "log_key l = log_key l' \<longleftrightarrow> l = l'"
  by (cases l; cases l') simp_all

interpretation logs: throttle log_fires log_after "\<lambda>st l. map_of st (log_key l)" log_interval
proof
  show "0 \<le> log_interval k" for k by (cases k) (simp_all add: log_interval_def second_def)
  have key: "log_key l \<noteq> []" for l by (cases l) simp_all
  show "log_fires now k s \<longleftrightarrow> (case map_of s (log_key k) of None \<Rightarrow> True | Some t \<Rightarrow> log_interval k \<le> time_sub now t)" for now k s
    by (auto simp: log_fires_def logOnce_def key log_interval_def Let_def split: option.splits)
  show "map_of (log_after now k s) (log_key k') = (if log_fires now k s \<and> k' = k then Some now else map_of s (log_key k'))" for now k s k'
    by (auto simp: log_fires_def log_after_def logOnce_def key Let_def update_conv' log_key_inj split: option.splits)
qed

section \<open>The public dashboard\<close>

text \<open>\<open>net.SplitHostPort\<close>, with two empty texts on an error.\<close>

definition split_host_port :: "string \<Rightarrow> string \<times> string" where
  "split_host_port s =
     (case str_last_index s (CHR '':'') of
        None \<Rightarrow> ([], [])
      | Some i \<Rightarrow>
          let port = drop (i + 1) s in
          if has_prefix s ''['' then
            (case str_index s (CHR '']'') of
               None \<Rightarrow> ([], [])
             | Some e \<Rightarrow> if e + 1 \<noteq> i \<or> CHR ''['' \<in> set (drop 1 s) \<or> CHR '']'' \<in> set port then ([], []) else (drop 1 (take e s), port))
          else if CHR '':'' \<in> set (take i s) \<or> CHR ''['' \<in> set s \<or> CHR '']'' \<in> set s then ([], [])
          else (take i s, port))"

text \<open>One row of \<open>sendDashboardUpdate\<close> for a session; the counters are left out.\<close>

record dashboard_row =
  dr_name :: string
  dr_protocol :: string
  dr_local_host :: string
  dr_local_port :: string
  dr_public_port :: int
  dr_public_host :: string

definition dashboard_row_of :: "tunnel_server \<Rightarrow> client_session \<Rightarrow> dashboard_row" where
  "dashboard_row_of s c =
     (let (host, port) = split_host_port (se_target c);
          baseDomain = (case ts_httpProxy s of None \<Rightarrow> ''vutrungocrong.fun'' | Some p \<Rightarrow> hp_baseDomain p)
      in \<lparr>dr_name = se_clientID c, dr_protocol = se_protocol c,
          dr_local_host = (if host \<in> {[], ''localhost'', ''127.0.0.1'', ''::1''} then se_remoteIP c else host),
          dr_local_port = (if port = [] then se_target c else port), dr_public_port = se_publicPort c,
          dr_public_host = (if se_protocol c = ''http'' \<and> se_subdomain c \<noteq> [] then ''https://'' @ se_subdomain c @ ''.'' @ baseDomain
                            else ''103.77.246.206:'' @ itoa (se_publicPort c))\<rparr>)"

definition sendDashboardUpdate :: "tunnel_server \<Rightarrow> dashboard_row list" where
  "sendDashboardUpdate s = map (\<lambda>(i, u). dashboard_row_of s (ts_sessions s ! u)) (ts_clients s)"

section \<open>The limiter of the web interface\<close>

record 'l visitor =
  vi_limiter :: 'l
  vi_lastSeen :: gtime
  vi_attempts :: int
  vi_blocked :: bool
  vi_blockUntil :: gtime

type_synonym 'l visitors = "(string \<times> 'l visitor) list"

definition cleanupOldVisitors :: "gtime \<Rightarrow> 'l visitors \<Rightarrow> 'l visitors" where
  "cleanupOldVisitors now vs = m_keep (\<lambda>ip v. \<not> (vi_lastSeen v < now - 30 * minute \<and> \<not> vi_blocked v)) vs"

definition getVisitor :: "'l limiter_lib \<Rightarrow> gtime \<Rightarrow> string \<Rightarrow> int \<Rightarrow> int \<Rightarrow> 'l visitors \<Rightarrow> 'l visitor \<times> 'l visitors" where
  "getVisitor lib now ip rps burst vs =
     (let v = (case map_of vs ip of
                 None \<Rightarrow> \<lparr>vi_limiter = ll_new lib (rps, 1) burst, vi_lastSeen = now, vi_attempts = 0, vi_blocked = False,
                          vi_blockUntil = zero_time\<rparr>
               | Some v \<Rightarrow> v);
          v = v\<lparr>vi_lastSeen := now\<rparr>
      in (v, AList.update ip v vs))"

definition blockIP :: "'l limiter_lib \<Rightarrow> gtime \<Rightarrow> string \<Rightarrow> duration \<Rightarrow> 'l visitors \<Rightarrow> 'l visitors" where
  "blockIP lib now ip d vs =
     (case map_of vs ip of
        Some v \<Rightarrow> AList.update ip (v\<lparr>vi_blocked := True, vi_blockUntil := now + d\<rparr>) vs
      | None \<Rightarrow> AList.update ip \<lparr>vi_limiter = ll_new lib (1, 1) 1, vi_lastSeen = now, vi_attempts = 0, vi_blocked = True,
                               vi_blockUntil = now + d\<rparr> vs)"

definition isBlocked :: "gtime \<Rightarrow> string \<Rightarrow> 'l visitors \<Rightarrow> bool \<times> 'l visitors" where
  "isBlocked now ip vs =
     (case map_of vs ip of
        None \<Rightarrow> (False, vs)
      | Some v \<Rightarrow>
          if \<not> vi_blocked v then (False, vs)
          else if now < vi_blockUntil v then (True, vs)
          else (False, AList.update ip (v\<lparr>vi_blocked := False, vi_attempts := 0\<rparr>) vs))"

datatype limit_answer = Blocked | Exceeded int | Passed

definition RateLimitMiddleware ::
  "'l limiter_lib \<Rightarrow> gtime \<Rightarrow> string \<Rightarrow> int \<Rightarrow> int \<Rightarrow> 'l visitors \<Rightarrow> limit_answer \<times> 'l visitors" where
  "RateLimitMiddleware lib now ip rps burst vs =
     (let (blocked, vs) = isBlocked now ip vs in
      if blocked then (Blocked, vs)
      else let (v, vs) = getVisitor lib now ip rps burst vs;
               (ok, b) = ll_allow lib now (vi_limiter v);
               vs = AList.update ip (v\<lparr>vi_limiter := b\<rparr>) vs
           in (if ok then Passed else Exceeded burst, vs))"

text \<open>\<open>BruteForceProtectionMiddleware\<close> after the handler answered with a status.\<close>

definition BruteForceProtection :: "gtime \<Rightarrow> string \<Rightarrow> nat \<Rightarrow> 'l visitors \<Rightarrow> 'l visitors" where
  "BruteForceProtection now ip status vs =
     (case map_of vs ip of
        None \<Rightarrow> vs
      | Some v \<Rightarrow>
          if status = 401
          then let v = v\<lparr>vi_attempts := vi_attempts v + 1\<rparr> in
               AList.update ip (if 5 \<le> vi_attempts v then v\<lparr>vi_blocked := True, vi_blockUntil := now + 15 * minute\<rparr> else v) vs
          else if status = 200 then AList.update ip (v\<lparr>vi_attempts := 0\<rparr>) vs
          else vs)"

section \<open>Facts\<close>

text \<open>The failures in a row that a sequence of statuses ends with, other statuses passed over.\<close>

definition failure_row :: "nat list \<Rightarrow> int" where
  "failure_row sts = fold (\<lambda>st n. if st = 401 then n + 1 else if st = 200 then 0 else n) sts 0"

definition login_run :: "string \<Rightarrow> (gtime \<times> nat) list \<Rightarrow> 'l visitors \<Rightarrow> 'l visitors" where
  "login_run ip evs vs = fold (\<lambda>(t, st). BruteForceProtection t ip st) evs vs"

lemma row_snoc: "failure_row (sts @ [st]) = (if st = 401 then failure_row sts + 1 else if st = 200 then 0 else failure_row sts)"
  by (simp add: failure_row_def)

lemma run_snoc: "login_run ip (evs @ [(t, st)]) vs = BruteForceProtection t ip st (login_run ip evs vs)"
  by (simp add: login_run_def)

lemma login_counts:
  assumes "map_of vs ip = Some v" "vi_attempts v = 0" "\<not> vi_blocked v"
  shows "\<exists>w. map_of (login_run ip evs vs) ip = Some w \<and> vi_attempts w = failure_row (map snd evs) \<and>
    (vi_blocked w \<longleftrightarrow> (\<exists>n \<le> length evs. 5 \<le> failure_row (take n (map snd evs))))"
proof (induction evs rule: rev_induct)
  case Nil
  then show ?case using assms by (simp add: login_run_def failure_row_def)
next
  case (snoc ev evs)
  obtain t st where ev: "ev = (t, st)" by (cases ev)
  let ?sts = "map snd evs"
  obtain w where w: "map_of (login_run ip evs vs) ip = Some w" "vi_attempts w = failure_row ?sts"
      "vi_blocked w \<longleftrightarrow> (\<exists>n \<le> length evs. 5 \<le> failure_row (take n ?sts))"
    using snoc by blast
  have more: "(\<exists>n \<le> length (evs @ [ev]). 5 \<le> failure_row (take n (map snd (evs @ [ev])))) \<longleftrightarrow>
      (\<exists>n \<le> length evs. 5 \<le> failure_row (take n ?sts)) \<or> 5 \<le> failure_row (?sts @ [st])"
    by (auto simp: ev le_Suc_eq)
  have old: "5 \<le> failure_row ?sts \<Longrightarrow> \<exists>n \<le> length evs. 5 \<le> failure_row (take n ?sts)"
    by (intro exI [of _ "length evs"]) simp
  show ?case unfolding more using w old
    by (auto simp: ev run_snoc BruteForceProtection_def Let_def update_conv' row_snoc)
qed

text \<open>
  An address is blocked by failed logins exactly when five of them follow each other without an answer of status 200
  between, of whatever request: a page that answers resets the count. An address the limiter has not seen is never
  counted.
\<close>

theorem failed_logins_block:
  assumes "map_of vs ip = Some v" "vi_attempts v = 0" "\<not> vi_blocked v" and "map_of vs other = None"
  shows "(\<exists>w. map_of (login_run ip evs vs) ip = Some w \<and> (vi_blocked w \<longleftrightarrow> (\<exists>n \<le> length evs. 5 \<le> failure_row (take n (map snd evs))))) \<and>
    login_run other evs vs = vs"
proof -
  have "login_run other evs vs = vs"
    by (induction evs rule: rev_induct) (auto simp: login_run_def BruteForceProtection_def assms(4))
  then show ?thesis using login_counts [OF assms(1-3), of evs] by blast
qed

text \<open>A fresh block holds for fifteen minutes.\<close>

lemma block_lasts:
  "map_of vs ip = Some v \<Longrightarrow> 4 \<le> vi_attempts v \<Longrightarrow> fst (isBlocked now ip (BruteForceProtection t ip 401 vs)) \<longleftrightarrow> now < t + 15 * minute"
  by (simp add: BruteForceProtection_def Let_def update_conv' isBlocked_def)

lemma slots_bounded: "length held \<le> maxConnections \<Longrightarrow> length (slot_step ev held) \<le> maxConnections"
  by (cases ev) (auto simp: length_remove1)

lemma slots_fill: "length held + length cs \<le> maxConnections \<Longrightarrow> fold slot_step (map Accept cs) held = held @ cs"
  by (induction cs arbitrary: held) auto

text \<open>
  Ten thousand connections that send nothing keep every other client out: each waits for its first byte without a
  deadline, holds its slot, and every further connection is closed.
\<close>

theorem silent_connections_keep_others_out:
  assumes "length cs = maxConnections"
  shows "fold slot_step (map Accept (cs @ extra)) [] = cs \<and> handleConnection False False first = Waits"
proof -
  have "fold slot_step (map Accept extra) cs = cs" using assms by (induction extra) simp_all
  then show ?thesis using slots_fill [of "[]" cs] assms by (simp add: handleConnection_def)
qed

theorem silent_connections_keep_others_out_witness:
  "fold slot_step (map Accept ([0..<maxConnections] @ [20000])) [] = [0..<maxConnections]"
  using silent_connections_keep_others_out [of "[0..<maxConnections]" "[20000]"] by simp

text \<open>Every connected client is in the feed that is sent to anyone who asks, with the identifier it registered under.\<close>

lemma dashboard_names_clients:
  "map_of (ts_clients s) i = Some u \<Longrightarrow> id_of s u = i \<Longrightarrow> \<exists>r \<in> set (sendDashboardUpdate s). dr_name r = i \<and> dr_public_port r = port_of s u"
  by (force simp: sendDashboardUpdate_def dashboard_row_of_def Let_def id_of_def port_of_def case_prod_beta dest: map_of_SomeD)

lemma limiter_isolated:
  "ip' \<noteq> ip \<Longrightarrow> map_of (snd (checkRegistrationRateLimit lib now ip ls)) ip' = map_of ls ip'"
  "ip' \<noteq> ip \<Longrightarrow> map_of (snd (checkUDPSessionRateLimit lib now ip ls)) ip' = map_of ls ip'"
  "ip' \<noteq> ip \<Longrightarrow> map_of (snd (checkHTTPRequestRateLimit lib now ip ls)) ip' = map_of ls ip'"
  by (simp_all add: checkRegistrationRateLimit_def checkUDPSessionRateLimit_def checkHTTPRequestRateLimit_def getRateLimiter_def
      case_prod_beta Let_def update_conv' split: option.split)

text \<open>The throttled lines of one kind are at least their interval apart.\<close>

lemma log_lines_spaced:
  "sorted_wrt (\<lambda>(t, l) (t', l'). l = l' \<longrightarrow> t + log_interval l \<le> t') (logs.sent evs st)"
  by (rule logs.spacing)

end
