(* ===== verification/WafConfig.thy ===== *)
theory WafConfig
  imports GoFloat GoSlice
begin

text \<open>
  The configuration of the firewall (\<open>config/config.go\<close>): its sections as the file has them, the defaults for values
  that are missing, the checks, and the loading into the one current configuration. Reading and decoding the file is the
  library's: the decoded sections are an input.
\<close>

section \<open>Sections\<close>

record waf_Server =
  wsv_Listen :: string
  wsv_HTTPListen :: string
  wsv_ReadTimeout :: duration
  wsv_WriteTimeout :: duration
  wsv_IdleTimeout :: duration
  wsv_MaxHeaderBytes :: int

record waf_TLS =
  wtl_Enabled :: bool
  wtl_CertFile :: string
  wtl_KeyFile :: string
  wtl_AutoCert :: bool
  wtl_ACMEEmail :: string
  wtl_MinVersion :: string

record waf_Upstream =
  wup_URL :: string
  wup_Weight :: int

record waf_Domain =
  wdm_Name :: string
  wdm_Upstreams :: "waf_Upstream list"
  wdm_SSL :: bool

record waf_Proxy =
  wpx_ConnectTimeout :: duration
  wpx_ResponseTimeout :: duration
  wpx_MaxIdleConns :: int
  wpx_KeepAlive :: bool
  wpx_WebSocket :: bool

record waf_RateLimit =
  wrl_Enabled :: bool
  wrl_RequestsPerSecond :: int
  wrl_Burst :: int
  wrl_PerIP :: bool
  wrl_Adaptive :: bool

record waf_ConnLimit =
  wcl_MaxPerIP :: int
  wcl_MaxTotal :: int

record waf_Challenge =
  wch_PowDifficulty :: int
  wch_PowAdaptive :: bool
  wch_CookieTTL :: duration
  wch_CookieSecret :: string

record waf_Ban =
  wbn_Duration :: duration
  wbn_MaxFails :: int
  wbn_UseIptables :: bool

record waf_Emergency =
  wem_RPSThreshold :: int
  wem_Duration :: duration
  wem_AutoEnable :: bool

record waf_Protection =
  wpr_Mode :: string
  wpr_WhitelistIPs :: "string list"
  wpr_RateLimit :: waf_RateLimit
  wpr_ConnectionLimit :: waf_ConnLimit
  wpr_Challenge :: waf_Challenge
  wpr_Ban :: waf_Ban
  wpr_Emergency :: waf_Emergency

record waf_JA3 =
  wj3_Enabled :: bool
  wj3_BlockUnknown :: bool

record waf_JA4 =
  wj4_Enabled :: bool

record waf_HTTP2FP =
  wh2_Enabled :: bool

record waf_UA =
  wua_Enabled :: bool
  wua_Strict :: bool

record waf_Fingerprint =
  wfp_JA3 :: waf_JA3
  wfp_JA4 :: waf_JA4
  wfp_HTTP2 :: waf_HTTP2FP
  wfp_UAConsistency :: waf_UA

record waf_GeoIP =
  wgi_Enabled :: bool
  wgi_DBPath :: string
  wgi_BlockedCountries :: "string list"
  wgi_AllowedCountries :: "string list"

record waf_IPReputation =
  wir_Enabled :: bool
  wir_AbuseIPDBKey :: string
  wir_CacheTTL :: duration

record waf_ASN =
  was_Enabled :: bool
  was_BlockDatacenter :: bool

record waf_Intel =
  win_GeoIP :: waf_GeoIP
  win_IPReputation :: waf_IPReputation
  win_ASN :: waf_ASN

record waf_Baseline =
  wbl_Enabled :: bool
  wbl_LearningPeriod :: duration

record waf_Anomaly =
  wan_Enabled :: bool
  wan_Sensitivity :: rat

record waf_BotClass =
  wbc_Enabled :: bool
  wbc_ModelPath :: string

record waf_Session =
  wss_Enabled :: bool
  wss_TTL :: duration

record waf_Detection =
  wdt_Baseline :: waf_Baseline
  wdt_Anomaly :: waf_Anomaly
  wdt_BotClassifier :: waf_BotClass
  wdt_SessionTracking :: waf_Session

record waf_WAF =
  wwf_Enabled :: bool
  wwf_OWASPRules :: bool
  wwf_CustomRulesPath :: string
  wwf_ParanoiaLevel :: int

record waf_Logging =
  wlg_Level :: string
  wlg_Format :: string
  wlg_File :: string
  wlg_MaxSizeMB :: int
  wlg_MaxBackups :: int
  wlg_AttackLog :: string

record waf_Metrics =
  wme_Enabled :: bool
  wme_Listen :: string
  wme_Path :: string

record waf_Dashboard =
  wdb_Enabled :: bool
  wdb_Listen :: string
  wdb_Username :: string
  wdb_Password :: string
  wdb_JWTSecret :: string

record waf_Telegram =
  wtg_Enabled :: bool
  wtg_Token :: string
  wtg_ChatID :: string

record waf_Discord =
  wdc_Enabled :: bool
  wdc_WebhookURL :: string

record waf_Webhook =
  wwh_Enabled :: bool
  wwh_URL :: string
  wwh_Secret :: string

record waf_Alerts =
  wal_Telegram :: waf_Telegram
  wal_Discord :: waf_Discord
  wal_Webhook :: waf_Webhook

record waf_CDN =
  wcd_Enabled :: bool
  wcd_MemoryLimitMB :: int
  wcd_StaticExtensions :: "string list"
  wcd_BypassRules :: "string list"
  wcd_BypassCookies :: "string list"
  wcd_BypassHeaders :: "string list"

record waf_Cluster =
  wcu_Enabled :: bool
  wcu_NodeName :: string
  wcu_BindPort :: int
  wcu_AdvertiseIP :: string
  wcu_JoinPeers :: "string list"
  wcu_SecretKey :: string

record waf_file =
  wc_Server :: waf_Server
  wc_TLS :: waf_TLS
  wc_Domains :: "waf_Domain list"
  wc_Proxy :: waf_Proxy
  wc_Protection :: waf_Protection
  wc_Fingerprint :: waf_Fingerprint
  wc_Intelligence :: waf_Intel
  wc_Detection :: waf_Detection
  wc_WAF :: waf_WAF
  wc_Logging :: waf_Logging
  wc_Metrics :: waf_Metrics
  wc_Dashboard :: waf_Dashboard
  wc_Alerts :: waf_Alerts
  wc_CDN :: waf_CDN
  wc_Cluster :: waf_Cluster

section \<open>Defaults\<close>

definition dflt_int :: "int \<Rightarrow> int \<Rightarrow> int" where
  "dflt_int d x = (if x = 0 then d else x)"

definition dflt_str :: "string \<Rightarrow> string \<Rightarrow> string" where
  "dflt_str d x = (if x = [] then d else x)"

text \<open>\<open>randomHex(32)\<close>: the digits of 32 random bytes.\<close>

definition randomHex :: "byte list \<Rightarrow> string" where
  "randomHex rnd = hex (take 32 rnd)"

definition server_defaults :: "waf_Server \<Rightarrow> waf_Server" where
  "server_defaults s =
     s\<lparr>wsv_Listen := dflt_str ''0.0.0.0:443'' (wsv_Listen s), wsv_HTTPListen := dflt_str ''0.0.0.0:80'' (wsv_HTTPListen s),
       wsv_ReadTimeout := dflt_int (10 * second) (wsv_ReadTimeout s), wsv_WriteTimeout := dflt_int (30 * second) (wsv_WriteTimeout s),
       wsv_IdleTimeout := dflt_int (120 * second) (wsv_IdleTimeout s), wsv_MaxHeaderBytes := dflt_int 65536 (wsv_MaxHeaderBytes s)\<rparr>"

definition proxy_defaults :: "waf_Proxy \<Rightarrow> waf_Proxy" where
  "proxy_defaults p =
     p\<lparr>wpx_ConnectTimeout := dflt_int (10 * second) (wpx_ConnectTimeout p),
       wpx_ResponseTimeout := dflt_int (60 * second) (wpx_ResponseTimeout p), wpx_MaxIdleConns := dflt_int 100 (wpx_MaxIdleConns p)\<rparr>"

definition ratelimit_defaults :: "waf_RateLimit \<Rightarrow> waf_RateLimit" where
  "ratelimit_defaults r =
     r\<lparr>wrl_RequestsPerSecond := dflt_int 50 (wrl_RequestsPerSecond r), wrl_Burst := dflt_int 100 (wrl_Burst r)\<rparr>"

definition connlimit_defaults :: "waf_ConnLimit \<Rightarrow> waf_ConnLimit" where
  "connlimit_defaults c = c\<lparr>wcl_MaxPerIP := dflt_int 50 (wcl_MaxPerIP c), wcl_MaxTotal := dflt_int 10000 (wcl_MaxTotal c)\<rparr>"

definition challenge_defaults :: "byte list \<Rightarrow> waf_Challenge \<Rightarrow> waf_Challenge" where
  "challenge_defaults rnd c =
     c\<lparr>wch_PowDifficulty := dflt_int 3000000 (wch_PowDifficulty c), wch_CookieTTL := dflt_int (30 * minute) (wch_CookieTTL c),
       wch_CookieSecret := dflt_str (randomHex rnd) (wch_CookieSecret c)\<rparr>"

definition ban_defaults :: "waf_Ban \<Rightarrow> waf_Ban" where
  "ban_defaults b = b\<lparr>wbn_Duration := dflt_int (2 * hour) (wbn_Duration b), wbn_MaxFails := dflt_int 3 (wbn_MaxFails b)\<rparr>"

definition emergency_defaults :: "waf_Emergency \<Rightarrow> waf_Emergency" where
  "emergency_defaults e =
     e\<lparr>wem_RPSThreshold := dflt_int 200 (wem_RPSThreshold e), wem_Duration := dflt_int (30 * second) (wem_Duration e)\<rparr>"

definition protection_defaults :: "byte list \<Rightarrow> waf_Protection \<Rightarrow> waf_Protection" where
  "protection_defaults rnd p =
     p\<lparr>wpr_RateLimit := ratelimit_defaults (wpr_RateLimit p), wpr_ConnectionLimit := connlimit_defaults (wpr_ConnectionLimit p),
       wpr_Challenge := challenge_defaults rnd (wpr_Challenge p), wpr_Ban := ban_defaults (wpr_Ban p),
       wpr_Emergency := emergency_defaults (wpr_Emergency p), wpr_Mode := dflt_str ''auto'' (wpr_Mode p)\<rparr>"

definition detection_defaults :: "waf_Detection \<Rightarrow> waf_Detection" where
  "detection_defaults d =
     (let a = wdt_Anomaly d; b = wdt_Baseline d; s = wdt_SessionTracking d in
      d\<lparr>wdt_Anomaly := a\<lparr>wan_Sensitivity := (if wan_Sensitivity a = 0 then fl64 (7 / 10) else wan_Sensitivity a)\<rparr>,
        wdt_Baseline := b\<lparr>wbl_LearningPeriod := dflt_int (24 * hour) (wbl_LearningPeriod b)\<rparr>,
        wdt_SessionTracking := s\<lparr>wss_TTL := dflt_int (30 * minute) (wss_TTL s)\<rparr>\<rparr>)"

definition logging_defaults :: "waf_Logging \<Rightarrow> waf_Logging" where
  "logging_defaults l =
     l\<lparr>wlg_Level := dflt_str ''info'' (wlg_Level l), wlg_Format := dflt_str ''json'' (wlg_Format l),
       wlg_MaxSizeMB := dflt_int 100 (wlg_MaxSizeMB l), wlg_MaxBackups := dflt_int 5 (wlg_MaxBackups l)\<rparr>"

text \<open>\<open>rnd1\<close> and \<open>rnd2\<close> are the random bytes for the secret of the cookies and that of the dashboard.\<close>

definition setDefaults :: "byte list \<Rightarrow> byte list \<Rightarrow> waf_file \<Rightarrow> waf_file" where
  "setDefaults rnd1 rnd2 c =
     c\<lparr>wc_Server := server_defaults (wc_Server c), wc_Proxy := proxy_defaults (wc_Proxy c),
       wc_Protection := protection_defaults rnd1 (wc_Protection c), wc_Detection := detection_defaults (wc_Detection c),
       wc_Logging := logging_defaults (wc_Logging c),
       wc_Dashboard := (wc_Dashboard c)\<lparr>wdb_JWTSecret := dflt_str (randomHex rnd2) (wdb_JWTSecret (wc_Dashboard c))\<rparr>,
       wc_WAF := (wc_WAF c)\<lparr>wwf_ParanoiaLevel := dflt_int 1 (wwf_ParanoiaLevel (wc_WAF c))\<rparr>\<rparr>"

section \<open>Checks and loading\<close>

datatype config_error = ReadFailed | ParseFailed | NoDomain | NoName nat | NoUpstream string | LowThreshold

fun check_domains :: "nat \<Rightarrow> waf_Domain list \<Rightarrow> config_error option" where
  "check_domains i [] = None"
| "check_domains i (d # ds) =
     (if wdm_Name d = [] then Some (NoName i)
      else if wdm_Upstreams d = [] then Some (NoUpstream (wdm_Name d))
      else check_domains (i + 1) ds)"

definition validate :: "waf_file \<Rightarrow> config_error option" where
  "validate c =
     (if wc_Domains c = [] then Some NoDomain
      else case check_domains 0 (wc_Domains c) of
             Some e \<Rightarrow> Some e
           | None \<Rightarrow> if wem_RPSThreshold (wpr_Emergency (wc_Protection c)) < 10 then Some LowThreshold else None)"

text \<open>\<open>Load\<close>: what reading gave (an error, or what decoding gave), and the current configuration, which a failure leaves.\<close>

definition Load :: "waf_file option option \<Rightarrow> byte list \<Rightarrow> byte list \<Rightarrow> waf_file option \<Rightarrow> (config_error, waf_file) res \<times> waf_file option" where
  "Load input rnd1 rnd2 current =
     (case input of
        None \<Rightarrow> (Fail ReadFailed, current)
      | Some None \<Rightarrow> (Fail ParseFailed, current)
      | Some (Some c) \<Rightarrow>
          let c = setDefaults rnd1 rnd2 c in
          case validate c of Some e \<Rightarrow> (Fail e, current) | None \<Rightarrow> (Ok c, Some c))"

definition Reload :: "waf_file option option \<Rightarrow> byte list \<Rightarrow> byte list \<Rightarrow> waf_file option \<Rightarrow> (config_error, unit) res \<times> waf_file option" where
  "Reload input rnd1 rnd2 current =
     (let (r, g) = Load input rnd1 rnd2 current in (rbind r (\<lambda>c. Ok ()), g))"

section \<open>What is loaded can be used\<close>

lemma dflt_simps [simp]:
  "dflt_int d x = 0 \<longleftrightarrow> d = 0 \<and> x = 0" "dflt_str t y = [] \<longleftrightarrow> t = [] \<and> y = []"
  "dflt_int d (dflt_int d x) = dflt_int d x" "y \<noteq> [] \<Longrightarrow> dflt_str t y = y" "x \<noteq> 0 \<Longrightarrow> dflt_int d x = x"
  by (auto simp: dflt_int_def dflt_str_def)

lemma dflt_str_twice [simp]: "t \<noteq> [] \<Longrightarrow> dflt_str t' (dflt_str t y) = dflt_str t y"
  by (auto simp: dflt_str_def)

lemma randomHex_nonempty [simp]: "randomHex r = [] \<longleftrightarrow> r = []"
  by (cases r) (simp_all add: randomHex_def hex_def)

text \<open>Nothing of a configuration is missing: no defaults are left to be filled in, whatever the random bytes.\<close>

definition complete_config :: "waf_file \<Rightarrow> bool" where
  "complete_config c \<longleftrightarrow>
     (let v = wc_Server c; x = wc_Proxy c; p = wc_Protection c; d = wc_Detection c; l = wc_Logging c in
      wsv_Listen v \<noteq> [] \<and> wsv_HTTPListen v \<noteq> [] \<and> wsv_ReadTimeout v \<noteq> 0 \<and> wsv_WriteTimeout v \<noteq> 0 \<and> wsv_IdleTimeout v \<noteq> 0 \<and>
      wsv_MaxHeaderBytes v \<noteq> 0 \<and> wpx_ConnectTimeout x \<noteq> 0 \<and> wpx_ResponseTimeout x \<noteq> 0 \<and> wpx_MaxIdleConns x \<noteq> 0 \<and>
      wrl_RequestsPerSecond (wpr_RateLimit p) \<noteq> 0 \<and> wrl_Burst (wpr_RateLimit p) \<noteq> 0 \<and>
      wcl_MaxPerIP (wpr_ConnectionLimit p) \<noteq> 0 \<and> wcl_MaxTotal (wpr_ConnectionLimit p) \<noteq> 0 \<and>
      wch_PowDifficulty (wpr_Challenge p) \<noteq> 0 \<and> wch_CookieTTL (wpr_Challenge p) \<noteq> 0 \<and> wch_CookieSecret (wpr_Challenge p) \<noteq> [] \<and>
      wbn_Duration (wpr_Ban p) \<noteq> 0 \<and> wbn_MaxFails (wpr_Ban p) \<noteq> 0 \<and>
      wem_RPSThreshold (wpr_Emergency p) \<noteq> 0 \<and> wem_Duration (wpr_Emergency p) \<noteq> 0 \<and> wpr_Mode p \<noteq> [] \<and>
      wan_Sensitivity (wdt_Anomaly d) \<noteq> 0 \<and> wbl_LearningPeriod (wdt_Baseline d) \<noteq> 0 \<and> wss_TTL (wdt_SessionTracking d) \<noteq> 0 \<and>
      wlg_Level l \<noteq> [] \<and> wlg_Format l \<noteq> [] \<and> wlg_MaxSizeMB l \<noteq> 0 \<and> wlg_MaxBackups l \<noteq> 0 \<and>
      wdb_JWTSecret (wc_Dashboard c) \<noteq> [] \<and> wwf_ParanoiaLevel (wc_WAF c) \<noteq> 0)"

lemmas defaults_defs = server_defaults_def proxy_defaults_def ratelimit_defaults_def connlimit_defaults_def
  challenge_defaults_def ban_defaults_def emergency_defaults_def protection_defaults_def detection_defaults_def
  logging_defaults_def

lemma fl64_sensitivity: "fl64 (7 / 10) \<noteq> 0"
  using fl64_pos [of "7 / 10"] by simp

lemma setDefaults_complete: "r1 \<noteq> [] \<Longrightarrow> r2 \<noteq> [] \<Longrightarrow> complete_config (setDefaults r1 r2 c)"
  by (simp add: complete_config_def setDefaults_def defaults_defs Let_def fl64_sensitivity second_def minute_def hour_def)

lemma complete_unchanged: "complete_config c \<Longrightarrow> setDefaults r1 r2 c = c"
  by (simp add: complete_config_def setDefaults_def defaults_defs Let_def)

lemma check_domains_ok: "check_domains i ds = None \<longleftrightarrow> (\<forall>d\<in>set ds. wdm_Name d \<noteq> [] \<and> wdm_Upstreams d \<noteq> [])"
  by (induction i ds rule: check_domains.induct) auto

definition usable_config :: "waf_file \<Rightarrow> bool" where
  "usable_config c \<longleftrightarrow>
     complete_config c \<and> wc_Domains c \<noteq> [] \<and> (\<forall>d\<in>set (wc_Domains c). wdm_Name d \<noteq> [] \<and> wdm_Upstreams d \<noteq> []) \<and>
     10 \<le> wem_RPSThreshold (wpr_Emergency (wc_Protection c))"

lemma Load_cases:
  "Load input r1 r2 cur = (r, g) \<Longrightarrow>
     (\<exists>e. r = Fail e \<and> g = cur) \<or>
     (\<exists>c0. input = Some (Some c0) \<and> r = Ok (setDefaults r1 r2 c0) \<and> g = Some (setDefaults r1 r2 c0) \<and>
           validate (setDefaults r1 r2 c0) = None)"
  by (auto simp: Load_def Let_def split: option.splits)

lemma validated_usable: "r1 \<noteq> [] \<Longrightarrow> r2 \<noteq> [] \<Longrightarrow> validate (setDefaults r1 r2 c) = None \<Longrightarrow> usable_config (setDefaults r1 r2 c)"
  using check_domains_ok [of 0 "wc_Domains (setDefaults r1 r2 c)"]
  by (auto simp: usable_config_def setDefaults_complete validate_def not_less split: if_splits option.splits)

text \<open>A sequence of loads and reloads: what each read, and the random bytes it drew.\<close>

fun loads :: "(waf_file option option \<times> byte list \<times> byte list) list \<Rightarrow> waf_file option \<Rightarrow> waf_file option" where
  "loads [] g = g"
| "loads ((input, r1, r2) # xs) g = loads xs (snd (Reload input r1 r2 g))"

lemma Reload_current: "snd (Reload input r1 r2 g) = snd (Load input r1 r2 g)"
  by (simp add: Reload_def split: prod.splits)

lemma loads_usable:
  assumes "\<forall>(input, r1, r2)\<in>set xs. r1 \<noteq> [] \<and> r2 \<noteq> []" "\<forall>c. g = Some c \<longrightarrow> usable_config c" "loads xs g = Some c"
  shows "usable_config c"
  using assms
proof (induction xs g rule: loads.induct)
  case (2 input r1 r2 xs g)
  obtain r g' where l: "Load input r1 r2 g = (r, g')" by (cases "Load input r1 r2 g")
  have "\<forall>c. g' = Some c \<longrightarrow> usable_config c"
    using Load_cases [OF l] 2 validated_usable by auto
  then show ?case using 2 l by (simp add: Reload_current)
qed auto

section \<open>Theorem on loads\<close>

text \<open>
  C37: After any sequence of loads and reloads of the configuration, the good and the failing ones in any order, the
  current configuration, if there is one, can be used: every value that has a default is set, there is a domain, every
  domain has a name and an upstream, the threshold of the emergency mode is at least ten, and filling in defaults again
  changes nothing, so the secrets of the cookies stay those that were drawn when it was loaded. The last load decides:
  if it fails, what was loaded before stays.
\<close>

theorem loads_keep_a_usable_configuration:
  assumes "\<forall>(input, r1, r2)\<in>set xs. r1 \<noteq> [] \<and> r2 \<noteq> []" "loads xs None = Some c" "r1 \<noteq> []" "r2 \<noteq> []"
  shows "usable_config c \<and> setDefaults r1 r2 c = c \<and>
    (\<forall>e. fst (Load input r1 r2 (Some c)) = Fail e \<longrightarrow> loads (xs @ [(input, r1, r2)]) None = Some c) \<and>
    (\<forall>c'. fst (Load input r1 r2 (Some c)) = Ok c' \<longrightarrow> loads (xs @ [(input, r1, r2)]) None = Some c' \<and> usable_config c')"
proof -
  have c: "usable_config c" using loads_usable [OF assms(1) _ assms(2)] by simp
  have app: "loads (xs @ [(input, r1, r2)]) g = snd (Load input r1 r2 (loads xs g))" for g
    by (induction xs g rule: loads.induct) (simp_all add: Reload_current)
  obtain r g where l: "Load input r1 r2 (Some c) = (r, g)" by (cases "Load input r1 r2 (Some c)")
  from Load_cases [OF l] show ?thesis
    using c assms complete_unchanged validated_usable by (auto simp: app l usable_config_def)
qed

text \<open>A file with one domain and nothing else.\<close>

definition bare_config :: waf_file where
  "bare_config =
     \<lparr>wc_Server = \<lparr>wsv_Listen = [], wsv_HTTPListen = [], wsv_ReadTimeout = 0, wsv_WriteTimeout = 0, wsv_IdleTimeout = 0, wsv_MaxHeaderBytes = 0\<rparr>,
      wc_TLS = \<lparr>wtl_Enabled = False, wtl_CertFile = [], wtl_KeyFile = [], wtl_AutoCert = False, wtl_ACMEEmail = [], wtl_MinVersion = []\<rparr>,
      wc_Domains = [\<lparr>wdm_Name = ''example.com'', wdm_Upstreams = [\<lparr>wup_URL = ''http://127.0.0.1:8080'', wup_Weight = 1\<rparr>], wdm_SSL = False\<rparr>],
      wc_Proxy = \<lparr>wpx_ConnectTimeout = 0, wpx_ResponseTimeout = 0, wpx_MaxIdleConns = 0, wpx_KeepAlive = False, wpx_WebSocket = False\<rparr>,
      wc_Protection =
       \<lparr>wpr_Mode = [],
        wpr_WhitelistIPs = [],
        wpr_RateLimit = \<lparr>wrl_Enabled = True, wrl_RequestsPerSecond = 0, wrl_Burst = 0, wrl_PerIP = True, wrl_Adaptive = False\<rparr>,
        wpr_ConnectionLimit = \<lparr>wcl_MaxPerIP = 0, wcl_MaxTotal = 0\<rparr>,
        wpr_Challenge = \<lparr>wch_PowDifficulty = 0, wch_PowAdaptive = False, wch_CookieTTL = 0, wch_CookieSecret = []\<rparr>,
        wpr_Ban = \<lparr>wbn_Duration = 0, wbn_MaxFails = 0, wbn_UseIptables = False\<rparr>,
        wpr_Emergency = \<lparr>wem_RPSThreshold = 0, wem_Duration = 0, wem_AutoEnable = False\<rparr>\<rparr>,
      wc_Fingerprint =
       \<lparr>wfp_JA3 = \<lparr>wj3_Enabled = True, wj3_BlockUnknown = False\<rparr>, wfp_JA4 = \<lparr>wj4_Enabled = True\<rparr>, wfp_HTTP2 = \<lparr>wh2_Enabled = False\<rparr>, wfp_UAConsistency = \<lparr>wua_Enabled = False, wua_Strict = False\<rparr>\<rparr>,
      wc_Intelligence =
       \<lparr>win_GeoIP = \<lparr>wgi_Enabled = False, wgi_DBPath = [], wgi_BlockedCountries = [], wgi_AllowedCountries = []\<rparr>,
        win_IPReputation = \<lparr>wir_Enabled = False, wir_AbuseIPDBKey = [], wir_CacheTTL = 0\<rparr>,
        win_ASN = \<lparr>was_Enabled = False, was_BlockDatacenter = False\<rparr>\<rparr>,
      wc_Detection =
       \<lparr>wdt_Baseline = \<lparr>wbl_Enabled = False, wbl_LearningPeriod = 0\<rparr>,
        wdt_Anomaly = \<lparr>wan_Enabled = False, wan_Sensitivity = 0\<rparr>,
        wdt_BotClassifier = \<lparr>wbc_Enabled = False, wbc_ModelPath = []\<rparr>,
        wdt_SessionTracking = \<lparr>wss_Enabled = False, wss_TTL = 0\<rparr>\<rparr>,
      wc_WAF = \<lparr>wwf_Enabled = False, wwf_OWASPRules = False, wwf_CustomRulesPath = [], wwf_ParanoiaLevel = 0\<rparr>,
      wc_Logging = \<lparr>wlg_Level = [], wlg_Format = [], wlg_File = [], wlg_MaxSizeMB = 0, wlg_MaxBackups = 0, wlg_AttackLog = []\<rparr>,
      wc_Metrics = \<lparr>wme_Enabled = False, wme_Listen = [], wme_Path = []\<rparr>,
      wc_Dashboard = \<lparr>wdb_Enabled = False, wdb_Listen = [], wdb_Username = [], wdb_Password = [], wdb_JWTSecret = []\<rparr>,
      wc_Alerts = \<lparr>wal_Telegram = \<lparr>wtg_Enabled = True, wtg_Token = ''token'', wtg_ChatID = ''chat''\<rparr>,
        wal_Discord = \<lparr>wdc_Enabled = False, wdc_WebhookURL = []\<rparr>, wal_Webhook = \<lparr>wwh_Enabled = False, wwh_URL = [], wwh_Secret = []\<rparr>\<rparr>,
      wc_CDN = \<lparr>wcd_Enabled = False, wcd_MemoryLimitMB = 0, wcd_StaticExtensions = [], wcd_BypassRules = [], wcd_BypassCookies = [], wcd_BypassHeaders = []\<rparr>,
      wc_Cluster = \<lparr>wcu_Enabled = False, wcu_NodeName = ''edge-1'', wcu_BindPort = 0, wcu_AdvertiseIP = [], wcu_JoinPeers = [], wcu_SecretKey = []\<rparr>\<rparr>"

theorem loads_keep_a_usable_configuration_witness:
  "\<exists>c. loads [(Some (Some bare_config), [1], [2]), (None, [3], [4]), (Some None, [5], [6])] None = Some c \<and> usable_config c \<and>
       wch_CookieSecret (wpr_Challenge (wc_Protection c)) = ''01''"
proof -
  let ?xs = "[(Some (Some bare_config), [1], [2]), (None, [3], [4]), (Some None, [5], [6])] :: (waf_file option option \<times> byte list \<times> byte list) list"
  have v: "validate (setDefaults [1] [2] bare_config) = None"
    by (simp add: validate_def setDefaults_def bare_config_def protection_defaults_def emergency_defaults_def dflt_int_def)
  then have "loads ?xs None = Some (setDefaults [1] [2] bare_config)"
    by (simp add: Reload_current Load_def Let_def)
  moreover from this have "usable_config (setDefaults [1] [2] bare_config)"
    using loads_keep_a_usable_configuration [of ?xs "setDefaults [1] [2] bare_config" "[7]" "[8]" None] by auto
  moreover have "wch_CookieSecret (wpr_Challenge (wc_Protection (setDefaults [1] [2] bare_config))) = ''01''"
    by (simp add: setDefaults_def bare_config_def protection_defaults_def challenge_defaults_def dflt_str_def randomHex_def hex_def hex_digit_def) code_simp
  ultimately show ?thesis by blast
qed

end
