(* ===== verification/WafAlerts.thy ===== *)
theory WafAlerts
  imports WafConfig Throttle Shield
begin

text \<open>
  The alerts of the firewall (\<open>core/alerts.go\<close>): what may be sent when, the notices with their values, and the calls to
  the three channels; with the worker that raises them (\<open>attackDetector\<close>) and the gossip that silences them
  (\<open>RemoteSilence\<close>). The wording of a notice is left out, its values are kept as they are printed.
\<close>

section \<open>Numbers and durations as printed\<close>

text \<open>The verb \<open>%.1f\<close>.\<close>

definition show_tenths :: "rat \<Rightarrow> string" where
  "show_tenths x =
     (let n = nat (round_even (10 * \<bar>x\<bar>))
      in (if x < 0 then ''-'' else []) @ show_nat (n div 10) @ ''.'' @ show_nat (n mod 10))"

fun show_f1 :: "xf64 \<Rightarrow> string" where
  "show_f1 (Fin x) = show_tenths x"
| "show_f1 PosInf = ''+Inf''"
| "show_f1 NegInf = ''-Inf''"
| "show_f1 NaN = ''NaN''"

definition formatNumber :: "int \<Rightarrow> string" where
  "formatNumber n =
     (if n < 1000 then itoa n
      else if n < 1000000 then show_tenths (fdiv (f_of_int n) 1000) @ ''K''
      else if n < 1000000000 then show_tenths (fdiv (f_of_int n) 1000000) @ ''M''
      else show_tenths (fdiv (f_of_int n) 1000000000) @ ''B'')"

text \<open>\<open>Duration.Round(time.Second)\<close>: half a second goes away from zero, and the result saturates.\<close>

definition round_second :: "duration \<Rightarrow> duration" where
  "round_second d =
     (let r = \<bar>d\<bar> mod second in
      if d < 0 then (if 2 * r < second then d + r else if d - second + r < min_i64 then min_i64 else d - second + r)
      else (if 2 * r < second then d - r else if max_i64 < d + second - r then max_i64 else d + second - r))"

definition go_rem :: "int \<Rightarrow> int \<Rightarrow> int" where
  "go_rem a b = a - b * trunc_div a b"

text \<open>The words for days, hours, minutes and seconds are UTF-8.\<close>

definition w_days :: string where "w_days = '' ng'' @ [char_of (195::nat), char_of (160::nat)] @ ''y ''"
definition w_hours :: string where "w_hours = '' gi'' @ [char_of (225::nat), char_of (187::nat), char_of (157::nat)]"
definition w_minutes :: string where "w_minutes = '' ph'' @ [char_of (195::nat), char_of (186::nat)] @ ''t''"
definition w_seconds :: string where "w_seconds = '' gi'' @ [char_of (195::nat), char_of (162::nat)] @ ''y''"

definition formatDuration :: "duration \<Rightarrow> string" where
  "formatDuration d =
     (let d = round_second d; h = trunc_div d hour; m = go_rem (trunc_div d minute) 60; s = go_rem (trunc_div d second) 60 in
      if 24 < h then itoa (trunc_div h 24) @ w_days @ itoa (go_rem h 24) @ w_hours
      else if 0 < h then itoa h @ w_hours @ '' '' @ itoa m @ w_minutes
      else if 0 < m then itoa m @ w_minutes @ '' '' @ itoa s @ w_seconds
      else itoa s @ w_seconds)"

section \<open>Which alert goes out\<close>

record alert_manager =
  alm_lastSent :: "gtime smap"
  alm_cooldown :: duration

definition NewAlertManager :: alert_manager where
  "NewAlertManager = \<lparr>alm_lastSent = [], alm_cooldown = 5 * minute\<rparr>"

definition RemoteSilence :: "gtime \<Rightarrow> string \<Rightarrow> alert_manager \<Rightarrow> alert_manager" where
  "RemoteSilence now t a = a\<lparr>alm_lastSent := AList.update t now (alm_lastSent a)\<rparr>"

definition alert_cooldown :: "string \<Rightarrow> alert_manager \<Rightarrow> duration" where
  "alert_cooldown t a = (if str_contains t ''ban_'' then 30 * second else alm_cooldown a)"

definition canSend :: "ban_config \<Rightarrow> gtime \<Rightarrow> string \<Rightarrow> alert_manager \<Rightarrow> bool \<times> effect list \<times> alert_manager" where
  "canSend mesh now t a =
     (let go = (True, broadcastAlert mesh now t, a\<lparr>alm_lastSent := AList.update t now (alm_lastSent a)\<rparr>) in
      case map_of (alm_lastSent a) t of
        Some l \<Rightarrow> if time_sub now l < alert_cooldown t a then (False, [], a) else go
      | None \<Rightarrow> go)"

text \<open>A gossip message for the alerts: \<open>delegate.NotifyMsg\<close> with \<open>RemoteSilence\<close> as the handler of alerts.\<close>

definition notifyAlert :: "ban_config \<Rightarrow> gtime \<Rightarrow> mesh_message \<Rightarrow> alert_manager \<Rightarrow> alert_manager" where
  "notifyAlert mesh now msg a =
     (case msg of
        BanMessage _ _ _ _ \<Rightarrow> a
      | AlertSync t source sentAt \<Rightarrow>
          if t = [] then a
          else if Some source = bc_mesh mesh then a
          else if 10 < unix_sec now - sentAt then a
          else RemoteSilence now t a)"

section \<open>Notices\<close>

record notice =
  no_telegram :: "string list"     \<comment> \<open>the values in the text for Telegram and the webhook\<close>
  no_color :: int
  no_fields :: "string list"       \<comment> \<open>the values of the fields of the embed for Discord\<close>

text \<open>The calls to the channels. A notice for the webhook has a time and, if one is configured, the secret in a header.\<close>

datatype alert_call =
  TelegramCall (tc_token: string) (tc_chat: string) (tc_text: "string list")
| DiscordCall (dc_url: string) (dc_color: int) (dc_fields: "string list")
| WebhookCall (wh_url: string) (wh_text: "string list") (wh_time: gtime) (wh_secret: "string option")

definition sendTelegram :: "waf_file \<Rightarrow> string list \<Rightarrow> alert_call list" where
  "sendTelegram cfg html =
     (let c = wal_Telegram (wc_Alerts cfg) in
      if wtg_Token c = [] \<or> wtg_ChatID c = [] then [] else [TelegramCall (wtg_Token c) (wtg_ChatID c) html])"

definition sendDiscord :: "waf_file \<Rightarrow> int \<Rightarrow> string list \<Rightarrow> alert_call list" where
  "sendDiscord cfg color fs =
     (let c = wal_Discord (wc_Alerts cfg) in
      if wdc_WebhookURL c = [] then [] else [DiscordCall (wdc_WebhookURL c) color fs])"

definition sendWebhook :: "waf_file \<Rightarrow> gtime \<Rightarrow> string list \<Rightarrow> alert_call list" where
  "sendWebhook cfg now text =
     (let c = wal_Webhook (wc_Alerts cfg) in
      if wwh_URL c = [] then []
      else [WebhookCall (wwh_URL c) text now (if wwh_Secret c = [] then None else Some (wwh_Secret c))])"

text \<open>Each channel is a task of its own; their calls come in any order.\<close>

definition sendAllRich :: "waf_file \<Rightarrow> gtime \<Rightarrow> notice \<Rightarrow> alert_call list" where
  "sendAllRich cfg now n =
     (if wtg_Enabled (wal_Telegram (wc_Alerts cfg)) then sendTelegram cfg (no_telegram n) else []) @
     (if wdc_Enabled (wal_Discord (wc_Alerts cfg)) then sendDiscord cfg (no_color n) (no_fields n) else []) @
     (if wwh_Enabled (wal_Webhook (wc_Alerts cfg)) then sendWebhook cfg now (no_telegram n) else [])"

definition code_span :: "string \<Rightarrow> string" where
  "code_span s = ''`'' @ s @ ''`''"

type_synonym alert_result = "(alert_call list \<times> effect list) \<times> alert_manager"

text \<open>What the four notices share: nothing is sent, nor any state changed, unless the type may be sent.\<close>

definition send_notice :: "ban_config \<Rightarrow> waf_file \<Rightarrow> gtime \<Rightarrow> string \<Rightarrow> notice \<Rightarrow> alert_manager \<Rightarrow> alert_result" where
  "send_notice mesh cfg now t n a =
     (let (ok, effects, a) = canSend mesh now t a
      in if ok then ((sendAllRich cfg now n, effects), a) else (([], []), a))"

text \<open>\<open>members\<close> is the number of the nodes of the mesh, if it runs.\<close>

definition SendAttackStart :: "ban_config \<Rightarrow> waf_file \<Rightarrow> nat option \<Rightarrow> gtime \<Rightarrow> int \<Rightarrow> alert_manager \<Rightarrow> alert_result" where
  "SendAttackStart mesh cfg members now rps a =
     (let node = wcu_NodeName (wc_Cluster cfg); domains = join '', '' (map wdm_Name (wc_Domains cfg));
          threshold = wem_RPSThreshold (wpr_Emergency (wc_Protection cfg));
          factor = show_f1 (xdiv (f_of_int rps) (f_of_int threshold));
          nodes = show_nat (case members of None \<Rightarrow> 1 | Some n \<Rightarrow> n)
      in send_notice mesh cfg now ''attack_start''
           \<lparr>no_telegram = [node, domains, itoa rps, itoa threshold, factor, nodes], no_color = 16730955,
            no_fields = [code_span node, code_span (itoa rps @ '' req/s''), code_span (itoa threshold @ '' req/s''), domains,
                         code_span (nodes @ '' Nodes Online'')]\<rparr> a)"

definition SendAttackEnd :: "ban_config \<Rightarrow> waf_file \<Rightarrow> gtime \<Rightarrow> duration \<Rightarrow> int \<Rightarrow> alert_manager \<Rightarrow> alert_result" where
  "SendAttackEnd mesh cfg now d blocked a =
     (let node = wcu_NodeName (wc_Cluster cfg)
      in send_notice mesh cfg now ''attack_end''
           \<lparr>no_telegram = [node, formatDuration d, formatNumber blocked], no_color = 54927,
            no_fields = [code_span node, formatDuration d, formatNumber blocked]\<rparr> a)"

definition SendBan :: "ban_config \<Rightarrow> waf_file \<Rightarrow> gtime \<Rightarrow> string \<Rightarrow> string \<Rightarrow> duration \<Rightarrow> alert_manager \<Rightarrow> alert_result" where
  "SendBan mesh cfg now ip reason d a =
     (let node = wcu_NodeName (wc_Cluster cfg)
      in send_notice mesh cfg now (''ban_'' @ ip)
           \<lparr>no_telegram = [node, ip, reason, formatDuration d], no_color = 16758784,
            no_fields = [code_span node, code_span ip, reason, formatDuration d]\<rparr> a)"

definition SendReport ::
  "ban_config \<Rightarrow> waf_file \<Rightarrow> gtime \<Rightarrow> int \<Rightarrow> int \<Rightarrow> int \<Rightarrow> int \<Rightarrow> int \<Rightarrow> duration \<Rightarrow> alert_manager \<Rightarrow> alert_result" where
  "SendReport mesh cfg now totalReqs blocked passed bannedIPs attacks uptime a =
     (let node = wcu_NodeName (wc_Cluster cfg);
          blockRate = (if 0 < totalReqs then fmul (fdiv (f_of_int blocked) (f_of_int totalReqs)) 100 else 0);
          rate = show_tenths blockRate
      in send_notice mesh cfg now ''report''
           \<lparr>no_telegram = [node, formatNumber totalReqs, formatNumber blocked, rate, formatNumber passed, itoa bannedIPs,
                           itoa attacks, formatDuration uptime],
            no_color = 7043839,
            no_fields = [code_span node, formatDuration uptime, formatNumber totalReqs,
                         formatNumber blocked @ '' ('' @ rate @ ''%)'', itoa bannedIPs, itoa attacks]\<rparr> a)"

definition SendCustom :: "waf_file \<Rightarrow> gtime \<Rightarrow> string \<Rightarrow> alert_call list" where
  "SendCustom cfg now msg =
     sendAllRich cfg now \<lparr>no_telegram = [msg], no_color = 7043839, no_fields = [msg]\<rparr>"

text \<open>Nodes without a name send their messages in the name of each other, and so drop them all.\<close>

lemma unnamed_nodes_ignore_each_other:
  "bc_mesh mesh = Some [] \<Longrightarrow> notifyMsg mesh now (BanMessage ip d [] sent) s = s \<and> notifyAlert mesh now (AlertSync t [] sent) a = a"
  by (simp add: notifyMsg_def notifyAlert_def)

section \<open>Alerts of one type keep their distance\<close>

lemma canSend_cooldown [simp]: "alm_cooldown (snd (snd (canSend mesh now t a))) = alm_cooldown a"
  by (simp add: canSend_def Let_def split: option.splits)

lemma canSend_iff:
  "fst (canSend mesh now t a) \<longleftrightarrow> (case map_of (alm_lastSent a) t of None \<Rightarrow> True | Some l \<Rightarrow> alert_cooldown t a \<le> time_sub now l)"
  by (auto simp: canSend_def Let_def split: option.splits)

lemma canSend_state:
  "snd (snd (canSend mesh now t a)) =
     (if fst (canSend mesh now t a) then a\<lparr>alm_lastSent := AList.update t now (alm_lastSent a)\<rparr> else a)"
  by (simp add: canSend_def Let_def split: option.splits)

lemma canSend_effects: "\<not> fst (canSend mesh now t a) \<Longrightarrow> fst (snd (canSend mesh now t a)) = []"
  by (simp add: canSend_def Let_def split: option.splits if_splits)

text \<open>The times of the last alerts are the state of the throttle; the interval of a type is that of a new manager, which keeps it.\<close>

definition with_sent :: "gtime smap \<Rightarrow> alert_manager" where
  "with_sent m = NewAlertManager\<lparr>alm_lastSent := m\<rparr>"

definition al_interval :: "string \<Rightarrow> duration" where
  "al_interval t = alert_cooldown t NewAlertManager"

definition al_fires :: "ban_config \<Rightarrow> gtime \<Rightarrow> string \<Rightarrow> gtime smap \<Rightarrow> bool" where
  "al_fires mesh now t m \<longleftrightarrow> fst (canSend mesh now t (with_sent m))"

definition al_after :: "ban_config \<Rightarrow> gtime \<Rightarrow> string \<Rightarrow> gtime smap \<Rightarrow> gtime smap" where
  "al_after mesh now t m = alm_lastSent (snd (snd (canSend mesh now t (with_sent m))))"

lemma with_sent_fields: "alm_lastSent (with_sent m) = m" "alert_cooldown t (with_sent m) = al_interval t"
  by (simp_all add: with_sent_def al_interval_def alert_cooldown_def)

interpretation alerts: throttle "al_fires mesh" "al_after mesh" map_of al_interval for mesh
proof
  show "0 \<le> al_interval k" for k
    by (simp add: al_interval_def alert_cooldown_def NewAlertManager_def second_def minute_def)
  show "al_fires mesh now k s \<longleftrightarrow> (case map_of s k of None \<Rightarrow> True | Some t \<Rightarrow> al_interval k \<le> time_sub now t)" for now k s
    by (simp add: al_fires_def canSend_iff with_sent_fields split: option.splits)
  show "map_of (al_after mesh now k s) k' = (if al_fires mesh now k s \<and> k' = k then Some now else map_of s k')" for now k s k'
    by (simp add: al_after_def al_fires_def canSend_state update_conv' with_sent_fields)
qed

section \<open>The worker, the gossip and the alerts\<close>

datatype alarm_event = Tick gtime | Gossip gtime mesh_message

definition raise_alert :: "ban_config \<Rightarrow> waf_file \<Rightarrow> nat option \<Rightarrow> gtime \<Rightarrow> alert_sent option \<Rightarrow> alert_manager \<Rightarrow> alert_result" where
  "raise_alert mesh cfg members now e a =
     (case e of
        None \<Rightarrow> (([], []), a)
      | Some (AttackStarted rps) \<Rightarrow> SendAttackStart mesh cfg members now rps a
      | Some (AttackEnded d blocked) \<Rightarrow> SendAttackEnd mesh cfg now d blocked a)"

fun alarm_run ::
  "pl_config \<Rightarrow> waf_file \<Rightarrow> nat option \<Rightarrow> alarm_event list \<Rightarrow> shield \<Rightarrow> alert_manager \<Rightarrow> alert_call list \<times> shield \<times> alert_manager" where
  "alarm_run pc cfg members [] s a = ([], s, a)"
| "alarm_run pc cfg members (Tick now # es) s a =
     (let (e, s) = attack_tick pc now s;
          ((calls, effects), a) = raise_alert (pc_bans pc) cfg members now e a;
          (calls', s, a) = alarm_run pc cfg members es s a
      in (calls @ calls', s, a))"
| "alarm_run pc cfg members (Gossip now msg # es) s a =
     alarm_run pc cfg members es (on_ip_tables (notifyMsg (pc_bans pc) now msg) s) (notifyAlert (pc_bans pc) now msg a)"

text \<open>A type that was sent or silenced less than its interval ago.\<close>

definition muted :: "gtime \<Rightarrow> string \<Rightarrow> alert_manager \<Rightarrow> bool" where
  "muted now t a \<longleftrightarrow> (\<exists>l. map_of (alm_lastSent a) t = Some l \<and> time_sub now l < alert_cooldown t a)"

lemma muted_canSend: "muted now t a \<Longrightarrow> canSend mesh now t a = (False, [], a)"
  by (auto simp: muted_def canSend_def)

lemma muted_send: "muted now t a \<Longrightarrow> send_notice mesh cfg now t n a = (([], []), a)"
  by (simp add: send_notice_def muted_canSend)

lemma muted_raise:
  "muted now ''attack_start'' a \<Longrightarrow> muted now ''attack_end'' a \<Longrightarrow> raise_alert mesh cfg members now e a = (([], []), a)"
  by (auto simp: raise_alert_def SendAttackStart_def SendAttackEnd_def muted_send Let_def split: option.splits alert_sent.splits)

lemma muted_ticks:
  assumes "\<forall>t\<in>set ts. muted t ''attack_start'' a \<and> muted t ''attack_end'' a"
  shows "\<exists>s'. alarm_run pc cfg members (map Tick ts @ es) s a = alarm_run pc cfg members es s' a"
  using assms
proof (induction ts arbitrary: s)
  case (Cons t ts)
  obtain e s1 where "attack_tick pc t s = (e, s1)" by (cases "attack_tick pc t s")
  then show ?case using Cons.IH [of s1] Cons.prems muted_raise [of t a] by (simp add: Let_def)
qed auto

lemma attack_cooldowns: "alert_cooldown ''attack_start'' a = alm_cooldown a" "alert_cooldown ''attack_end'' a = alm_cooldown a"
  by (simp_all add: alert_cooldown_def has_prefix_def)

lemma silence_mutes:
  assumes "Some src \<noteq> bc_mesh mesh" "t0 \<le> t" "t < t0 + 5 * minute" "alm_cooldown a = 5 * minute"
    and "a' = notifyAlert mesh t0 (AlertSync ''attack_end'' src (unix_sec t0)) (notifyAlert mesh t0 (AlertSync ''attack_start'' src (unix_sec t0)) a)"
  shows "muted t ''attack_start'' a' \<and> muted t ''attack_end'' a' \<and> alm_cooldown a' = 5 * minute"
proof -
  have d: "time_sub t t0 < 5 * minute"
    using assms(2,3) by (auto simp: time_sub_def clamp64_def min_i64_def max_i64_def minute_def second_def)
  show ?thesis
    using assms d by (simp add: notifyAlert_def RemoteSilence_def muted_def update_conv' attack_cooldowns)
qed

text \<open>A peer that silences both alerts of an attack, and the ticks of the worker until it does so again.\<close>

definition silenced_round :: "string \<Rightarrow> gtime \<times> gtime list \<Rightarrow> alarm_event list" where
  "silenced_round src = (\<lambda>(t0, ts).
     Gossip t0 (AlertSync ''attack_start'' src (unix_sec t0)) # Gossip t0 (AlertSync ''attack_end'' src (unix_sec t0)) # map Tick ts)"

text \<open>
  C38: One node of the mesh can keep another from ever raising an alarm. If at least every five minutes a message arrives
  that says, under any name but the node's own, that the two alerts of an attack were sent, then no channel is called,
  whatever the traffic, the thresholds, the channels and the attacks that begin and end; without these messages the
  first attack is announced on every channel that is configured.
\<close>

theorem a_peer_mutes_every_alarm:
  assumes "Some src \<noteq> bc_mesh (pc_bans pc)" "alm_cooldown a = 5 * minute"
    and "\<forall>(t0, ts)\<in>set rounds. \<forall>t\<in>set ts. t0 \<le> t \<and> t < t0 + 5 * minute"
  shows "fst (alarm_run pc cfg members (concat (map (silenced_round src) rounds)) s a) = [] \<and>
    (\<forall>now rps. map_of (alm_lastSent a) ''attack_start'' = None \<longrightarrow>
       (\<exists>n. fst (fst (SendAttackStart (pc_bans pc) cfg members now rps a)) = sendAllRich cfg now n \<and>
            itoa rps \<in> set (no_telegram n)))"
proof
  show "fst (alarm_run pc cfg members (concat (map (silenced_round src) rounds)) s a) = []"
    using assms(2,3)
  proof (induction rounds arbitrary: s a)
    case (Cons r rounds)
    obtain t0 ts where r: "r = (t0, ts)" by (cases r)
    let ?m1 = "AlertSync ''attack_start'' src (unix_sec t0)" and ?m2 = "AlertSync ''attack_end'' src (unix_sec t0)"
    let ?a = "notifyAlert (pc_bans pc) t0 ?m2 (notifyAlert (pc_bans pc) t0 ?m1 a)"
    have m: "muted t ''attack_start'' ?a \<and> muted t ''attack_end'' ?a" if "t \<in> set ts" for t
      using silence_mutes [OF assms(1), where ?t0.0 = t0 and t = t and a = a] Cons.prems that by (auto simp: r)
    have c: "alm_cooldown ?a = 5 * minute"
      using Cons.prems by (simp add: notifyAlert_def RemoteSilence_def)
    obtain s' where "alarm_run pc cfg members (map Tick ts @ concat (map (silenced_round src) rounds))
        (on_ip_tables (notifyMsg (pc_bans pc) t0 ?m2) (on_ip_tables (notifyMsg (pc_bans pc) t0 ?m1) s)) ?a =
        alarm_run pc cfg members (concat (map (silenced_round src) rounds)) s' ?a"
      using muted_ticks [where ts = ts and a = ?a] m by blast
    then show ?case using Cons.IH [of ?a s'] c Cons.prems by (simp add: r silenced_round_def)
  qed simp
  show "\<forall>now rps. map_of (alm_lastSent a) ''attack_start'' = None \<longrightarrow>
       (\<exists>n. fst (fst (SendAttackStart (pc_bans pc) cfg members now rps a)) = sendAllRich cfg now n \<and>
            itoa rps \<in> set (no_telegram n))"
    by (auto simp: SendAttackStart_def send_notice_def canSend_def Let_def intro!: exI)
qed

text \<open>A flood that is twice the threshold, with and without a peer that silences its alerts every four minutes.\<close>

definition flooded :: shield where
  "flooded = newShield (bare_pipeline\<lparr>pp_CurrentRPS := 2000\<rparr>) None"

definition flood_rounds :: "(gtime \<times> gtime list) list" where
  "flood_rounds = [(0, [1, 2]), (4 * minute, [4 * minute + 1])]"

theorem a_peer_mutes_every_alarm_witness:
  "fst (alarm_run sample_pl_config bare_config None (concat (map (silenced_round ''peer'') flood_rounds)) flooded NewAlertManager) = [] \<and>
   fst (alarm_run sample_pl_config bare_config None [Tick 1] flooded NewAlertManager) =
     [TelegramCall ''token'' ''chat'' [''edge-1'', ''example.com'', ''2000'', ''0'', ''+Inf'', ''1'']]"
proof
  show "fst (alarm_run sample_pl_config bare_config None (concat (map (silenced_round ''peer'') flood_rounds)) flooded NewAlertManager) = []"
    using a_peer_mutes_every_alarm [of "''peer''" sample_pl_config NewAlertManager flood_rounds bare_config None flooded]
    by (simp add: sample_pl_config_def plain_bans_def NewAlertManager_def flood_rounds_def minute_def second_def)
  show "fst (alarm_run sample_pl_config bare_config None [Tick 1] flooded NewAlertManager) =
     [TelegramCall ''token'' ''chat'' [''edge-1'', ''example.com'', ''2000'', ''0'', ''+Inf'', ''1'']]"
    by code_simp
qed

end
