(* ===== verification/Dashboard.thy ===== *)
theory Dashboard
  imports WafConfig FileServer Shield Sniffer Edge
begin

text \<open>
  The dashboard of the firewall (\<open>api/dashboard.go\<close>): the history of its chart, the adapter that reads the counters of
  the server and of the other components, the handlers behind the authentication and the CORS headers, and the mux. The
  page itself is a constant text; JSON is kept as a value.
\<close>

section \<open>The history of the request rate\<close>

record ring_buffer =
  rb_data :: "int list"
  rb_idx :: nat

definition emptyRing :: ring_buffer where
  "emptyRing = \<lparr>rb_data = replicate 300 0, rb_idx = 0\<rparr>"

definition Push :: "int \<Rightarrow> ring_buffer \<Rightarrow> ring_buffer" where
  "Push v rb = rb\<lparr>rb_data := (rb_data rb)[rb_idx rb mod 300 := v], rb_idx := rb_idx rb + 1\<rparr>"

definition Slice :: "ring_buffer \<Rightarrow> int list" where
  "Slice rb = map (\<lambda>i. rb_data rb ! ((rb_idx rb + i) mod 300)) [0..<300]"


lemma Push_fields [simp]: "rb_data (Push x r) = (rb_data r)[rb_idx r mod 300 := x]" "rb_idx (Push x r) = rb_idx r + 1"
  by (simp_all add: Push_def)

lemma ring_state:
  "length (rb_data (fold Push xs emptyRing)) = 300 \<and> rb_idx (fold Push xs emptyRing) = length xs \<and>
   (\<forall>k<300. rb_data (fold Push xs emptyRing) ! ((length xs + k) mod 300) =
      (replicate 300 0 @ xs) ! (length xs + k))"
proof (induction xs rule: rev_induct)
  case Nil
  then show ?case by (simp add: emptyRing_def)
next
  case (snoc x xs)
  let ?r = "fold Push xs emptyRing" and ?n = "length xs"
  have d: "rb_data (Push x ?r) = (rb_data ?r)[?n mod 300 := x]" using snoc by simp
  have "rb_data (Push x ?r) ! ((?n + 1 + k) mod 300) = (replicate 300 0 @ xs @ [x]) ! (?n + 1 + k)" if k: "k < 300" for k
  proof (cases "k = 299")
    case True
    then have "(?n + 1 + k) mod 300 = ?n mod 300" by (simp add: mod_add_right_eq[symmetric])
    then show ?thesis using True snoc by (simp add: d nth_append)
  next
    case False
    then have "k + 1 < 300" using k by simp
    then have "rb_data ?r ! ((?n + (k + 1)) mod 300) = (replicate 300 0 @ xs) ! (?n + (k + 1))" using snoc by blast
    moreover have "(?n + (k + 1)) mod 300 \<noteq> ?n mod 300"
    proof
      assume "(?n + (k + 1)) mod 300 = ?n mod 300"
      then have "(300::nat) dvd k + 1" by (metis add_diff_cancel_left' le_add1 mod_eq_dvd_iff_nat)
      then show False using \<open>k + 1 < 300\<close> by (auto dest: dvd_imp_le)
    qed
    moreover have "(replicate 300 0 @ xs @ [x]) ! (?n + (k + 1)) = (replicate 300 0 @ xs) ! (?n + (k + 1))"
      using \<open>k + 1 < 300\<close> nth_append [of "replicate 300 0 @ xs" "[x]" "?n + (k + 1)"] by (simp del: nth_append_left nth_append_right)
    ultimately have "rb_data (Push x ?r) ! ((?n + (k + 1)) mod 300) = (replicate 300 0 @ xs @ [x]) ! (?n + (k + 1))"
      using snoc by (simp add: d)
    then show ?thesis by (simp add: ac_simps)
  qed
  then show ?case using snoc by simp
qed

text \<open>
  The chart shows the last five minutes: after any measurements, the slice of the ring buffer is the last 300 of
  them in their order, with zeros before the first ones, however often the buffer was overwritten.
\<close>

theorem history_is_the_last_five_minutes:
  "Slice (fold Push xs emptyRing) = drop (length xs) (replicate 300 0 @ xs)"
proof (rule nth_equalityI)
  fix i
  assume "i < length (Slice (fold Push xs emptyRing))"
  then have i: "i < 300" by (simp add: Slice_def)
  then have "Slice (fold Push xs emptyRing) ! i = (replicate 300 0 @ xs) ! (length xs + i)"
    using ring_state [of xs] by (simp add: Slice_def)
  then show "Slice (fold Push xs emptyRing) ! i = drop (length xs) (replicate 300 0 @ xs) ! i"
    using i by (simp add: nth_drop del: drop_append)
qed (simp add: Slice_def)

section \<open>The counters it shows\<close>

datatype json =
  JInt int | JBool bool | JStr string | JNum rat | JSpan duration | JList "json list" | JObj "(string \<times> json) list"

text \<open>A nil function of the adapter is \<open>None\<close>; a function has the answer of the component it asks.\<close>

record stats_adapter =
  sa_TotalReqs :: int
  sa_BlockedReqs :: int
  sa_PassedReqs :: int
  sa_CurrRPS :: int
  sa_PkRPS :: int
  sa_ActiveCn :: int
  sa_BannedIP :: int
  sa_AttacksDet :: int
  sa_UnderAttack :: bool
  sa_UptimeStart :: gtime
  sa_XDP :: "(bool \<times> int \<times> int) option"
  sa_EarlyStats :: "(int \<times> int) option"
  sa_CDNStats :: "(int \<times> int \<times> int) option"
  sa_MeshStats :: "(bool \<times> int) option"
  sa_MeshMembers :: "(string \<times> string) list option"

definition GetXDPStats :: "stats_adapter \<Rightarrow> bool \<times> int \<times> int" where
  "GetXDPStats a = (case sa_XDP a of None \<Rightarrow> (False, 0, 0) | Some x \<Rightarrow> x)"

definition GetEarlyRejectStats :: "stats_adapter \<Rightarrow> int \<times> int" where
  "GetEarlyRejectStats a = (case sa_EarlyStats a of None \<Rightarrow> (0, 0) | Some x \<Rightarrow> x)"

definition GetCacheStats :: "stats_adapter \<Rightarrow> int \<times> int \<times> int" where
  "GetCacheStats a = (case sa_CDNStats a of None \<Rightarrow> (0, 0, 0) | Some x \<Rightarrow> x)"

definition GetMeshStats :: "stats_adapter \<Rightarrow> bool \<times> int" where
  "GetMeshStats a = (case sa_MeshStats a of None \<Rightarrow> (False, 0) | Some x \<Rightarrow> x)"

definition GetMeshMembers :: "stats_adapter \<Rightarrow> (string \<times> string) list" where
  "GetMeshMembers a = (case sa_MeshMembers a of None \<Rightarrow> [] | Some x \<Rightarrow> x)"

text \<open>
  The adapter as \<open>main\<close> wires it: the counters of the server, the counts of the XDP filter, of the early rejects, of the
  cache and of the mesh, when they run.
\<close>

definition cdn_stats :: "'c cdn option \<Rightarrow> int \<times> int \<times> int" where
  "cdn_stats c = (case c of None \<Rightarrow> (0, 0, 0) | Some c \<Rightarrow> (cn_Hits c, cn_Misses c, cn_Bypasses c))"

definition adapter_of ::
  "shield \<Rightarrow> gtime \<Rightarrow> (bool \<times> int \<times> int) option \<Rightarrow> early_stats \<Rightarrow> 'c cdn option \<Rightarrow> (string \<times> string) list option \<Rightarrow> stats_adapter" where
  "adapter_of s start xdp early cdn mesh =
     \<lparr>sa_TotalReqs = sh_TotalRequests s, sa_BlockedReqs = sh_BlockedRequests s, sa_PassedReqs = sh_PassedRequests s,
      sa_CurrRPS = pp_CurrentRPS (sh_pipeline s), sa_PkRPS = sh_PeakRPS s, sa_ActiveCn = sh_ActiveConns s,
      sa_BannedIP = it_BannedIPs (pp_tables (sh_pipeline s)), sa_AttacksDet = sh_AttacksDetected s,
      sa_UnderAttack = pp_underAttack (sh_pipeline s), sa_UptimeStart = start,
      sa_XDP = Some (case xdp of None \<Rightarrow> (False, 0, 0) | Some x \<Rightarrow> x),
      sa_EarlyStats = Some (es_TotalProcessed early, es_TotalRejected early), sa_CDNStats = Some (cdn_stats cdn),
      sa_MeshStats = Some (case mesh of None \<Rightarrow> (False, 0) | Some ms \<Rightarrow> (True, int (length ms))),
      sa_MeshMembers = Some (case mesh of None \<Rightarrow> [] | Some ms \<Rightarrow> ms)\<rparr>"

section \<open>Handlers\<close>

datatype dash_body = NoBody | Json json | DashboardHTML | ErrorText string

record dash_reply =
  dr_status :: nat
  dr_headers :: "(string \<times> string) list"
  dr_body :: dash_body

record dashboard =
  da_cfg :: waf_file
  da_stats :: stats_adapter
  da_hist :: ring_buffer

definition writeJSON :: "json \<Rightarrow> dash_reply" where
  "writeJSON j = \<lparr>dr_status = 200, dr_headers = [(''Content-Type'', ''application/json'')], dr_body = Json j\<rparr>"

definition http_error :: "string \<Rightarrow> nat \<Rightarrow> dash_reply" where
  "http_error msg status =
     \<lparr>dr_status = status,
      dr_headers = [(''Content-Type'', ''text/plain; charset=utf-8''), (''X-Content-Type-Options'', ''nosniff'')], dr_body = ErrorText msg\<rparr>"

definition node_json :: "string \<times> string \<Rightarrow> json" where
  "node_json n = JObj [(''name'', JStr (fst n)), (''addr'', JStr (snd n))]"

definition handleStats :: "gtime \<Rightarrow> dashboard \<Rightarrow> dash_reply" where
  "handleStats now d =
     (let a = da_stats d; (enabled, xdpBanned, xdpDrops) = GetXDPStats a; (earlyProcessed, earlyRejected) = GetEarlyRejectStats a;
          (hits, misses, bypasses) = GetCacheStats a; (meshEnabled, meshNodes) = GetMeshStats a
      in writeJSON (JObj
           [(''total_requests'', JInt (sa_TotalReqs a)), (''blocked_requests'', JInt (sa_BlockedReqs a)),
            (''passed_requests'', JInt (sa_PassedReqs a)), (''current_rps'', JInt (sa_CurrRPS a)), (''peak_rps'', JInt (sa_PkRPS a)),
            (''active_conns'', JInt (sa_ActiveCn a)), (''banned_ips'', JInt (sa_BannedIP a)),
            (''attacks_detected'', JInt (sa_AttacksDet a)), (''is_under_attack'', JBool (sa_UnderAttack a)),
            (''uptime_seconds'', JNum (seconds (time_sub now (sa_UptimeStart a)))), (''xdp_enabled'', JBool enabled),
            (''xdp_banned'', JInt xdpBanned), (''xdp_drops'', JInt xdpDrops), (''early_processed'', JInt earlyProcessed),
            (''early_rejected'', JInt earlyRejected), (''cache_hits'', JInt hits), (''cache_misses'', JInt misses),
            (''cache_bypasses'', JInt bypasses), (''mesh_enabled'', JBool meshEnabled), (''mesh_nodes'', JInt meshNodes),
            (''mesh_members'', JList (map node_json (GetMeshMembers a))), (''timestamp'', JInt (unix_sec now))]))"

definition handleCachePurge :: "request \<Rightarrow> dash_reply" where
  "handleCachePurge r =
     (if r_method r \<noteq> ''POST'' then http_error ''Method Not Allowed'' 405
      else writeJSON (JObj [(''status'', JStr ''purged''), (''success'', JBool True)]))"

definition handleHealth :: "gtime \<Rightarrow> dashboard \<Rightarrow> dash_reply" where
  "handleHealth now d =
     writeJSON (JObj [(''status'', JStr ''healthy''), (''version'', JStr ''2.0.0''),
                      (''uptime'', JSpan (time_sub now (sa_UptimeStart (da_stats d))))])"

definition handleConfig :: "dashboard \<Rightarrow> dash_reply" where
  "handleConfig d =
     (let c = da_cfg d in
      writeJSON (JObj [(''mode'', JStr (wpr_Mode (wc_Protection c))), (''domains'', JInt (int (length (wc_Domains c)))),
        (''tls'', JBool (wtl_Enabled (wc_TLS c))), (''waf'', JBool (wwf_Enabled (wc_WAF c))),
        (''fingerprint'', JObj [(''ja3'', JBool (wj3_Enabled (wfp_JA3 (wc_Fingerprint c)))),
                                (''ja4'', JBool (wj4_Enabled (wfp_JA4 (wc_Fingerprint c))))])]))"

definition handleRPSHistory :: "dashboard \<Rightarrow> dash_reply" where
  "handleRPSHistory d = writeJSON (JObj [(''rps'', JList (map JInt (Slice (da_hist d))))])"

definition handleDashboardUI :: dash_reply where
  "handleDashboardUI = \<lparr>dr_status = 200, dr_headers = [(''Content-Type'', ''text/html; charset=utf-8'')], dr_body = DashboardHTML\<rparr>"

text \<open>The mux with the routes of \<open>registerRoutes\<close>, all exact but the last.\<close>

definition dash_mux :: "gtime \<Rightarrow> dashboard \<Rightarrow> request \<Rightarrow> dash_reply" where
  "dash_mux now d r =
     (let p = r_path r in
      if r_method r \<noteq> ''CONNECT'' \<and> mux_path p \<noteq> p
      then \<lparr>dr_status = 301, dr_headers = [(''Location'', mux_path p)], dr_body = NoBody\<rparr>
      else if p = ''/api/stats'' then handleStats now d
      else if p = ''/api/health'' then handleHealth now d
      else if p = ''/api/config'' then handleConfig d
      else if p = ''/api/rps-history'' then handleRPSHistory d
      else if p = ''/api/cache/purge'' then handleCachePurge r
      else handleDashboardUI)"

definition with_headers :: "(string \<times> string) list \<Rightarrow> dash_reply \<Rightarrow> dash_reply" where
  "with_headers hs rep = rep\<lparr>dr_headers := hs @ dr_headers rep\<rparr>"

definition corsMiddleware :: "(request \<Rightarrow> dash_reply) \<Rightarrow> request \<Rightarrow> dash_reply" where
  "corsMiddleware h r =
     with_headers
       [(''Access-Control-Allow-Origin'', ''*''), (''Access-Control-Allow-Methods'', ''GET,POST,OPTIONS''),
        (''Access-Control-Allow-Headers'', ''Content-Type,Authorization'')]
       (if r_method r = ''OPTIONS'' then \<lparr>dr_status = 200, dr_headers = [], dr_body = NoBody\<rparr> else h r)"

definition authMiddleware :: "waf_file \<Rightarrow> (request \<Rightarrow> dash_reply) \<Rightarrow> request \<Rightarrow> dash_reply" where
  "authMiddleware cfg h r =
     (let c = wc_Dashboard cfg in
      if r_path r = ''/api/health'' then h r
      else if wdb_Username c \<noteq> [] \<and> basic_auth (header_get r ''Authorization'') \<noteq> Some (wdb_Username c, wdb_Password c)
      then with_headers [(''WWW-Authenticate'', ''Basic realm='' @ [char_of (34::nat)] @ ''Mango Shield'' @ [char_of (34::nat)])]
             (http_error ''Unauthorized'' 401)
      else h r)"

definition dash_serve :: "gtime \<Rightarrow> dashboard \<Rightarrow> request \<Rightarrow> dash_reply" where
  "dash_serve now d = authMiddleware (da_cfg d) (corsMiddleware (dash_mux now d))"

text \<open>\<open>Start\<close>: whether a server listens, and where.\<close>

definition dash_Start :: "waf_file \<Rightarrow> string option" where
  "dash_Start cfg = (if wdb_Enabled (wc_Dashboard cfg) then Some (wdb_Listen (wc_Dashboard cfg)) else None)"

text \<open>A tick of the task of \<open>NewDashboard\<close>.\<close>

definition record_tick :: "dashboard \<Rightarrow> dashboard" where
  "record_tick d = d\<lparr>da_hist := Push (sa_CurrRPS (da_stats d)) (da_hist d)\<rparr>"

section \<open>Who sees what\<close>

definition dash_locked :: "waf_file \<Rightarrow> request \<Rightarrow> bool" where
  "dash_locked cfg r \<longleftrightarrow>
     (let c = wc_Dashboard cfg in
      wdb_Username c \<noteq> [] \<and> r_path r \<noteq> ''/api/health'' \<and>
      basic_auth (header_get r ''Authorization'') \<noteq> Some (wdb_Username c, wdb_Password c))"

lemma with_headers_simps [simp]:
  "dr_status (with_headers hs rep) = dr_status rep" "dr_body (with_headers hs rep) = dr_body rep"
  "dr_headers (with_headers hs rep) = hs @ dr_headers rep"
  by (simp_all add: with_headers_def)

lemma dash_mux_status: "dr_status (dash_mux now d r) \<in> {200, 301, 405}"
  by (simp add: dash_mux_def handleStats_def handleHealth_def handleConfig_def handleRPSHistory_def handleCachePurge_def
      handleDashboardUI_def writeJSON_def http_error_def split_beta Let_def)

lemma serve_locked:
  "dash_locked (da_cfg d) r \<Longrightarrow> dr_status (dash_serve now d r) = 401 \<and> dr_body (dash_serve now d r) = ErrorText ''Unauthorized'' \<and>
     map_of (dr_headers (dash_serve now d r)) ''Access-Control-Allow-Origin'' = None"
  by (auto simp: dash_serve_def authMiddleware_def dash_locked_def http_error_def Let_def)

lemma serve_unlocked: "\<not> dash_locked (da_cfg d) r \<Longrightarrow> dash_serve now d r = corsMiddleware (dash_mux now d) r"
  by (auto simp: dash_serve_def authMiddleware_def dash_locked_def Let_def)

text \<open>What the dashboard answers to a read of its counters that is let in, of a server after any run.\<close>

lemma stats_of_server:
  assumes "shield_run cfg es (newShield p fs) = (replies, s)" "da_stats d = adapter_of s start xdp early cdn mesh"
  shows "\<exists>kvs. dr_body (handleStats now d) = Json (JObj kvs) \<and> map_of kvs ''total_requests'' = Some (JInt (int (length replies))) \<and>
    map_of kvs ''blocked_requests'' = Some (JInt (sh_BlockedRequests s)) \<and> map_of kvs ''passed_requests'' = Some (JInt (sh_PassedRequests s))"
  using shield_run_counts [of cfg es "newShield p fs"] assms
  by (simp add: handleStats_def writeJSON_def split_beta Let_def adapter_of_def newShield_def)

lemma basic_user: "basic_auth a = Some (u, p) \<Longrightarrow> CHR '':'' \<notin> set u"
  by (auto simp: basic_auth_def basic_pair_def dest: splitn2_pair split: if_splits option.splits list.splits)

text \<open>
  C39: When the dashboard asks for a name, all its paths but that of the health check are closed without the name and the
  password, whatever the method: also a preflight, which browsers send without credentials, gets the 401 without CORS
  headers, so these headers help no other site. With them, and for everyone if no name is configured, even if a password
  is, it answers, and the counters it shows are those of the server: the total is the number of its requests. A name
  with a colon locks everyone out.
\<close>

theorem the_dashboard_is_closed_without_its_password:
  assumes "shield_run cfg es (newShield p fs) = (replies, s)" "da_stats d = adapter_of s start xdp early cdn mesh"
  shows "(dash_locked (da_cfg d) r \<longrightarrow>
      dr_status (dash_serve now d r) = 401 \<and> map_of (dr_headers (dash_serve now d r)) ''Access-Control-Allow-Origin'' = None) \<and>
    (\<not> dash_locked (da_cfg d) r \<longrightarrow>
      dr_status (dash_serve now d r) \<in> {200, 301, 405} \<and> map_of (dr_headers (dash_serve now d r)) ''Access-Control-Allow-Origin'' = Some ''*'' \<and>
      (r_method r = ''GET'' \<and> r_path r = ''/api/stats'' \<longrightarrow>
        (\<exists>kvs. dr_body (dash_serve now d r) = Json (JObj kvs) \<and> map_of kvs ''total_requests'' = Some (JInt (int (length replies)))))) \<and>
    (wdb_Username (wc_Dashboard (da_cfg d)) = [] \<longrightarrow> \<not> dash_locked (da_cfg d) r) \<and>
    (CHR '':'' \<in> set (wdb_Username (wc_Dashboard (da_cfg d))) \<and> r_path r \<noteq> ''/api/health'' \<longrightarrow> dash_locked (da_cfg d) r)"
proof -
  have "dr_status (dash_serve now d r) \<in> {200, 301, 405} \<and> map_of (dr_headers (dash_serve now d r)) ''Access-Control-Allow-Origin'' = Some ''*''"
    if "\<not> dash_locked (da_cfg d) r"
    using dash_mux_status [of now d r] by (simp add: serve_unlocked [OF that] corsMiddleware_def)
  moreover have "\<exists>kvs. dr_body (dash_serve now d r) = Json (JObj kvs) \<and> map_of kvs ''total_requests'' = Some (JInt (int (length replies)))"
    if "\<not> dash_locked (da_cfg d) r" "r_method r = ''GET''" "r_path r = ''/api/stats''"
  proof -
    have "mux_path ''/api/stats'' = ''/api/stats''" by code_simp
    then have "dr_body (dash_serve now d r) = dr_body (handleStats now d)"
      using that by (simp add: serve_unlocked [OF that(1)] corsMiddleware_def dash_mux_def)
    then show ?thesis using stats_of_server [OF assms] by auto
  qed
  moreover have "dash_locked (da_cfg d) r" if "CHR '':'' \<in> set (wdb_Username (wc_Dashboard (da_cfg d)))" "r_path r \<noteq> ''/api/health''"
    using that basic_user by (fastforce simp: dash_locked_def Let_def)
  ultimately show ?thesis using serve_locked [of d r now] by (simp add: dash_locked_def Let_def)
qed

definition guarded_dashboard :: dashboard where
  "guarded_dashboard =
     \<lparr>da_cfg = bare_config\<lparr>wc_Dashboard := \<lparr>wdb_Enabled = True, wdb_Listen = '':9090'', wdb_Username = ''admin'', wdb_Password = ''pw'', wdb_JWTSecret = ''s''\<rparr>\<rparr>,
      da_stats = adapter_of (newShield bare_pipeline None) 0 None \<lparr>es_TotalProcessed = 0, es_TotalRejected = 0\<rparr> (None :: unit cdn option) None,
      da_hist = emptyRing\<rparr>"

theorem the_dashboard_is_closed_without_its_password_witness:
  "dr_status (dash_serve 0 guarded_dashboard (get_request\<lparr>r_path := ''/api/stats'', r_method := ''OPTIONS''\<rparr>)) = 401 \<and>
   dr_status (dash_serve 0 guarded_dashboard
     (get_request\<lparr>r_path := ''/api/stats'', r_header := [(''Authorization'', [''Basic '' @ b64_encode False (str_bytes (''admin'' @ CHR '':'' # ''pw''))])]\<rparr>)) \<in> {200, 301, 405}"
proof -
  let ?r1 = "get_request\<lparr>r_path := ''/api/stats'', r_method := ''OPTIONS''\<rparr>"
  let ?r2 = "get_request\<lparr>r_path := ''/api/stats'', r_header := [(''Authorization'', [''Basic '' @ b64_encode False (str_bytes (''admin'' @ CHR '':'' # ''pw''))])]\<rparr>"
  have l: "dash_locked (da_cfg guarded_dashboard) ?r1"
    by (simp_all add: dash_locked_def guarded_dashboard_def get_request_def header_get_def first_value_def basic_auth_def)
  have "basic_auth (''Basic '' @ b64_encode False (str_bytes (''admin'' @ CHR '':'' # ''pw''))) = Some (''admin'', ''pw'')"
    using basic_pair_encode [of "''admin''" "''pw''"] by (simp add: basic_auth_def equal_fold_def)
  then have u: "\<not> dash_locked (da_cfg guarded_dashboard) ?r2"
    by (simp add: dash_locked_def guarded_dashboard_def header_get_def first_value_def)
  have run: "shield_run sample_pl_config [] (newShield bare_pipeline None) = ([], newShield bare_pipeline None)" by simp
  have st: "da_stats guarded_dashboard =
      adapter_of (newShield bare_pipeline None) 0 None \<lparr>es_TotalProcessed = 0, es_TotalRejected = 0\<rparr> (None :: unit cdn option) None"
    by (simp add: guarded_dashboard_def)
  note closed = the_dashboard_is_closed_without_its_password [OF run st]
  show ?thesis
    using mp [OF conjunct1 [OF closed] l, of 0] mp [OF conjunct1 [OF conjunct2 [OF closed]] u, of 0] by simp
qed

end
