(* ===== verification/WafServer.thy ===== *)
theory WafServer
  imports WafConfig Shield FileServer
begin

text \<open>
  The firewall as \<open>main.go\<close> puts it together from its configuration, what \<open>Shield.Start\<close> listens on, and the mux and the
  headers in front of its handler (\<open>core/server.go\<close>). Outcomes of the operating system are inputs: whether the key pair
  loads and the address is free, whether the XDP filter and the mesh came up.
\<close>

section \<open>The parts made of a configuration\<close>

definition det_config_of :: "waf_file \<Rightarrow> det_config" where
  "det_config_of c =
     (let r = wpr_RateLimit (wc_Protection c); d = wc_Detection c in
      \<lparr>dc_RateEnabled = wrl_Enabled r, dc_RequestsPerSecond = wrl_RequestsPerSecond r, dc_Burst = wrl_Burst r,
       dc_Adaptive = wrl_Adaptive r, dc_BaselineEnabled = wbl_Enabled (wdt_Baseline d),
       dc_LearningPeriod = wbl_LearningPeriod (wdt_Baseline d), dc_Sensitivity = wan_Sensitivity (wdt_Anomaly d),
       dc_SessionEnabled = wss_Enabled (wdt_SessionTracking d), dc_SessionTTL = wss_TTL (wdt_SessionTracking d)\<rparr>)"

definition intel_config_of :: "waf_file \<Rightarrow> intel_config" where
  "intel_config_of c =
     (let i = wc_Intelligence c; g = win_GeoIP i; p = win_IPReputation i; a = win_ASN i in
      \<lparr>ic_GeoEnabled = wgi_Enabled g, ic_DBPath = wgi_DBPath g, ic_BlockedCountries = wgi_BlockedCountries g,
       ic_AllowedCountries = wgi_AllowedCountries g, ic_ReputationEnabled = wir_Enabled p,
       ic_AbuseIPDBKey = wir_AbuseIPDBKey p, ic_CacheTTL = wir_CacheTTL p, ic_ASNEnabled = was_Enabled a,
       ic_BlockDatacenter = was_BlockDatacenter a\<rparr>)"

definition rules_config_of :: "waf_file \<Rightarrow> waf_config" where
  "rules_config_of c = \<lparr>wc_Enabled = wwf_Enabled (wc_WAF c), wc_ParanoiaLevel = wwf_ParanoiaLevel (wc_WAF c)\<rparr>"

definition manager_of :: "waf_file \<Rightarrow> byte list \<Rightarrow> manager" where
  "manager_of c rnd =
     (let h = wpr_Challenge (wc_Protection c)
      in newManager (str_bytes (wch_CookieSecret h)) (wch_CookieTTL h) (wch_PowDifficulty h) (wtl_Enabled (wc_TLS c)) rnd)"

text \<open>\<open>xdp\<close> and \<open>mesh\<close>: whether the filter and the mesh are running.\<close>

definition bans_of :: "waf_file \<Rightarrow> bool \<Rightarrow> bool \<Rightarrow> ban_config" where
  "bans_of c xdp mesh =
     \<lparr>bc_UseIptables = wbn_UseIptables (wpr_Ban (wc_Protection c)), bc_xdpEnabled = xdp,
      bc_mesh = (if wcu_Enabled (wc_Cluster c) \<and> mesh then Some (wcu_NodeName (wc_Cluster c)) else None),
      bc_WhitelistIPs = wpr_WhitelistIPs (wc_Protection c)\<rparr>"

definition main_config :: "waf_file \<Rightarrow> byte list \<Rightarrow> bool \<Rightarrow> bool \<Rightarrow> pl_config" where
  "main_config c rnd xdp mesh =
     (let p = wc_Protection c in
      \<lparr>pc_Mode = wpr_Mode p, pc_AutoEnable = wem_AutoEnable (wpr_Emergency p), pc_RPSThreshold = wem_RPSThreshold (wpr_Emergency p),
       pc_MaxPerIP = wcl_MaxPerIP (wpr_ConnectionLimit p), pc_BanDuration = wbn_Duration (wpr_Ban p),
       pc_PowAdaptive = wch_PowAdaptive (wpr_Challenge p), pc_JA3Enabled = wj3_Enabled (wfp_JA3 (wc_Fingerprint c)),
       pc_BotEnabled = wbc_Enabled (wdt_BotClassifier (wc_Detection c)), pc_Domains = map wdm_Name (wc_Domains c),
       pc_bans = bans_of c xdp mesh, pc_det = det_config_of c, pc_intel = intel_config_of c, pc_waf = rules_config_of c,
       pc_chall = manager_of c rnd\<rparr>)"

text \<open>
  \<open>core.New\<close> with \<open>NewPipeline\<close> and the setters: the shield keeps a validator of its own, the pipeline is given none.
  \<open>rx\<close> compiles the rules, \<open>custom\<close> is the file of further rules, \<open>geo_db\<close> tells whether the GeoIP database exists.
\<close>

definition main_pipeline :: "waf_file \<Rightarrow> regexp \<Rightarrow> rule_file \<Rightarrow> bool \<Rightarrow> feed_manager \<Rightarrow> gtime \<Rightarrow> pipeline" where
  "main_pipeline c rx custom geo_db feeds now =
     (let e = newEngine rx (rules_config_of c); path = wwf_CustomRulesPath (wc_WAF c);
          e = (if path \<noteq> [] then snd (loadCustomRules rx path custom e) else e);
          r = wpr_RateLimit (wc_Protection c)
      in \<lparr>pp_tables = emptyTables, pp_intel = Some (newIntel (intel_config_of c) geo_db feeds),
          pp_det = Some (newDetEngine (det_config_of c) now), pp_behavior = Some [], pp_botClass = Some [],
          pp_adaptive = Some newAdaptiveLearner, pp_waf = Some e,
          pp_rate = Some (newIPRateLimiter (f_of_int (wrl_RequestsPerSecond r)) (f_of_int (wrl_Burst r))),
          pp_degrader = Some newGracefulDegrader, pp_validator = None, pp_underAttack = False, pp_CurrentRPS = 0\<rparr>)"

definition main_shield :: "waf_file \<Rightarrow> regexp \<Rightarrow> rule_file \<Rightarrow> bool \<Rightarrow> feed_manager \<Rightarrow> gtime \<Rightarrow> shield" where
  "main_shield c rx custom geo_db feeds now = newShield (main_pipeline c rx custom geo_db feeds now) (Some [])"

section \<open>Start\<close>

record listening =
  ln_addr :: string
  ln_sniffed :: bool             \<comment> \<open>behind the sniffing listener\<close>
  ln_tls :: "string option"      \<comment> \<open>the least version of TLS, \<open>None\<close> for plain text\<close>
  ln_hooked :: bool              \<comment> \<open>the handshake hook is installed\<close>
  ln_redirect :: "string option" \<comment> \<open>the address that redirects to https\<close>

datatype start_error = NoKeyPair | AddressInUse

text \<open>\<open>Start\<close> up to the accept loop; the redirect server of a start that fails runs on.\<close>

definition shield_Start :: "waf_file \<Rightarrow> bool \<Rightarrow> bool \<Rightarrow> (start_error, listening) res \<times> string option" where
  "shield_Start c pair_loads address_free =
     (let t = wc_TLS c; v = wc_Server c; f = wc_Fingerprint c;
          redirect = (if wtl_Enabled t then Some (wsv_HTTPListen v) else None);
          with_pair = wtl_Enabled t \<and> wtl_CertFile t \<noteq> []
      in if with_pair \<and> \<not> pair_loads then (Fail NoKeyPair, redirect)
         else if \<not> address_free then (Fail AddressInUse, redirect)
         else (Ok \<lparr>ln_addr = (if wtl_Enabled t then wsv_Listen v else wsv_HTTPListen v), ln_sniffed = wtl_Enabled t,
                   ln_tls = (if with_pair then Some (if wtl_MinVersion t = ''1.3'' then ''1.3'' else ''1.2'') else None),
                   ln_hooked = (with_pair \<and> (wj3_Enabled (wfp_JA3 f) \<or> wj4_Enabled (wfp_JA4 f))),
                   ln_redirect = redirect\<rparr>, redirect))"

text \<open>The redirect server: status and target, for a request whose \<open>RequestURI\<close> is its URL.\<close>

definition http_redirect :: "request \<Rightarrow> nat \<times> string" where
  "http_redirect r = (301, ''https://'' @ r_host r @ r_url r)"

section \<open>In front of the handler\<close>

text \<open>
  The \<open>ServeMux\<close> with its one pattern, \<open>/\<close>: it refuses the request for an asterisk and redirects to the clean path, but
  for \<open>CONNECT\<close>. The path is taken to be written without percent escapes.
\<close>

datatype mux_reply = MuxBadRequest | MuxRedirect string | Served "(unit, reply) res"

definition unclean_path :: "request \<Rightarrow> bool" where
  "unclean_path r \<longleftrightarrow> r_method r \<noteq> ''CONNECT'' \<and> mux_path (r_path r) \<noteq> r_path r"

definition redirect_target :: "request \<Rightarrow> string" where
  "redirect_target r = mux_path (r_path r) @ (if r_query r = [] then [] else CHR ''?'' # r_query r)"

definition server_serve ::
  "pl_config \<Rightarrow> handler_env \<Rightarrow> request \<Rightarrow> shield \<Rightarrow> ((string list) smap \<times> mux_reply) \<times> shield" where
  "server_serve cfg he r s =
     (if r_url r = ''*'' then ((securityHeaders [], MuxBadRequest), s)
      else if unclean_path r then ((securityHeaders [], MuxRedirect (redirect_target r)), s)
      else let (rep, s) = handleRequest cfg he r s in ((securityHeaders [], Served rep), s))"

text \<open>Requests one after the other.\<close>

fun serve_all :: "pl_config \<Rightarrow> (handler_env \<times> request) list \<Rightarrow> shield \<Rightarrow> mux_reply list \<times> shield" where
  "serve_all cfg [] s = ([], s)"
| "serve_all cfg ((he, r) # rs) s =
     (let ((hs, rep), s) = server_serve cfg he r s; (reps, s) = serve_all cfg rs s in (rep # reps, s))"

section \<open>Nothing validates a request\<close>

lemma lay_validator:
  "pp_validator (snd o') = v \<Longrightarrow> (\<And>p. pp_validator p = v \<Longrightarrow> pp_validator (snd (k p)) = v) \<Longrightarrow> pp_validator (snd (lay o' k)) = v"
  by (cases o'; cases "fst o'") auto

lemma state_validator [simp]:
  "pp_validator (on_tables f p) = pp_validator p" "pp_validator (ban_for cfg ou ip d p) = pp_validator p"
  "pp_validator (snd (with_state ou ip g p)) = pp_validator p" "pp_validator (snd (whitelisted cfg ou ip p)) = pp_validator p"
  by (simp_all add: on_tables_def ban_for_def with_state_def whitelisted_def Let_def split_beta)

lemma layers_validator:
  "pp_validator (snd (l_banned ou ip p)) = pp_validator p"
  "pp_validator (snd (l_emergency cfg ou ip p)) = pp_validator p"
  "pp_validator (snd (l_connlimit cfg ou ip p)) = pp_validator p"
  "pp_validator (snd (l_validate cfg ou r ip p)) = pp_validator p"
  "pp_validator (snd (l_basic cfg r p)) = pp_validator p"
  "pp_validator (snd (l_fingerprint cfg ou fp ip p)) = pp_validator p"
  "pp_validator (snd (l_intel cfg ou ip p)) = pp_validator p"
  "pp_validator (snd (l_rate cfg ou ip p)) = pp_validator p"
  "pp_validator (snd (l_whitelist cfg ou ip p)) = pp_validator p"
  "pp_validator (snd (l_waf cfg ou r ip p)) = pp_validator p"
  "pp_validator (snd (l_bot cfg ou r fp v ip p)) = pp_validator p"
  "pp_validator (snd (l_session cfg ou r ip p)) = pp_validator p"
  "pp_validator (snd (l_detrate cfg ou ip p)) = pp_validator p"
  "pp_validator (snd (l_stage cfg ou r fp ip p)) = pp_validator p"
  by (simp_all add: layers Let_def split_beta split: option.split)

lemma behavior_validator: "pp_validator (snd (l_behavior cfg ou r fp ip p)) = pp_validator p"
  by (simp add: l_behavior_def analyze_behavior_def Let_def split_beta layers_validator split: option.split)

lemma process_validator: "pp_validator (snd (process cfg ou r ip fp p)) = pp_validator p"
  unfolding process_def by (intro lay_validator) (simp_all add: layers_validator behavior_validator)

abbreviation validator_of :: "shield \<Rightarrow> validator option" where "validator_of s \<equiv> pp_validator (sh_pipeline s)"

lemma count_validator [simp]: "sh_pipeline (count_reply a s) = sh_pipeline s"
  by (simp add: count_reply_def split: action_type.split)

lemma inspect_validator: "validator_of (snd (inspect_request cfg he r ip s)) = validator_of s"
  by (simp add: inspect_request_def Let_def split_beta process_validator split: option.split)

lemma handle_validator: "validator_of (snd (handleRequest cfg he r s)) = validator_of s"
  using inspect_validator [of cfg he r "extractIP r" "s\<lparr>sh_TotalRequests := sh_TotalRequests s + 1\<rparr>"]
  by (simp add: handleRequest_def Let_def split_beta split: res.split)

lemma step_validator: "validator_of (snd (shield_step cfg e s)) = validator_of s"
  by (cases e)
    (simp_all add: handle_validator conn_new_def conn_closed_def on_ip_tables_def rps_tick_def attack_tick_def cleanup_tick_def
      sampler_tick_def Let_def split_beta)

lemma run_validator: "validator_of (snd (shield_run cfg es s)) = validator_of s"
proof (induction es arbitrary: s)
  case (Cons e es)
  then show ?case using Cons.IH [of "snd (shield_step cfg e s)"] step_validator [of cfg e s]
    by (simp add: Let_def split_beta)
qed simp

text \<open>
  The validator of requests is never asked: the shield makes one and the pipeline reads its own, which nothing sets.
  Whatever the configuration, the rules, the feeds and the events, in every state of the server its layer passes the
  request on and changes nothing, although the validator refuses, for one, the method \<open>TRACE\<close>.
\<close>

theorem requests_are_not_validated:
  assumes "shield_run (main_config c rnd xdp mesh) es (main_shield c rx custom geo_db feeds now) = (replies, s)"
  shows "l_validate (main_config c rnd xdp mesh) ou r ip (sh_pipeline s) = (None, sh_pipeline s) \<and>
    (r_method r = ''TRACE'' \<longrightarrow> \<not> fst (validate newRequestValidator r))"
proof -
  have "validator_of s = None"
    using run_validator [of "main_config c rnd xdp mesh" es "main_shield c rx custom geo_db feeds now"] assms
    by (simp add: main_shield_def main_pipeline_def newShield_def Let_def)
  then show ?thesis by (simp add: l_validate_def validate_def newRequestValidator_def)
qed

definition no_feeds :: feed_manager where
  "no_feeds = \<lparr>fm_knownBad = [], fm_stats = \<lparr>fst_LastUpdate = 0, fst_TotalEntries = 0, fst_FeedErrors = 0, fst_FeedSources = 0\<rparr>\<rparr>"

definition plain_shield :: shield where
  "plain_shield = main_shield bare_config (\<lambda>_. None) Unreadable False no_feeds 0"

theorem requests_are_not_validated_witness:
  "l_validate (main_config bare_config [] False False) sample_outside (get_request\<lparr>r_method := ''TRACE''\<rparr>) ''10.0.0.1''
     (sh_pipeline plain_shield) = (None, sh_pipeline plain_shield)"
proof -
  have "shield_run (main_config bare_config [] False False) [] plain_shield = ([], plain_shield)" by simp
  from conjunct1 [OF requests_are_not_validated [OF this [unfolded plain_shield_def]]] show ?thesis unfolding plain_shield_def .
qed

section \<open>Paths that are not clean\<close>


definition slashes_request :: request where
  "slashes_request = get_request\<lparr>r_url := ''//admin'', r_path := ''//admin''\<rparr>"


section \<open>TLS without a certificate\<close>

text \<open>
  With TLS enabled and no certificate file, which the option of an automatic certificate suggests, the server answers
  plain text on the address for TLS, whatever \<open>AutoCert\<close> says, behind a listener that expects a ClientHello, while the
  plain port redirects everything to it. Only with a certificate file that loads is there TLS, and then the address
  for plain text only redirects.
\<close>

theorem tls_needs_a_certificate_file:
  assumes "fst (shield_Start c pair_loads address_free) = Ok l" "wtl_Enabled (wc_TLS c)"
  shows "ln_addr l = wsv_Listen (wc_Server c) \<and> ln_sniffed l \<and> ln_redirect l = Some (wsv_HTTPListen (wc_Server c)) \<and>
    (ln_tls l = None \<longleftrightarrow> wtl_CertFile (wc_TLS c) = []) \<and> (ln_tls l \<noteq> None \<longrightarrow> pair_loads)"
  using assms by (auto simp: shield_Start_def Let_def split: if_splits)

theorem tls_needs_a_certificate_file_witness:
  "\<exists>l. fst (shield_Start (bare_config\<lparr>wc_TLS := (wc_TLS bare_config)\<lparr>wtl_Enabled := True, wtl_AutoCert := True\<rparr>\<rparr>) False True) = Ok l \<and>
     ln_tls l = None"
proof -
  let ?c = "bare_config\<lparr>wc_TLS := (wc_TLS bare_config)\<lparr>wtl_Enabled := True, wtl_AutoCert := True\<rparr>\<rparr>"
  have "\<exists>l. fst (shield_Start ?c False True) = Ok l" by (simp add: shield_Start_def bare_config_def Let_def)
  then obtain l where l: "fst (shield_Start ?c False True) = Ok l" ..
  show ?thesis using tls_needs_a_certificate_file [OF l] l by (simp add: bare_config_def)
qed

end
