(* ===== verification/WafPages.thy ===== *)
theory WafPages
  imports WafConfig Challenge TunnelProto GoPath
begin

text \<open>
  The challenge pages the server has besides those of the manager (\<open>core/challenge.go\<close>), with what their script
  computes in the browser, and the cookie of the silent fingerprint (\<open>fingerprint/silent_js.go\<close>). No other code calls
  them. The markup of the pages is left out.
\<close>

section \<open>The page of the server\<close>

definition signValue :: "hmac_fun \<Rightarrow> string \<Rightarrow> string \<Rightarrow> string" where
  "signValue hmac v secret = hex (hmac (str_bytes secret) v)"

text \<open>
  What an answer is made from: the task of the page, the domain (for which the template has no place), the signed
  cookie, the headers and the status.
\<close>

record own_page =
  op_task :: string
  op_domain :: string
  op_cookie :: set_cookie
  op_headers :: "(string \<times> string) list"
  op_status :: nat

definition own_serveJSChallenge :: "hmac_fun \<Rightarrow> waf_file \<Rightarrow> byte list \<Rightarrow> request \<Rightarrow> int \<Rightarrow> own_page" where
  "own_serveJSChallenge hmac c rnd r difficulty =
     (let nonce = hex (take 20 rnd)
      in \<lparr>op_task = nonce @ '':'' @ itoa difficulty, op_domain = r_host r,
          op_cookie = \<lparr>sc_Name = ''mango_pow'',
            sc_Value = nonce @ ''.'' @ signValue hmac nonce (wch_CookieSecret (wpr_Challenge (wc_Protection c))),
            sc_Path = ''/'', sc_MaxAge = 600, sc_HttpOnly = True, sc_Secure = False\<rparr>,
          op_headers = [(''Content-Type'', ''text/html; charset=utf-8''), (''Cache-Control'', ''no-store, no-cache, must-revalidate''),
            (''X-Mango-Shield'', ''challenge'')],
          op_status = 503\<rparr>)"

definition own_serveCaptchaChallenge :: "hmac_fun \<Rightarrow> waf_file \<Rightarrow> byte list \<Rightarrow> request \<Rightarrow> own_page" where
  "own_serveCaptchaChallenge hmac c rnd r =
     own_serveJSChallenge hmac c rnd r (wch_PowDifficulty (wpr_Challenge (wc_Protection c)) + 2)"

definition own_serveChallenge :: "hmac_fun \<Rightarrow> waf_file \<Rightarrow> byte list \<Rightarrow> request \<Rightarrow> int \<Rightarrow> int \<Rightarrow> own_page option" where
  "own_serveChallenge hmac c rnd r stage difficulty =
     (if stage = 1 then Some (own_serveJSChallenge hmac c rnd r difficulty)
      else if stage = 2 then Some (own_serveCaptchaChallenge hmac c rnd r) else None)"

text \<open>
  The script of the page: it splits the task at the colon, runs a hash of 32 bits over the characters of the nonce as
  many rounds as the difficulty says, 1500000 for none, and stores the hash with the nonce as the proof.
\<close>

definition int32 :: "int \<Rightarrow> int" where
  "int32 x = (x + 2147483648) mod 4294967296 - 2147483648"

definition js_round :: "string \<Rightarrow> nat \<Rightarrow> int \<Rightarrow> int" where
  "js_round n i h = int32 (int32 (h * 32) - h + of_char (n ! (i mod length n)))"

definition js_proof :: "string \<Rightarrow> string" where
  "js_proof task =
     (let n = hd (split_char (CHR '':'') task); (v, failed) = parse_int (last (split_char (CHR '':'') task));
          d = (if failed \<or> v = 0 then 1500000 else v);
          h = fold (js_round n) [0..<nat d] 0
      in itoa h @ ''.'' @ n)"

section \<open>The cookie of the silent fingerprint\<close>

record silent_fp =
  sf_Hash :: int
  sf_BotScore :: int
  sf_Screen :: string
  sf_Cores :: int
  sf_IsBot :: bool
  sf_Valid :: bool

definition ParseSilentFPCookie :: "string \<Rightarrow> silent_fp" where
  "ParseSilentFPCookie v =
     \<lparr>sf_Hash = 0, sf_BotScore = 0, sf_Screen = [], sf_Cores = 0, sf_IsBot = False, sf_Valid = (v \<noteq> [])\<rparr>"

section \<open>The page cannot be passed\<close>

lemma hex_no_bar: "CHR ''|'' \<notin> set (hex bs)"
  using hex_chars [of "CHR ''|''" bs] by auto

lemma hex_no_colon: "CHR '':'' \<notin> set (hex bs)"
  using hex_chars [of "CHR '':''" bs] by auto

text \<open>
  The page of the server cannot be passed: the proof its script stores is none the manager accepts, for any secret,
  nonce, difficulty, address and time, so a browser that solves it is asked again: the proof has no bar
  between an address and a time, and the signed nonce of the other cookie is read by nothing.
\<close>

theorem own_page_cannot_be_passed:
  assumes "cookie r ''mango_proof'' = Some (js_proof (op_task (own_serveJSChallenge hmac c rnd r0 difficulty)))"
  shows "\<not> verifyProof hmac m now r ip"
proof -
  have "hd (split_char (CHR '':'') (hex (take 20 rnd) @ '':'' @ itoa difficulty)) = hex (take 20 rnd)"
    by (simp add: split_char_append hex_no_colon)
  then have "CHR ''|'' \<notin> set (js_proof (op_task (own_serveJSChallenge hmac c rnd r0 difficulty)))"
    using hex_no_bar itoa_no_sep by (simp add: js_proof_def own_serveJSChallenge_def Let_def split_beta)
  then show ?thesis
    using assms by (auto simp: verifyProof_def splitn2_none)
qed

theorem own_page_cannot_be_passed_witness:
  "\<not> verifyProof toy_hmac sample_manager (5 * second)
     (proof_request (js_proof (op_task (own_serveJSChallenge toy_hmac bare_config [1, 2] get_request 1)))) ''10.0.0.1''"
  by (rule own_page_cannot_be_passed) (simp add: cookie_def proof_request_def)

end
