(* ===== verification/Spec2Isabelle.thy ===== *)
theory Spec2Isabelle
  imports GoBase GoFloat GoSlice HttpModel NetAddr RateLimit Hardening TlsParser Fingerprint H2Parser Sniffer Challenge IntelLists Intel
    DetEngine Behavior Classifier Attack Adaptive Regex Rules Bans Pipeline Edge Shield
    TunnelProto
    TunnelUdp
    TunnelUdpClient
    TunnelServer
    TunnelWait
    GoPath
    GoBase64
    FileServer
    TunnelHttp
    TunnelClient
    TunnelSession
    TunnelDb
    TunnelApi
    TunnelCache
    Throttle
    TunnelLimits
    WafConfig
    WafAlerts
    Dashboard
    TunnelConfig
    WafServer
    WafPages
begin

text \<open>
  A verification library for the Go programs of the repository: \<open>packages/mango-waf\<close>, a firewall in front of web sites, and
  \<open>packages/proxvn-tunnel\<close>, a server and a client that make local services reachable from the Internet. Paths below
  are relative to \<open>src/packages\<close>; those of the tunnel also to \<open>proxvn-tunnel/src/backend\<close>.

  \<^bold>\<open>The language.\<close> \<open>GoBase\<close> has what all components use: times in nanoseconds with their saturating difference, 64-bit
  wrap-around, strings as bytes, the functions of \<open>strings\<close> and \<open>strconv\<close>, maps as association lists with distinct keys,
  results that are a value, an error or a panic (\<open>res\<close>), and the locale \<open>expiring_store\<close>. \<open>GoFloat\<close> has \<open>float64\<close> as rationals
  that every operation rounds to 53 bits (subnormal numbers and overflow are left out), with the
  monotonicity the bounds need (locale \<open>rounding\<close>). \<open>GoSlice\<close> has slices over an array, so that an index past the capacity
  is a panic. \<open>GoPath\<close>, \<open>GoBase64\<close>, \<open>NetAddr\<close> and \<open>HttpModel\<close> have the parts of \<open>path/filepath\<close>, \<open>encoding/base64\<close>, \<open>net\<close> and
  \<open>net/http\<close> that are used. \<open>Throttle\<close> is the contract of what lets one event through per interval.

  \<^bold>\<open>The firewall.\<close> A connection comes in through the listener of \<open>fingerprint/early_reject.go\<close> (\<open>Sniffer\<close>), which peeks at
  the first 1024 bytes, parses the ClientHello (\<open>TlsParser\<close>), computes its fingerprints (\<open>Fingerprint\<close>, and \<open>H2Parser\<close> for
  HTTP/2) and rejects known tools under attack. A request goes through the handler of \<open>core/server.go\<close> (\<open>Shield\<close>): its
  address is taken, an answer to a challenge is verified (\<open>Challenge\<close>), and the layers of \<open>core/pipeline.go\<close> (\<open>Pipeline\<close>)
  decide in order over the state per address (\<open>Bans\<close>), the lists, feeds and reputation (\<open>IntelLists\<close>, \<open>Intel\<close>), the baseline,
  the sessions and the adaptive limiter (\<open>DetEngine\<close>), the behaviour (\<open>Behavior\<close>), the classifier (\<open>Classifier\<close>), the rules
  with their regular expressions (\<open>Rules\<close>, \<open>Regex\<close>), the learner (\<open>Adaptive\<close>), the limiter and the degrader (\<open>RateLimit\<close>,
  \<open>Hardening\<close>). What is let through reaches a backend by way of the cache and the load balancer (\<open>Edge\<close>). The
  signatures of attacks are in \<open>Attack\<close>. \<open>WafConfig\<close> is \<open>config/config.go\<close>, \<open>WafAlerts\<close> is \<open>core/alerts.go\<close> with the gossip of
  \<open>cluster/gossip.go\<close>, and \<open>Dashboard\<close> is \<open>api/dashboard.go\<close> over the counters of \<open>Shield\<close>. \<open>WafServer\<close> puts the parts together from a
  configuration as \<open>main.go\<close> and \<open>Start\<close> do, with the mux in front of the handler. \<open>WafPages\<close> has the second challenge page of
  the server and the cookie of the silent fingerprint.

  \<^bold>\<open>The tunnel.\<close> \<open>TunnelProto\<close> has the messages and the frames of UDP payloads with their encryption. \<open>TunnelServer\<close> has the
  control side of \<open>cmd/server\<close>: the pool of public ports, reservations, sessions, registration, the loop and the
  heartbeat; \<open>TunnelWait\<close> the two places where goroutines meet, one for connections and one for HTTP answers; \<open>TunnelUdp\<close>
  the datagrams; \<open>TunnelLimits\<close> the limiters, the slots and the throttled log; \<open>TunnelHttp\<close> the proxy of \<open>internal/http\<close>.
  \<open>TunnelClient\<close> and \<open>TunnelUdpClient\<close> are \<open>cmd/client\<close>, \<open>TunnelSession\<close> puts both programs together. The web interface is
  in \<open>TunnelDb\<close> (the SQLite schema and each statement of \<open>internal/database\<close>), \<open>TunnelApi\<close> (tokens, middleware, handlers and
  routes), \<open>TunnelCache\<close> (cache, workers, compression) and \<open>TunnelConfig\<close> (the environment). \<open>FileServer\<close> is \<open>cmd/fileserver\<close>
  with the file mode of the client.

  \<^bold>\<open>How state and operations correspond.\<close> A struct is a record, its fields under a prefix of two or three letters; a
  method is a definition of the method's name that takes the state and returns it updated. The time of a call, random
  bytes, the order of an iteration over a map and the answers of other hosts are arguments. What goroutines share is
  a state with one step for each critical section, so that every interleaving is a sequence of steps (\<open>srv_step\<close>,
  \<open>proxy_step\<close>, \<open>call_step\<close>, \<open>api_reach\<close>, \<open>conn_reach\<close>, and the event lists of \<open>shield_run\<close>, \<open>run_client\<close> and \<open>alarm_run\<close>).
  Panics are results, and the theorems on crashes say exactly when they occur.

  \<^bold>\<open>What the lemmas show.\<close>
  \<^item> Round trips: a ClientHello, HTTP/2 frames, a proof cookie, a datagram and an HTTP request across the tunnel are
    read back as they were written.
  \<^item> Invariants over all interleavings: public ports belong to one client, connections are joined one to one, the
    tables of server, database and cache stay well formed, every request is counted once, a loaded configuration can be used.
  \<^item> Refinement and equivalence: the attack detector implements the life of an alert, the cache a queue of keys whatever
    the order of the map, \<open>ValidatePath\<close> the paths below the root, the ring buffer of the dashboard the last 300 values,
    the matcher of regular expressions the relation \<open>rx_step\<close>.
  \<^item> Errors: the inputs that crash the parser, the fingerprinting, the tunnel server and the tunnel client are
    characterized by equivalences.
  \<^item> Safety: what is dropped is banned, what is cached was public, the WebDAV handler, the dashboard and administration need
    credentials, and where this fails: the forwarded address, paths the mux redirects, the default secret, the downloads.
  \<^item> Termination, liveness and bounds: the handshake retry, the bursts of the limiters, the waits of the client, and
    what never ends: idle UDP sessions, late connections, an alarm that a peer mutes.

  \<^bold>\<open>Interfaces.\<close> \<open>expiring_store\<close> is the contract of what keeps keys until a time, with the bans and the whitelist of \<open>Bans\<close>
  as providers; \<open>burst_limiter\<close> of what gives out tokens (the buckets of \<open>RateLimit\<close> and \<open>DetEngine\<close>); \<open>throttle\<close> of one event per
  key and interval (the log of \<open>TunnelLimits\<close> and the alerts of \<open>WafAlerts\<close>); \<open>mailbox\<close> of a table of one-slot channels (both
  rendezvous of \<open>TunnelWait\<close>); \<open>rounding\<close> of a monotone rounding (\<open>GoFloat\<close>).

  \<^bold>\<open>Bounds and fuel.\<close> The matcher of a star has as many rounds as characters are left, which is enough since a round that
  consumes nothing leads nowhere new; \<open>Regex\<close> proves it complete for \<open>rx_step\<close>. The loops over bytes of the parsers recurse on positions that
  grow. The handshake retry of the client has at most 21 turns, which is proved and not assumed. The pool has the 10001
  ports from 10000 to 20000, and the theorems on ports ask for no more registrations than that. There are 10000 slots
  for connections, 300 seconds in the chart and 3601 samples until the learner is calibrated.

  \<^bold>\<open>Parameters.\<close> Hash functions, HMAC and AES-GCM are functions, with the laws that are used named in the theorems; so
  are token, password and identifier libraries, the limiter of \<open>golang.org/x/time\<close>, the ristretto cache, \<open>math.Log2\<close>, the
  reputation service, and decoding of JSON, YAML and configuration files, whose results are inputs. Each theorem with
  such a law has a witness with concrete functions.

  \<^bold>\<open>Not modelled.\<close> Texts for people: the log and its files, the terminal display and the command line tools, the markup of
  the challenges, the JavaScript of \<open>fingerprint/silent_js.go\<close>, the page of the dashboard and the wording of alerts. The
  demonstration site of \<open>test-site\<close>. TLS, SQLite, memberlist, WebDAV and the kernel side of the XDP filter, which are
  calls into libraries and external tools. Copying bytes between connections, compressing, and the figures about the
  operating system. Races of single memory accesses: the steps are whole critical sections, and a field that is read
  without its lock is read at one of the steps. In \<open>main\<close> only what reaches the components is modelled.
\<close>

end
